(* ===== verification/Prelude.thy ===== *)
theory Prelude
  imports Main "HOL-Library.Word" "HOL-Library.Monad_Syntax" "HOL-Library.List_Lexorder"
    "HOL-Library.Char_ord"
begin

unbundle bit_operations_syntax

text \<open>
  Shared material of the development: names for the machine integers of the
  sources, the little-endian representation of an integer in memory (the code
  moves integers into and out of its buffers by \<open>memcpy\<close> on an x86 host),
  checked reads and writes of a memory block, and generic lemmas on lists,
  options and words.

  Conventions used by every component theory:
  \<^item> a function whose result type is an \<open>option\<close> returns \<open>None\<close> exactly where the
    C++ execution has no defined continuation: an access outside the
    allocation, a read of memory that was never written, a null pointer that is
    dereferenced, an \<open>assert\<close> that fails;
  \<^item> error returns of the sources (a \<open>bool\<close> result, a state flag) are ordinary
    values of the model;
  \<^item> output on \<open>std::cout\<close>, \<open>std::cerr\<close> and the log is not modelled.
\<close>

section \<open>Machine integers\<close>

type_synonym byte = "8 word"
type_synonym u16 = "16 word"
type_synonym u32 = "32 word"
type_synonym u64 = "64 word"

named_theorems wire_simps \<open>equations that evaluate encoders and decoders\<close>
named_theorems inv_intros \<open>preservation of a component's invariant by its operations\<close>

section \<open>Integers in memory: little-endian bytes\<close>

primrec le_bytes :: "nat \<Rightarrow> 'a::len word \<Rightarrow> byte list" where
  "le_bytes 0 w = []"
| "le_bytes (Suc n) w = ucast w # le_bytes n (drop_bit 8 w)"

primrec le_word :: "byte list \<Rightarrow> 'a::len word" where
  "le_word [] = 0"
| "le_word (b # bs) = ucast b OR push_bit 8 (le_word bs)"

lemma length_le_bytes [simp]: "length (le_bytes n w) = n"
  by (induction n arbitrary: w) auto

lemma le_bytes_2: "le_bytes 2 w = [ucast w, ucast (drop_bit 8 w)]"
  by (simp add: eval_nat_numeral)

lemma le_bytes_4:
  "le_bytes 4 w = [ucast w, ucast (drop_bit 8 w), ucast (drop_bit 16 w), ucast (drop_bit 24 w)]"
  by (simp add: eval_nat_numeral)

lemma le_word_le_bytes: "le_word (le_bytes n w) = take_bit (8 * n) w"
proof (induction n arbitrary: w)
  case 0
  then show ?case by simp
next
  case (Suc n)
  have "ucast (ucast w :: byte) OR push_bit 8 (take_bit (8 * n) (drop_bit 8 w))
        = take_bit (8 * Suc n) w" for w :: "'a word"
  proof (rule bit_word_eqI)
    fix i assume "i < LENGTH('a)"
    then show "bit (ucast (ucast w :: byte) OR push_bit 8 (take_bit (8 * n) (drop_bit 8 w))) i
               = bit (take_bit (8 * Suc n) w) i"
      by (auto simp: bit_simps)
  qed
  then show ?case by (simp add: Suc.IH)
qed

lemma le_word_le_bytes_full [simp]:
  "LENGTH('a) \<le> 8 * n \<Longrightarrow> le_word (le_bytes n (w :: 'a::len word)) = w"
  by (simp add: le_word_le_bytes take_bit_word_eq_self)

lemma le_word_le_bytes_numeral [simp]:
  "le_word (le_bytes (Suc 0) (w8 :: byte)) = w8"
  "le_word (le_bytes 2 (w16 :: u16)) = w16"
  "le_word (le_bytes 4 (w32 :: u32)) = w32"
  "le_word (le_bytes 8 (w64 :: u64)) = w64"
  by simp_all

lemma bit_le_word_bound: "bit (le_word bs :: 'a::len word) i \<Longrightarrow> i < 8 * length bs"
proof (induction bs arbitrary: i)
  case Nil
  then show ?case by simp
next
  case (Cons b bs)
  have "i < 8" if "bit b i"
    using bit_imp_le_length [OF that] by simp
  moreover have "i < 8 + 8 * length bs" if "8 \<le> i" "bit (le_word bs :: 'a word) (i - 8)"
    using Cons.IH [OF that(2)] that(1) by simp
  ultimately show ?case
    using Cons.prems by (auto simp: bit_simps)
qed

lemma le_bytes_le_word:
  "8 * length bs \<le> LENGTH('a) \<Longrightarrow> le_bytes (length bs) (le_word bs :: 'a::len word) = bs"
proof (induction bs)
  case Nil
  then show ?case by simp
next
  case (Cons b bs)
  then have len: "8 * length bs + 8 \<le> LENGTH('a)" by simp
  have "ucast (ucast b OR push_bit 8 (le_word bs) :: 'a word) = b"
    using len by (auto intro!: bit_word_eqI simp: bit_simps)
  moreover have "drop_bit 8 (ucast b OR push_bit 8 (le_word bs) :: 'a word) = le_word bs"
  proof (rule bit_word_eqI)
    fix n assume "n < LENGTH('a)"
    have "\<not> bit b (8 + n)"
      using bit_imp_le_length [of b "8 + n"] by auto
    moreover have "bit (le_word bs :: 'a word) n \<Longrightarrow> 8 + n < LENGTH('a)"
      using bit_le_word_bound [of bs n] len by fastforce
    ultimately show "bit (drop_bit 8 (ucast b OR push_bit 8 (le_word bs) :: 'a word)) n
        = bit (le_word bs :: 'a word) n"
      by (auto simp: bit_simps)
  qed
  ultimately show ?case using Cons by simp
qed

section \<open>Checked access to a block of memory\<close>

text \<open>A cell of a block is \<open>None\<close> until it is written.\<close>

type_synonym cell = "byte option"

definition mem_write :: "nat \<Rightarrow> byte list \<Rightarrow> cell list \<Rightarrow> cell list option" where
  "mem_write off bs m =
     (if off + length bs \<le> length m
      then Some (take off m @ map Some bs @ drop (off + length bs) m) else None)"

definition mem_init :: "nat \<Rightarrow> nat \<Rightarrow> cell list \<Rightarrow> byte list option" where
  "mem_init off n m =
     (if off + n \<le> length m \<and> (\<forall>c \<in> set (take n (drop off m)). c \<noteq> None)
      then Some (map the (take n (drop off m))) else None)"

definition mem_read :: "nat \<Rightarrow> nat \<Rightarrow> byte list \<Rightarrow> byte list option" where
  "mem_read off n m = (if off + n \<le> length m then Some (take n (drop off m)) else None)"

lemma mem_write_fits:
  "off + length bs \<le> length m \<Longrightarrow>
   mem_write off bs m = Some (take off m @ map Some bs @ drop (off + length bs) m)"
  by (simp add: mem_write_def)

lemma mem_write_length: "mem_write off bs m = Some m' \<Longrightarrow> length m' = length m"
  by (auto simp: mem_write_def split: if_splits)

lemma mem_write_append:
  assumes "off + length xs + length ys \<le> length m"
  shows "Option.bind (mem_write off xs m) (mem_write (off + length xs) ys)
         = mem_write off (xs @ ys) m"
proof -
  have "drop (length ys) (drop (off + length xs) m) = drop (off + length (xs @ ys)) m"
    by (simp add: add.commute add.left_commute)
  with assms show ?thesis by (simp add: mem_write_def)
qed

lemma map_the_map_Some [simp]: "map (the \<circ> Some) xs = xs"
  by (simp add: comp_def)

lemma mem_init_map_Some:
  "off + n \<le> length m \<Longrightarrow> take n (drop off m) = map Some bs \<Longrightarrow> mem_init off n m = Some bs"
  by (simp add: mem_init_def)

lemma mem_init_Some_iff:
  "mem_init off n m = Some bs \<longleftrightarrow> off + n \<le> length m \<and> take n (drop off m) = map Some bs"
  by (auto simp: mem_init_def comp_def intro!: map_idI [symmetric])

lemma mem_read_prefix:
  "drop off m = xs @ rest \<Longrightarrow> off \<le> length m \<Longrightarrow> mem_read off (length xs) m = Some xs"
proof -
  assume a: "drop off m = xs @ rest" "off \<le> length m"
  from a(1) have "length m - off = length xs + length rest" by (metis length_append length_drop)
  with a show ?thesis by (simp add: mem_read_def)
qed

section \<open>Generic lemmas\<close>

lemma drop_append_prefix: "drop n m = xs @ rest \<Longrightarrow> drop (n + length xs) m = rest"
  by (metis add.commute append_eq_conv_conj drop_drop)

lemma unat_add_lt [simp]:
  "unat (a :: 'a::len word) + unat b < 2 ^ LENGTH('a) \<Longrightarrow> unat (a + b) = unat a + unat b"
  by (simp add: unat_add_lem)

lemma unat_of_nat_lt [simp]: "n < 2 ^ LENGTH('a) \<Longrightarrow> unat (of_nat n :: 'a::len word) = n"
  by (simp add: unat_of_nat take_bit_nat_eq_self)

lemma unat_ucast_up:
  assumes "LENGTH('a) \<le> LENGTH('b)"
  shows "unat (ucast (w :: 'a::len word) :: 'b::len word) = unat w"
proof -
  have "unat w < 2 ^ LENGTH('a)" by (rule unsigned_less)
  also have "(2 :: nat) ^ LENGTH('a) \<le> 2 ^ LENGTH('b)" using assms by simp
  finally show ?thesis by (simp add: unsigned_ucast_eq take_bit_nat_eq_self)
qed

lemma ucast_up_eq_iff:
  "LENGTH('a) \<le> LENGTH('b) \<Longrightarrow> (ucast (v :: 'a::len word) :: 'b::len word) = ucast w \<longleftrightarrow> v = w"
  by (metis unat_ucast_up word_unat_eq_iff)

lemma u32_unat_of_nat: "n < 4294967296 \<Longrightarrow> unat (of_nat n :: u32) = n"
  using unat_of_nat_lt [where 'a = 32] by simp

lemma u32_unat_add:
  "unat (a :: u32) + unat b < 4294967296 \<Longrightarrow> unat (a + b) = unat a + unat b"
  using unat_add_lt [where 'a = 32] by simp

lemma byte_unat_bound: "unat (a :: byte) < 256"
  using unsigned_less [of a] by simp

lemma u16_unat_bound: "unat (a :: u16) < 65536"
  using unsigned_less [of a] by simp

lemma u32_unat_bound: "unat (a :: u32) < 4294967296"
  using unsigned_less [of a] by simp

end
