(* ===== verification/Mem_Buf.thy ===== *)
theory Mem_Buf
  imports Prelude
begin

text \<open>
  \<open>MemBuf\<close> (src/turnserver/memory/mem_buf.h, mem_buf.cpp): a block of bytes with
  its reference count and its capacity in one allocation.  This theory models
  the block itself and the three constructors; the counted references to it
  (\<open>MemSlice\<close>) are modelled over a heap of such blocks in \<open>Mem_Slice\<close>.
  \<open>malloc\<close> is taken to succeed; a fresh block is uninitialised.
\<close>

record mem_buf =
  ref_cnt :: int
  capacity :: u32
  cells :: "cell list"

definition MemBuf_Create :: "u32 \<Rightarrow> mem_buf" where
  "MemBuf_Create cap = \<lparr>ref_cnt = 0, capacity = cap, cells = replicate (unat cap) None\<rparr>"

text \<open>\<open>Create(buf, size)\<close> copies exactly \<open>size\<close> cells of the source.\<close>

definition MemBuf_Create_copy :: "cell list \<Rightarrow> u32 \<Rightarrow> mem_buf option" where
  "MemBuf_Create_copy buf cap =
     (if unat cap \<le> length buf
      then Some \<lparr>ref_cnt = 0, capacity = cap, cells = take (unat cap) buf\<rparr> else None)"

text \<open>\<open>Create(buf, size, capacity)\<close> asserts \<open>size <= capacity\<close> and copies the smaller.\<close>

definition MemBuf_Create_sized :: "cell list \<Rightarrow> u32 \<Rightarrow> u32 \<Rightarrow> mem_buf option" where
  "MemBuf_Create_sized buf sz cap =
     (let n = unat (min sz cap) in
      if sz \<le> cap \<and> n \<le> length buf
      then Some \<lparr>ref_cnt = 0, capacity = cap,
                 cells = take n buf @ replicate (unat cap - n) None\<rparr>
      else None)"

definition MemBuf_Clone :: "mem_buf \<Rightarrow> mem_buf" where
  "MemBuf_Clone b = (MemBuf_Create (capacity b))\<lparr>cells := take (unat (capacity b)) (cells b)\<rparr>"

definition MemBuf_wf :: "mem_buf \<Rightarrow> bool" where
  "MemBuf_wf b \<longleftrightarrow> length (cells b) = unat (capacity b)"

lemma MemBuf_Create_wf [simp]: "MemBuf_wf (MemBuf_Create cap)"
  by (simp add: MemBuf_wf_def MemBuf_Create_def)

lemma MemBuf_Create_sel [simp]:
  "capacity (MemBuf_Create cap) = cap" "ref_cnt (MemBuf_Create cap) = 0"
  by (simp_all add: MemBuf_Create_def)

lemma MemBuf_Create_copy_wf: "MemBuf_Create_copy buf cap = Some b \<Longrightarrow> MemBuf_wf b"
  by (auto simp: MemBuf_Create_copy_def MemBuf_wf_def split: if_splits)

lemma MemBuf_Create_sized_wf: "MemBuf_Create_sized buf sz cap = Some b \<Longrightarrow> MemBuf_wf b"
  by (auto simp: MemBuf_Create_sized_def MemBuf_wf_def Let_def word_le_nat_alt split: if_splits)

lemma MemBuf_Create_sized_grow:
  assumes "length buf = unat sz" and "sz \<le> cap"
  shows "MemBuf_Create_sized buf sz cap =
    Some \<lparr>ref_cnt = 0, capacity = cap, cells = buf @ replicate (unat cap - length buf) None\<rparr>"
  using assms by (simp add: MemBuf_Create_sized_def min_def)

lemma MemBuf_Clone_same:
  "MemBuf_wf b \<Longrightarrow> cells (MemBuf_Clone b) = cells b \<and> capacity (MemBuf_Clone b) = capacity b
     \<and> ref_cnt (MemBuf_Clone b) = 0"
  by (simp add: MemBuf_Clone_def MemBuf_wf_def)

end
