(* ===== verification/Packer.thy ===== *)
theory Packer
  imports Mem_Buf
begin

unbundle bit_operations_syntax

text \<open>
  \<open>Packer\<close> (src/turnserver/base/packer.h): the writer of the wire format.  The
  packer owns one \<open>MemBuf\<close>; the body is written from offset 4 on and \<open>Pack\<close>
  puts a length field of two or three bytes right before it.  Every operation
  that stores through \<open>memcpy\<close> or a cast pointer is checked against the
  allocation (\<open>mem_write\<close>), so that a store outside of it is \<open>None\<close>.
\<close>

section \<open>State and operations\<close>

definition kMaxPacketSize :: u32 where
  "kMaxPacketSize = 8 * 1024 * 1024 - 1024"

definition kDefaultSize :: u32 where
  "kDefaultSize = 1024"

record packer =
  pk_mem :: mem_buf
  pk_length :: u32
  pk_position :: u32

definition Packer_new :: "u32 \<Rightarrow> packer" where
  "Packer_new buffer_sz =
     \<lparr>pk_mem = MemBuf_Create (max 64 buffer_sz), pk_length = 0, pk_position = 4\<rparr>"

definition VariableUint32Length :: "u32 \<Rightarrow> u16" where
  "VariableUint32Length value = (if value < 0x8000 then 2 else 3)"

definition Packer_CheckSize :: "u32 \<Rightarrow> u32 \<Rightarrow> packer \<Rightarrow> packer option" where
  "Packer_CheckSize extra position p =
     (let new_size = position + extra; old_cap = capacity (pk_mem p)
      in if old_cap < new_size
         then let size = max new_size (2 * old_cap)
              in map_option (\<lambda>m. p\<lparr>pk_mem := m\<rparr>)
                   (MemBuf_Create_sized (cells (pk_mem p)) old_cap size)
         else Some p)"

text \<open>\<open>memcpy(Begin() + position, bs, length bs)\<close>.\<close>

definition Packer_store :: "u32 \<Rightarrow> byte list \<Rightarrow> packer \<Rightarrow> packer option" where
  "Packer_store position bs p =
     map_option (\<lambda>m. p\<lparr>pk_mem := (pk_mem p)\<lparr>cells := m\<rparr>\<rparr>)
       (mem_write (unat position) bs (cells (pk_mem p)))"

definition WriteUint16 :: "u16 \<Rightarrow> u32 \<Rightarrow> packer \<Rightarrow> packer option" where
  "WriteUint16 val position p =
     do { p \<leftarrow> Packer_CheckSize 2 position p; Packer_store position (le_bytes 2 val) p }"

definition WriteUint32 :: "u32 \<Rightarrow> u32 \<Rightarrow> packer \<Rightarrow> packer option" where
  "WriteUint32 val position p =
     do { p \<leftarrow> Packer_CheckSize 4 position p; Packer_store position (le_bytes 4 val) p }"

text \<open>The common shape of the fixed-width \<open>Push\<close> operations: check, store, advance.\<close>

definition Push_bytes :: "u32 \<Rightarrow> byte list \<Rightarrow> packer \<Rightarrow> packer option" where
  "Push_bytes sz bs p =
     do { p \<leftarrow> Packer_CheckSize sz (pk_position p) p;
          p \<leftarrow> Packer_store (pk_position p) bs p;
          Some (p\<lparr>pk_position := pk_position p + sz\<rparr>) }"

definition PushUint8 :: "byte \<Rightarrow> packer \<Rightarrow> packer option" where
  "PushUint8 val p = Push_bytes 1 (le_bytes 1 val) p"

definition PushBoolean :: "bool \<Rightarrow> packer \<Rightarrow> packer option" where
  "PushBoolean val p = PushUint8 (of_bool val) p"

definition PushUint16 :: "u16 \<Rightarrow> packer \<Rightarrow> packer option" where
  "PushUint16 val p = Push_bytes 2 (le_bytes 2 val) p"

definition PushUint32 :: "u32 \<Rightarrow> packer \<Rightarrow> packer option" where
  "PushUint32 val p = Push_bytes 4 (le_bytes 4 val) p"

definition PushUint64 :: "u64 \<Rightarrow> packer \<Rightarrow> packer option" where
  "PushUint64 val p = Push_bytes 8 (le_bytes 8 val) p"

text \<open>A \<open>double\<close> is its 64-bit representation; it is only moved, never computed with.\<close>

definition PushDouble :: "u64 \<Rightarrow> packer \<Rightarrow> packer option" where
  "PushDouble val p = Push_bytes 8 (le_bytes 8 val) p"

definition PushVariableUint32 :: "u32 \<Rightarrow> packer \<Rightarrow> (nat \<times> packer) option" where
  "PushVariableUint32 value p =
     do { p \<leftarrow> Packer_CheckSize 3 (pk_position p) p;
          if value < 0x8000
          then do { p \<leftarrow> Packer_store (pk_position p) (le_bytes 2 (ucast value :: u16)) p;
                    Some (2, p\<lparr>pk_position := pk_position p + 2\<rparr>) }
          else do { let lower = (ucast ((value AND 0x7FFF) OR 0x8000) :: u16);
                    let upper = (ucast (drop_bit 15 value) :: byte);
                    p \<leftarrow> Packer_store (pk_position p) (le_bytes 2 lower) p;
                    p \<leftarrow> Packer_store (pk_position p + 2) [upper] p;
                    Some (3, p\<lparr>pk_position := pk_position p + 3\<rparr>) } }"

text \<open>
  \<open>PushString\<close> and \<open>PushBuffer\<close> have the same body; the length of the container
  is truncated to 32 bits before it is written and checked.
\<close>

definition PushString :: "byte list \<Rightarrow> packer \<Rightarrow> packer option" where
  "PushString val p =
     do { let len = (of_nat (length val) :: u32);
          (_, p) \<leftarrow> PushVariableUint32 len p;
          p \<leftarrow> Packer_CheckSize len (pk_position p) p;
          if 0 < len
          then do { p \<leftarrow> Packer_store (pk_position p) (take (unat len) val) p;
                    Some (p\<lparr>pk_position := pk_position p + len\<rparr>) }
          else Some p }"

definition PushBuffer :: "byte list \<Rightarrow> packer \<Rightarrow> packer option" where
  "PushBuffer val p =
     do { let len = (of_nat (length val) :: u32);
          (_, p) \<leftarrow> PushVariableUint32 len p;
          p \<leftarrow> Packer_CheckSize len (pk_position p) p;
          if 0 < len
          then do { p \<leftarrow> Packer_store (pk_position p) (take (unat len) val) p;
                    Some (p\<lparr>pk_position := pk_position p + len\<rparr>) }
          else Some p }"

text \<open>
  \<open>PushBinary\<close> takes a \<open>size_t\<close>: \<open>CheckSize\<close> sees it truncated to 32 bits, the
  \<open>memcpy\<close> copies all of it.
\<close>

definition PushBinary :: "byte list \<Rightarrow> packer \<Rightarrow> packer option" where
  "PushBinary data p =
     do { p \<leftarrow> Packer_CheckSize (of_nat (length data)) (pk_position p) p;
          if 0 < length data
          then do { p \<leftarrow> Packer_store (pk_position p) data p;
                    Some (p\<lparr>pk_position := pk_position p + of_nat (length data)\<rparr>) }
          else Some p }"

definition Packer_Reset :: "packer \<Rightarrow> packer" where
  "Packer_Reset p = p\<lparr>pk_length := 0, pk_position := 4\<rparr>"

definition Pack :: "packer \<Rightarrow> packer option" where
  "Pack p =
     (if pk_position p < kMaxPacketSize
      then let (len, start) = (if 0x8002 \<le> pk_position p then (pk_position p - 1, 1)
                               else (pk_position p - 2, 2))
           in do { (_, p) \<leftarrow> PushVariableUint32 len (p\<lparr>pk_length := len, pk_position := start\<rparr>);
                   Some (p\<lparr>pk_position := start\<rparr>) }
      else None)"

definition Packer_Length :: "packer \<Rightarrow> u32" where
  "Packer_Length p = pk_length p"

text \<open>
  \<open>Data\<close>, \<open>Data2\<close> and the pair \<open>Buffer()\<close>/\<open>Length()\<close> that the socket layer sends all
  denote the \<open>pk_length\<close> bytes from \<open>pk_position\<close>.
\<close>

definition Packer_Data :: "packer \<Rightarrow> byte list option" where
  "Packer_Data p = mem_init (unat (pk_position p)) (unat (pk_length p)) (cells (pk_mem p))"

definition BodySize :: "packer \<Rightarrow> u32" where
  "BodySize p = (if 0x8000 \<le> pk_length p then pk_length p - 3 else pk_length p - 2)"

definition Packer_Body :: "packer \<Rightarrow> byte list option" where
  "Packer_Body p =
     (if 0x8000 \<le> pk_length p then mem_init 4 (unat (pk_length p - 3)) (cells (pk_mem p))
      else mem_init 4 (unat (pk_length p - 2)) (cells (pk_mem p)))"

section \<open>What a packer holds\<close>

text \<open>
  \<open>holds p bs\<close>: the packer is well formed, has not been packed and its body so
  far is the initialised byte sequence \<open>bs\<close>.
\<close>

definition holds :: "packer \<Rightarrow> byte list \<Rightarrow> bool" where
  "holds p bs \<longleftrightarrow> MemBuf_wf (pk_mem p) \<and> unat (pk_position p) = 4 + length bs
     \<and> 64 \<le> length (cells (pk_mem p)) \<and> 4 + length bs \<le> length (cells (pk_mem p))
     \<and> take (length bs) (drop 4 (cells (pk_mem p))) = map Some bs"

text \<open>The variable-length integer, as a byte sequence.\<close>

definition var_bytes :: "u32 \<Rightarrow> byte list" where
  "var_bytes v =
     (if v < 0x8000 then le_bytes 2 (ucast v :: u16)
      else le_bytes 2 (ucast ((v AND 0x7FFF) OR 0x8000) :: u16) @ [ucast (drop_bit 15 v)])"

text \<open>A body with its length field, the length counting the field itself.\<close>

definition frame :: "byte list \<Rightarrow> byte list" where
  "frame bs =
     (if 0x8002 \<le> 4 + length bs then var_bytes (of_nat (length bs + 3)) @ bs
      else var_bytes (of_nat (length bs + 2)) @ bs)"

lemma length_var_bytes: "length (var_bytes v) = (if v < 0x8000 then 2 else 3)"
  by (simp add: var_bytes_def)

lemma unat_kMaxPacketSize [simp]: "unat kMaxPacketSize = 8387584"
  by (simp add: kMaxPacketSize_def)

lemma holds_new: "holds (Packer_new sz) []"
proof -
  have "64 \<le> unat (max 64 sz)" by (simp add: max_def word_le_nat_alt)
  then show ?thesis
    by (simp add: holds_def Packer_new_def MemBuf_wf_def MemBuf_Create_def)
qed

section \<open>The write primitives\<close>

lemma Packer_CheckSize_ok:
  assumes wf: "MemBuf_wf (pk_mem p)" and fit: "unat position + unat extra < 4294967296"
  obtains ys where "Packer_CheckSize extra position p = Some
      (p\<lparr>pk_mem := \<lparr>ref_cnt = 0, capacity = of_nat (length (cells (pk_mem p) @ ys)),
                    cells = cells (pk_mem p) @ ys\<rparr>\<rparr>)"
    and "unat position + unat extra \<le> length (cells (pk_mem p) @ ys)"
    and "length (cells (pk_mem p) @ ys) < 4294967296"
  | "Packer_CheckSize extra position p = Some p"
    and "unat position + unat extra \<le> length (cells (pk_mem p))"
proof (cases "capacity (pk_mem p) < position + extra")
  case True
  define n where "n = max (position + extra) (2 * capacity (pk_mem p))"
  have le: "capacity (pk_mem p) \<le> n" "position + extra \<le> n"
    using True by (auto simp: n_def intro: le_max_iff_disj [THEN iffD2])
  have len: "length (cells (pk_mem p)) = unat (capacity (pk_mem p))"
    using wf by (simp add: MemBuf_wf_def)
  let ?ys = "replicate (unat n - length (cells (pk_mem p))) None"
  have all: "length (cells (pk_mem p) @ ?ys) = unat n"
    using le(1) len by (simp add: word_le_nat_alt)
  show ?thesis
  proof (rule that(1))
    show "Packer_CheckSize extra position p = Some
      (p\<lparr>pk_mem := \<lparr>ref_cnt = 0, capacity = of_nat (length (cells (pk_mem p) @ ?ys)),
                    cells = cells (pk_mem p) @ ?ys\<rparr>\<rparr>)"
      unfolding all using True le len
      by (simp add: Packer_CheckSize_def Let_def MemBuf_Create_sized_grow n_def)
    show "unat position + unat extra \<le> length (cells (pk_mem p) @ ?ys)"
      unfolding all using le(2) fit by (simp add: word_le_nat_alt u32_unat_add)
    show "length (cells (pk_mem p) @ ?ys) < 4294967296"
      unfolding all by (rule u32_unat_bound)
  qed
next
  case False
  then show ?thesis
    using fit wf that(2)
    by (auto simp: Packer_CheckSize_def Let_def MemBuf_wf_def word_less_nat_alt u32_unat_add)
qed

text \<open>\<open>CheckSize\<close> makes room and leaves what is held untouched.\<close>

lemma CheckSize_holds:
  assumes h: "holds p bs" and fit: "4 + length bs + unat extra < 4294967296"
  obtains p' where "Packer_CheckSize extra (pk_position p) p = Some p'" and "holds p' bs"
    and "pk_position p' = pk_position p" and "pk_length p' = pk_length p"
    and "4 + length bs + unat extra \<le> length (cells (pk_mem p'))"
proof -
  have wf: "MemBuf_wf (pk_mem p)" and pos: "unat (pk_position p) = 4 + length bs"
    using h by (auto simp: holds_def)
  have "unat (pk_position p) + unat extra < 4294967296" using fit pos by simp
  with wf show ?thesis
  proof (cases rule: Packer_CheckSize_ok)
    case (1 ys)
    show ?thesis
      using 1 h pos by (intro that [OF 1(1)]) (auto simp: holds_def MemBuf_wf_def u32_unat_of_nat)
  next
    case 2
    with h pos show ?thesis by (intro that [OF 2(1)]) auto
  qed
qed

lemma Packer_store_append:
  assumes "unat pos + length xs + length ys \<le> length (cells (pk_mem p))"
    and "unat pos + length xs < 4294967296" and "n = of_nat (length xs)"
  shows "do { p \<leftarrow> Packer_store pos xs p; Packer_store (pos + n) ys p }
         = Packer_store pos (xs @ ys) p"
proof -
  have "unat (pos + n) = unat pos + length xs"
    using assms(2,3) by (simp add: u32_unat_add u32_unat_of_nat)
  then show ?thesis
    using mem_write_append [OF assms(1)]
    by (cases "mem_write (unat pos) xs (cells (pk_mem p))")
      (auto simp: Packer_store_def option.map_comp comp_def dest: sym)
qed

lemma Packer_store_holds:
  assumes h: "holds p bs" and room: "4 + length bs + length xs \<le> length (cells (pk_mem p))"
    and fit: "4 + length bs + length xs < 4294967296" and n: "n = of_nat (length xs)"
  obtains p' where "Packer_store (pk_position p) xs p = Some p'"
    and "pk_position p' = pk_position p" and "pk_length p' = pk_length p"
    and "holds (p'\<lparr>pk_position := pk_position p + n\<rparr>) (bs @ xs)"
proof -
  let ?m = "cells (pk_mem p)"
  let ?m' = "take (4 + length bs) ?m @ map Some xs @ drop (4 + length bs + length xs) ?m"
  have pos: "unat (pk_position p) = 4 + length bs" and wf: "MemBuf_wf (pk_mem p)"
    and old: "take (length bs) (drop 4 ?m) = map Some bs" and big: "64 \<le> length ?m"
    using h by (auto simp: holds_def)
  have store: "Packer_store (pk_position p) xs p
      = Some (p\<lparr>pk_mem := (pk_mem p)\<lparr>cells := ?m'\<rparr>\<rparr>)"
    using room pos by (simp add: Packer_store_def mem_write_def)
  have adv: "unat (pk_position p + n) = 4 + length (bs @ xs)"
    using pos n fit by (simp add: u32_unat_add u32_unat_of_nat)
  have pre: "drop 4 (take (4 + length bs) ?m) = map Some bs"
    using old by (simp add: drop_take)
  have body: "take (length (bs @ xs)) (drop 4 ?m') = map Some (bs @ xs)"
    using room by (simp add: pre)
  have len: "length ?m' = length ?m" using room by simp
  have "holds (p\<lparr>pk_mem := (pk_mem p)\<lparr>cells := ?m'\<rparr>, pk_position := pk_position p + n\<rparr>) (bs @ xs)"
    unfolding holds_def using wf room big body len adv by (simp add: MemBuf_wf_def)
  then show ?thesis
    by (intro that [OF store]) simp_all
qed

section \<open>Every push appends its encoding\<close>

text \<open>The bound that every packet keeps below the limit \<open>Pack\<close> asserts.\<close>

abbreviation fits :: "nat \<Rightarrow> bool" where
  "fits n \<equiv> 4 + n < 8387584"

lemma Push_bytes_holds:
  assumes h: "holds p bs" and fit: "fits (length bs + length xs)" and n: "sz = of_nat (length xs)"
  obtains p' where "Push_bytes sz xs p = Some p'" and "holds p' (bs @ xs)"
proof -
  have sz: "unat sz = length xs" using n fit by (simp add: u32_unat_of_nat)
  have "4 + length bs + unat sz < 4294967296" using fit sz by simp
  with h obtain q where q: "Packer_CheckSize sz (pk_position p) p = Some q" "holds q bs"
      "4 + length bs + unat sz \<le> length (cells (pk_mem q))"
    by (rule CheckSize_holds)
  have "4 + length bs + length xs \<le> length (cells (pk_mem q))" using q(3) sz by simp
  moreover have "4 + length bs + length xs < 4294967296" using fit by simp
  ultimately obtain r where "Packer_store (pk_position q) xs q = Some r"
      "pk_position r = pk_position q" "holds (r\<lparr>pk_position := pk_position q + sz\<rparr>) (bs @ xs)"
    using q(2) n by (metis Packer_store_holds)
  with q(1) show ?thesis
    by (intro that [of "r\<lparr>pk_position := pk_position q + sz\<rparr>"]) (auto simp: Push_bytes_def)
qed

lemma Packer_store_position: "Packer_store pos xs q = Some s \<Longrightarrow> pk_position s = pk_position q"
  by (auto simp: Packer_store_def)

text \<open>The two stores of the three-byte form are one store of \<open>var_bytes\<close>.\<close>

lemma PushVariableUint32_store:
  assumes chk: "Packer_CheckSize 3 (pk_position p) p = Some q"
    and room: "unat (pk_position q) + 3 \<le> length (cells (pk_mem q))"
    and fit: "unat (pk_position q) + 3 < 4294967296"
  shows "PushVariableUint32 v p =
     map_option (\<lambda>r. (length (var_bytes v),
                      r\<lparr>pk_position := pk_position q + of_nat (length (var_bytes v))\<rparr>))
       (Packer_store (pk_position q) (var_bytes v) q)"
proof (cases "v < 0x8000")
  case True
  with chk show ?thesis
    by (cases "Packer_store (pk_position q) (var_bytes v) q")
      (simp_all add: PushVariableUint32_def var_bytes_def Packer_store_position)
next
  case False
  let ?xs = "le_bytes 2 (ucast ((v AND 0x7FFF) OR 0x8000) :: u16)"
  let ?y = "ucast (drop_bit 15 v) :: byte"
  have "do { p \<leftarrow> Packer_store (pk_position q) ?xs q; Packer_store (pk_position q + 2) [?y] p }
      = Packer_store (pk_position q) (?xs @ [?y]) q"
    using room fit by (intro Packer_store_append) auto
  with False chk show ?thesis
    by (cases "Packer_store (pk_position q) ?xs q";
        cases "Packer_store (pk_position q) (?xs @ [?y]) q")
      (simp_all add: PushVariableUint32_def var_bytes_def Let_def Packer_store_position)
qed

lemma PushVariableUint32_holds:
  assumes h: "holds p bs" and fit: "fits (length bs)"
  obtains p' where "PushVariableUint32 v p = Some (length (var_bytes v), p')"
    and "holds p' (bs @ var_bytes v)"
proof -
  have "4 + length bs + unat (3 :: u32) < 4294967296" using fit by simp
  with h obtain q where q: "Packer_CheckSize 3 (pk_position p) p = Some q" "holds q bs"
      "4 + length bs + unat (3 :: u32) \<le> length (cells (pk_mem q))"
    by (rule CheckSize_holds)
  have pos: "unat (pk_position q) = 4 + length bs" using q(2) by (simp add: holds_def)
  let ?n = "of_nat (length (var_bytes v)) :: u32"
  have "length (var_bytes v) \<le> 3" by (simp add: length_var_bytes)
  then obtain r where r: "Packer_store (pk_position q) (var_bytes v) q = Some r"
      "pk_position r = pk_position q" "holds (r\<lparr>pk_position := pk_position q + ?n\<rparr>) (bs @ var_bytes v)"
    using Packer_store_holds [OF q(2), of "var_bytes v" ?n] q(3) fit by auto
  have "PushVariableUint32 v p = Some (length (var_bytes v), r\<lparr>pk_position := pk_position q + ?n\<rparr>)"
    using PushVariableUint32_store [OF q(1)] q(3) pos fit r(1) by simp
  with r(3) show ?thesis by (rule that [rotated])
qed

text \<open>A length-prefixed byte sequence, as \<open>PushString\<close> and \<open>PushBuffer\<close> write it.\<close>

definition str_bytes :: "byte list \<Rightarrow> byte list" where
  "str_bytes xs = var_bytes (of_nat (length xs)) @ xs"

lemma PushString_holds:
  assumes h: "holds p bs" and fit: "fits (length bs + length (str_bytes xs))"
  obtains p' where "PushString xs p = Some p'" and "holds p' (bs @ str_bytes xs)"
proof -
  let ?n = "of_nat (length xs) :: u32"
  have "length (var_bytes ?n) \<le> 3" by (simp add: length_var_bytes)
  have n: "unat ?n = length xs" using fit by (simp add: str_bytes_def u32_unat_of_nat)
  obtain q where q: "PushVariableUint32 ?n p = Some (length (var_bytes ?n), q)"
      "holds q (bs @ var_bytes ?n)"
    using PushVariableUint32_holds [OF h] fit by (metis add_lessD1 add.assoc)
  have fit': "4 + length (bs @ var_bytes ?n) + unat ?n < 4294967296"
    using fit n by (simp add: str_bytes_def)
  obtain r where r: "Packer_CheckSize ?n (pk_position q) q = Some r" "holds r (bs @ var_bytes ?n)"
      "4 + length (bs @ var_bytes ?n) + unat ?n \<le> length (cells (pk_mem r))"
    using CheckSize_holds [OF q(2) fit'] by metis
  show ?thesis
  proof (cases "xs = []")
    case True
    with q r show ?thesis by (intro that [of r]) (simp_all add: PushString_def str_bytes_def)
  next
    case False
    then have pos: "0 < ?n" using n by (simp add: word_less_nat_alt)
    obtain t where t: "Packer_store (pk_position r) xs r = Some t" "pk_position t = pk_position r"
        "holds (t\<lparr>pk_position := pk_position r + ?n\<rparr>) ((bs @ var_bytes ?n) @ xs)"
      using Packer_store_holds [OF r(2), of xs ?n] r(3) fit' n by metis
    with q r pos n show ?thesis
      by (intro that [of "t\<lparr>pk_position := pk_position r + ?n\<rparr>"])
        (simp_all add: PushString_def str_bytes_def)
  qed
qed

lemma PushBuffer_PushString: "PushBuffer = PushString"
  by (simp add: fun_eq_iff PushBuffer_def PushString_def)

lemma PushBinary_holds:
  assumes h: "holds p bs" and fit: "fits (length bs + length xs)"
  obtains p' where "PushBinary xs p = Some p'" and "holds p' (bs @ xs)"
proof (cases "xs = []")
  case True
  have "4 + length bs + unat (0 :: u32) < 4294967296" using fit by simp
  with h obtain q where "Packer_CheckSize 0 (pk_position p) p = Some q" "holds q bs"
    by (rule CheckSize_holds)
  with True show ?thesis by (intro that [of q]) (simp_all add: PushBinary_def)
next
  case False
  from h fit obtain q where "Push_bytes (of_nat (length xs)) xs p = Some q" "holds q (bs @ xs)"
    by (metis Push_bytes_holds)
  with False show ?thesis
    by (intro that [of q]) (simp_all add: PushBinary_def Push_bytes_def)
qed

section \<open>Pack\<close>

lemma length_frame: "fits (length bs) \<Longrightarrow>
  length (frame bs) = (if 0x8002 \<le> 4 + length bs then length bs + 3 else length bs + 2)"
  by (simp add: frame_def length_var_bytes word_less_nat_alt u32_unat_of_nat)

lemma Push_header:
  assumes big: "64 \<le> length (cells (pk_mem p))" and wf: "MemBuf_wf (pk_mem p)"
    and len: "unat (pk_position p) + length (var_bytes v) = 4"
  shows "PushVariableUint32 v p = Some (length (var_bytes v),
     p\<lparr>pk_mem := (pk_mem p)\<lparr>cells := take (unat (pk_position p)) (cells (pk_mem p))
          @ map Some (var_bytes v) @ drop 4 (cells (pk_mem p))\<rparr>,
       pk_position := pk_position p + of_nat (length (var_bytes v))\<rparr>)"
proof -
  have pos: "unat (pk_position p) + unat (3 :: u32) \<le> 7" using len by simp
  then have "unat (pk_position p + 3) \<le> 7" by (simp add: u32_unat_add)
  moreover have "64 \<le> unat (capacity (pk_mem p))" using big wf by (simp add: MemBuf_wf_def)
  ultimately have "\<not> capacity (pk_mem p) < pk_position p + 3"
    by (simp add: word_less_nat_alt)
  then have chk: "Packer_CheckSize 3 (pk_position p) p = Some p"
    by (simp add: Packer_CheckSize_def Let_def)
  have "unat (pk_position p) + length (var_bytes v) \<le> length (cells (pk_mem p))"
    using len big by simp
  then show ?thesis
    using PushVariableUint32_store [OF chk] pos big len
    by (simp add: Packer_store_def mem_write_fits)
qed

lemma Pack_holds:
  assumes h: "holds p bs" and fit: "fits (length bs)"
  obtains p' where "Pack p = Some p'" and "Packer_Data p' = Some (frame bs)"
    and "Packer_Body p' = Some bs" and "unat (pk_length p') = length (frame bs)"
proof -
  let ?m = "cells (pk_mem p)"
  have pos: "unat (pk_position p) = 4 + length bs" and wf: "MemBuf_wf (pk_mem p)"
    and big: "64 \<le> length ?m" and room: "4 + length bs \<le> length ?m"
    and old: "take (length bs) (drop 4 ?m) = map Some bs"
    using h by (auto simp: holds_def)
  have posv: "pk_position p = of_nat (4 + length bs)" using pos by (metis of_nat_unat ucast_id)
  have lim: "pk_position p < kMaxPacketSize" using pos fit by (simp add: word_less_nat_alt)
  define three where "three \<longleftrightarrow> 0x8002 \<le> 4 + length bs"
  define start where "start = (if three then 1 else 2 :: u32)"
  define v where "v = (of_nat (length (frame bs)) :: u32)"
  have cond: "0x8002 \<le> pk_position p \<longleftrightarrow> three"
    using pos by (simp add: word_le_nat_alt three_def)
  have v: "v = (if three then pk_position p - 1 else pk_position p - 2)"
    by (simp add: v_def length_frame [OF fit] posv three_def)
  have uv: "unat v = length (frame bs)"
    using fit by (simp add: v_def length_frame u32_unat_of_nat)
  have "v = of_nat (if three then length bs + 3 else length bs + 2)"
    unfolding v_def three_def length_frame [OF fit] ..
  then have fr: "frame bs = var_bytes v @ bs"
    by (simp add: frame_def three_def)
  have lenv: "unat start + length (var_bytes v) = 4"
    using fr length_frame [OF fit] by (auto simp: start_def three_def split: if_splits)
  let ?q = "p\<lparr>pk_length := v, pk_position := start\<rparr>"
  let ?m' = "take (unat start) ?m @ map Some (var_bytes v) @ drop 4 ?m"
  let ?r = "p\<lparr>pk_length := v, pk_position := start, pk_mem := (pk_mem p)\<lparr>cells := ?m'\<rparr>\<rparr>"
  have start4: "unat start \<le> 4" using lenv by simp
  have sel: "(if 0x8002 \<le> pk_position p then (pk_position p - 1, 1) else (pk_position p - 2, 2))
      = (v, start)"
    by (simp add: cond v start_def)
  have "PushVariableUint32 v ?q = Some (length (var_bytes v),
     ?q\<lparr>pk_mem := (pk_mem p)\<lparr>cells := ?m'\<rparr>, pk_position := start + of_nat (length (var_bytes v))\<rparr>)"
    using Push_header [of ?q v] big wf lenv by simp
  then have pk: "Pack p = Some ?r"
    unfolding Pack_def sel using lim by simp
  have lenm: "length ?m' = length ?m" using big lenv by simp
  have "take (unat v) (drop (unat start) ?m') = map Some (frame bs)"
    using big start4 by (simp add: uv fr old)
  moreover have "unat start + unat v \<le> length ?m'"
    using room lenv by (simp add: lenm uv fr)
  ultimately have data: "Packer_Data ?r = Some (frame bs)"
    by (simp add: Packer_Data_def mem_init_map_Some)
  have "(if 0x8000 \<le> v then unat (v - 3) else unat (v - 2)) = length bs"
    using uv fit length_frame [OF fit]
    by (auto simp: word_le_nat_alt unat_sub_if_size split: if_splits)
  moreover have "mem_init 4 (length bs) ?m' = Some bs"
  proof (rule mem_init_map_Some)
    show "4 + length bs \<le> length ?m'" using room by (simp only: lenm)
    show "take (length bs) (drop 4 ?m') = map Some bs" using big lenv old by simp
  qed
  ultimately have body: "Packer_Body ?r = Some bs"
    by (simp add: Packer_Body_def split: if_splits)
  show ?thesis by (rule that [OF pk data body]) (simp add: uv)
qed

end
