(* ===== verification/Unpacker.thy ===== *)
theory Unpacker
  imports Packer
begin

unbundle bit_operations_syntax

text \<open>
  \<open>Unpacker\<close> (src/turnserver/base/unpacker.h, unpacker.cpp): the reader of the
  wire format.  \<open>up_buffer\<close> is the memory block the unpacker points to and
  \<open>up_length\<close> the length it was told.  The code's \<open>CheckSize\<close> only prints a
  message (its \<open>throw\<close> is commented out), so every read is performed; a read
  beyond the block is \<open>None\<close> in the model.
\<close>

section \<open>State and operations\<close>

record unpacker =
  up_buffer :: "byte list"
  up_length :: u32
  up_position :: u32

text \<open>Whether \<open>CheckSize\<close> prints its message; the comparison is in 32-bit arithmetic.\<close>

definition Unpacker_CheckSize :: "u32 \<Rightarrow> u32 \<Rightarrow> unpacker \<Rightarrow> bool" where
  "Unpacker_CheckSize extra position u \<longleftrightarrow> up_length u < position + extra"

definition skip :: "nat \<Rightarrow> unpacker \<Rightarrow> unpacker" where
  "skip n u = u\<lparr>up_position := up_position u + of_nat n\<rparr>"

text \<open>\<open>memcpy\<close> from \<open>buffer_ + position_\<close>, then advance.\<close>

definition Pop_bytes :: "nat \<Rightarrow> unpacker \<Rightarrow> (byte list \<times> unpacker) option" where
  "Pop_bytes n u =
     map_option (\<lambda>bs. (bs, skip n u)) (mem_read (unat (up_position u)) n (up_buffer u))"

definition PopUint8 :: "unpacker \<Rightarrow> (byte \<times> unpacker) option" where
  "PopUint8 u = map_option (apfst le_word) (Pop_bytes 1 u)"

definition PopUint16 :: "unpacker \<Rightarrow> (u16 \<times> unpacker) option" where
  "PopUint16 u = map_option (apfst le_word) (Pop_bytes 2 u)"

definition PopUint32 :: "unpacker \<Rightarrow> (u32 \<times> unpacker) option" where
  "PopUint32 u = map_option (apfst le_word) (Pop_bytes 4 u)"

definition PopUint64 :: "unpacker \<Rightarrow> (u64 \<times> unpacker) option" where
  "PopUint64 u = map_option (apfst le_word) (Pop_bytes 8 u)"

definition PopDouble :: "unpacker \<Rightarrow> (u64 \<times> unpacker) option" where
  "PopDouble u = map_option (apfst le_word) (Pop_bytes 8 u)"

text \<open>
  \<open>PopBoolean\<close> copies one byte into a \<open>bool\<close>; a byte other than 0 and 1 is not the
  representation of a \<open>bool\<close>.
\<close>

definition PopBoolean :: "unpacker \<Rightarrow> (bool \<times> unpacker) option" where
  "PopBoolean u =
     do { (bs, u) \<leftarrow> Pop_bytes 1 u;
          if bs = [0] then Some (False, u) else if bs = [1] then Some (True, u) else None }"

definition PopVariableUint32 :: "unpacker \<Rightarrow> (u32 \<times> unpacker) option" where
  "PopVariableUint32 u =
     do { bs \<leftarrow> mem_read (unat (up_position u)) 2 (up_buffer u);
          let pos = (le_word bs :: u16);
          if pos < 0x8000 then Some (ucast pos, skip 2 u)
          else do { hi \<leftarrow> mem_read (unat (up_position u) + 2) 1 (up_buffer u);
                    let value = (le_word hi :: u32);
                    Some (push_bit 15 value + ucast (pos AND 0x7FFF), skip 3 u) } }"

definition PopString :: "unpacker \<Rightarrow> (byte list \<times> unpacker) option" where
  "PopString u = do { (len, u) \<leftarrow> PopVariableUint32 u; Pop_bytes (unat len) u }"

definition PopBuffer :: "unpacker \<Rightarrow> (byte list \<times> unpacker) option" where
  "PopBuffer u = do { (len, u) \<leftarrow> PopVariableUint32 u; Pop_bytes (unat len) u }"

definition PopBinary :: "nat \<Rightarrow> unpacker \<Rightarrow> (byte list \<times> unpacker) option" where
  "PopBinary n u = Pop_bytes n u"

definition Unpacker_Reset :: "unpacker \<Rightarrow> unpacker" where
  "Unpacker_Reset u = u\<lparr>up_position := 0\<rparr>"

definition Rewind :: "unpacker \<Rightarrow> unpacker option" where
  "Rewind u = map_option snd (PopVariableUint32 (u\<lparr>up_position := 0\<rparr>))"

text \<open>The constructor copies the block when asked to and skips the length field.\<close>

definition Unpacker_new :: "byte list \<Rightarrow> u32 \<Rightarrow> bool \<Rightarrow> unpacker option" where
  "Unpacker_new buf len copy =
     do { temp \<leftarrow> (if copy then mem_read 0 (unat len) buf else Some buf);
          (_, u) \<leftarrow> PopVariableUint32 \<lparr>up_buffer = temp, up_length = len, up_position = 0\<rparr>;
          Some u }"

section \<open>Reading at a position\<close>

text \<open>\<open>at u xs\<close>: the bytes not yet read are \<open>xs\<close>.\<close>

definition at :: "unpacker \<Rightarrow> byte list \<Rightarrow> bool" where
  "at u xs \<longleftrightarrow> unat (up_position u) \<le> length (up_buffer u)
     \<and> drop (unat (up_position u)) (up_buffer u) = xs
     \<and> length (up_buffer u) < 4294967296"

lemma skip_sel [simp]: "up_buffer (skip n u) = up_buffer u" "up_length (skip n u) = up_length u"
  by (simp_all add: skip_def)

lemma skip_skip [simp]: "skip m (skip n u) = skip (n + m) u"
  by (simp add: skip_def ac_simps)

lemma skip_0 [simp]: "skip 0 u = u"
  by (simp add: skip_def)

lemma at_skip: "at u (xs @ rest) \<Longrightarrow> n = length xs \<Longrightarrow> at (skip n u) rest"
proof -
  assume a: "at u (xs @ rest)" and n: "n = length xs"
  let ?p = "unat (up_position u)" and ?b = "up_buffer u"
  have d: "drop ?p ?b = xs @ rest" and b: "length ?b < 4294967296" "?p \<le> length ?b"
    using a by (auto simp: at_def)
  have "length ?b - ?p = length xs + length rest" by (metis d length_append length_drop)
  then have "?p + n \<le> length ?b" using b n by simp
  then have "unat (up_position u + of_nat n) = ?p + n"
    using b by (simp add: u32_unat_add u32_unat_of_nat)
  with d b \<open>?p + n \<le> length ?b\<close> n show ?thesis
    by (simp add: at_def skip_def drop_append_prefix)
qed

lemma at_mem_read: "at u (xs @ rest) \<Longrightarrow> n = length xs \<Longrightarrow>
    mem_read (unat (up_position u)) n (up_buffer u) = Some xs"
  by (auto simp: at_def intro: mem_read_prefix)

lemma Pop_bytes_at: "at u (xs @ rest) \<Longrightarrow> n = length xs \<Longrightarrow> Pop_bytes n u = Some (xs, skip n u)"
  by (simp add: Pop_bytes_def at_mem_read)

lemma Pop_fixed_at:
  "at u (le_bytes 1 b @ rest) \<Longrightarrow> PopUint8 u = Some (b, skip 1 u)"
  "at u (le_bytes 2 w @ rest) \<Longrightarrow> PopUint16 u = Some (w, skip 2 u)"
  "at u (le_bytes 4 v @ rest) \<Longrightarrow> PopUint32 u = Some (v, skip 4 u)"
  "at u (le_bytes 8 x @ rest) \<Longrightarrow> PopUint64 u = Some (x, skip 8 u)"
  "at u (le_bytes 8 x @ rest) \<Longrightarrow> PopDouble u = Some (x, skip 8 u)"
  unfolding PopUint8_def PopUint16_def PopUint32_def PopUint64_def PopDouble_def
  by (subst Pop_bytes_at, assumption, simp, simp)+

lemma PopBoolean_at: "at u (of_bool b # rest) \<Longrightarrow> PopBoolean u = Some (b, skip 1 u)"
  using Pop_bytes_at [of u "[of_bool b]" rest 1] by (cases b) (simp_all add: PopBoolean_def)

section \<open>The variable-length integer\<close>

lemma bit_0x8000: "bit (0x8000 :: u32) n \<longleftrightarrow> n = 15"
  using bit_exp_iff [of 15 n, where 'a = u32] by auto

lemma u16_top_bit: "bit (w :: u16) 15 \<Longrightarrow> \<not> w < 0x8000"
proof
  assume b: "bit w 15" and "w < 0x8000"
  then have "w AND mask 15 = w"
    by (intro less_mask_eq) simp
  then have "take_bit 15 w = w"
    by (simp add: take_bit_eq_mask)
  with b show False by (metis bit_take_bit_iff less_irrefl)
qed

lemma var_lower_bits:
  "ucast ((ucast ((v AND 0x7FFF) OR 0x8000) :: u16) AND 0x7FFF) = (v :: u32) AND 0x7FFF"
  "\<not> (ucast ((v AND 0x7FFF) OR 0x8000) :: u16) < 0x8000"
proof -
  define h where "h = (0x8000 :: u32)"
  have hb: "bit h n \<longleftrightarrow> n = 15" for n unfolding h_def by (rule bit_0x8000)
  have m: "(0x7FFF :: u32) = mask 15" "(0x7FFF :: u16) = mask 15" by (simp_all add: mask_eq_exp_minus_1)
  show "ucast ((ucast ((v AND 0x7FFF) OR 0x8000) :: u16) AND 0x7FFF) = v AND 0x7FFF"
    unfolding m h_def [symmetric] by (auto intro!: bit_word_eqI simp: bit_simps hb)
  show "\<not> (ucast ((v AND 0x7FFF) OR 0x8000) :: u16) < 0x8000"
    unfolding h_def [symmetric] by (rule u16_top_bit) (simp add: bit_simps hb)
qed

lemma var_recombine:
  "push_bit 15 (ucast (ucast (drop_bit 15 v) :: byte)) + (v AND 0x7FFF) = take_bit 23 (v :: u32)"
proof -
  have m: "(0x7FFF :: u32) = mask 15" by (simp add: mask_eq_exp_minus_1)
  have "push_bit 15 (ucast (ucast (drop_bit 15 v) :: byte)) AND (v AND mask 15) = 0"
    by (auto intro!: bit_word_eqI simp: bit_simps)
  then have "push_bit 15 (ucast (ucast (drop_bit 15 v) :: byte)) + (v AND mask 15)
     = push_bit 15 (ucast (ucast (drop_bit 15 v) :: byte)) OR (v AND mask 15)"
    by (simp add: disjunctive_add bit_simps)
  also have "\<dots> = take_bit 23 v"
    by (auto intro!: bit_word_eqI simp: bit_simps)
  finally show ?thesis by (simp only: m)
qed


lemma length_var_bytes_le: "length (var_bytes v) \<le> 3" "2 \<le> length (var_bytes v)"
  by (simp_all add: length_var_bytes)

lemma PopVariableUint32_at:
  assumes "at u (var_bytes v @ rest)"
  shows "PopVariableUint32 u = Some (take_bit 23 v, skip (length (var_bytes v)) u)"
proof (cases "v < 0x8000")
  case True
  have "unat v < 32768" using True by (simp add: word_less_nat_alt)
  then have "ucast (ucast v :: u16) = v" and lo: "(ucast v :: u16) < 0x8000" and "take_bit 23 v = v"
    by (simp_all add: word_less_nat_alt unsigned_ucast_eq word_unat_eq_iff take_bit_nat_eq_self
        unsigned_take_bit_eq)
  moreover have "mem_read (unat (up_position u)) 2 (up_buffer u) = Some (le_bytes 2 (ucast v :: u16))"
    using assms True by (intro at_mem_read) (auto simp: var_bytes_def)
  ultimately show ?thesis
    using True by (simp add: PopVariableUint32_def var_bytes_def)
next
  case False
  let ?lo = "ucast ((v AND 0x7FFF) OR 0x8000) :: u16" and ?hi = "ucast (drop_bit 15 v) :: byte"
  have u: "at u (le_bytes 2 ?lo @ ([?hi] @ rest))"
    using assms False by (simp add: var_bytes_def)
  have "mem_read (unat (up_position u)) 2 (up_buffer u) = Some (le_bytes 2 ?lo)"
    using u by (rule at_mem_read) simp
  moreover have "at (skip 2 u) ([?hi] @ rest)" using u by (rule at_skip) simp
  then have "mem_read (unat (up_position (skip 2 u))) 1 (up_buffer u) = Some [?hi]"
    using at_mem_read [of "skip 2 u" "[?hi]" rest 1] by simp
  moreover have "unat (up_position (skip 2 u)) = unat (up_position u) + 2"
  proof -
    have "length (drop (unat (up_position u)) (up_buffer u)) = length (le_bytes 2 ?lo @ ([?hi] @ rest))"
      using u unfolding at_def by (intro arg_cong [where f = length]) blast
    moreover have "length (up_buffer u) < 4294967296" using u by (simp add: at_def)
    ultimately have "unat (up_position u) + unat (2 :: u32) < 4294967296" by simp
    then show ?thesis by (simp add: skip_def u32_unat_add)
  qed
  ultimately show ?thesis
    using False var_lower_bits [of v] var_recombine [of v]
    by (simp add: PopVariableUint32_def var_bytes_def Let_def)
qed

lemma take_bit_23: "unat (v :: u32) < 8388608 \<Longrightarrow> take_bit 23 v = v"
  by (simp add: word_unat_eq_iff unsigned_take_bit_eq take_bit_nat_eq_self)

lemma PopVariableUint32_at_small:
  "at u (var_bytes v @ rest) \<Longrightarrow> unat v < 8388608 \<Longrightarrow>
   PopVariableUint32 u = Some (v, skip (length (var_bytes v)) u)"
  by (simp add: PopVariableUint32_at take_bit_23)

lemma PopString_at:
  assumes "at u (str_bytes xs @ rest)" and len: "length xs < 8388608"
  shows "PopString u = Some (xs, skip (length (str_bytes xs)) u)"
proof -
  let ?n = "of_nat (length xs) :: u32"
  have n: "unat ?n = length xs" using len by (simp add: u32_unat_of_nat)
  have u: "at u (var_bytes ?n @ (xs @ rest))" using assms(1) by (simp add: str_bytes_def)
  then have "PopVariableUint32 u = Some (?n, skip (length (var_bytes ?n)) u)"
    using len n by (intro PopVariableUint32_at_small) simp_all
  moreover have "at (skip (length (var_bytes ?n)) u) (xs @ rest)"
    using u by (rule at_skip) simp
  ultimately show ?thesis
    by (simp add: PopString_def str_bytes_def n Pop_bytes_at)
qed

lemma PopBuffer_PopString: "PopBuffer = PopString"
  by (simp add: fun_eq_iff PopBuffer_def PopString_def)

section \<open>Opening a framed buffer\<close>

lemma frame_eq:
  assumes "fits (length bs)"
  shows "frame bs = var_bytes (of_nat (length (frame bs))) @ bs"
  using length_frame [OF assms] by (auto simp: frame_def)

lemma Unpacker_new_frame:
  assumes fit: "fits (length bs)" and len: "len = of_nat (length (frame bs))"
  obtains u where "Unpacker_new (frame bs) len copy = Some u" and "at u bs"
    and "up_buffer u = frame bs" and "up_length u = len"
proof -
  let ?v = "of_nat (length (frame bs)) :: u32"
  have lf: "length (frame bs) \<le> length bs + 3" using length_frame [OF fit] by simp
  have v: "unat ?v = length (frame bs)" using lf fit by (simp add: u32_unat_of_nat)
  let ?u = "\<lparr>up_buffer = frame bs, up_length = len, up_position = 0\<rparr>"
  have u: "at ?u (var_bytes ?v @ bs)"
    using fit lf frame_eq [OF fit] by (simp add: at_def)
  then have "PopVariableUint32 ?u = Some (?v, skip (length (var_bytes ?v)) ?u)"
    using v lf fit by (intro PopVariableUint32_at_small) simp_all
  moreover have "mem_read 0 (unat len) (frame bs) = Some (frame bs)"
    using v len by (simp add: mem_read_def)
  ultimately have "Unpacker_new (frame bs) len copy = Some (skip (length (var_bytes ?v)) ?u)"
    by (simp add: Unpacker_new_def)
  moreover have "at (skip (length (var_bytes ?v)) ?u) bs" using u by (rule at_skip) simp
  ultimately show ?thesis by (rule that) simp_all
qed

end
