(* ===== verification/Wire_Codec.thy ===== *)
theory Wire_Codec
  imports Unpacker
begin

text \<open>
  The overloaded stream operators \<open><<\<close> on \<open>Packer\<close> and \<open>>>\<close> on \<open>Unpacker\<close>
  (src/turnserver/base/packer.h, unpacker.h).  The overloads of one C++ type
  form a \<open>codec\<close>: how a value is pushed, how a value is popped into a variable
  that already has a value (the containers append to it or insert into it), and
  the value of a default-constructed variable.  The locale \<open>wire_codec\<close> is the
  contract between the two operators; it is proved for every overload and kept
  by every template, and the client theories use its consequences.
\<close>

section \<open>Codecs and their contract\<close>

record 'a codec =
  push :: "'a \<Rightarrow> packer \<Rightarrow> packer option"
  pop :: "'a \<Rightarrow> unpacker \<Rightarrow> ('a \<times> unpacker) option"
  dflt :: 'a

text \<open>
  What \<open>TcpConnection::SendPacket\<close> and the senders of \<open>turnserver_main.cc\<close> do
  with a fresh packer, and what their receivers do with the received bytes.
\<close>

definition encode :: "'a codec \<Rightarrow> 'a \<Rightarrow> byte list option" where
  "encode c x = do { p \<leftarrow> push c x (Packer_new kDefaultSize); p \<leftarrow> Pack p; Packer_Data p }"

definition decode :: "'a codec \<Rightarrow> byte list \<Rightarrow> ('a \<times> unpacker) option" where
  "decode c data = do { u \<leftarrow> Unpacker_new data (of_nat (length data)) False; pop c (dflt c) u }"

text \<open>\<open>PackedBuffer\<close> (src/turnserver/base/packet.h) returns the body without its length.\<close>

definition PackedBuffer :: "'a codec \<Rightarrow> 'a \<Rightarrow> byte list option" where
  "PackedBuffer c t = do { p \<leftarrow> push c t (Packer_new kDefaultSize); p \<leftarrow> Pack p; Packer_Body p }"

text \<open>
  A value is delivered when it is sent in the wire format \<open>e\<close>, framed, and the
  receiver reads the same value from these bytes and has then read all of them.
\<close>

definition delivers :: "'a codec \<Rightarrow> ('a \<Rightarrow> byte list) \<Rightarrow> 'a \<Rightarrow> bool" where
  "delivers c e x \<longleftrightarrow>
     encode c x = Some (frame (e x)) \<and> (\<exists>u. decode c (frame (e x)) = Some (x, u) \<and> at u [])"

locale wire_codec =
  fixes c :: "'a codec" and enc :: "'a \<Rightarrow> byte list" and valid :: "'a \<Rightarrow> bool"
  assumes push_holds: "holds p bs \<Longrightarrow> valid x \<Longrightarrow> fits (length bs + length (enc x)) \<Longrightarrow>
      \<exists>p'. push c x p = Some p' \<and> holds p' (bs @ enc x)"
    and pop_at: "valid x \<Longrightarrow> at u (enc x @ rest) \<Longrightarrow>
      pop c (dflt c) u = Some (x, skip (length (enc x)) u)"
begin

lemma push_pack:
  assumes "valid x" and "fits (length (enc x))"
  obtains p q where "push c x (Packer_new n) = Some p" and "Pack p = Some q"
    and "Packer_Data q = Some (frame (enc x))" and "Packer_Body q = Some (enc x)"
    and "unat (pk_length q) = length (frame (enc x))"
proof -
  obtain p where p: "push c x (Packer_new n) = Some p" "holds p (enc x)"
    using push_holds [OF holds_new assms(1), of n] assms(2) by auto
  obtain q where "Pack p = Some q" "Packer_Data q = Some (frame (enc x))"
      "Packer_Body q = Some (enc x)" "unat (pk_length q) = length (frame (enc x))"
    using Pack_holds [OF p(2) assms(2)] by metis
  with p(1) show ?thesis by (rule that)
qed

lemma encode_frame: "valid x \<Longrightarrow> fits (length (enc x)) \<Longrightarrow> encode c x = Some (frame (enc x))"
  by (rule push_pack [of x kDefaultSize]) (auto simp: encode_def)

lemma PackedBuffer_enc: "valid x \<Longrightarrow> fits (length (enc x)) \<Longrightarrow> PackedBuffer c x = Some (enc x)"
  by (rule push_pack [of x kDefaultSize]) (auto simp: PackedBuffer_def)

lemma decode_frame:
  assumes "valid x" and fit: "fits (length (enc x @ rest))"
  obtains u where "decode c (frame (enc x @ rest)) = Some (x, u)" and "at u rest"
    and "up_buffer u = frame (enc x @ rest)"
proof -
  obtain u where u: "Unpacker_new (frame (enc x @ rest)) (of_nat (length (frame (enc x @ rest)))) False = Some u"
      "at u (enc x @ rest)" "up_buffer u = frame (enc x @ rest)"
    using Unpacker_new_frame [OF fit refl] by metis
  show ?thesis
  proof (rule that)
    show "decode c (frame (enc x @ rest)) = Some (x, skip (length (enc x)) u)"
      using u(1) pop_at [OF assms(1) u(2)] by (simp add: decode_def)
    show "at (skip (length (enc x)) u) rest" using u(2) by (rule at_skip) simp
  qed (simp add: u(3))
qed

text \<open>Sending a value and reading it back gives the value and consumes the message.\<close>

lemma delivery: "valid x \<Longrightarrow> fits (length (enc x)) \<Longrightarrow> delivers c enc x"
  using decode_frame [of x "[]"] encode_frame [of x] by (auto simp: delivers_def)

text \<open>Two valid values that are encoded alike are the same value.\<close>

lemma enc_inj:
  assumes "valid x" "valid y" "fits (length (enc x))" "enc x = enc y"
  shows "x = y"
proof -
  obtain u where u: "at u (enc x)"
    using Unpacker_new_frame [OF assms(3) refl] by metis
  then have "at u (enc x @ [])" "at u (enc y @ [])" using assms(4) by simp_all
  then have "Some (x, skip (length (enc x)) u) = Some (y, skip (length (enc y)) u)"
    using pop_at [OF assms(1)] pop_at [OF assms(2)] by metis
  then show ?thesis by blast
qed

end

lemma wire_cong:
  assumes "wire_codec c e v" and "\<And>x. e x = e' x" and "\<And>x. v x = v' x"
  shows "wire_codec c e' v'"
proof -
  have "e = e'" "v = v'" using assms(2,3) by auto
  with assms(1) show ?thesis by simp
qed

named_theorems wire_codecs \<open>the codecs of the overloads and what the templates keep\<close>

section \<open>Scalars\<close>

definition bool_codec :: "bool codec" where
  "bool_codec = \<lparr>push = PushBoolean, pop = (\<lambda>_. PopBoolean), dflt = False\<rparr>"

definition u8_codec :: "byte codec" where
  "u8_codec = \<lparr>push = PushUint8, pop = (\<lambda>_. PopUint8), dflt = 0\<rparr>"

definition u16_codec :: "u16 codec" where
  "u16_codec = \<lparr>push = PushUint16, pop = (\<lambda>_. PopUint16), dflt = 0\<rparr>"

definition u32_codec :: "u32 codec" where
  "u32_codec = \<lparr>push = PushUint32, pop = (\<lambda>_. PopUint32), dflt = 0\<rparr>"

definition u64_codec :: "u64 codec" where
  "u64_codec = \<lparr>push = PushUint64, pop = (\<lambda>_. PopUint64), dflt = 0\<rparr>"

definition double_codec :: "u64 codec" where
  "double_codec = \<lparr>push = PushDouble, pop = (\<lambda>_. PopDouble), dflt = 0\<rparr>"

text \<open>
  The signed overloads convert with \<open>static_cast\<close>: modular on the way out,
  two's complement on the way back.  \<open>char\<close> is signed on the host, so its
  overloads are those of \<open>int8_t\<close>.
\<close>

definition i8_codec :: "int codec" where
  "i8_codec = \<lparr>push = (\<lambda>v. PushUint8 (word_of_int v)),
     pop = (\<lambda>_ u. map_option (apfst sint) (PopUint8 u)), dflt = 0\<rparr>"

definition i16_codec :: "int codec" where
  "i16_codec = \<lparr>push = (\<lambda>v. PushUint16 (word_of_int v)),
     pop = (\<lambda>_ u. map_option (apfst sint) (PopUint16 u)), dflt = 0\<rparr>"

definition i32_codec :: "int codec" where
  "i32_codec = \<lparr>push = (\<lambda>v. PushUint32 (word_of_int v)),
     pop = (\<lambda>_ u. map_option (apfst sint) (PopUint32 u)), dflt = 0\<rparr>"

definition i64_codec :: "int codec" where
  "i64_codec = \<lparr>push = (\<lambda>v. PushUint64 (word_of_int v)),
     pop = (\<lambda>_ u. map_option (apfst sint) (PopUint64 u)), dflt = 0\<rparr>"

abbreviation any :: "'a \<Rightarrow> bool" where
  "any \<equiv> \<lambda>_. True"

abbreviation in_signed :: "nat \<Rightarrow> int \<Rightarrow> bool" where
  "in_signed n v \<equiv> - (2 ^ (n - 1)) \<le> v \<and> v < 2 ^ (n - 1)"

lemma Push_bytes_ex:
  "holds p bs \<Longrightarrow> fits (length bs + length xs) \<Longrightarrow> sz = of_nat (length xs) \<Longrightarrow>
   \<exists>p'. Push_bytes sz xs p = Some p' \<and> holds p' (bs @ xs)"
  by (metis Push_bytes_holds)

lemmas Push_defs = PushUint8_def PushUint16_def PushUint32_def PushUint64_def PushDouble_def

lemma wire_bool [wire_codecs]: "wire_codec bool_codec (\<lambda>b. [of_bool b]) any"
  by unfold_locales
    (auto simp: bool_codec_def PushBoolean_def PushUint8_def PopBoolean_at intro!: Push_bytes_ex)

lemma wire_u8 [wire_codecs]: "wire_codec u8_codec (le_bytes 1) any"
  by unfold_locales (auto simp: u8_codec_def Push_defs Pop_fixed_at simp del: One_nat_def
      le_bytes.simps intro!: Push_bytes_ex)

lemma wire_u16 [wire_codecs]: "wire_codec u16_codec (le_bytes 2) any"
  by unfold_locales (auto simp: u16_codec_def Push_defs Pop_fixed_at intro!: Push_bytes_ex)

lemma wire_u32 [wire_codecs]: "wire_codec u32_codec (le_bytes 4) any"
  by unfold_locales (auto simp: u32_codec_def Push_defs Pop_fixed_at intro!: Push_bytes_ex)

lemma wire_u64 [wire_codecs]: "wire_codec u64_codec (le_bytes 8) any"
  by unfold_locales (auto simp: u64_codec_def Push_defs Pop_fixed_at intro!: Push_bytes_ex)

lemma wire_double [wire_codecs]: "wire_codec double_codec (le_bytes 8) any"
  by unfold_locales (auto simp: double_codec_def Push_defs Pop_fixed_at intro!: Push_bytes_ex)

lemma sint_word_of_int_in_range:
  "in_signed LENGTH('a) v \<Longrightarrow> sint (word_of_int v :: 'a::len word) = v"
  by (simp add: signed_of_int signed_take_bit_int_eq_self)

lemma wire_i8 [wire_codecs]: "wire_codec i8_codec (\<lambda>v. le_bytes 1 (word_of_int v :: byte)) (in_signed 8)"
  by unfold_locales (auto simp: i8_codec_def Push_defs Pop_fixed_at sint_word_of_int_in_range
      simp del: One_nat_def le_bytes.simps intro!: Push_bytes_ex)

lemma wire_i16 [wire_codecs]: "wire_codec i16_codec (\<lambda>v. le_bytes 2 (word_of_int v :: u16)) (in_signed 16)"
  by unfold_locales (auto simp: i16_codec_def Push_defs Pop_fixed_at sint_word_of_int_in_range
      intro!: Push_bytes_ex)

lemma wire_i32 [wire_codecs]: "wire_codec i32_codec (\<lambda>v. le_bytes 4 (word_of_int v :: u32)) (in_signed 32)"
  by unfold_locales (auto simp: i32_codec_def Push_defs Pop_fixed_at sint_word_of_int_in_range
      intro!: Push_bytes_ex)

lemma wire_i64 [wire_codecs]: "wire_codec i64_codec (\<lambda>v. le_bytes 8 (word_of_int v :: u64)) (in_signed 64)"
  by unfold_locales (auto simp: i64_codec_def Push_defs Pop_fixed_at sint_word_of_int_in_range
      intro!: Push_bytes_ex)

section \<open>Strings and byte buffers\<close>

definition string_codec :: "byte list codec" where
  "string_codec = \<lparr>push = PushString, pop = (\<lambda>_. PopString), dflt = []\<rparr>"

definition buffer_codec :: "byte list codec" where
  "buffer_codec = \<lparr>push = PushBuffer, pop = (\<lambda>_. PopBuffer), dflt = []\<rparr>"

abbreviation short :: "'a list \<Rightarrow> bool" where
  "short xs \<equiv> length xs < 8388608"

lemma wire_string [wire_codecs]: "wire_codec string_codec str_bytes short"
proof
  show "\<exists>p'. push string_codec x p = Some p' \<and> holds p' (bs @ str_bytes x)"
    if "holds p bs" "short x" "fits (length bs + length (str_bytes x))" for p bs x
    using PushString_holds [OF that(1) that(3)] by (auto simp: string_codec_def)
  show "pop string_codec (dflt string_codec) u = Some (x, skip (length (str_bytes x)) u)"
    if "short x" "at u (str_bytes x @ rest)" for x u rest
    using PopString_at [OF that(2,1)] by (simp add: string_codec_def)
qed

lemma wire_buffer [wire_codecs]: "wire_codec buffer_codec str_bytes short"
  using wire_string by (simp add: buffer_codec_def string_codec_def PushBuffer_PushString
      PopBuffer_PopString)

section \<open>Pairs\<close>

definition pair_codec :: "'a codec \<Rightarrow> 'b codec \<Rightarrow> ('a \<times> 'b) codec" where
  "pair_codec c1 c2 =
     \<lparr>push = (\<lambda>(a, b) p. do { p \<leftarrow> push c1 a p; push c2 b p }),
      pop = (\<lambda>(a, b) u. do { (a, u) \<leftarrow> pop c1 a u; (b, u) \<leftarrow> pop c2 b u; Some ((a, b), u) }),
      dflt = (dflt c1, dflt c2)\<rparr>"

definition enc_pair :: "('a \<Rightarrow> byte list) \<Rightarrow> ('b \<Rightarrow> byte list) \<Rightarrow> 'a \<times> 'b \<Rightarrow> byte list" where
  "enc_pair e1 e2 = (\<lambda>(a, b). e1 a @ e2 b)"

definition valid_pair :: "('a \<Rightarrow> bool) \<Rightarrow> ('b \<Rightarrow> bool) \<Rightarrow> 'a \<times> 'b \<Rightarrow> bool" where
  "valid_pair v1 v2 = (\<lambda>(a, b). v1 a \<and> v2 b)"

lemma enc_pair_simp [simp]: "enc_pair e1 e2 (a, b) = e1 a @ e2 b"
  by (simp add: enc_pair_def)

lemma valid_pair_simp [simp]: "valid_pair v1 v2 (a, b) \<longleftrightarrow> v1 a \<and> v2 b"
  by (simp add: valid_pair_def)

lemma wire_pair [wire_codecs]:
  assumes c1: "wire_codec c1 e1 v1" and c2: "wire_codec c2 e2 v2"
  shows "wire_codec (pair_codec c1 c2) (enc_pair e1 e2) (valid_pair v1 v2)"
proof (unfold_locales, goal_cases)
  case (1 p bs x)
  obtain a b where x: "x = (a, b)" by (cases x)
  obtain p1 where "push c1 a p = Some p1" "holds p1 (bs @ e1 a)"
    using wire_codec.push_holds [OF c1 1(1), of a] 1 x by auto
  moreover from this obtain p2 where "push c2 b p1 = Some p2" "holds p2 ((bs @ e1 a) @ e2 b)"
    using wire_codec.push_holds [OF c2, of p1 "bs @ e1 a" b] 1 x by (auto simp: add.assoc)
  ultimately show ?case by (simp add: pair_codec_def x)
next
  case (2 x u rest)
  obtain a b where x: "x = (a, b)" by (cases x)
  have u: "at u (e1 a @ (e2 b @ rest))" using 2 x by simp
  have "pop c1 (dflt c1) u = Some (a, skip (length (e1 a)) u)"
    using wire_codec.pop_at [OF c1 _ u] 2 x by simp
  moreover have "at (skip (length (e1 a)) u) (e2 b @ rest)"
    using u by (rule at_skip) simp
  then have "pop c2 (dflt c2) (skip (length (e1 a)) u) = Some (b, skip (length (e1 a) + length (e2 b)) u)"
    using wire_codec.pop_at [OF c2] 2 x by fastforce
  ultimately show ?case by (simp add: pair_codec_def x)
qed

end
