(* ===== verification/Wire_Containers.thy ===== *)
theory Wire_Containers
  imports Wire_Codec
begin

text \<open>
  The container overloads of the stream operators (src/turnserver/base/packer.h
  and unpacker.h): \<open>std::vector\<close>, \<open>std::list\<close>, \<open>std::set\<close> and \<open>std::map\<close>.  All are
  written as a variable-length count followed by the elements, and read in a
  loop that default-constructs an element, reads it and adds it to the
  container, which keeps what it had.  A \<open>std::set\<close> is the list of its elements
  in ascending order and a \<open>std::map\<close> the list of its entries in ascending order
  of keys, the order in which the code iterates over them.
\<close>

section \<open>Ordered containers of the standard library\<close>

text \<open>\<open>std::map::insert\<close> keeps an entry that is already there.\<close>

fun map_insert :: "'k::linorder \<Rightarrow> 'v \<Rightarrow> ('k \<times> 'v) list \<Rightarrow> ('k \<times> 'v) list" where
  "map_insert k v [] = [(k, v)]"
| "map_insert k v ((k', v') # m) =
     (if k < k' then (k, v) # (k', v') # m
      else if k = k' then (k', v') # m
      else (k', v') # map_insert k v m)"

text \<open>\<open>m[k] = v\<close>: \<open>operator[]\<close> creates the entry when there is none, then it is assigned.\<close>

fun map_assign :: "'k::linorder \<Rightarrow> 'v \<Rightarrow> ('k \<times> 'v) list \<Rightarrow> ('k \<times> 'v) list" where
  "map_assign k v [] = [(k, v)]"
| "map_assign k v ((k', v') # m) =
     (if k < k' then (k, v) # (k', v') # m
      else if k = k' then (k', v) # m
      else (k', v') # map_assign k v m)"

text \<open>The value \<open>m[k]\<close> yields; a missing entry is created with the default value.\<close>

definition map_index :: "'v \<Rightarrow> 'k \<Rightarrow> ('k \<times> 'v) list \<Rightarrow> 'v" where
  "map_index d k m = (case map_of m k of Some v \<Rightarrow> v | None \<Rightarrow> d)"

fun set_insert :: "'k::linorder \<Rightarrow> 'k list \<Rightarrow> 'k list" where
  "set_insert k [] = [k]"
| "set_insert k (k' # s) =
     (if k < k' then k # k' # s else if k = k' then k' # s else k' # set_insert k s)"

definition map_wf :: "('k::linorder \<times> 'v) list \<Rightarrow> bool" where
  "map_wf m \<longleftrightarrow> sorted_wrt (<) (map fst m)"

lemma map_insert_keys: "fst ` set (map_insert k v m) = insert k (fst ` set m)"
  by (induction k v m rule: map_insert.induct) auto

lemma map_assign_keys: "fst ` set (map_assign k v m) = insert k (fst ` set m)"
  by (induction k v m rule: map_assign.induct) auto

lemma map_wf_Cons: "map_wf ((k, v) # m) \<longleftrightarrow> (\<forall>k' \<in> fst ` set m. k < k') \<and> map_wf m"
  by (auto simp: map_wf_def)

lemma map_wf_Nil [simp]: "map_wf []"
  by (simp add: map_wf_def)

lemma map_insert_wf [inv_intros]: "map_wf m \<Longrightarrow> map_wf (map_insert k v m)"
  by (induction k v m rule: map_insert.induct)
    (auto simp: map_wf_Cons map_insert_keys)

lemma map_assign_wf [inv_intros]: "map_wf m \<Longrightarrow> map_wf (map_assign k v m)"
  by (induction k v m rule: map_assign.induct)
    (auto simp: map_wf_Cons map_assign_keys)

lemma map_of_map_assign: "map_wf m \<Longrightarrow> map_of (map_assign k v m) = (map_of m)(k \<mapsto> v)"
  by (induction k v m rule: map_assign.induct) (auto simp: map_wf_Cons)

lemma map_of_map_insert:
  "map_wf m \<Longrightarrow> map_of (map_insert k v m) = (if map_of m k = None then (map_of m)(k \<mapsto> v) else map_of m)"
proof (induction k v m rule: map_insert.induct)
  case (2 k v k' v' m)
  have "map_of m k = None" if "k < k'"
    using that 2(2) by (force simp: map_wf_Cons map_of_eq_None_iff)
  with 2 show ?case by (auto simp: map_wf_Cons)
qed simp

lemma map_insert_snoc: "\<forall>k' \<in> fst ` set m. k' < k \<Longrightarrow> map_insert k v m = m @ [(k, v)]"
  by (induction k v m rule: map_insert.induct) auto

lemma set_insert_snoc: "\<forall>k' \<in> set s. k' < k \<Longrightarrow> set_insert k s = s @ [k]"
  by (induction k s rule: set_insert.induct) auto

section \<open>The loops of the operators\<close>

fun push_all :: "('a \<Rightarrow> packer \<Rightarrow> packer option) \<Rightarrow> 'a list \<Rightarrow> packer \<Rightarrow> packer option" where
  "push_all f [] p = Some p"
| "push_all f (x # xs) p = do { p \<leftarrow> f x p; push_all f xs p }"

fun pop_n :: "nat \<Rightarrow> 'a codec \<Rightarrow> ('a \<Rightarrow> 'b \<Rightarrow> 'b) \<Rightarrow> 'b \<Rightarrow> unpacker \<Rightarrow> ('b \<times> unpacker) option" where
  "pop_n 0 c add acc u = Some (acc, u)"
| "pop_n (Suc n) c add acc u = do { (t, u) \<leftarrow> pop c (dflt c) u; pop_n n c add (add t acc) u }"

definition push_counted :: "'a codec \<Rightarrow> nat \<Rightarrow> 'a list \<Rightarrow> packer \<Rightarrow> packer option" where
  "push_counted c count xs p =
     do { (_, p) \<leftarrow> PushVariableUint32 (of_nat count) p; push_all (push c) xs p }"

definition pop_counted :: "'a codec \<Rightarrow> ('a \<Rightarrow> 'b \<Rightarrow> 'b) \<Rightarrow> 'b \<Rightarrow> unpacker \<Rightarrow> ('b \<times> unpacker) option" where
  "pop_counted c add acc u = do { (count, u) \<leftarrow> PopVariableUint32 u; pop_n (unat count) c add acc u }"

text \<open>The vector loop runs an index below the 32-bit count; the others run over all elements.\<close>

definition vector_codec :: "'a codec \<Rightarrow> 'a list codec" where
  "vector_codec c =
     \<lparr>push = (\<lambda>v. push_counted c (length v) (take (unat (of_nat (length v) :: u32)) v)),
      pop = pop_counted c (\<lambda>t v. v @ [t]), dflt = []\<rparr>"

definition list_codec :: "'a codec \<Rightarrow> 'a list codec" where
  "list_codec c =
     \<lparr>push = (\<lambda>v. push_counted c (length v) v), pop = pop_counted c (\<lambda>t v. v @ [t]), dflt = []\<rparr>"

definition set_codec :: "'a::linorder codec \<Rightarrow> 'a list codec" where
  "set_codec c =
     \<lparr>push = (\<lambda>v. push_counted c (length v) v), pop = pop_counted c set_insert, dflt = []\<rparr>"

definition map_codec :: "'k::linorder codec \<Rightarrow> 'v codec \<Rightarrow> ('k \<times> 'v) list codec" where
  "map_codec ck cv =
     \<lparr>push = (\<lambda>m. push_counted (pair_codec ck cv) (length m) m),
      pop = pop_counted (pair_codec ck cv) (\<lambda>(k, v). map_insert k v), dflt = []\<rparr>"

section \<open>The contract of the container codecs\<close>

definition seq_bytes :: "('a \<Rightarrow> byte list) \<Rightarrow> 'a list \<Rightarrow> byte list" where
  "seq_bytes e xs = var_bytes (of_nat (length xs)) @ concat (map e xs)"

context wire_codec
begin

lemma push_all_holds:
  "holds p bs \<Longrightarrow> list_all valid xs \<Longrightarrow> fits (length bs + length (concat (map enc xs))) \<Longrightarrow>
   \<exists>p'. push_all (push c) xs p = Some p' \<and> holds p' (bs @ concat (map enc xs))"
proof (induction xs arbitrary: p bs)
  case Nil
  then show ?case by simp
next
  case (Cons x xs)
  then obtain q where "push c x p = Some q" "holds q (bs @ enc x)"
    using push_holds [of p bs x] by auto
  with Cons.IH [of q "bs @ enc x"] Cons.prems show ?case by (simp add: add.assoc)
qed

lemma push_counted_holds:
  assumes h: "holds p bs" and v: "list_all valid xs" and fit: "fits (length bs + length (seq_bytes enc xs))"
  shows "\<exists>p'. push_counted c (length xs) xs p = Some p' \<and> holds p' (bs @ seq_bytes enc xs)"
proof -
  let ?v = "var_bytes (of_nat (length xs))"
  have "fits (length bs)" using fit by simp
  then obtain q where "PushVariableUint32 (of_nat (length xs)) p = Some (length ?v, q)"
      "holds q (bs @ ?v)"
    using PushVariableUint32_holds [OF h] by metis
  with push_all_holds [of q "bs @ ?v" xs] v fit show ?thesis
    by (auto simp: push_counted_def seq_bytes_def add.assoc)
qed

lemma pop_n_at:
  "list_all valid xs \<Longrightarrow> at u (concat (map enc xs) @ rest) \<Longrightarrow>
   pop_n (length xs) c add acc u = Some (fold add xs acc, skip (length (concat (map enc xs))) u)"
proof (induction xs arbitrary: acc u)
  case Nil
  then show ?case by simp
next
  case (Cons x xs)
  have u: "at u (enc x @ (concat (map enc xs) @ rest))" using Cons.prems by simp
  have "at (skip (length (enc x)) u) (concat (map enc xs) @ rest)"
    using u by (rule at_skip) simp
  with Cons pop_at [OF _ u] show ?case by simp
qed

lemma pop_counted_at:
  assumes "list_all valid xs" "short xs" "at u (seq_bytes enc xs @ rest)"
  shows "pop_counted c add acc u = Some (fold add xs acc, skip (length (seq_bytes enc xs)) u)"
proof -
  let ?v = "of_nat (length xs) :: u32"
  have n: "unat ?v = length xs" using assms(2) by (simp add: u32_unat_of_nat)
  have u: "at u (var_bytes ?v @ (concat (map enc xs) @ rest))"
    using assms(3) by (simp add: seq_bytes_def)
  then have "PopVariableUint32 u = Some (?v, skip (length (var_bytes ?v)) u)"
    using assms(2) n by (intro PopVariableUint32_at_small) simp_all
  moreover have "at (skip (length (var_bytes ?v)) u) (concat (map enc xs) @ rest)"
    using u by (rule at_skip) simp
  note pop_n_at [OF assms(1) this, of add acc]
  ultimately show ?thesis
    using n by (simp add: pop_counted_def seq_bytes_def)
qed

end

lemma fold_snoc: "fold (\<lambda>t v. v @ [t]) xs acc = acc @ xs"
  by (induction xs arbitrary: acc) auto

lemma fold_map_insert:
  "map_wf (acc @ xs) \<Longrightarrow> fold (\<lambda>(k, v). map_insert k v) xs acc = acc @ xs"
proof (induction xs arbitrary: acc)
  case (Cons x xs)
  obtain k v where x: "x = (k, v)" by (cases x)
  have "map_insert k v acc = acc @ [(k, v)]"
    using Cons.prems by (intro map_insert_snoc) (auto simp: map_wf_def sorted_wrt_append x)
  with Cons show ?case by (simp add: x)
qed simp

lemma fold_set_insert:
  "sorted_wrt (<) (acc @ xs) \<Longrightarrow> fold set_insert xs acc = acc @ xs"
proof (induction xs arbitrary: acc)
  case (Cons x xs)
  have "set_insert x acc = acc @ [x]"
    using Cons.prems by (intro set_insert_snoc) (auto simp: sorted_wrt_append)
  with Cons show ?case by simp
qed simp

lemma wire_vector [wire_codecs]:
  assumes "wire_codec c e v"
  shows "wire_codec (vector_codec c) (seq_bytes e) (\<lambda>xs. list_all v xs \<and> short xs)"
  by unfold_locales
    (auto simp: vector_codec_def wire_codec.pop_counted_at [OF assms] fold_snoc u32_unat_of_nat
      intro!: wire_codec.push_counted_holds [OF assms])

lemma wire_list [wire_codecs]:
  assumes "wire_codec c e v"
  shows "wire_codec (list_codec c) (seq_bytes e) (\<lambda>xs. list_all v xs \<and> short xs)"
  by unfold_locales
    (auto simp: list_codec_def wire_codec.pop_counted_at [OF assms] fold_snoc
      intro!: wire_codec.push_counted_holds [OF assms])

lemma wire_set [wire_codecs]:
  assumes "wire_codec c e v"
  shows "wire_codec (set_codec c) (seq_bytes e) (\<lambda>xs. list_all v xs \<and> short xs \<and> sorted_wrt (<) xs)"
  by unfold_locales
    (auto simp: set_codec_def wire_codec.pop_counted_at [OF assms] fold_set_insert
      intro!: wire_codec.push_counted_holds [OF assms])

lemma wire_map [wire_codecs]:
  assumes ck: "wire_codec ck ek vk" and cv: "wire_codec cv ev vv"
  shows "wire_codec (map_codec ck cv) (seq_bytes (enc_pair ek ev))
     (\<lambda>m. list_all (valid_pair vk vv) m \<and> short m \<and> map_wf m)"
proof -
  note p = wire_pair [OF ck cv]
  show ?thesis
    by unfold_locales
      (auto simp: map_codec_def wire_codec.pop_counted_at [OF p] fold_map_insert
        intro!: wire_codec.push_counted_holds [OF p])
qed

end
