(* ===== verification/Declare_Struct.thy ===== *)
theory Declare_Struct
  imports Wire_Containers
begin

text \<open>
  The struct macros of src/turnserver/base/declare_struct.h.  A macro takes the
  types of its members with their operations, so its model is a function from
  the members' operations to those of the struct: a struct of \<open>n\<close> members is
  the \<open>n\<close>-tuple of its members in the order of the macro.
  \<^item> \<open>NEW_DECLARE_SIMPLE_STRUCT_n\<close>: the default constructor and the assignment
    operator with its self-assignment test (copies are values);
  \<^item> \<open>NEW_DECLARE_STRUCT_n\<close>: \<open>operator<\<close> and \<open>operator==\<close>, written out as in the macro;
  \<^item> \<open>NEW_DECLARE_PACKABLE_n\<close>: the stream operators.
  The comparison operators are shown to be the lexicographic order of the
  members and hence a strict total order whenever those of the members are
  (\<open>cpp_order\<close>), and the stream operators to keep the contract \<open>wire_codec\<close>.
\<close>

section \<open>Plain structs\<close>

record 'a struct_ops =
  ctor :: 'a
  assign :: "bool \<Rightarrow> 'a \<Rightarrow> 'a \<Rightarrow> 'a"

text \<open>
  The first argument of \<open>assign\<close> is the test \<open>this == &r\<close>.  The two-member macro
  declares no assignment; the compiler's memberwise one has no such test, and
  on values it is the same function.
\<close>

definition NEW_DECLARE_SIMPLE_STRUCT_1 ::
  "'a \<Rightarrow> 'a struct_ops" where
  "NEW_DECLARE_SIMPLE_STRUCT_1 d1 =
     \<lparr>ctor = d1,
      assign = (\<lambda>self l1 r1.
        if self then l1 else r1)\<rparr>"

definition NEW_DECLARE_SIMPLE_STRUCT_2 ::
  "'a \<Rightarrow> 'b \<Rightarrow> ('a \<times> 'b) struct_ops" where
  "NEW_DECLARE_SIMPLE_STRUCT_2 d1 d2 =
     \<lparr>ctor = (d1, d2),
      assign = (\<lambda>self (l1, l2) (r1, r2).
        (r1, r2))\<rparr>"

definition NEW_DECLARE_SIMPLE_STRUCT_3 ::
  "'a \<Rightarrow> 'b \<Rightarrow> 'c \<Rightarrow> ('a \<times> 'b \<times> 'c) struct_ops" where
  "NEW_DECLARE_SIMPLE_STRUCT_3 d1 d2 d3 =
     \<lparr>ctor = (d1, d2, d3),
      assign = (\<lambda>self (l1, l2, l3) (r1, r2, r3).
        if self then (l1, l2, l3) else (r1, r2, r3))\<rparr>"

definition NEW_DECLARE_SIMPLE_STRUCT_4 ::
  "'a \<Rightarrow> 'b \<Rightarrow> 'c \<Rightarrow> 'd \<Rightarrow>
   ('a \<times> 'b \<times> 'c \<times> 'd) struct_ops" where
  "NEW_DECLARE_SIMPLE_STRUCT_4 d1 d2 d3 d4 =
     \<lparr>ctor = (d1, d2, d3, d4),
      assign = (\<lambda>self (l1, l2, l3, l4) (r1, r2, r3, r4).
        if self then (l1, l2, l3, l4) else (r1, r2, r3, r4))\<rparr>"

definition NEW_DECLARE_SIMPLE_STRUCT_5 ::
  "'a \<Rightarrow> 'b \<Rightarrow> 'c \<Rightarrow> 'd \<Rightarrow> 'e \<Rightarrow>
   ('a \<times> 'b \<times> 'c \<times> 'd \<times> 'e) struct_ops" where
  "NEW_DECLARE_SIMPLE_STRUCT_5 d1 d2 d3 d4 d5 =
     \<lparr>ctor = (d1, d2, d3, d4, d5),
      assign = (\<lambda>self (l1, l2, l3, l4, l5) (r1, r2, r3, r4, r5).
        if self then (l1, l2, l3, l4, l5) else (r1, r2, r3, r4, r5))\<rparr>"

definition NEW_DECLARE_SIMPLE_STRUCT_6 ::
  "'a \<Rightarrow> 'b \<Rightarrow> 'c \<Rightarrow> 'd \<Rightarrow> 'e \<Rightarrow>
   'f \<Rightarrow>
   ('a \<times> 'b \<times> 'c \<times> 'd \<times> 'e \<times> 'f) struct_ops" where
  "NEW_DECLARE_SIMPLE_STRUCT_6 d1 d2 d3 d4 d5 d6 =
     \<lparr>ctor = (d1, d2, d3, d4, d5, d6),
      assign = (\<lambda>self (l1, l2, l3, l4, l5, l6) (r1, r2, r3, r4, r5, r6).
        if self then (l1, l2, l3, l4, l5, l6) else (r1, r2, r3, r4, r5, r6))\<rparr>"

definition NEW_DECLARE_SIMPLE_STRUCT_7 ::
  "'a \<Rightarrow> 'b \<Rightarrow> 'c \<Rightarrow> 'd \<Rightarrow> 'e \<Rightarrow>
   'f \<Rightarrow> 'g \<Rightarrow>
   ('a \<times> 'b \<times> 'c \<times> 'd \<times> 'e \<times> 'f \<times> 'g) struct_ops" where
  "NEW_DECLARE_SIMPLE_STRUCT_7 d1 d2 d3 d4 d5 d6 d7 =
     \<lparr>ctor = (d1, d2, d3, d4, d5, d6, d7),
      assign = (\<lambda>self (l1, l2, l3, l4, l5, l6, l7) (r1, r2, r3, r4, r5, r6, r7).
        if self then (l1, l2, l3, l4, l5, l6, l7) else (r1, r2, r3, r4, r5, r6, r7))\<rparr>"

definition NEW_DECLARE_SIMPLE_STRUCT_8 ::
  "'a \<Rightarrow> 'b \<Rightarrow> 'c \<Rightarrow> 'd \<Rightarrow> 'e \<Rightarrow>
   'f \<Rightarrow> 'g \<Rightarrow> 'h \<Rightarrow>
   ('a \<times> 'b \<times> 'c \<times> 'd \<times> 'e \<times> 'f \<times> 'g \<times> 'h) struct_ops" where
  "NEW_DECLARE_SIMPLE_STRUCT_8 d1 d2 d3 d4 d5 d6 d7 d8 =
     \<lparr>ctor = (d1, d2, d3, d4, d5, d6, d7, d8),
      assign = (\<lambda>self (l1, l2, l3, l4, l5, l6, l7, l8) (r1, r2, r3, r4, r5, r6, r7, r8).
        if self then (l1, l2, l3, l4, l5, l6, l7, l8) else (r1, r2, r3, r4, r5, r6, r7, r8))\<rparr>"

definition NEW_DECLARE_SIMPLE_STRUCT_9 ::
  "'a \<Rightarrow> 'b \<Rightarrow> 'c \<Rightarrow> 'd \<Rightarrow> 'e \<Rightarrow>
   'f \<Rightarrow> 'g \<Rightarrow> 'h \<Rightarrow> 'i \<Rightarrow>
   ('a \<times> 'b \<times> 'c \<times> 'd \<times> 'e \<times> 'f \<times> 'g \<times> 'h \<times> 'i) struct_ops" where
  "NEW_DECLARE_SIMPLE_STRUCT_9 d1 d2 d3 d4 d5 d6 d7 d8 d9 =
     \<lparr>ctor = (d1, d2, d3, d4, d5, d6, d7, d8, d9),
      assign = (\<lambda>self (l1, l2, l3, l4, l5, l6, l7, l8, l9) (r1, r2, r3, r4, r5, r6, r7, r8, r9).
        if self then (l1, l2, l3, l4, l5, l6, l7, l8, l9) else (r1, r2, r3, r4, r5, r6, r7, r8, r9))\<rparr>"

section \<open>Comparison operators\<close>

record 'a cmp =
  cmp_lt :: "'a \<Rightarrow> 'a \<Rightarrow> bool"
  cmp_eq :: "'a \<Rightarrow> 'a \<Rightarrow> bool"

text \<open>\<open>operator!=\<close> of every macro.\<close>

definition cmp_ne :: "'a cmp \<Rightarrow> 'a \<Rightarrow> 'a \<Rightarrow> bool" where
  "cmp_ne o1 l r \<longleftrightarrow> \<not> cmp_eq o1 l r"

definition NEW_DECLARE_STRUCT_1 ::
  "'a cmp \<Rightarrow> 'a cmp" where
  "NEW_DECLARE_STRUCT_1 o1 =
     \<lparr>cmp_lt = (\<lambda>l1 r1.
         (cmp_lt o1 l1 r1)),
      cmp_eq = (\<lambda>l1 r1.
         cmp_eq o1 l1 r1)\<rparr>"

definition NEW_DECLARE_STRUCT_2 ::
  "'a cmp \<Rightarrow> 'b cmp \<Rightarrow> ('a \<times> 'b) cmp" where
  "NEW_DECLARE_STRUCT_2 o1 o2 =
     \<lparr>cmp_lt = (\<lambda>(l1, l2) (r1, r2).
         (cmp_lt o1 l1 r1) \<or>
         (cmp_eq o1 l1 r1 \<and> cmp_lt o2 l2 r2)),
      cmp_eq = (\<lambda>(l1, l2) (r1, r2).
         cmp_eq o1 l1 r1 \<and> cmp_eq o2 l2 r2)\<rparr>"

definition NEW_DECLARE_STRUCT_3 ::
  "'a cmp \<Rightarrow> 'b cmp \<Rightarrow> 'c cmp \<Rightarrow>
   ('a \<times> 'b \<times> 'c) cmp" where
  "NEW_DECLARE_STRUCT_3 o1 o2 o3 =
     \<lparr>cmp_lt = (\<lambda>(l1, l2, l3) (r1, r2, r3).
         (cmp_lt o1 l1 r1) \<or>
         (cmp_eq o1 l1 r1 \<and> cmp_lt o2 l2 r2) \<or>
         (cmp_eq o1 l1 r1 \<and> cmp_eq o2 l2 r2 \<and> cmp_lt o3 l3 r3)),
      cmp_eq = (\<lambda>(l1, l2, l3) (r1, r2, r3).
         cmp_eq o1 l1 r1 \<and> cmp_eq o2 l2 r2 \<and> cmp_eq o3 l3 r3)\<rparr>"

definition NEW_DECLARE_STRUCT_4 ::
  "'a cmp \<Rightarrow> 'b cmp \<Rightarrow> 'c cmp \<Rightarrow> 'd cmp \<Rightarrow>
   ('a \<times> 'b \<times> 'c \<times> 'd) cmp" where
  "NEW_DECLARE_STRUCT_4 o1 o2 o3 o4 =
     \<lparr>cmp_lt = (\<lambda>(l1, l2, l3, l4) (r1, r2, r3, r4).
         (cmp_lt o1 l1 r1) \<or>
         (cmp_eq o1 l1 r1 \<and> cmp_lt o2 l2 r2) \<or>
         (cmp_eq o1 l1 r1 \<and> cmp_eq o2 l2 r2 \<and> cmp_lt o3 l3 r3) \<or>
         (cmp_eq o1 l1 r1 \<and> cmp_eq o2 l2 r2 \<and> cmp_eq o3 l3 r3 \<and> cmp_lt o4 l4 r4)),
      cmp_eq = (\<lambda>(l1, l2, l3, l4) (r1, r2, r3, r4).
         cmp_eq o1 l1 r1 \<and> cmp_eq o2 l2 r2 \<and> cmp_eq o3 l3 r3 \<and> cmp_eq o4 l4 r4)\<rparr>"

definition NEW_DECLARE_STRUCT_5 ::
  "'a cmp \<Rightarrow> 'b cmp \<Rightarrow> 'c cmp \<Rightarrow> 'd cmp \<Rightarrow>
   'e cmp \<Rightarrow> ('a \<times> 'b \<times> 'c \<times> 'd \<times> 'e) cmp" where
  "NEW_DECLARE_STRUCT_5 o1 o2 o3 o4 o5 =
     \<lparr>cmp_lt = (\<lambda>(l1, l2, l3, l4, l5) (r1, r2, r3, r4, r5).
         (cmp_lt o1 l1 r1) \<or>
         (cmp_eq o1 l1 r1 \<and> cmp_lt o2 l2 r2) \<or>
         (cmp_eq o1 l1 r1 \<and> cmp_eq o2 l2 r2 \<and> cmp_lt o3 l3 r3) \<or>
         (cmp_eq o1 l1 r1 \<and> cmp_eq o2 l2 r2 \<and> cmp_eq o3 l3 r3 \<and> cmp_lt o4 l4 r4) \<or>
         (cmp_eq o1 l1 r1 \<and> cmp_eq o2 l2 r2 \<and> cmp_eq o3 l3 r3 \<and>
          cmp_eq o4 l4 r4 \<and> cmp_lt o5 l5 r5)),
      cmp_eq = (\<lambda>(l1, l2, l3, l4, l5) (r1, r2, r3, r4, r5).
         cmp_eq o1 l1 r1 \<and> cmp_eq o2 l2 r2 \<and> cmp_eq o3 l3 r3 \<and>
         cmp_eq o4 l4 r4 \<and> cmp_eq o5 l5 r5)\<rparr>"

definition NEW_DECLARE_STRUCT_6 ::
  "'a cmp \<Rightarrow> 'b cmp \<Rightarrow> 'c cmp \<Rightarrow> 'd cmp \<Rightarrow>
   'e cmp \<Rightarrow> 'f cmp \<Rightarrow>
   ('a \<times> 'b \<times> 'c \<times> 'd \<times> 'e \<times> 'f) cmp" where
  "NEW_DECLARE_STRUCT_6 o1 o2 o3 o4 o5 o6 =
     \<lparr>cmp_lt = (\<lambda>(l1, l2, l3, l4, l5, l6) (r1, r2, r3, r4, r5, r6).
         (cmp_lt o1 l1 r1) \<or>
         (cmp_eq o1 l1 r1 \<and> cmp_lt o2 l2 r2) \<or>
         (cmp_eq o1 l1 r1 \<and> cmp_eq o2 l2 r2 \<and> cmp_lt o3 l3 r3) \<or>
         (cmp_eq o1 l1 r1 \<and> cmp_eq o2 l2 r2 \<and> cmp_eq o3 l3 r3 \<and> cmp_lt o4 l4 r4) \<or>
         (cmp_eq o1 l1 r1 \<and> cmp_eq o2 l2 r2 \<and> cmp_eq o3 l3 r3 \<and>
          cmp_eq o4 l4 r4 \<and> cmp_lt o5 l5 r5) \<or>
         (cmp_eq o1 l1 r1 \<and> cmp_eq o2 l2 r2 \<and> cmp_eq o3 l3 r3 \<and>
          cmp_eq o4 l4 r4 \<and> cmp_eq o5 l5 r5 \<and> cmp_lt o6 l6 r6)),
      cmp_eq = (\<lambda>(l1, l2, l3, l4, l5, l6) (r1, r2, r3, r4, r5, r6).
         cmp_eq o1 l1 r1 \<and> cmp_eq o2 l2 r2 \<and> cmp_eq o3 l3 r3 \<and>
         cmp_eq o4 l4 r4 \<and> cmp_eq o5 l5 r5 \<and> cmp_eq o6 l6 r6)\<rparr>"

definition NEW_DECLARE_STRUCT_7 ::
  "'a cmp \<Rightarrow> 'b cmp \<Rightarrow> 'c cmp \<Rightarrow> 'd cmp \<Rightarrow>
   'e cmp \<Rightarrow> 'f cmp \<Rightarrow> 'g cmp \<Rightarrow>
   ('a \<times> 'b \<times> 'c \<times> 'd \<times> 'e \<times> 'f \<times> 'g) cmp" where
  "NEW_DECLARE_STRUCT_7 o1 o2 o3 o4 o5 o6 o7 =
     \<lparr>cmp_lt = (\<lambda>(l1, l2, l3, l4, l5, l6, l7) (r1, r2, r3, r4, r5, r6, r7).
         (cmp_lt o1 l1 r1) \<or>
         (cmp_eq o1 l1 r1 \<and> cmp_lt o2 l2 r2) \<or>
         (cmp_eq o1 l1 r1 \<and> cmp_eq o2 l2 r2 \<and> cmp_lt o3 l3 r3) \<or>
         (cmp_eq o1 l1 r1 \<and> cmp_eq o2 l2 r2 \<and> cmp_eq o3 l3 r3 \<and> cmp_lt o4 l4 r4) \<or>
         (cmp_eq o1 l1 r1 \<and> cmp_eq o2 l2 r2 \<and> cmp_eq o3 l3 r3 \<and>
          cmp_eq o4 l4 r4 \<and> cmp_lt o5 l5 r5) \<or>
         (cmp_eq o1 l1 r1 \<and> cmp_eq o2 l2 r2 \<and> cmp_eq o3 l3 r3 \<and>
          cmp_eq o4 l4 r4 \<and> cmp_eq o5 l5 r5 \<and> cmp_lt o6 l6 r6) \<or>
         (cmp_eq o1 l1 r1 \<and> cmp_eq o2 l2 r2 \<and> cmp_eq o3 l3 r3 \<and>
          cmp_eq o4 l4 r4 \<and> cmp_eq o5 l5 r5 \<and> cmp_eq o6 l6 r6 \<and> cmp_lt o7 l7 r7)),
      cmp_eq = (\<lambda>(l1, l2, l3, l4, l5, l6, l7) (r1, r2, r3, r4, r5, r6, r7).
         cmp_eq o1 l1 r1 \<and> cmp_eq o2 l2 r2 \<and> cmp_eq o3 l3 r3 \<and>
         cmp_eq o4 l4 r4 \<and> cmp_eq o5 l5 r5 \<and> cmp_eq o6 l6 r6 \<and> cmp_eq o7 l7 r7)\<rparr>"

definition NEW_DECLARE_STRUCT_8 ::
  "'a cmp \<Rightarrow> 'b cmp \<Rightarrow> 'c cmp \<Rightarrow> 'd cmp \<Rightarrow>
   'e cmp \<Rightarrow> 'f cmp \<Rightarrow> 'g cmp \<Rightarrow> 'h cmp \<Rightarrow>
   ('a \<times> 'b \<times> 'c \<times> 'd \<times> 'e \<times> 'f \<times> 'g \<times> 'h) cmp" where
  "NEW_DECLARE_STRUCT_8 o1 o2 o3 o4 o5 o6 o7 o8 =
     \<lparr>cmp_lt = (\<lambda>(l1, l2, l3, l4, l5, l6, l7, l8) (r1, r2, r3, r4, r5, r6, r7, r8).
         (cmp_lt o1 l1 r1) \<or>
         (cmp_eq o1 l1 r1 \<and> cmp_lt o2 l2 r2) \<or>
         (cmp_eq o1 l1 r1 \<and> cmp_eq o2 l2 r2 \<and> cmp_lt o3 l3 r3) \<or>
         (cmp_eq o1 l1 r1 \<and> cmp_eq o2 l2 r2 \<and> cmp_eq o3 l3 r3 \<and> cmp_lt o4 l4 r4) \<or>
         (cmp_eq o1 l1 r1 \<and> cmp_eq o2 l2 r2 \<and> cmp_eq o3 l3 r3 \<and>
          cmp_eq o4 l4 r4 \<and> cmp_lt o5 l5 r5) \<or>
         (cmp_eq o1 l1 r1 \<and> cmp_eq o2 l2 r2 \<and> cmp_eq o3 l3 r3 \<and>
          cmp_eq o4 l4 r4 \<and> cmp_eq o5 l5 r5 \<and> cmp_lt o6 l6 r6) \<or>
         (cmp_eq o1 l1 r1 \<and> cmp_eq o2 l2 r2 \<and> cmp_eq o3 l3 r3 \<and>
          cmp_eq o4 l4 r4 \<and> cmp_eq o5 l5 r5 \<and> cmp_eq o6 l6 r6 \<and> cmp_lt o7 l7 r7) \<or>
         (cmp_eq o1 l1 r1 \<and> cmp_eq o2 l2 r2 \<and> cmp_eq o3 l3 r3 \<and>
          cmp_eq o4 l4 r4 \<and> cmp_eq o5 l5 r5 \<and> cmp_eq o6 l6 r6 \<and>
          cmp_eq o7 l7 r7 \<and> cmp_lt o8 l8 r8)),
      cmp_eq = (\<lambda>(l1, l2, l3, l4, l5, l6, l7, l8) (r1, r2, r3, r4, r5, r6, r7, r8).
         cmp_eq o1 l1 r1 \<and> cmp_eq o2 l2 r2 \<and> cmp_eq o3 l3 r3 \<and>
         cmp_eq o4 l4 r4 \<and> cmp_eq o5 l5 r5 \<and> cmp_eq o6 l6 r6 \<and>
         cmp_eq o7 l7 r7 \<and> cmp_eq o8 l8 r8)\<rparr>"

definition NEW_DECLARE_STRUCT_9 ::
  "'a cmp \<Rightarrow> 'b cmp \<Rightarrow> 'c cmp \<Rightarrow> 'd cmp \<Rightarrow>
   'e cmp \<Rightarrow> 'f cmp \<Rightarrow> 'g cmp \<Rightarrow> 'h cmp \<Rightarrow>
   'i cmp \<Rightarrow>
   ('a \<times> 'b \<times> 'c \<times> 'd \<times> 'e \<times> 'f \<times> 'g \<times> 'h \<times> 'i) cmp" where
  "NEW_DECLARE_STRUCT_9 o1 o2 o3 o4 o5 o6 o7 o8 o9 =
     \<lparr>cmp_lt = (\<lambda>(l1, l2, l3, l4, l5, l6, l7, l8, l9) (r1, r2, r3, r4, r5, r6, r7, r8, r9).
         (cmp_lt o1 l1 r1) \<or>
         (cmp_eq o1 l1 r1 \<and> cmp_lt o2 l2 r2) \<or>
         (cmp_eq o1 l1 r1 \<and> cmp_eq o2 l2 r2 \<and> cmp_lt o3 l3 r3) \<or>
         (cmp_eq o1 l1 r1 \<and> cmp_eq o2 l2 r2 \<and> cmp_eq o3 l3 r3 \<and> cmp_lt o4 l4 r4) \<or>
         (cmp_eq o1 l1 r1 \<and> cmp_eq o2 l2 r2 \<and> cmp_eq o3 l3 r3 \<and>
          cmp_eq o4 l4 r4 \<and> cmp_lt o5 l5 r5) \<or>
         (cmp_eq o1 l1 r1 \<and> cmp_eq o2 l2 r2 \<and> cmp_eq o3 l3 r3 \<and>
          cmp_eq o4 l4 r4 \<and> cmp_eq o5 l5 r5 \<and> cmp_lt o6 l6 r6) \<or>
         (cmp_eq o1 l1 r1 \<and> cmp_eq o2 l2 r2 \<and> cmp_eq o3 l3 r3 \<and>
          cmp_eq o4 l4 r4 \<and> cmp_eq o5 l5 r5 \<and> cmp_eq o6 l6 r6 \<and> cmp_lt o7 l7 r7) \<or>
         (cmp_eq o1 l1 r1 \<and> cmp_eq o2 l2 r2 \<and> cmp_eq o3 l3 r3 \<and>
          cmp_eq o4 l4 r4 \<and> cmp_eq o5 l5 r5 \<and> cmp_eq o6 l6 r6 \<and>
          cmp_eq o7 l7 r7 \<and> cmp_lt o8 l8 r8) \<or>
         (cmp_eq o1 l1 r1 \<and> cmp_eq o2 l2 r2 \<and> cmp_eq o3 l3 r3 \<and>
          cmp_eq o4 l4 r4 \<and> cmp_eq o5 l5 r5 \<and> cmp_eq o6 l6 r6 \<and>
          cmp_eq o7 l7 r7 \<and> cmp_eq o8 l8 r8 \<and> cmp_lt o9 l9 r9)),
      cmp_eq = (\<lambda>(l1, l2, l3, l4, l5, l6, l7, l8, l9) (r1, r2, r3, r4, r5, r6, r7, r8, r9).
         cmp_eq o1 l1 r1 \<and> cmp_eq o2 l2 r2 \<and> cmp_eq o3 l3 r3 \<and>
         cmp_eq o4 l4 r4 \<and> cmp_eq o5 l5 r5 \<and> cmp_eq o6 l6 r6 \<and>
         cmp_eq o7 l7 r7 \<and> cmp_eq o8 l8 r8 \<and> cmp_eq o9 l9 r9)\<rparr>"

section \<open>Stream operators\<close>

definition NEW_DECLARE_PACKABLE_1 ::
  "'a codec \<Rightarrow> 'a codec" where
  "NEW_DECLARE_PACKABLE_1 c1 =
     \<lparr>push = (\<lambda>m1 p.
        do { push c1 m1 p }),
      pop = (\<lambda>m1 u.
        do { (m1, u) \<leftarrow> pop c1 m1 u; Some (m1, u) }),
      dflt = ctor (NEW_DECLARE_SIMPLE_STRUCT_1
        (dflt c1))\<rparr>"

definition NEW_DECLARE_PACKABLE_2 ::
  "'a codec \<Rightarrow> 'b codec \<Rightarrow> ('a \<times> 'b) codec" where
  "NEW_DECLARE_PACKABLE_2 c1 c2 =
     \<lparr>push = (\<lambda>(m1, m2) p.
        do { p \<leftarrow> push c1 m1 p; push c2 m2 p }),
      pop = (\<lambda>(m1, m2) u.
        do { (m1, u) \<leftarrow> pop c1 m1 u; (m2, u) \<leftarrow> pop c2 m2 u;
             Some ((m1, m2), u) }),
      dflt = ctor (NEW_DECLARE_SIMPLE_STRUCT_2
        (dflt c1) (dflt c2))\<rparr>"

definition NEW_DECLARE_PACKABLE_3 ::
  "'a codec \<Rightarrow> 'b codec \<Rightarrow> 'c codec \<Rightarrow>
   ('a \<times> 'b \<times> 'c) codec" where
  "NEW_DECLARE_PACKABLE_3 c1 c2 c3 =
     \<lparr>push = (\<lambda>(m1, m2, m3) p.
        do { p \<leftarrow> push c1 m1 p; p \<leftarrow> push c2 m2 p; push c3 m3 p }),
      pop = (\<lambda>(m1, m2, m3) u.
        do { (m1, u) \<leftarrow> pop c1 m1 u; (m2, u) \<leftarrow> pop c2 m2 u;
             (m3, u) \<leftarrow> pop c3 m3 u; Some ((m1, m2, m3), u) }),
      dflt = ctor (NEW_DECLARE_SIMPLE_STRUCT_3
        (dflt c1) (dflt c2) (dflt c3))\<rparr>"

definition NEW_DECLARE_PACKABLE_4 ::
  "'a codec \<Rightarrow> 'b codec \<Rightarrow> 'c codec \<Rightarrow>
   'd codec \<Rightarrow> ('a \<times> 'b \<times> 'c \<times> 'd) codec" where
  "NEW_DECLARE_PACKABLE_4 c1 c2 c3 c4 =
     \<lparr>push = (\<lambda>(m1, m2, m3, m4) p.
        do { p \<leftarrow> push c1 m1 p; p \<leftarrow> push c2 m2 p;
             p \<leftarrow> push c3 m3 p; push c4 m4 p }),
      pop = (\<lambda>(m1, m2, m3, m4) u.
        do { (m1, u) \<leftarrow> pop c1 m1 u; (m2, u) \<leftarrow> pop c2 m2 u;
             (m3, u) \<leftarrow> pop c3 m3 u; (m4, u) \<leftarrow> pop c4 m4 u;
             Some ((m1, m2, m3, m4), u) }),
      dflt = ctor (NEW_DECLARE_SIMPLE_STRUCT_4
        (dflt c1) (dflt c2) (dflt c3) (dflt c4))\<rparr>"

definition NEW_DECLARE_PACKABLE_5 ::
  "'a codec \<Rightarrow> 'b codec \<Rightarrow> 'c codec \<Rightarrow>
   'd codec \<Rightarrow> 'e codec \<Rightarrow>
   ('a \<times> 'b \<times> 'c \<times> 'd \<times> 'e) codec" where
  "NEW_DECLARE_PACKABLE_5 c1 c2 c3 c4 c5 =
     \<lparr>push = (\<lambda>(m1, m2, m3, m4, m5) p.
        do { p \<leftarrow> push c1 m1 p; p \<leftarrow> push c2 m2 p;
             p \<leftarrow> push c3 m3 p; p \<leftarrow> push c4 m4 p; push c5 m5 p }),
      pop = (\<lambda>(m1, m2, m3, m4, m5) u.
        do { (m1, u) \<leftarrow> pop c1 m1 u; (m2, u) \<leftarrow> pop c2 m2 u;
             (m3, u) \<leftarrow> pop c3 m3 u; (m4, u) \<leftarrow> pop c4 m4 u;
             (m5, u) \<leftarrow> pop c5 m5 u; Some ((m1, m2, m3, m4, m5), u) }),
      dflt = ctor (NEW_DECLARE_SIMPLE_STRUCT_5
        (dflt c1) (dflt c2) (dflt c3) (dflt c4) (dflt c5))\<rparr>"

definition NEW_DECLARE_PACKABLE_6 ::
  "'a codec \<Rightarrow> 'b codec \<Rightarrow> 'c codec \<Rightarrow>
   'd codec \<Rightarrow> 'e codec \<Rightarrow> 'f codec \<Rightarrow>
   ('a \<times> 'b \<times> 'c \<times> 'd \<times> 'e \<times> 'f) codec" where
  "NEW_DECLARE_PACKABLE_6 c1 c2 c3 c4 c5 c6 =
     \<lparr>push = (\<lambda>(m1, m2, m3, m4, m5, m6) p.
        do { p \<leftarrow> push c1 m1 p; p \<leftarrow> push c2 m2 p;
             p \<leftarrow> push c3 m3 p; p \<leftarrow> push c4 m4 p;
             p \<leftarrow> push c5 m5 p; push c6 m6 p }),
      pop = (\<lambda>(m1, m2, m3, m4, m5, m6) u.
        do { (m1, u) \<leftarrow> pop c1 m1 u; (m2, u) \<leftarrow> pop c2 m2 u;
             (m3, u) \<leftarrow> pop c3 m3 u; (m4, u) \<leftarrow> pop c4 m4 u;
             (m5, u) \<leftarrow> pop c5 m5 u; (m6, u) \<leftarrow> pop c6 m6 u;
             Some ((m1, m2, m3, m4, m5, m6), u) }),
      dflt = ctor (NEW_DECLARE_SIMPLE_STRUCT_6
        (dflt c1) (dflt c2) (dflt c3) (dflt c4) (dflt c5) (dflt c6))\<rparr>"

definition NEW_DECLARE_PACKABLE_7 ::
  "'a codec \<Rightarrow> 'b codec \<Rightarrow> 'c codec \<Rightarrow>
   'd codec \<Rightarrow> 'e codec \<Rightarrow> 'f codec \<Rightarrow>
   'g codec \<Rightarrow>
   ('a \<times> 'b \<times> 'c \<times> 'd \<times> 'e \<times> 'f \<times> 'g) codec" where
  "NEW_DECLARE_PACKABLE_7 c1 c2 c3 c4 c5 c6 c7 =
     \<lparr>push = (\<lambda>(m1, m2, m3, m4, m5, m6, m7) p.
        do { p \<leftarrow> push c1 m1 p; p \<leftarrow> push c2 m2 p;
             p \<leftarrow> push c3 m3 p; p \<leftarrow> push c4 m4 p;
             p \<leftarrow> push c5 m5 p; p \<leftarrow> push c6 m6 p; push c7 m7 p }),
      pop = (\<lambda>(m1, m2, m3, m4, m5, m6, m7) u.
        do { (m1, u) \<leftarrow> pop c1 m1 u; (m2, u) \<leftarrow> pop c2 m2 u;
             (m3, u) \<leftarrow> pop c3 m3 u; (m4, u) \<leftarrow> pop c4 m4 u;
             (m5, u) \<leftarrow> pop c5 m5 u; (m6, u) \<leftarrow> pop c6 m6 u;
             (m7, u) \<leftarrow> pop c7 m7 u; Some ((m1, m2, m3, m4, m5, m6, m7), u) }),
      dflt = ctor (NEW_DECLARE_SIMPLE_STRUCT_7
        (dflt c1) (dflt c2) (dflt c3) (dflt c4) (dflt c5) (dflt c6) (dflt c7))\<rparr>"

definition NEW_DECLARE_PACKABLE_8 ::
  "'a codec \<Rightarrow> 'b codec \<Rightarrow> 'c codec \<Rightarrow>
   'd codec \<Rightarrow> 'e codec \<Rightarrow> 'f codec \<Rightarrow>
   'g codec \<Rightarrow> 'h codec \<Rightarrow>
   ('a \<times> 'b \<times> 'c \<times> 'd \<times> 'e \<times> 'f \<times> 'g \<times> 'h) codec" where
  "NEW_DECLARE_PACKABLE_8 c1 c2 c3 c4 c5 c6 c7 c8 =
     \<lparr>push = (\<lambda>(m1, m2, m3, m4, m5, m6, m7, m8) p.
        do { p \<leftarrow> push c1 m1 p; p \<leftarrow> push c2 m2 p;
             p \<leftarrow> push c3 m3 p; p \<leftarrow> push c4 m4 p;
             p \<leftarrow> push c5 m5 p; p \<leftarrow> push c6 m6 p;
             p \<leftarrow> push c7 m7 p; push c8 m8 p }),
      pop = (\<lambda>(m1, m2, m3, m4, m5, m6, m7, m8) u.
        do { (m1, u) \<leftarrow> pop c1 m1 u; (m2, u) \<leftarrow> pop c2 m2 u;
             (m3, u) \<leftarrow> pop c3 m3 u; (m4, u) \<leftarrow> pop c4 m4 u;
             (m5, u) \<leftarrow> pop c5 m5 u; (m6, u) \<leftarrow> pop c6 m6 u;
             (m7, u) \<leftarrow> pop c7 m7 u; (m8, u) \<leftarrow> pop c8 m8 u;
             Some ((m1, m2, m3, m4, m5, m6, m7, m8), u) }),
      dflt = ctor (NEW_DECLARE_SIMPLE_STRUCT_8
        (dflt c1) (dflt c2) (dflt c3) (dflt c4) (dflt c5) (dflt c6) (dflt c7) (dflt c8))\<rparr>"

definition NEW_DECLARE_PACKABLE_9 ::
  "'a codec \<Rightarrow> 'b codec \<Rightarrow> 'c codec \<Rightarrow>
   'd codec \<Rightarrow> 'e codec \<Rightarrow> 'f codec \<Rightarrow>
   'g codec \<Rightarrow> 'h codec \<Rightarrow> 'i codec \<Rightarrow>
   ('a \<times> 'b \<times> 'c \<times> 'd \<times> 'e \<times> 'f \<times> 'g \<times> 'h \<times> 'i) codec" where
  "NEW_DECLARE_PACKABLE_9 c1 c2 c3 c4 c5 c6 c7 c8 c9 =
     \<lparr>push = (\<lambda>(m1, m2, m3, m4, m5, m6, m7, m8, m9) p.
        do { p \<leftarrow> push c1 m1 p; p \<leftarrow> push c2 m2 p;
             p \<leftarrow> push c3 m3 p; p \<leftarrow> push c4 m4 p;
             p \<leftarrow> push c5 m5 p; p \<leftarrow> push c6 m6 p;
             p \<leftarrow> push c7 m7 p; p \<leftarrow> push c8 m8 p; push c9 m9 p }),
      pop = (\<lambda>(m1, m2, m3, m4, m5, m6, m7, m8, m9) u.
        do { (m1, u) \<leftarrow> pop c1 m1 u; (m2, u) \<leftarrow> pop c2 m2 u;
             (m3, u) \<leftarrow> pop c3 m3 u; (m4, u) \<leftarrow> pop c4 m4 u;
             (m5, u) \<leftarrow> pop c5 m5 u; (m6, u) \<leftarrow> pop c6 m6 u;
             (m7, u) \<leftarrow> pop c7 m7 u; (m8, u) \<leftarrow> pop c8 m8 u;
             (m9, u) \<leftarrow> pop c9 m9 u; Some ((m1, m2, m3, m4, m5, m6, m7, m8, m9), u) }),
      dflt = ctor (NEW_DECLARE_SIMPLE_STRUCT_9
        (dflt c1) (dflt c2) (dflt c3) (dflt c4) (dflt c5) (dflt c6) (dflt c7) (dflt c8)
        (dflt c9))\<rparr>"

section \<open>The order contract\<close>

text \<open>What \<open>std::map\<close>, \<open>std::set\<close> and sorting rely on.\<close>

locale cpp_order =
  fixes ops :: "'a cmp"
  assumes eq_iff: "cmp_eq ops a b \<longleftrightarrow> a = b"
    and irrefl: "\<not> cmp_lt ops a a"
    and trans: "cmp_lt ops a b \<Longrightarrow> cmp_lt ops b d \<Longrightarrow> cmp_lt ops a d"
    and total: "a \<noteq> b \<Longrightarrow> cmp_lt ops a b \<or> cmp_lt ops b a"
begin

lemma asym: "cmp_lt ops a b \<Longrightarrow> \<not> cmp_lt ops b a"
  using irrefl trans by blast

lemma trichotomy:
  "(cmp_lt ops a b \<and> \<not> cmp_eq ops a b \<and> \<not> cmp_lt ops b a) \<or>
   (\<not> cmp_lt ops a b \<and> cmp_eq ops a b \<and> \<not> cmp_lt ops b a) \<or>
   (\<not> cmp_lt ops a b \<and> \<not> cmp_eq ops a b \<and> cmp_lt ops b a)"
  using eq_iff irrefl asym total by metis

lemma ne_iff: "cmp_ne ops a b \<longleftrightarrow> a \<noteq> b"
  by (simp add: cmp_ne_def eq_iff)

end

named_theorems cpp_orders \<open>operators that satisfy the order contract\<close>

definition prim_cmp :: "'a::linorder cmp" where
  "prim_cmp = \<lparr>cmp_lt = (<), cmp_eq = (=)\<rparr>"

lemma order_prim [cpp_orders]: "cpp_order prim_cmp"
  by unfold_locales (auto simp: prim_cmp_def)

definition lex_cmp :: "'a cmp \<Rightarrow> 'b cmp \<Rightarrow> ('a \<times> 'b) cmp" where
  "lex_cmp o1 o2 =
     \<lparr>cmp_lt = (\<lambda>(a, b) (a', b'). cmp_lt o1 a a' \<or> (cmp_eq o1 a a' \<and> cmp_lt o2 b b')),
      cmp_eq = (\<lambda>(a, b) (a', b'). cmp_eq o1 a a' \<and> cmp_eq o2 b b')\<rparr>"

lemma order_lex [cpp_orders]:
  assumes o1: "cpp_order o1" and o2: "cpp_order o2"
  shows "cpp_order (lex_cmp o1 o2)"
proof -
  note eq = cpp_order.eq_iff [OF o1] cpp_order.eq_iff [OF o2]
  note irr = cpp_order.irrefl [OF o1] cpp_order.irrefl [OF o2]
  note tot = cpp_order.total [OF o1] cpp_order.total [OF o2]
  have tr: "cmp_lt (lex_cmp o1 o2) x z" if "cmp_lt (lex_cmp o1 o2) x y" "cmp_lt (lex_cmp o1 o2) y z" for x y z
    using that cpp_order.trans [OF o1] cpp_order.trans [OF o2]
    by (auto simp: lex_cmp_def eq split: prod.splits)
  have to: "cmp_lt (lex_cmp o1 o2) x y \<or> cmp_lt (lex_cmp o1 o2) y x" if "x \<noteq> y" for x y
    using that tot(1) [of "fst x" "fst y"] tot(2) [of "snd x" "snd y"]
    by (cases x; cases y) (auto simp: lex_cmp_def eq)
  show ?thesis
  proof
    show "cmp_eq (lex_cmp o1 o2) a b \<longleftrightarrow> a = b" for a b
      by (auto simp: lex_cmp_def eq split: prod.splits)
    show "\<not> cmp_lt (lex_cmp o1 o2) a a" for a
      by (auto simp: lex_cmp_def irr split: prod.splits)
  qed (fact tr to)+
qed

lemma STRUCT_1_lex: "NEW_DECLARE_STRUCT_1 o1 = o1"
  by (cases o1) (simp add: NEW_DECLARE_STRUCT_1_def)

lemma STRUCT_2_lex: "NEW_DECLARE_STRUCT_2 o1 o2 =
    lex_cmp o1 o2"
  by (auto simp: NEW_DECLARE_STRUCT_2_def lex_cmp_def fun_eq_iff)

lemma STRUCT_3_lex: "NEW_DECLARE_STRUCT_3 o1 o2 o3 =
    lex_cmp o1 (lex_cmp o2 o3)"
  by (auto simp: NEW_DECLARE_STRUCT_3_def lex_cmp_def fun_eq_iff)

lemma STRUCT_4_lex: "NEW_DECLARE_STRUCT_4 o1 o2 o3 o4 =
    lex_cmp o1 (lex_cmp o2 (lex_cmp o3 o4))"
  by (auto simp: NEW_DECLARE_STRUCT_4_def lex_cmp_def fun_eq_iff)

lemma STRUCT_5_lex: "NEW_DECLARE_STRUCT_5 o1 o2 o3 o4 o5 =
    lex_cmp o1 (lex_cmp o2 (lex_cmp o3 (lex_cmp o4 o5)))"
  by (auto simp: NEW_DECLARE_STRUCT_5_def lex_cmp_def fun_eq_iff)

lemma STRUCT_6_lex: "NEW_DECLARE_STRUCT_6 o1 o2 o3 o4 o5 o6 =
    lex_cmp o1 (lex_cmp o2 (lex_cmp o3 (lex_cmp o4 (lex_cmp o5 o6))))"
  by (auto simp: NEW_DECLARE_STRUCT_6_def lex_cmp_def fun_eq_iff)

lemma STRUCT_7_lex: "NEW_DECLARE_STRUCT_7 o1 o2 o3 o4 o5 o6 o7 =
    lex_cmp o1 (lex_cmp o2 (lex_cmp o3 (lex_cmp o4 (lex_cmp o5 (lex_cmp o6 o7)))))"
  by (auto simp: NEW_DECLARE_STRUCT_7_def lex_cmp_def fun_eq_iff)

lemma STRUCT_8_lex: "NEW_DECLARE_STRUCT_8 o1 o2 o3 o4 o5 o6 o7 o8 =
    lex_cmp o1 (lex_cmp o2 (lex_cmp o3 (lex_cmp o4 (lex_cmp o5 (lex_cmp o6 (lex_cmp o7 o8))))))"
  by (auto simp: NEW_DECLARE_STRUCT_8_def lex_cmp_def fun_eq_iff)

lemma STRUCT_9_lex: "NEW_DECLARE_STRUCT_9 o1 o2 o3 o4 o5 o6 o7 o8 o9 =
    lex_cmp o1 (lex_cmp o2 (lex_cmp o3 (lex_cmp o4 (lex_cmp o5 (lex_cmp o6 (lex_cmp o7 (lex_cmp o8 o9)))))))"
  by (auto simp: NEW_DECLARE_STRUCT_9_def lex_cmp_def fun_eq_iff)

lemmas STRUCT_lex = STRUCT_1_lex STRUCT_2_lex STRUCT_3_lex STRUCT_4_lex STRUCT_5_lex STRUCT_6_lex STRUCT_7_lex STRUCT_8_lex STRUCT_9_lex

text \<open>C34. The operators \<open><\<close> and \<open>==\<close> that the struct macros generate are a strict total order and
  its equality, for structs of one to nine members, whenever those of the
  member types are; so structs can be keys of \<open>std::map\<close> and \<open>std::set\<close>.\<close>

theorem struct_operators_order:
  assumes "cpp_order o1" and "cpp_order o2" and "cpp_order o3" and "cpp_order o4" and "cpp_order o5"
    and "cpp_order o6" and "cpp_order o7" and "cpp_order o8" and "cpp_order o9"
  shows "cpp_order (NEW_DECLARE_STRUCT_1 o1) \<and>
     cpp_order (NEW_DECLARE_STRUCT_2 o1 o2) \<and>
     cpp_order (NEW_DECLARE_STRUCT_3 o1 o2 o3) \<and>
     cpp_order (NEW_DECLARE_STRUCT_4 o1 o2 o3 o4) \<and>
     cpp_order (NEW_DECLARE_STRUCT_5 o1 o2 o3 o4 o5) \<and>
     cpp_order (NEW_DECLARE_STRUCT_6 o1 o2 o3 o4 o5 o6) \<and>
     cpp_order (NEW_DECLARE_STRUCT_7 o1 o2 o3 o4 o5 o6 o7) \<and>
     cpp_order (NEW_DECLARE_STRUCT_8 o1 o2 o3 o4 o5 o6 o7 o8) \<and>
     cpp_order (NEW_DECLARE_STRUCT_9 o1 o2 o3 o4 o5 o6 o7 o8 o9)"
  unfolding STRUCT_lex by (intro conjI order_lex assms)

theorem struct_operators_order_witness:
  "cpp_order (NEW_DECLARE_STRUCT_9 (prim_cmp :: nat cmp) (prim_cmp :: nat cmp) (prim_cmp :: nat cmp) (prim_cmp :: nat cmp) (prim_cmp :: nat cmp) (prim_cmp :: nat cmp) (prim_cmp :: nat cmp) (prim_cmp :: nat cmp) (prim_cmp :: nat cmp))"
  using struct_operators_order [OF order_prim order_prim order_prim order_prim order_prim order_prim order_prim order_prim order_prim ]
  by blast

section \<open>The wire contract\<close>

lemma bind_Some_pair: "Option.bind r (\<lambda>(m, u). Some (m, u)) = r"
  by (cases r) auto

lemma PACKABLE_1_nest: "NEW_DECLARE_PACKABLE_1 c1 = c1"
  by (cases c1) (simp add: NEW_DECLARE_PACKABLE_1_def NEW_DECLARE_SIMPLE_STRUCT_1_def fun_eq_iff
      bind_Some_pair)

lemma wire_PACKABLE_1 [wire_codecs]: "wire_codec c1 e1 v1 \<Longrightarrow> wire_codec (NEW_DECLARE_PACKABLE_1 c1) e1 v1"
  by (simp add: PACKABLE_1_nest)

lemma PACKABLE_2_nest: "NEW_DECLARE_PACKABLE_2 c1 c2 =
    pair_codec c1 c2"
  by (simp add: NEW_DECLARE_PACKABLE_2_def pair_codec_def NEW_DECLARE_SIMPLE_STRUCT_2_def fun_eq_iff split_def)

lemma wire_PACKABLE_2 [wire_codecs]:
  assumes "wire_codec c1 e1 v1" "wire_codec c2 e2 v2"
  shows "wire_codec (NEW_DECLARE_PACKABLE_2 c1 c2)
    (enc_pair e1 e2)
    (valid_pair v1 v2)"
  unfolding PACKABLE_2_nest by (intro wire_pair assms)

lemma PACKABLE_3_nest: "NEW_DECLARE_PACKABLE_3 c1 c2 c3 =
    pair_codec c1 (pair_codec c2 c3)"
  by (simp add: NEW_DECLARE_PACKABLE_3_def pair_codec_def NEW_DECLARE_SIMPLE_STRUCT_3_def fun_eq_iff split_def)

lemma wire_PACKABLE_3 [wire_codecs]:
  assumes "wire_codec c1 e1 v1" "wire_codec c2 e2 v2" "wire_codec c3 e3 v3"
  shows "wire_codec (NEW_DECLARE_PACKABLE_3 c1 c2 c3)
    (enc_pair e1 (enc_pair e2 e3))
    (valid_pair v1 (valid_pair v2 v3))"
  unfolding PACKABLE_3_nest by (intro wire_pair assms)

lemma PACKABLE_4_nest: "NEW_DECLARE_PACKABLE_4 c1 c2 c3 c4 =
    pair_codec c1 (pair_codec c2 (pair_codec c3 c4))"
  by (simp add: NEW_DECLARE_PACKABLE_4_def pair_codec_def NEW_DECLARE_SIMPLE_STRUCT_4_def fun_eq_iff split_def)

lemma wire_PACKABLE_4 [wire_codecs]:
  assumes "wire_codec c1 e1 v1" "wire_codec c2 e2 v2" "wire_codec c3 e3 v3"
    "wire_codec c4 e4 v4"
  shows "wire_codec (NEW_DECLARE_PACKABLE_4 c1 c2 c3 c4)
    (enc_pair e1 (enc_pair e2 (enc_pair e3 e4)))
    (valid_pair v1 (valid_pair v2 (valid_pair v3 v4)))"
  unfolding PACKABLE_4_nest by (intro wire_pair assms)

lemma PACKABLE_5_nest: "NEW_DECLARE_PACKABLE_5 c1 c2 c3 c4 c5 =
    pair_codec c1 (pair_codec c2 (pair_codec c3 (pair_codec c4 c5)))"
  by (simp add: NEW_DECLARE_PACKABLE_5_def pair_codec_def NEW_DECLARE_SIMPLE_STRUCT_5_def fun_eq_iff split_def)

lemma wire_PACKABLE_5 [wire_codecs]:
  assumes "wire_codec c1 e1 v1" "wire_codec c2 e2 v2" "wire_codec c3 e3 v3"
    "wire_codec c4 e4 v4" "wire_codec c5 e5 v5"
  shows "wire_codec (NEW_DECLARE_PACKABLE_5 c1 c2 c3 c4 c5)
    (enc_pair e1 (enc_pair e2 (enc_pair e3 (enc_pair e4 e5))))
    (valid_pair v1 (valid_pair v2 (valid_pair v3 (valid_pair v4 v5))))"
  unfolding PACKABLE_5_nest by (intro wire_pair assms)

lemma PACKABLE_6_nest: "NEW_DECLARE_PACKABLE_6 c1 c2 c3 c4 c5 c6 =
    pair_codec c1 (pair_codec c2 (pair_codec c3 (pair_codec c4 (pair_codec c5 c6))))"
  by (simp add: NEW_DECLARE_PACKABLE_6_def pair_codec_def NEW_DECLARE_SIMPLE_STRUCT_6_def fun_eq_iff split_def)

lemma wire_PACKABLE_6 [wire_codecs]:
  assumes "wire_codec c1 e1 v1" "wire_codec c2 e2 v2" "wire_codec c3 e3 v3"
    "wire_codec c4 e4 v4" "wire_codec c5 e5 v5" "wire_codec c6 e6 v6"
  shows "wire_codec (NEW_DECLARE_PACKABLE_6 c1 c2 c3 c4 c5 c6)
    (enc_pair e1 (enc_pair e2 (enc_pair e3 (enc_pair e4 (enc_pair e5 e6)))))
    (valid_pair v1 (valid_pair v2 (valid_pair v3 (valid_pair v4 (valid_pair v5 v6)))))"
  unfolding PACKABLE_6_nest by (intro wire_pair assms)

lemma PACKABLE_7_nest: "NEW_DECLARE_PACKABLE_7 c1 c2 c3 c4 c5 c6 c7 =
    pair_codec c1 (pair_codec c2 (pair_codec c3 (pair_codec c4 (pair_codec c5 (pair_codec c6
    c7)))))"
  by (simp add: NEW_DECLARE_PACKABLE_7_def pair_codec_def NEW_DECLARE_SIMPLE_STRUCT_7_def fun_eq_iff split_def)

lemma wire_PACKABLE_7 [wire_codecs]:
  assumes "wire_codec c1 e1 v1" "wire_codec c2 e2 v2" "wire_codec c3 e3 v3"
    "wire_codec c4 e4 v4" "wire_codec c5 e5 v5" "wire_codec c6 e6 v6"
    "wire_codec c7 e7 v7"
  shows "wire_codec (NEW_DECLARE_PACKABLE_7 c1 c2 c3 c4 c5 c6 c7)
    (enc_pair e1 (enc_pair e2 (enc_pair e3 (enc_pair e4 (enc_pair e5 (enc_pair e6 e7))))))
    (valid_pair v1 (valid_pair v2 (valid_pair v3 (valid_pair v4 (valid_pair v5 (valid_pair v6
    v7))))))"
  unfolding PACKABLE_7_nest by (intro wire_pair assms)

lemma PACKABLE_8_nest: "NEW_DECLARE_PACKABLE_8 c1 c2 c3 c4 c5 c6 c7 c8 =
    pair_codec c1 (pair_codec c2 (pair_codec c3 (pair_codec c4 (pair_codec c5 (pair_codec c6
    (pair_codec c7 c8))))))"
  by (simp add: NEW_DECLARE_PACKABLE_8_def pair_codec_def NEW_DECLARE_SIMPLE_STRUCT_8_def fun_eq_iff split_def)

lemma wire_PACKABLE_8 [wire_codecs]:
  assumes "wire_codec c1 e1 v1" "wire_codec c2 e2 v2" "wire_codec c3 e3 v3"
    "wire_codec c4 e4 v4" "wire_codec c5 e5 v5" "wire_codec c6 e6 v6"
    "wire_codec c7 e7 v7" "wire_codec c8 e8 v8"
  shows "wire_codec (NEW_DECLARE_PACKABLE_8 c1 c2 c3 c4 c5 c6 c7 c8)
    (enc_pair e1 (enc_pair e2 (enc_pair e3 (enc_pair e4 (enc_pair e5 (enc_pair e6 (enc_pair e7
    e8)))))))
    (valid_pair v1 (valid_pair v2 (valid_pair v3 (valid_pair v4 (valid_pair v5 (valid_pair v6
    (valid_pair v7 v8)))))))"
  unfolding PACKABLE_8_nest by (intro wire_pair assms)

lemma PACKABLE_9_nest: "NEW_DECLARE_PACKABLE_9 c1 c2 c3 c4 c5 c6 c7 c8 c9 =
    pair_codec c1 (pair_codec c2 (pair_codec c3 (pair_codec c4 (pair_codec c5 (pair_codec c6
    (pair_codec c7 (pair_codec c8 c9)))))))"
  by (simp add: NEW_DECLARE_PACKABLE_9_def pair_codec_def NEW_DECLARE_SIMPLE_STRUCT_9_def fun_eq_iff split_def)

lemma wire_PACKABLE_9 [wire_codecs]:
  assumes "wire_codec c1 e1 v1" "wire_codec c2 e2 v2" "wire_codec c3 e3 v3"
    "wire_codec c4 e4 v4" "wire_codec c5 e5 v5" "wire_codec c6 e6 v6"
    "wire_codec c7 e7 v7" "wire_codec c8 e8 v8" "wire_codec c9 e9 v9"
  shows "wire_codec (NEW_DECLARE_PACKABLE_9 c1 c2 c3 c4 c5 c6 c7 c8 c9)
    (enc_pair e1 (enc_pair e2 (enc_pair e3 (enc_pair e4 (enc_pair e5 (enc_pair e6 (enc_pair e7
    (enc_pair e8 e9))))))))
    (valid_pair v1 (valid_pair v2 (valid_pair v3 (valid_pair v4 (valid_pair v5 (valid_pair v6
    (valid_pair v7 (valid_pair v8 v9))))))))"
  unfolding PACKABLE_9_nest by (intro wire_pair assms)

end
