(* ===== verification/Packet.thy ===== *)
theory Packet
  imports Declare_Struct
begin

text \<open>
  \<open>Packet\<close> (src/turnserver/base/packet.h) and the packet macros of
  src/turnserver/base/packet_helper.h.  A packet carries the type of the server
  it belongs to and its \<open>uri\<close>; \<open>NEW_DECLARE_PACKET_n\<close> adds \<open>n\<close> members, which
  \<open>Marshall\<close> writes after the two and \<open>Unmarshall\<close> reads after them.  As for the
  struct macros, the model of a macro takes the codecs of the member types.
\<close>

section \<open>Packets\<close>

type_synonym packet = "u16 \<times> u16"

definition Packet_new :: "u16 \<Rightarrow> packet" where
  "Packet_new u = (0, u)"

definition Packet_new_server :: "u16 \<Rightarrow> u16 \<Rightarrow> packet" where
  "Packet_new_server server_type u = (server_type, u)"

definition SetUri :: "u16 \<Rightarrow> packet \<Rightarrow> packet" where
  "SetUri uri h = (fst h, uri)"

definition Packet_server_type :: "packet \<Rightarrow> u16" where
  "Packet_server_type h = fst h"

definition Packet_uri :: "packet \<Rightarrow> u16" where
  "Packet_uri h = snd h"

definition Packet_Marshall :: "packet \<Rightarrow> packer \<Rightarrow> packer option" where
  "Packet_Marshall h p =
     do { p \<leftarrow> PushUint16 (Packet_server_type h) p; PushUint16 (Packet_uri h) p }"

definition Packet_Unmarshall :: "packet \<Rightarrow> unpacker \<Rightarrow> (packet \<times> unpacker) option" where
  "Packet_Unmarshall h u =
     do { (server_type, u) \<leftarrow> PopUint16 u; (uri, u) \<leftarrow> PopUint16 u; Some ((server_type, uri), u) }"

text \<open>\<open>Packet::Pack\<close>: \<open>Marshall\<close> of the dynamic type, then \<open>Packer::Pack\<close>.\<close>

definition Packet_Pack :: "'a codec \<Rightarrow> 'a \<Rightarrow> packer \<Rightarrow> packer option" where
  "Packet_Pack c x p = do { p \<leftarrow> push c x p; Pack p }"

section \<open>The packet macros\<close>

definition NEW_DECLARE_PACKET_0 :: "u16 \<Rightarrow> packet codec" where
  "NEW_DECLARE_PACKET_0 uri = \<lparr>push = Packet_Marshall, pop = Packet_Unmarshall, dflt = Packet_new uri\<rparr>"

definition NEW_DECLARE_PACKET_1 ::
  "u16 \<Rightarrow> 'a codec \<Rightarrow> (packet \<times> 'a) codec" where
  "NEW_DECLARE_PACKET_1 uri c1 =
     \<lparr>push = (\<lambda>(h, m1) p.
        do { p \<leftarrow> Packet_Marshall h p; push c1 m1 p }),
      pop = (\<lambda>(h, m1) u.
        do { (h, u) \<leftarrow> Packet_Unmarshall h u; (m1, u) \<leftarrow> pop c1 m1 u;
             Some ((h, m1), u) }),
      dflt = (Packet_new uri, dflt c1)\<rparr>"

definition NEW_DECLARE_PACKET_2 ::
  "u16 \<Rightarrow> 'a codec \<Rightarrow> 'b codec \<Rightarrow>
   (packet \<times> 'a \<times> 'b) codec" where
  "NEW_DECLARE_PACKET_2 uri c1 c2 =
     \<lparr>push = (\<lambda>(h, m1, m2) p.
        do { p \<leftarrow> Packet_Marshall h p; p \<leftarrow> push c1 m1 p; push c2 m2 p }),
      pop = (\<lambda>(h, m1, m2) u.
        do { (h, u) \<leftarrow> Packet_Unmarshall h u; (m1, u) \<leftarrow> pop c1 m1 u;
             (m2, u) \<leftarrow> pop c2 m2 u; Some ((h, m1, m2), u) }),
      dflt = (Packet_new uri, dflt c1, dflt c2)\<rparr>"

definition NEW_DECLARE_PACKET_3 ::
  "u16 \<Rightarrow> 'a codec \<Rightarrow> 'b codec \<Rightarrow> 'c codec \<Rightarrow>
   (packet \<times> 'a \<times> 'b \<times> 'c) codec" where
  "NEW_DECLARE_PACKET_3 uri c1 c2 c3 =
     \<lparr>push = (\<lambda>(h, m1, m2, m3) p.
        do { p \<leftarrow> Packet_Marshall h p; p \<leftarrow> push c1 m1 p;
             p \<leftarrow> push c2 m2 p; push c3 m3 p }),
      pop = (\<lambda>(h, m1, m2, m3) u.
        do { (h, u) \<leftarrow> Packet_Unmarshall h u; (m1, u) \<leftarrow> pop c1 m1 u;
             (m2, u) \<leftarrow> pop c2 m2 u; (m3, u) \<leftarrow> pop c3 m3 u;
             Some ((h, m1, m2, m3), u) }),
      dflt = (Packet_new uri, dflt c1, dflt c2, dflt c3)\<rparr>"

definition NEW_DECLARE_PACKET_4 ::
  "u16 \<Rightarrow> 'a codec \<Rightarrow> 'b codec \<Rightarrow> 'c codec \<Rightarrow>
   'd codec \<Rightarrow>
   (packet \<times> 'a \<times> 'b \<times> 'c \<times> 'd) codec" where
  "NEW_DECLARE_PACKET_4 uri c1 c2 c3 c4 =
     \<lparr>push = (\<lambda>(h, m1, m2, m3, m4) p.
        do { p \<leftarrow> Packet_Marshall h p; p \<leftarrow> push c1 m1 p;
             p \<leftarrow> push c2 m2 p; p \<leftarrow> push c3 m3 p; push c4 m4 p }),
      pop = (\<lambda>(h, m1, m2, m3, m4) u.
        do { (h, u) \<leftarrow> Packet_Unmarshall h u; (m1, u) \<leftarrow> pop c1 m1 u;
             (m2, u) \<leftarrow> pop c2 m2 u; (m3, u) \<leftarrow> pop c3 m3 u;
             (m4, u) \<leftarrow> pop c4 m4 u; Some ((h, m1, m2, m3, m4), u) }),
      dflt = (Packet_new uri, dflt c1, dflt c2, dflt c3, dflt c4)\<rparr>"

definition NEW_DECLARE_PACKET_5 ::
  "u16 \<Rightarrow> 'a codec \<Rightarrow> 'b codec \<Rightarrow> 'c codec \<Rightarrow>
   'd codec \<Rightarrow> 'e codec \<Rightarrow>
   (packet \<times> 'a \<times> 'b \<times> 'c \<times> 'd \<times> 'e) codec" where
  "NEW_DECLARE_PACKET_5 uri c1 c2 c3 c4 c5 =
     \<lparr>push = (\<lambda>(h, m1, m2, m3, m4, m5) p.
        do { p \<leftarrow> Packet_Marshall h p; p \<leftarrow> push c1 m1 p;
             p \<leftarrow> push c2 m2 p; p \<leftarrow> push c3 m3 p;
             p \<leftarrow> push c4 m4 p; push c5 m5 p }),
      pop = (\<lambda>(h, m1, m2, m3, m4, m5) u.
        do { (h, u) \<leftarrow> Packet_Unmarshall h u; (m1, u) \<leftarrow> pop c1 m1 u;
             (m2, u) \<leftarrow> pop c2 m2 u; (m3, u) \<leftarrow> pop c3 m3 u;
             (m4, u) \<leftarrow> pop c4 m4 u; (m5, u) \<leftarrow> pop c5 m5 u;
             Some ((h, m1, m2, m3, m4, m5), u) }),
      dflt = (Packet_new uri, dflt c1, dflt c2, dflt c3, dflt c4, dflt c5)\<rparr>"

definition NEW_DECLARE_PACKET_6 ::
  "u16 \<Rightarrow> 'a codec \<Rightarrow> 'b codec \<Rightarrow> 'c codec \<Rightarrow>
   'd codec \<Rightarrow> 'e codec \<Rightarrow> 'f codec \<Rightarrow>
   (packet \<times> 'a \<times> 'b \<times> 'c \<times> 'd \<times> 'e \<times> 'f) codec" where
  "NEW_DECLARE_PACKET_6 uri c1 c2 c3 c4 c5 c6 =
     \<lparr>push = (\<lambda>(h, m1, m2, m3, m4, m5, m6) p.
        do { p \<leftarrow> Packet_Marshall h p; p \<leftarrow> push c1 m1 p;
             p \<leftarrow> push c2 m2 p; p \<leftarrow> push c3 m3 p;
             p \<leftarrow> push c4 m4 p; p \<leftarrow> push c5 m5 p; push c6 m6 p }),
      pop = (\<lambda>(h, m1, m2, m3, m4, m5, m6) u.
        do { (h, u) \<leftarrow> Packet_Unmarshall h u; (m1, u) \<leftarrow> pop c1 m1 u;
             (m2, u) \<leftarrow> pop c2 m2 u; (m3, u) \<leftarrow> pop c3 m3 u;
             (m4, u) \<leftarrow> pop c4 m4 u; (m5, u) \<leftarrow> pop c5 m5 u;
             (m6, u) \<leftarrow> pop c6 m6 u; Some ((h, m1, m2, m3, m4, m5, m6), u) }),
      dflt = (Packet_new uri, dflt c1, dflt c2, dflt c3, dflt c4, dflt c5, dflt c6)\<rparr>"

definition NEW_DECLARE_PACKET_7 ::
  "u16 \<Rightarrow> 'a codec \<Rightarrow> 'b codec \<Rightarrow> 'c codec \<Rightarrow>
   'd codec \<Rightarrow> 'e codec \<Rightarrow> 'f codec \<Rightarrow>
   'g codec \<Rightarrow>
   (packet \<times> 'a \<times> 'b \<times> 'c \<times> 'd \<times> 'e \<times> 'f \<times> 'g) codec" where
  "NEW_DECLARE_PACKET_7 uri c1 c2 c3 c4 c5 c6 c7 =
     \<lparr>push = (\<lambda>(h, m1, m2, m3, m4, m5, m6, m7) p.
        do { p \<leftarrow> Packet_Marshall h p; p \<leftarrow> push c1 m1 p;
             p \<leftarrow> push c2 m2 p; p \<leftarrow> push c3 m3 p;
             p \<leftarrow> push c4 m4 p; p \<leftarrow> push c5 m5 p;
             p \<leftarrow> push c6 m6 p; push c7 m7 p }),
      pop = (\<lambda>(h, m1, m2, m3, m4, m5, m6, m7) u.
        do { (h, u) \<leftarrow> Packet_Unmarshall h u; (m1, u) \<leftarrow> pop c1 m1 u;
             (m2, u) \<leftarrow> pop c2 m2 u; (m3, u) \<leftarrow> pop c3 m3 u;
             (m4, u) \<leftarrow> pop c4 m4 u; (m5, u) \<leftarrow> pop c5 m5 u;
             (m6, u) \<leftarrow> pop c6 m6 u; (m7, u) \<leftarrow> pop c7 m7 u;
             Some ((h, m1, m2, m3, m4, m5, m6, m7), u) }),
      dflt = (Packet_new uri, dflt c1, dflt c2, dflt c3, dflt c4, dflt c5, dflt c6, dflt c7)\<rparr>"

definition NEW_DECLARE_PACKET_8 ::
  "u16 \<Rightarrow> 'a codec \<Rightarrow> 'b codec \<Rightarrow> 'c codec \<Rightarrow>
   'd codec \<Rightarrow> 'e codec \<Rightarrow> 'f codec \<Rightarrow>
   'g codec \<Rightarrow> 'h codec \<Rightarrow>
   (packet \<times> 'a \<times> 'b \<times> 'c \<times> 'd \<times> 'e \<times> 'f \<times> 'g \<times> 'h) codec" where
  "NEW_DECLARE_PACKET_8 uri c1 c2 c3 c4 c5 c6 c7 c8 =
     \<lparr>push = (\<lambda>(h, m1, m2, m3, m4, m5, m6, m7, m8) p.
        do { p \<leftarrow> Packet_Marshall h p; p \<leftarrow> push c1 m1 p;
             p \<leftarrow> push c2 m2 p; p \<leftarrow> push c3 m3 p;
             p \<leftarrow> push c4 m4 p; p \<leftarrow> push c5 m5 p;
             p \<leftarrow> push c6 m6 p; p \<leftarrow> push c7 m7 p; push c8 m8 p }),
      pop = (\<lambda>(h, m1, m2, m3, m4, m5, m6, m7, m8) u.
        do { (h, u) \<leftarrow> Packet_Unmarshall h u; (m1, u) \<leftarrow> pop c1 m1 u;
             (m2, u) \<leftarrow> pop c2 m2 u; (m3, u) \<leftarrow> pop c3 m3 u;
             (m4, u) \<leftarrow> pop c4 m4 u; (m5, u) \<leftarrow> pop c5 m5 u;
             (m6, u) \<leftarrow> pop c6 m6 u; (m7, u) \<leftarrow> pop c7 m7 u;
             (m8, u) \<leftarrow> pop c8 m8 u; Some ((h, m1, m2, m3, m4, m5, m6, m7, m8), u) }),
      dflt = (Packet_new uri, dflt c1, dflt c2, dflt c3, dflt c4, dflt c5, dflt c6, dflt c7, dflt c8)\<rparr>"

definition NEW_DECLARE_PACKET_9 ::
  "u16 \<Rightarrow> 'a codec \<Rightarrow> 'b codec \<Rightarrow> 'c codec \<Rightarrow>
   'd codec \<Rightarrow> 'e codec \<Rightarrow> 'f codec \<Rightarrow>
   'g codec \<Rightarrow> 'h codec \<Rightarrow> 'i codec \<Rightarrow>
   (packet \<times> 'a \<times> 'b \<times> 'c \<times> 'd \<times> 'e \<times> 'f \<times> 'g \<times> 'h \<times> 'i) codec" where
  "NEW_DECLARE_PACKET_9 uri c1 c2 c3 c4 c5 c6 c7 c8 c9 =
     \<lparr>push = (\<lambda>(h, m1, m2, m3, m4, m5, m6, m7, m8, m9) p.
        do { p \<leftarrow> Packet_Marshall h p; p \<leftarrow> push c1 m1 p;
             p \<leftarrow> push c2 m2 p; p \<leftarrow> push c3 m3 p;
             p \<leftarrow> push c4 m4 p; p \<leftarrow> push c5 m5 p;
             p \<leftarrow> push c6 m6 p; p \<leftarrow> push c7 m7 p;
             p \<leftarrow> push c8 m8 p; push c9 m9 p }),
      pop = (\<lambda>(h, m1, m2, m3, m4, m5, m6, m7, m8, m9) u.
        do { (h, u) \<leftarrow> Packet_Unmarshall h u; (m1, u) \<leftarrow> pop c1 m1 u;
             (m2, u) \<leftarrow> pop c2 m2 u; (m3, u) \<leftarrow> pop c3 m3 u;
             (m4, u) \<leftarrow> pop c4 m4 u; (m5, u) \<leftarrow> pop c5 m5 u;
             (m6, u) \<leftarrow> pop c6 m6 u; (m7, u) \<leftarrow> pop c7 m7 u;
             (m8, u) \<leftarrow> pop c8 m8 u; (m9, u) \<leftarrow> pop c9 m9 u;
             Some ((h, m1, m2, m3, m4, m5, m6, m7, m8, m9), u) }),
      dflt = (Packet_new uri, dflt c1, dflt c2, dflt c3, dflt c4, dflt c5, dflt c6, dflt c7, dflt c8, dflt c9)\<rparr>"

definition NEW_DECLARE_PACKET_10 ::
  "u16 \<Rightarrow> 'a codec \<Rightarrow> 'b codec \<Rightarrow> 'c codec \<Rightarrow>
   'd codec \<Rightarrow> 'e codec \<Rightarrow> 'f codec \<Rightarrow>
   'g codec \<Rightarrow> 'h codec \<Rightarrow> 'i codec \<Rightarrow>
   'j codec \<Rightarrow>
   (packet \<times> 'a \<times> 'b \<times> 'c \<times> 'd \<times> 'e \<times> 'f \<times> 'g \<times> 'h \<times> 'i \<times> 'j) codec" where
  "NEW_DECLARE_PACKET_10 uri c1 c2 c3 c4 c5 c6 c7 c8 c9 c10 =
     \<lparr>push = (\<lambda>(h, m1, m2, m3, m4, m5, m6, m7, m8, m9, m10) p.
        do { p \<leftarrow> Packet_Marshall h p; p \<leftarrow> push c1 m1 p;
             p \<leftarrow> push c2 m2 p; p \<leftarrow> push c3 m3 p;
             p \<leftarrow> push c4 m4 p; p \<leftarrow> push c5 m5 p;
             p \<leftarrow> push c6 m6 p; p \<leftarrow> push c7 m7 p;
             p \<leftarrow> push c8 m8 p; p \<leftarrow> push c9 m9 p; push c10 m10 p }),
      pop = (\<lambda>(h, m1, m2, m3, m4, m5, m6, m7, m8, m9, m10) u.
        do { (h, u) \<leftarrow> Packet_Unmarshall h u; (m1, u) \<leftarrow> pop c1 m1 u;
             (m2, u) \<leftarrow> pop c2 m2 u; (m3, u) \<leftarrow> pop c3 m3 u;
             (m4, u) \<leftarrow> pop c4 m4 u; (m5, u) \<leftarrow> pop c5 m5 u;
             (m6, u) \<leftarrow> pop c6 m6 u; (m7, u) \<leftarrow> pop c7 m7 u;
             (m8, u) \<leftarrow> pop c8 m8 u; (m9, u) \<leftarrow> pop c9 m9 u;
             (m10, u) \<leftarrow> pop c10 m10 u;
             Some ((h, m1, m2, m3, m4, m5, m6, m7, m8, m9, m10), u) }),
      dflt = (Packet_new uri, dflt c1, dflt c2, dflt c3, dflt c4, dflt c5, dflt c6, dflt c7, dflt c8,
        dflt c9, dflt c10)\<rparr>"

definition NEW_DECLARE_PACKET_11 ::
  "u16 \<Rightarrow> 'a codec \<Rightarrow> 'b codec \<Rightarrow> 'c codec \<Rightarrow>
   'd codec \<Rightarrow> 'e codec \<Rightarrow> 'f codec \<Rightarrow>
   'g codec \<Rightarrow> 'h codec \<Rightarrow> 'i codec \<Rightarrow>
   'j codec \<Rightarrow> 'k codec \<Rightarrow>
   (packet \<times> 'a \<times> 'b \<times> 'c \<times> 'd \<times> 'e \<times> 'f \<times> 'g \<times> 'h \<times> 'i \<times> 'j \<times> 'k) codec" where
  "NEW_DECLARE_PACKET_11 uri c1 c2 c3 c4 c5 c6 c7 c8 c9 c10 c11 =
     \<lparr>push = (\<lambda>(h, m1, m2, m3, m4, m5, m6, m7, m8, m9, m10, m11) p.
        do { p \<leftarrow> Packet_Marshall h p; p \<leftarrow> push c1 m1 p;
             p \<leftarrow> push c2 m2 p; p \<leftarrow> push c3 m3 p;
             p \<leftarrow> push c4 m4 p; p \<leftarrow> push c5 m5 p;
             p \<leftarrow> push c6 m6 p; p \<leftarrow> push c7 m7 p;
             p \<leftarrow> push c8 m8 p; p \<leftarrow> push c9 m9 p;
             p \<leftarrow> push c10 m10 p; push c11 m11 p }),
      pop = (\<lambda>(h, m1, m2, m3, m4, m5, m6, m7, m8, m9, m10, m11) u.
        do { (h, u) \<leftarrow> Packet_Unmarshall h u; (m1, u) \<leftarrow> pop c1 m1 u;
             (m2, u) \<leftarrow> pop c2 m2 u; (m3, u) \<leftarrow> pop c3 m3 u;
             (m4, u) \<leftarrow> pop c4 m4 u; (m5, u) \<leftarrow> pop c5 m5 u;
             (m6, u) \<leftarrow> pop c6 m6 u; (m7, u) \<leftarrow> pop c7 m7 u;
             (m8, u) \<leftarrow> pop c8 m8 u; (m9, u) \<leftarrow> pop c9 m9 u;
             (m10, u) \<leftarrow> pop c10 m10 u; (m11, u) \<leftarrow> pop c11 m11 u;
             Some ((h, m1, m2, m3, m4, m5, m6, m7, m8, m9, m10, m11), u) }),
      dflt = (Packet_new uri, dflt c1, dflt c2, dflt c3, dflt c4, dflt c5, dflt c6, dflt c7, dflt c8,
        dflt c9, dflt c10, dflt c11)\<rparr>"

definition NEW_DECLARE_PACKET_12 ::
  "u16 \<Rightarrow> 'a codec \<Rightarrow> 'b codec \<Rightarrow> 'c codec \<Rightarrow>
   'd codec \<Rightarrow> 'e codec \<Rightarrow> 'f codec \<Rightarrow>
   'g codec \<Rightarrow> 'h codec \<Rightarrow> 'i codec \<Rightarrow>
   'j codec \<Rightarrow> 'k codec \<Rightarrow> 'l codec \<Rightarrow>
   (packet \<times> 'a \<times> 'b \<times> 'c \<times> 'd \<times> 'e \<times> 'f \<times> 'g \<times> 'h \<times> 'i \<times> 'j \<times> 'k \<times> 'l) codec" where
  "NEW_DECLARE_PACKET_12 uri c1 c2 c3 c4 c5 c6 c7 c8 c9 c10 c11 c12 =
     \<lparr>push = (\<lambda>(h, m1, m2, m3, m4, m5, m6, m7, m8, m9, m10, m11, m12) p.
        do { p \<leftarrow> Packet_Marshall h p; p \<leftarrow> push c1 m1 p;
             p \<leftarrow> push c2 m2 p; p \<leftarrow> push c3 m3 p;
             p \<leftarrow> push c4 m4 p; p \<leftarrow> push c5 m5 p;
             p \<leftarrow> push c6 m6 p; p \<leftarrow> push c7 m7 p;
             p \<leftarrow> push c8 m8 p; p \<leftarrow> push c9 m9 p;
             p \<leftarrow> push c10 m10 p; p \<leftarrow> push c11 m11 p; push c12 m12 p }),
      pop = (\<lambda>(h, m1, m2, m3, m4, m5, m6, m7, m8, m9, m10, m11, m12) u.
        do { (h, u) \<leftarrow> Packet_Unmarshall h u; (m1, u) \<leftarrow> pop c1 m1 u;
             (m2, u) \<leftarrow> pop c2 m2 u; (m3, u) \<leftarrow> pop c3 m3 u;
             (m4, u) \<leftarrow> pop c4 m4 u; (m5, u) \<leftarrow> pop c5 m5 u;
             (m6, u) \<leftarrow> pop c6 m6 u; (m7, u) \<leftarrow> pop c7 m7 u;
             (m8, u) \<leftarrow> pop c8 m8 u; (m9, u) \<leftarrow> pop c9 m9 u;
             (m10, u) \<leftarrow> pop c10 m10 u; (m11, u) \<leftarrow> pop c11 m11 u;
             (m12, u) \<leftarrow> pop c12 m12 u;
             Some ((h, m1, m2, m3, m4, m5, m6, m7, m8, m9, m10, m11, m12), u) }),
      dflt = (Packet_new uri, dflt c1, dflt c2, dflt c3, dflt c4, dflt c5, dflt c6, dflt c7, dflt c8,
        dflt c9, dflt c10, dflt c11, dflt c12)\<rparr>"

definition NEW_DECLARE_PACKET_13 ::
  "u16 \<Rightarrow> 'a codec \<Rightarrow> 'b codec \<Rightarrow> 'c codec \<Rightarrow>
   'd codec \<Rightarrow> 'e codec \<Rightarrow> 'f codec \<Rightarrow>
   'g codec \<Rightarrow> 'h codec \<Rightarrow> 'i codec \<Rightarrow>
   'j codec \<Rightarrow> 'k codec \<Rightarrow> 'l codec \<Rightarrow>
   'm codec \<Rightarrow>
   (packet \<times> 'a \<times> 'b \<times> 'c \<times> 'd \<times> 'e \<times> 'f \<times> 'g \<times> 'h \<times> 'i \<times> 'j \<times> 'k \<times> 'l \<times> 'm) codec" where
  "NEW_DECLARE_PACKET_13 uri c1 c2 c3 c4 c5 c6 c7 c8 c9 c10 c11 c12 c13 =
     \<lparr>push = (\<lambda>(h, m1, m2, m3, m4, m5, m6, m7, m8, m9, m10, m11, m12, m13) p.
        do { p \<leftarrow> Packet_Marshall h p; p \<leftarrow> push c1 m1 p;
             p \<leftarrow> push c2 m2 p; p \<leftarrow> push c3 m3 p;
             p \<leftarrow> push c4 m4 p; p \<leftarrow> push c5 m5 p;
             p \<leftarrow> push c6 m6 p; p \<leftarrow> push c7 m7 p;
             p \<leftarrow> push c8 m8 p; p \<leftarrow> push c9 m9 p;
             p \<leftarrow> push c10 m10 p; p \<leftarrow> push c11 m11 p;
             p \<leftarrow> push c12 m12 p; push c13 m13 p }),
      pop = (\<lambda>(h, m1, m2, m3, m4, m5, m6, m7, m8, m9, m10, m11, m12, m13) u.
        do { (h, u) \<leftarrow> Packet_Unmarshall h u; (m1, u) \<leftarrow> pop c1 m1 u;
             (m2, u) \<leftarrow> pop c2 m2 u; (m3, u) \<leftarrow> pop c3 m3 u;
             (m4, u) \<leftarrow> pop c4 m4 u; (m5, u) \<leftarrow> pop c5 m5 u;
             (m6, u) \<leftarrow> pop c6 m6 u; (m7, u) \<leftarrow> pop c7 m7 u;
             (m8, u) \<leftarrow> pop c8 m8 u; (m9, u) \<leftarrow> pop c9 m9 u;
             (m10, u) \<leftarrow> pop c10 m10 u; (m11, u) \<leftarrow> pop c11 m11 u;
             (m12, u) \<leftarrow> pop c12 m12 u; (m13, u) \<leftarrow> pop c13 m13 u;
             Some ((h, m1, m2, m3, m4, m5, m6, m7, m8, m9, m10, m11, m12, m13), u) }),
      dflt = (Packet_new uri, dflt c1, dflt c2, dflt c3, dflt c4, dflt c5, dflt c6, dflt c7, dflt c8,
        dflt c9, dflt c10, dflt c11, dflt c12, dflt c13)\<rparr>"

definition NEW_DECLARE_PACKET_14 ::
  "u16 \<Rightarrow> 'a codec \<Rightarrow> 'b codec \<Rightarrow> 'c codec \<Rightarrow>
   'd codec \<Rightarrow> 'e codec \<Rightarrow> 'f codec \<Rightarrow>
   'g codec \<Rightarrow> 'h codec \<Rightarrow> 'i codec \<Rightarrow>
   'j codec \<Rightarrow> 'k codec \<Rightarrow> 'l codec \<Rightarrow>
   'm codec \<Rightarrow> 'n codec \<Rightarrow>
   (packet \<times> 'a \<times> 'b \<times> 'c \<times> 'd \<times> 'e \<times> 'f \<times> 'g \<times> 'h \<times> 'i \<times> 'j \<times> 'k \<times> 'l \<times> 'm \<times> 'n) codec" where
  "NEW_DECLARE_PACKET_14 uri c1 c2 c3 c4 c5 c6 c7 c8 c9 c10 c11 c12 c13 c14 =
     \<lparr>push = (\<lambda>(h, m1, m2, m3, m4, m5, m6, m7, m8, m9, m10, m11, m12, m13, m14) p.
        do { p \<leftarrow> Packet_Marshall h p; p \<leftarrow> push c1 m1 p;
             p \<leftarrow> push c2 m2 p; p \<leftarrow> push c3 m3 p;
             p \<leftarrow> push c4 m4 p; p \<leftarrow> push c5 m5 p;
             p \<leftarrow> push c6 m6 p; p \<leftarrow> push c7 m7 p;
             p \<leftarrow> push c8 m8 p; p \<leftarrow> push c9 m9 p;
             p \<leftarrow> push c10 m10 p; p \<leftarrow> push c11 m11 p;
             p \<leftarrow> push c12 m12 p; p \<leftarrow> push c13 m13 p; push c14 m14 p }),
      pop = (\<lambda>(h, m1, m2, m3, m4, m5, m6, m7, m8, m9, m10, m11, m12, m13, m14) u.
        do { (h, u) \<leftarrow> Packet_Unmarshall h u; (m1, u) \<leftarrow> pop c1 m1 u;
             (m2, u) \<leftarrow> pop c2 m2 u; (m3, u) \<leftarrow> pop c3 m3 u;
             (m4, u) \<leftarrow> pop c4 m4 u; (m5, u) \<leftarrow> pop c5 m5 u;
             (m6, u) \<leftarrow> pop c6 m6 u; (m7, u) \<leftarrow> pop c7 m7 u;
             (m8, u) \<leftarrow> pop c8 m8 u; (m9, u) \<leftarrow> pop c9 m9 u;
             (m10, u) \<leftarrow> pop c10 m10 u; (m11, u) \<leftarrow> pop c11 m11 u;
             (m12, u) \<leftarrow> pop c12 m12 u; (m13, u) \<leftarrow> pop c13 m13 u;
             (m14, u) \<leftarrow> pop c14 m14 u;
             Some ((h, m1, m2, m3, m4, m5, m6, m7, m8, m9, m10, m11, m12, m13, m14), u) }),
      dflt = (Packet_new uri, dflt c1, dflt c2, dflt c3, dflt c4, dflt c5, dflt c6, dflt c7, dflt c8,
        dflt c9, dflt c10, dflt c11, dflt c12, dflt c13, dflt c14)\<rparr>"

text \<open>The constructor that takes the server type; the members are value-initialised.\<close>

definition with_server_type :: "u16 \<Rightarrow> (packet \<times> 'a) codec \<Rightarrow> packet \<times> 'a" where
  "with_server_type server_type c =
     (Packet_new_server server_type (Packet_uri (fst (dflt c))), snd (dflt c))"

section \<open>The wire contract of the macros\<close>

definition head_bytes :: "packet \<Rightarrow> byte list" where
  "head_bytes h = le_bytes 2 (Packet_server_type h) @ le_bytes 2 (Packet_uri h)"

lemma length_head_bytes [simp]: "length (head_bytes h) = 4"
  by (simp add: head_bytes_def)

lemma wire_PACKET_0 [wire_codecs]: "wire_codec (NEW_DECLARE_PACKET_0 uri) head_bytes any"
proof -
  have "wire_codec (pair_codec u16_codec u16_codec) (enc_pair (le_bytes 2) (le_bytes 2)) (valid_pair any any)"
    by (intro wire_codecs)
  then show ?thesis
    by (simp add: wire_codec_def NEW_DECLARE_PACKET_0_def Packet_Marshall_def Packet_Unmarshall_def
        pair_codec_def u16_codec_def enc_pair_def valid_pair_def head_bytes_def Packet_new_def
        Packet_server_type_def Packet_uri_def case_prod_beta)
qed

lemma PACKET_1_nest: "NEW_DECLARE_PACKET_1 uri c1 =
    pair_codec (NEW_DECLARE_PACKET_0 uri) c1"
  by (simp add: NEW_DECLARE_PACKET_1_def pair_codec_def NEW_DECLARE_PACKET_0_def fun_eq_iff split_def)

lemma wire_PACKET_1 [wire_codecs]:
  assumes "wire_codec c1 e1 v1"
  shows "wire_codec (NEW_DECLARE_PACKET_1 uri c1)
    (enc_pair head_bytes e1)
    (valid_pair any v1)"
  unfolding PACKET_1_nest by (intro wire_pair wire_PACKET_0 assms)

lemma PACKET_2_nest: "NEW_DECLARE_PACKET_2 uri c1 c2 =
    pair_codec (NEW_DECLARE_PACKET_0 uri) (pair_codec c1 c2)"
  by (simp add: NEW_DECLARE_PACKET_2_def pair_codec_def NEW_DECLARE_PACKET_0_def fun_eq_iff split_def)

lemma wire_PACKET_2 [wire_codecs]:
  assumes "wire_codec c1 e1 v1" "wire_codec c2 e2 v2"
  shows "wire_codec (NEW_DECLARE_PACKET_2 uri c1 c2)
    (enc_pair head_bytes (enc_pair e1 e2))
    (valid_pair any (valid_pair v1 v2))"
  unfolding PACKET_2_nest by (intro wire_pair wire_PACKET_0 assms)

lemma PACKET_3_nest: "NEW_DECLARE_PACKET_3 uri c1 c2 c3 =
    pair_codec (NEW_DECLARE_PACKET_0 uri) (pair_codec c1 (pair_codec c2 c3))"
  by (simp add: NEW_DECLARE_PACKET_3_def pair_codec_def NEW_DECLARE_PACKET_0_def fun_eq_iff split_def)

lemma wire_PACKET_3 [wire_codecs]:
  assumes "wire_codec c1 e1 v1" "wire_codec c2 e2 v2" "wire_codec c3 e3 v3"
  shows "wire_codec (NEW_DECLARE_PACKET_3 uri c1 c2 c3)
    (enc_pair head_bytes (enc_pair e1 (enc_pair e2 e3)))
    (valid_pair any (valid_pair v1 (valid_pair v2 v3)))"
  unfolding PACKET_3_nest by (intro wire_pair wire_PACKET_0 assms)

lemma PACKET_4_nest: "NEW_DECLARE_PACKET_4 uri c1 c2 c3 c4 =
    pair_codec (NEW_DECLARE_PACKET_0 uri) (pair_codec c1 (pair_codec c2 (pair_codec c3 c4)))"
  by (simp add: NEW_DECLARE_PACKET_4_def pair_codec_def NEW_DECLARE_PACKET_0_def fun_eq_iff split_def)

lemma wire_PACKET_4 [wire_codecs]:
  assumes "wire_codec c1 e1 v1" "wire_codec c2 e2 v2" "wire_codec c3 e3 v3"
    "wire_codec c4 e4 v4"
  shows "wire_codec (NEW_DECLARE_PACKET_4 uri c1 c2 c3 c4)
    (enc_pair head_bytes (enc_pair e1 (enc_pair e2 (enc_pair e3 e4))))
    (valid_pair any (valid_pair v1 (valid_pair v2 (valid_pair v3 v4))))"
  unfolding PACKET_4_nest by (intro wire_pair wire_PACKET_0 assms)

lemma PACKET_5_nest: "NEW_DECLARE_PACKET_5 uri c1 c2 c3 c4 c5 =
    pair_codec (NEW_DECLARE_PACKET_0 uri) (pair_codec c1 (pair_codec c2 (pair_codec c3
    (pair_codec c4 c5))))"
  by (simp add: NEW_DECLARE_PACKET_5_def pair_codec_def NEW_DECLARE_PACKET_0_def fun_eq_iff split_def)

lemma wire_PACKET_5 [wire_codecs]:
  assumes "wire_codec c1 e1 v1" "wire_codec c2 e2 v2" "wire_codec c3 e3 v3"
    "wire_codec c4 e4 v4" "wire_codec c5 e5 v5"
  shows "wire_codec (NEW_DECLARE_PACKET_5 uri c1 c2 c3 c4 c5)
    (enc_pair head_bytes (enc_pair e1 (enc_pair e2 (enc_pair e3 (enc_pair e4 e5)))))
    (valid_pair any (valid_pair v1 (valid_pair v2 (valid_pair v3 (valid_pair v4 v5)))))"
  unfolding PACKET_5_nest by (intro wire_pair wire_PACKET_0 assms)

lemma PACKET_6_nest: "NEW_DECLARE_PACKET_6 uri c1 c2 c3 c4 c5 c6 =
    pair_codec (NEW_DECLARE_PACKET_0 uri) (pair_codec c1 (pair_codec c2 (pair_codec c3
    (pair_codec c4 (pair_codec c5 c6)))))"
  by (simp add: NEW_DECLARE_PACKET_6_def pair_codec_def NEW_DECLARE_PACKET_0_def fun_eq_iff split_def)

lemma wire_PACKET_6 [wire_codecs]:
  assumes "wire_codec c1 e1 v1" "wire_codec c2 e2 v2" "wire_codec c3 e3 v3"
    "wire_codec c4 e4 v4" "wire_codec c5 e5 v5" "wire_codec c6 e6 v6"
  shows "wire_codec (NEW_DECLARE_PACKET_6 uri c1 c2 c3 c4 c5 c6)
    (enc_pair head_bytes (enc_pair e1 (enc_pair e2 (enc_pair e3 (enc_pair e4 (enc_pair e5
    e6))))))
    (valid_pair any (valid_pair v1 (valid_pair v2 (valid_pair v3 (valid_pair v4 (valid_pair v5
    v6))))))"
  unfolding PACKET_6_nest by (intro wire_pair wire_PACKET_0 assms)

lemma PACKET_7_nest: "NEW_DECLARE_PACKET_7 uri c1 c2 c3 c4 c5 c6 c7 =
    pair_codec (NEW_DECLARE_PACKET_0 uri) (pair_codec c1 (pair_codec c2 (pair_codec c3
    (pair_codec c4 (pair_codec c5 (pair_codec c6 c7))))))"
  by (simp add: NEW_DECLARE_PACKET_7_def pair_codec_def NEW_DECLARE_PACKET_0_def fun_eq_iff split_def)

lemma wire_PACKET_7 [wire_codecs]:
  assumes "wire_codec c1 e1 v1" "wire_codec c2 e2 v2" "wire_codec c3 e3 v3"
    "wire_codec c4 e4 v4" "wire_codec c5 e5 v5" "wire_codec c6 e6 v6"
    "wire_codec c7 e7 v7"
  shows "wire_codec (NEW_DECLARE_PACKET_7 uri c1 c2 c3 c4 c5 c6 c7)
    (enc_pair head_bytes (enc_pair e1 (enc_pair e2 (enc_pair e3 (enc_pair e4 (enc_pair e5
    (enc_pair e6 e7)))))))
    (valid_pair any (valid_pair v1 (valid_pair v2 (valid_pair v3 (valid_pair v4 (valid_pair v5
    (valid_pair v6 v7)))))))"
  unfolding PACKET_7_nest by (intro wire_pair wire_PACKET_0 assms)

lemma PACKET_8_nest: "NEW_DECLARE_PACKET_8 uri c1 c2 c3 c4 c5 c6 c7 c8 =
    pair_codec (NEW_DECLARE_PACKET_0 uri) (pair_codec c1 (pair_codec c2 (pair_codec c3
    (pair_codec c4 (pair_codec c5 (pair_codec c6 (pair_codec c7 c8)))))))"
  by (simp add: NEW_DECLARE_PACKET_8_def pair_codec_def NEW_DECLARE_PACKET_0_def fun_eq_iff split_def)

lemma wire_PACKET_8 [wire_codecs]:
  assumes "wire_codec c1 e1 v1" "wire_codec c2 e2 v2" "wire_codec c3 e3 v3"
    "wire_codec c4 e4 v4" "wire_codec c5 e5 v5" "wire_codec c6 e6 v6"
    "wire_codec c7 e7 v7" "wire_codec c8 e8 v8"
  shows "wire_codec (NEW_DECLARE_PACKET_8 uri c1 c2 c3 c4 c5 c6 c7 c8)
    (enc_pair head_bytes (enc_pair e1 (enc_pair e2 (enc_pair e3 (enc_pair e4 (enc_pair e5
    (enc_pair e6 (enc_pair e7 e8))))))))
    (valid_pair any (valid_pair v1 (valid_pair v2 (valid_pair v3 (valid_pair v4 (valid_pair v5
    (valid_pair v6 (valid_pair v7 v8))))))))"
  unfolding PACKET_8_nest by (intro wire_pair wire_PACKET_0 assms)

lemma PACKET_9_nest: "NEW_DECLARE_PACKET_9 uri c1 c2 c3 c4 c5 c6 c7 c8 c9 =
    pair_codec (NEW_DECLARE_PACKET_0 uri) (pair_codec c1 (pair_codec c2 (pair_codec c3
    (pair_codec c4 (pair_codec c5 (pair_codec c6 (pair_codec c7 (pair_codec c8 c9))))))))"
  by (simp add: NEW_DECLARE_PACKET_9_def pair_codec_def NEW_DECLARE_PACKET_0_def fun_eq_iff split_def)

lemma wire_PACKET_9 [wire_codecs]:
  assumes "wire_codec c1 e1 v1" "wire_codec c2 e2 v2" "wire_codec c3 e3 v3"
    "wire_codec c4 e4 v4" "wire_codec c5 e5 v5" "wire_codec c6 e6 v6"
    "wire_codec c7 e7 v7" "wire_codec c8 e8 v8" "wire_codec c9 e9 v9"
  shows "wire_codec (NEW_DECLARE_PACKET_9 uri c1 c2 c3 c4 c5 c6 c7 c8 c9)
    (enc_pair head_bytes (enc_pair e1 (enc_pair e2 (enc_pair e3 (enc_pair e4 (enc_pair e5
    (enc_pair e6 (enc_pair e7 (enc_pair e8 e9)))))))))
    (valid_pair any (valid_pair v1 (valid_pair v2 (valid_pair v3 (valid_pair v4 (valid_pair v5
    (valid_pair v6 (valid_pair v7 (valid_pair v8 v9)))))))))"
  unfolding PACKET_9_nest by (intro wire_pair wire_PACKET_0 assms)

lemma PACKET_10_nest: "NEW_DECLARE_PACKET_10 uri c1 c2 c3 c4 c5 c6 c7 c8 c9 c10 =
    pair_codec (NEW_DECLARE_PACKET_0 uri) (pair_codec c1 (pair_codec c2 (pair_codec c3
    (pair_codec c4 (pair_codec c5 (pair_codec c6 (pair_codec c7 (pair_codec c8 (pair_codec c9
    c10)))))))))"
  by (simp add: NEW_DECLARE_PACKET_10_def pair_codec_def NEW_DECLARE_PACKET_0_def fun_eq_iff split_def)

lemma wire_PACKET_10 [wire_codecs]:
  assumes "wire_codec c1 e1 v1" "wire_codec c2 e2 v2" "wire_codec c3 e3 v3"
    "wire_codec c4 e4 v4" "wire_codec c5 e5 v5" "wire_codec c6 e6 v6"
    "wire_codec c7 e7 v7" "wire_codec c8 e8 v8" "wire_codec c9 e9 v9"
    "wire_codec c10 e10 v10"
  shows "wire_codec (NEW_DECLARE_PACKET_10 uri c1 c2 c3 c4 c5 c6 c7 c8 c9 c10)
    (enc_pair head_bytes (enc_pair e1 (enc_pair e2 (enc_pair e3 (enc_pair e4 (enc_pair e5
    (enc_pair e6 (enc_pair e7 (enc_pair e8 (enc_pair e9 e10))))))))))
    (valid_pair any (valid_pair v1 (valid_pair v2 (valid_pair v3 (valid_pair v4 (valid_pair v5
    (valid_pair v6 (valid_pair v7 (valid_pair v8 (valid_pair v9 v10))))))))))"
  unfolding PACKET_10_nest by (intro wire_pair wire_PACKET_0 assms)

lemma PACKET_11_nest: "NEW_DECLARE_PACKET_11 uri c1 c2 c3 c4 c5 c6 c7 c8 c9 c10 c11 =
    pair_codec (NEW_DECLARE_PACKET_0 uri) (pair_codec c1 (pair_codec c2 (pair_codec c3
    (pair_codec c4 (pair_codec c5 (pair_codec c6 (pair_codec c7 (pair_codec c8 (pair_codec c9
    (pair_codec c10 c11))))))))))"
  by (simp add: NEW_DECLARE_PACKET_11_def pair_codec_def NEW_DECLARE_PACKET_0_def fun_eq_iff split_def)

lemma wire_PACKET_11 [wire_codecs]:
  assumes "wire_codec c1 e1 v1" "wire_codec c2 e2 v2" "wire_codec c3 e3 v3"
    "wire_codec c4 e4 v4" "wire_codec c5 e5 v5" "wire_codec c6 e6 v6"
    "wire_codec c7 e7 v7" "wire_codec c8 e8 v8" "wire_codec c9 e9 v9"
    "wire_codec c10 e10 v10" "wire_codec c11 e11 v11"
  shows "wire_codec (NEW_DECLARE_PACKET_11 uri c1 c2 c3 c4 c5 c6 c7 c8 c9 c10 c11)
    (enc_pair head_bytes (enc_pair e1 (enc_pair e2 (enc_pair e3 (enc_pair e4 (enc_pair e5
    (enc_pair e6 (enc_pair e7 (enc_pair e8 (enc_pair e9 (enc_pair e10 e11)))))))))))
    (valid_pair any (valid_pair v1 (valid_pair v2 (valid_pair v3 (valid_pair v4 (valid_pair v5
    (valid_pair v6 (valid_pair v7 (valid_pair v8 (valid_pair v9 (valid_pair v10 v11)))))))))))"
  unfolding PACKET_11_nest by (intro wire_pair wire_PACKET_0 assms)

lemma PACKET_12_nest: "NEW_DECLARE_PACKET_12 uri c1 c2 c3 c4 c5 c6 c7 c8 c9 c10 c11 c12 =
    pair_codec (NEW_DECLARE_PACKET_0 uri) (pair_codec c1 (pair_codec c2 (pair_codec c3
    (pair_codec c4 (pair_codec c5 (pair_codec c6 (pair_codec c7 (pair_codec c8 (pair_codec c9
    (pair_codec c10 (pair_codec c11 c12)))))))))))"
  by (simp add: NEW_DECLARE_PACKET_12_def pair_codec_def NEW_DECLARE_PACKET_0_def fun_eq_iff split_def)

lemma wire_PACKET_12 [wire_codecs]:
  assumes "wire_codec c1 e1 v1" "wire_codec c2 e2 v2" "wire_codec c3 e3 v3"
    "wire_codec c4 e4 v4" "wire_codec c5 e5 v5" "wire_codec c6 e6 v6"
    "wire_codec c7 e7 v7" "wire_codec c8 e8 v8" "wire_codec c9 e9 v9"
    "wire_codec c10 e10 v10" "wire_codec c11 e11 v11" "wire_codec c12 e12 v12"
  shows "wire_codec (NEW_DECLARE_PACKET_12 uri c1 c2 c3 c4 c5 c6 c7 c8 c9 c10 c11 c12)
    (enc_pair head_bytes (enc_pair e1 (enc_pair e2 (enc_pair e3 (enc_pair e4 (enc_pair e5
    (enc_pair e6 (enc_pair e7 (enc_pair e8 (enc_pair e9 (enc_pair e10 (enc_pair e11
    e12))))))))))))
    (valid_pair any (valid_pair v1 (valid_pair v2 (valid_pair v3 (valid_pair v4 (valid_pair v5
    (valid_pair v6 (valid_pair v7 (valid_pair v8 (valid_pair v9 (valid_pair v10 (valid_pair
    v11 v12))))))))))))"
  unfolding PACKET_12_nest by (intro wire_pair wire_PACKET_0 assms)

lemma PACKET_13_nest: "NEW_DECLARE_PACKET_13 uri c1 c2 c3 c4 c5 c6 c7 c8 c9 c10 c11 c12 c13 =
    pair_codec (NEW_DECLARE_PACKET_0 uri) (pair_codec c1 (pair_codec c2 (pair_codec c3
    (pair_codec c4 (pair_codec c5 (pair_codec c6 (pair_codec c7 (pair_codec c8 (pair_codec c9
    (pair_codec c10 (pair_codec c11 (pair_codec c12 c13))))))))))))"
  by (simp add: NEW_DECLARE_PACKET_13_def pair_codec_def NEW_DECLARE_PACKET_0_def fun_eq_iff split_def)

lemma wire_PACKET_13 [wire_codecs]:
  assumes "wire_codec c1 e1 v1" "wire_codec c2 e2 v2" "wire_codec c3 e3 v3"
    "wire_codec c4 e4 v4" "wire_codec c5 e5 v5" "wire_codec c6 e6 v6"
    "wire_codec c7 e7 v7" "wire_codec c8 e8 v8" "wire_codec c9 e9 v9"
    "wire_codec c10 e10 v10" "wire_codec c11 e11 v11" "wire_codec c12 e12 v12"
    "wire_codec c13 e13 v13"
  shows "wire_codec (NEW_DECLARE_PACKET_13 uri c1 c2 c3 c4 c5 c6 c7 c8 c9 c10 c11 c12 c13)
    (enc_pair head_bytes (enc_pair e1 (enc_pair e2 (enc_pair e3 (enc_pair e4 (enc_pair e5
    (enc_pair e6 (enc_pair e7 (enc_pair e8 (enc_pair e9 (enc_pair e10 (enc_pair e11 (enc_pair
    e12 e13)))))))))))))
    (valid_pair any (valid_pair v1 (valid_pair v2 (valid_pair v3 (valid_pair v4 (valid_pair v5
    (valid_pair v6 (valid_pair v7 (valid_pair v8 (valid_pair v9 (valid_pair v10 (valid_pair
    v11 (valid_pair v12 v13)))))))))))))"
  unfolding PACKET_13_nest by (intro wire_pair wire_PACKET_0 assms)

lemma PACKET_14_nest: "NEW_DECLARE_PACKET_14 uri c1 c2 c3 c4 c5 c6 c7 c8 c9 c10 c11 c12 c13 c14 =
    pair_codec (NEW_DECLARE_PACKET_0 uri) (pair_codec c1 (pair_codec c2 (pair_codec c3
    (pair_codec c4 (pair_codec c5 (pair_codec c6 (pair_codec c7 (pair_codec c8 (pair_codec c9
    (pair_codec c10 (pair_codec c11 (pair_codec c12 (pair_codec c13 c14)))))))))))))"
  by (simp add: NEW_DECLARE_PACKET_14_def pair_codec_def NEW_DECLARE_PACKET_0_def fun_eq_iff split_def)

lemma wire_PACKET_14 [wire_codecs]:
  assumes "wire_codec c1 e1 v1" "wire_codec c2 e2 v2" "wire_codec c3 e3 v3"
    "wire_codec c4 e4 v4" "wire_codec c5 e5 v5" "wire_codec c6 e6 v6"
    "wire_codec c7 e7 v7" "wire_codec c8 e8 v8" "wire_codec c9 e9 v9"
    "wire_codec c10 e10 v10" "wire_codec c11 e11 v11" "wire_codec c12 e12 v12"
    "wire_codec c13 e13 v13" "wire_codec c14 e14 v14"
  shows "wire_codec (NEW_DECLARE_PACKET_14 uri c1 c2 c3 c4 c5 c6 c7 c8 c9 c10 c11 c12 c13 c14)
    (enc_pair head_bytes (enc_pair e1 (enc_pair e2 (enc_pair e3 (enc_pair e4 (enc_pair e5
    (enc_pair e6 (enc_pair e7 (enc_pair e8 (enc_pair e9 (enc_pair e10 (enc_pair e11 (enc_pair
    e12 (enc_pair e13 e14))))))))))))))
    (valid_pair any (valid_pair v1 (valid_pair v2 (valid_pair v3 (valid_pair v4 (valid_pair v5
    (valid_pair v6 (valid_pair v7 (valid_pair v8 (valid_pair v9 (valid_pair v10 (valid_pair
    v11 (valid_pair v12 (valid_pair v13 v14))))))))))))))"
  unfolding PACKET_14_nest by (intro wire_pair wire_PACKET_0 assms)

end
