(* ===== verification/Protocols.thy ===== *)
theory Protocols
  imports Packet
begin

text \<open>
  The packets of the two protocols of the server: the unified LBS protocol
  (src/turnserver/protocol/uni_lbs_protocol.h), spoken with the load balancers,
  and the edge LBS protocol (src/turnserver/new_elbs/new_elbs_protocol.h),
  spoken with the worker manager and the edge load balancer.  Each packet is a
  codec built by its macro from the codecs of its members; next to it stands
  its wire format, \<open><Name>_bytes\<close>, the condition \<open><Name>_ok\<close> under which it is
  kept, and the interpretation of the wire contract on it.
\<close>

section \<open>Unified LBS protocol\<close>

definition kVersion5 :: u16 where "kVersion5 = 5"
definition kVersion7 :: u16 where "kVersion7 = 7"
definition kVersion8 :: u16 where "kVersion8 = 8"

definition kLbsTestJoinReqUri :: u16 where "kLbsTestJoinReqUri = 1000"
definition kLbsJoinReqUri :: u16 where "kLbsJoinReqUri = 1001"
definition kLbsJoinResUri :: u16 where "kLbsJoinResUri = 1002"
definition kLbsPingUri :: u16 where "kLbsPingUri = 1003"
definition kLbsPongUri :: u16 where "kLbsPongUri = 1004"
definition kLbsFullChannelListUri :: u16 where "kLbsFullChannelListUri = 1005"
definition kLbsDeltaChannelListUri :: u16 where "kLbsDeltaChannelListUri = 1006"
definition kLbsJoinReq2Uri :: u16 where "kLbsJoinReq2Uri = 1007"
definition kLbsJoinRes2Uri :: u16 where "kLbsJoinRes2Uri = 1008"

text \<open>\<open>std::map\<close> is the ascending list of its entries.\<close>

type_synonym DetailInfoMap = "(u32 \<times> u32) list"
type_synonym DetailInfo2Map = "(u32 \<times> byte list) list"
type_synonym AllChannelVector = "(u32 \<times> byte list) list"

definition DetailInfoMap_codec :: "DetailInfoMap codec" where
  "DetailInfoMap_codec = map_codec u32_codec u32_codec"

definition DetailInfo2Map_codec :: "DetailInfo2Map codec" where
  "DetailInfo2Map_codec = map_codec u32_codec string_codec"

definition AllChannelVector_codec :: "AllChannelVector codec" where
  "AllChannelVector_codec = vector_codec (pair_codec u32_codec string_codec)"

definition kUserLoad :: u32 where "kUserLoad = 1"
definition kCpuLoad :: u32 where "kCpuLoad = 2"
definition kTrafficInLoad :: u32 where "kTrafficInLoad = 3"
definition kTrafficOutLoad :: u32 where "kTrafficOutLoad = 4"
definition kUserLoadMax :: u32 where "kUserLoadMax = 5"
definition kServerVersion :: u32 where "kServerVersion = 6"
definition kServerDetail :: u32 where "kServerDetail = 7"
definition kMemLoad :: u32 where "kMemLoad = 8"

type_synonym AccessTicket_t = "byte list \<times> byte list"

definition AccessTicket :: "AccessTicket_t codec" where
  "AccessTicket = NEW_DECLARE_PACKABLE_2 buffer_codec buffer_codec"

type_synonym TicketDetail5_t = "packet \<times> u32 \<times> u32 \<times> u32 list \<times> u32 \<times> u32 \<times> byte list"

definition TicketDetail5 :: "TicketDetail5_t codec" where
  "TicketDetail5 = NEW_DECLARE_PACKET_6 kVersion5 u32_codec u32_codec (vector_codec u32_codec)
     u32_codec u32_codec string_codec"

type_synonym DetailedSignature5_t = "u32 \<times> u32 \<times> u32 \<times> u32 list \<times> u32 \<times> u32 \<times> byte list"

definition DetailedSignature5 :: "DetailedSignature5_t codec" where
  "DetailedSignature5 = NEW_DECLARE_PACKABLE_7 u32_codec u32_codec u32_codec (vector_codec u32_codec)
     u32_codec u32_codec string_codec"

type_synonym TicketDetail7_t = "packet \<times> u32 \<times> u32 \<times> u32 \<times> u32 \<times> byte list"

definition TicketDetail7 :: "TicketDetail7_t codec" where
  "TicketDetail7 = NEW_DECLARE_PACKET_5 kVersion7 u32_codec u32_codec u32_codec u32_codec string_codec"

type_synonym TicketDetail8_t = "packet \<times> u32 \<times> u32 \<times> u32 \<times> u32 list \<times> u32 \<times> u32 \<times> byte list \<times> u32"

definition TicketDetail8 :: "TicketDetail8_t codec" where
  "TicketDetail8 = NEW_DECLARE_PACKET_8 kVersion8 u32_codec u32_codec u32_codec
     (vector_codec u32_codec) u32_codec u32_codec string_codec u32_codec"

type_synonym LbsTestJoinReq_t = "packet \<times> u32 \<times> byte list \<times> byte list \<times> u16"

definition LbsTestJoinReq :: "LbsTestJoinReq_t codec" where
  "LbsTestJoinReq = NEW_DECLARE_PACKET_4 kLbsTestJoinReqUri u32_codec string_codec string_codec
     u16_codec"

type_synonym LbsJoinReq_t = "packet \<times> u32 \<times> byte list \<times> u16"

definition LbsJoinReq :: "LbsJoinReq_t codec" where
  "LbsJoinReq = NEW_DECLARE_PACKET_3 kLbsJoinReqUri u32_codec string_codec u16_codec"

type_synonym LbsJoinRes_t = "packet \<times> u32 \<times> u32"

definition LbsJoinRes :: "LbsJoinRes_t codec" where
  "LbsJoinRes = NEW_DECLARE_PACKET_2 kLbsJoinResUri u32_codec u32_codec"

type_synonym LbsJoinReq2_t = "packet \<times> u32 \<times> byte list \<times> u16 \<times> DetailInfo2Map"

definition LbsJoinReq2 :: "LbsJoinReq2_t codec" where
  "LbsJoinReq2 = NEW_DECLARE_PACKET_4 kLbsJoinReq2Uri u32_codec string_codec u16_codec
     DetailInfo2Map_codec"

type_synonym LbsJoinRes2_t = "packet \<times> u32 \<times> u32 \<times> DetailInfo2Map"

definition LbsJoinRes2 :: "LbsJoinRes2_t codec" where
  "LbsJoinRes2 = NEW_DECLARE_PACKET_3 kLbsJoinRes2Uri u32_codec u32_codec DetailInfo2Map_codec"

type_synonym LbsPing_t = "packet \<times> u32 \<times> DetailInfoMap"

definition LbsPing :: "LbsPing_t codec" where
  "LbsPing = NEW_DECLARE_PACKET_2 kLbsPingUri u32_codec DetailInfoMap_codec"

type_synonym LbsPong_t = "packet \<times> u32 \<times> DetailInfoMap"

definition LbsPong :: "LbsPong_t codec" where
  "LbsPong = NEW_DECLARE_PACKET_2 kLbsPongUri u32_codec DetailInfoMap_codec"

type_synonym LbsFullChannelList_t = "packet \<times> u32 \<times> AllChannelVector"

definition LbsFullChannelList :: "LbsFullChannelList_t codec" where
  "LbsFullChannelList = NEW_DECLARE_PACKET_2 kLbsFullChannelListUri u32_codec AllChannelVector_codec"

type_synonym LbsDeltaChannelList_t = "packet \<times> u32 \<times> AllChannelVector \<times> AllChannelVector"

definition LbsDeltaChannelList :: "LbsDeltaChannelList_t codec" where
  "LbsDeltaChannelList = NEW_DECLARE_PACKET_3 kLbsDeltaChannelListUri u32_codec AllChannelVector_codec
     AllChannelVector_codec"

section \<open>Edge LBS protocol\<close>

definition kRejoinRequestUri :: u16 where "kRejoinRequestUri = 6"
definition kRejoinResponseUri :: u16 where "kRejoinResponseUri = 7"
definition kRejoinRequest2Uri :: u16 where "kRejoinRequest2Uri = 8"
definition kRejoinResponse2Uri :: u16 where "kRejoinResponse2Uri = 9"
definition kUapUri :: u16 where "kUapUri = 1000"

definition ELBS_SERVER_TYPE :: u16 where "ELBS_SERVER_TYPE = 305"
definition UAP_SERVER_TYPE :: u16 where "UAP_SERVER_TYPE = 1000"
definition kUapServiceType :: u16 where "kUapServiceType = 1000"

type_synonym WorkerManagerComm_t = "packet \<times> byte list"

definition WorkerManagerComm :: "WorkerManagerComm_t codec" where
  "WorkerManagerComm = NEW_DECLARE_PACKET_1 kUapUri string_codec"

type_synonym RejoinRequestProtocol_t = "packet \<times> u32 \<times> u16"

definition RejoinRequestProtocol :: "RejoinRequestProtocol_t codec" where
  "RejoinRequestProtocol = NEW_DECLARE_PACKET_2 kRejoinRequestUri u32_codec u16_codec"

type_synonym RejoinResponseProtocol_t = "packet \<times> u32 \<times> u32 \<times> u16"

definition RejoinResponseProtocol :: "RejoinResponseProtocol_t codec" where
  "RejoinResponseProtocol = NEW_DECLARE_PACKET_3 kRejoinResponseUri u32_codec u32_codec u16_codec"

type_synonym RejoinRequest2Protocol_t = "packet \<times> u32 \<times> u16"

definition RejoinRequest2Protocol :: "RejoinRequest2Protocol_t codec" where
  "RejoinRequest2Protocol = NEW_DECLARE_PACKET_2 kRejoinRequest2Uri u32_codec u16_codec"

type_synonym RejoinResponse2Protocol_t = "packet \<times> u32 \<times> u32 \<times> u16"

definition RejoinResponse2Protocol :: "RejoinResponse2Protocol_t codec" where
  "RejoinResponse2Protocol = NEW_DECLARE_PACKET_3 kRejoinResponse2Uri u32_codec u32_codec u16_codec"

section \<open>Wire formats\<close>

lemma wire_DetailInfoMap [wire_codecs]:
  "wire_codec DetailInfoMap_codec (seq_bytes (enc_pair (le_bytes 4) (le_bytes 4))) (\<lambda>m. short m \<and> map_wf m)"
  unfolding DetailInfoMap_codec_def
  by (rule wire_cong, (rule wire_codecs)+) (auto simp: list_all_iff valid_pair_def)

lemma wire_DetailInfo2Map [wire_codecs]:
  "wire_codec DetailInfo2Map_codec (seq_bytes (enc_pair (le_bytes 4) str_bytes))
     (\<lambda>m. list_all (\<lambda>(_, s). short s) m \<and> short m \<and> map_wf m)"
  unfolding DetailInfo2Map_codec_def
  by (rule wire_cong, (rule wire_codecs)+) (auto simp: list_all_iff valid_pair_def)

lemma wire_AllChannelVector [wire_codecs]:
  "wire_codec AllChannelVector_codec (seq_bytes (enc_pair (le_bytes 4) str_bytes))
     (\<lambda>m. list_all (\<lambda>(_, s). short s) m \<and> short m)"
  unfolding AllChannelVector_codec_def
  by (rule wire_cong, (rule wire_codecs)+) (auto simp: list_all_iff valid_pair_def)

lemmas packet_specs = valid_pair_def list_all_iff

fun AccessTicket_bytes :: "AccessTicket_t \<Rightarrow> byte list" where
  "AccessTicket_bytes (content, signature) =
     str_bytes content @ str_bytes signature"

fun AccessTicket_ok :: "AccessTicket_t \<Rightarrow> bool" where
  "AccessTicket_ok (content, signature) \<longleftrightarrow> short content \<and> short signature"

interpretation AccessTicket: wire_codec AccessTicket AccessTicket_bytes AccessTicket_ok
  unfolding AccessTicket_def
  by (rule wire_cong, (rule wire_codecs)+, auto simp: packet_specs)

fun TicketDetail5_bytes :: "TicketDetail5_t \<Rightarrow> byte list" where
  "TicketDetail5_bytes (h, vid, uid, sids, issue_ts, due_ts, cname) =
     head_bytes h @ le_bytes 4 vid @ le_bytes 4 uid @ seq_bytes (le_bytes 4) sids @
     le_bytes 4 issue_ts @ le_bytes 4 due_ts @ str_bytes cname"

fun TicketDetail5_ok :: "TicketDetail5_t \<Rightarrow> bool" where
  "TicketDetail5_ok (h, _, _, sids, _, _, cname) \<longleftrightarrow> short sids \<and> short cname"

interpretation TicketDetail5: wire_codec TicketDetail5 TicketDetail5_bytes TicketDetail5_ok
  unfolding TicketDetail5_def
  by (rule wire_cong, (rule wire_codecs)+, auto simp: packet_specs)

fun DetailedSignature5_bytes :: "DetailedSignature5_t \<Rightarrow> byte list" where
  "DetailedSignature5_bytes (cid, uid, vid, sids, issue_ts, due_ts, cname) =
     le_bytes 4 cid @ le_bytes 4 uid @ le_bytes 4 vid @ seq_bytes (le_bytes 4) sids @
     le_bytes 4 issue_ts @ le_bytes 4 due_ts @ str_bytes cname"

fun DetailedSignature5_ok :: "DetailedSignature5_t \<Rightarrow> bool" where
  "DetailedSignature5_ok (_, _, _, sids, _, _, cname) \<longleftrightarrow> short sids \<and> short cname"

interpretation DetailedSignature5: wire_codec DetailedSignature5 DetailedSignature5_bytes DetailedSignature5_ok
  unfolding DetailedSignature5_def
  by (rule wire_cong, (rule wire_codecs)+, auto simp: packet_specs)

fun TicketDetail7_bytes :: "TicketDetail7_t \<Rightarrow> byte list" where
  "TicketDetail7_bytes (h, vid, uid, issue_ts, due_ts, cname) =
     head_bytes h @ le_bytes 4 vid @ le_bytes 4 uid @ le_bytes 4 issue_ts @ le_bytes 4
     due_ts @ str_bytes cname"

fun TicketDetail7_ok :: "TicketDetail7_t \<Rightarrow> bool" where
  "TicketDetail7_ok (h, _, _, _, _, cname) \<longleftrightarrow> short cname"

interpretation TicketDetail7: wire_codec TicketDetail7 TicketDetail7_bytes TicketDetail7_ok
  unfolding TicketDetail7_def
  by (rule wire_cong, (rule wire_codecs)+, auto simp: packet_specs)

fun TicketDetail8_bytes :: "TicketDetail8_t \<Rightarrow> byte list" where
  "TicketDetail8_bytes (h, vid, uid, cid, sids, issue_ts, due_ts, cname, bitrates) =
     head_bytes h @ le_bytes 4 vid @ le_bytes 4 uid @ le_bytes 4 cid @ seq_bytes
     (le_bytes 4) sids @ le_bytes 4 issue_ts @ le_bytes 4 due_ts @ str_bytes cname @
     le_bytes 4 bitrates"

fun TicketDetail8_ok :: "TicketDetail8_t \<Rightarrow> bool" where
  "TicketDetail8_ok (h, _, _, _, sids, _, _, cname, _) \<longleftrightarrow> short sids \<and> short cname"

interpretation TicketDetail8: wire_codec TicketDetail8 TicketDetail8_bytes TicketDetail8_ok
  unfolding TicketDetail8_def
  by (rule wire_cong, (rule wire_codecs)+, auto simp: packet_specs)

fun LbsTestJoinReq_bytes :: "LbsTestJoinReq_t \<Rightarrow> byte list" where
  "LbsTestJoinReq_bytes (h, id', service_name, ip, port) =
     head_bytes h @ le_bytes 4 id' @ str_bytes service_name @ str_bytes ip @ le_bytes 2
     port"

fun LbsTestJoinReq_ok :: "LbsTestJoinReq_t \<Rightarrow> bool" where
  "LbsTestJoinReq_ok (h, _, service_name, ip, _) \<longleftrightarrow> short service_name \<and> short ip"

interpretation LbsTestJoinReq: wire_codec LbsTestJoinReq LbsTestJoinReq_bytes LbsTestJoinReq_ok
  unfolding LbsTestJoinReq_def
  by (rule wire_cong, (rule wire_codecs)+, auto simp: packet_specs)

fun LbsJoinReq_bytes :: "LbsJoinReq_t \<Rightarrow> byte list" where
  "LbsJoinReq_bytes (h, id', service_name, port) =
     head_bytes h @ le_bytes 4 id' @ str_bytes service_name @ le_bytes 2 port"

fun LbsJoinReq_ok :: "LbsJoinReq_t \<Rightarrow> bool" where
  "LbsJoinReq_ok (h, _, service_name, _) \<longleftrightarrow> short service_name"

interpretation LbsJoinReq: wire_codec LbsJoinReq LbsJoinReq_bytes LbsJoinReq_ok
  unfolding LbsJoinReq_def
  by (rule wire_cong, (rule wire_codecs)+, auto simp: packet_specs)

fun LbsJoinRes_bytes :: "LbsJoinRes_t \<Rightarrow> byte list" where
  "LbsJoinRes_bytes (h, id', code) =
     head_bytes h @ le_bytes 4 id' @ le_bytes 4 code"

lemma length_LbsJoinRes [simp]: "length (LbsJoinRes_bytes p) = 12"
  by (cases p) simp

interpretation LbsJoinRes: wire_codec LbsJoinRes LbsJoinRes_bytes any
  unfolding LbsJoinRes_def
  by (rule wire_cong, (rule wire_codecs)+, auto simp: packet_specs)

fun LbsJoinReq2_bytes :: "LbsJoinReq2_t \<Rightarrow> byte list" where
  "LbsJoinReq2_bytes (h, id', service_name, port, detail) =
     head_bytes h @ le_bytes 4 id' @ str_bytes service_name @ le_bytes 2 port @ seq_bytes
     (enc_pair (le_bytes 4) str_bytes) detail"

fun LbsJoinReq2_ok :: "LbsJoinReq2_t \<Rightarrow> bool" where
  "LbsJoinReq2_ok (h, _, service_name, _, detail) \<longleftrightarrow> short service_name \<and> list_all (\<lambda>(_, s). short s) detail \<and>
     short detail \<and> map_wf detail"

interpretation LbsJoinReq2: wire_codec LbsJoinReq2 LbsJoinReq2_bytes LbsJoinReq2_ok
  unfolding LbsJoinReq2_def
  by (rule wire_cong, (rule wire_codecs)+, auto simp: packet_specs)

fun LbsJoinRes2_bytes :: "LbsJoinRes2_t \<Rightarrow> byte list" where
  "LbsJoinRes2_bytes (h, id', code, detail) =
     head_bytes h @ le_bytes 4 id' @ le_bytes 4 code @ seq_bytes (enc_pair (le_bytes 4)
     str_bytes) detail"

fun LbsJoinRes2_ok :: "LbsJoinRes2_t \<Rightarrow> bool" where
  "LbsJoinRes2_ok (h, _, _, detail) \<longleftrightarrow> list_all (\<lambda>(_, s). short s) detail \<and> short detail \<and> map_wf
     detail"

interpretation LbsJoinRes2: wire_codec LbsJoinRes2 LbsJoinRes2_bytes LbsJoinRes2_ok
  unfolding LbsJoinRes2_def
  by (rule wire_cong, (rule wire_codecs)+, auto simp: packet_specs)

fun LbsPing_bytes :: "LbsPing_t \<Rightarrow> byte list" where
  "LbsPing_bytes (h, id', load_detail) =
     head_bytes h @ le_bytes 4 id' @ seq_bytes (enc_pair (le_bytes 4) (le_bytes 4))
     load_detail"

fun LbsPing_ok :: "LbsPing_t \<Rightarrow> bool" where
  "LbsPing_ok (h, _, load_detail) \<longleftrightarrow> short load_detail \<and> map_wf load_detail"

interpretation LbsPing: wire_codec LbsPing LbsPing_bytes LbsPing_ok
  unfolding LbsPing_def
  by (rule wire_cong, (rule wire_codecs)+, auto simp: packet_specs)

fun LbsPong_bytes :: "LbsPong_t \<Rightarrow> byte list" where
  "LbsPong_bytes (h, id', load_detail) =
     head_bytes h @ le_bytes 4 id' @ seq_bytes (enc_pair (le_bytes 4) (le_bytes 4))
     load_detail"

fun LbsPong_ok :: "LbsPong_t \<Rightarrow> bool" where
  "LbsPong_ok (h, _, load_detail) \<longleftrightarrow> short load_detail \<and> map_wf load_detail"

interpretation LbsPong: wire_codec LbsPong LbsPong_bytes LbsPong_ok
  unfolding LbsPong_def
  by (rule wire_cong, (rule wire_codecs)+, auto simp: packet_specs)

fun LbsFullChannelList_bytes :: "LbsFullChannelList_t \<Rightarrow> byte list" where
  "LbsFullChannelList_bytes (h, id', channels) =
     head_bytes h @ le_bytes 4 id' @ seq_bytes (enc_pair (le_bytes 4) str_bytes) channels"

fun LbsFullChannelList_ok :: "LbsFullChannelList_t \<Rightarrow> bool" where
  "LbsFullChannelList_ok (h, _, channels) \<longleftrightarrow> list_all (\<lambda>(_, s). short s) channels \<and> short channels"

interpretation LbsFullChannelList: wire_codec LbsFullChannelList LbsFullChannelList_bytes LbsFullChannelList_ok
  unfolding LbsFullChannelList_def
  by (rule wire_cong, (rule wire_codecs)+, auto simp: packet_specs)

fun LbsDeltaChannelList_bytes :: "LbsDeltaChannelList_t \<Rightarrow> byte list" where
  "LbsDeltaChannelList_bytes (h, id', added, removed) =
     head_bytes h @ le_bytes 4 id' @ seq_bytes (enc_pair (le_bytes 4) str_bytes) added @
     seq_bytes (enc_pair (le_bytes 4) str_bytes) removed"

fun LbsDeltaChannelList_ok :: "LbsDeltaChannelList_t \<Rightarrow> bool" where
  "LbsDeltaChannelList_ok (h, _, added, removed) \<longleftrightarrow> list_all (\<lambda>(_, s). short s) added \<and> short added \<and> list_all
     (\<lambda>(_, s). short s) removed \<and> short removed"

interpretation LbsDeltaChannelList: wire_codec LbsDeltaChannelList LbsDeltaChannelList_bytes LbsDeltaChannelList_ok
  unfolding LbsDeltaChannelList_def
  by (rule wire_cong, (rule wire_codecs)+, auto simp: packet_specs)

fun WorkerManagerComm_bytes :: "WorkerManagerComm_t \<Rightarrow> byte list" where
  "WorkerManagerComm_bytes (h, json) =
     head_bytes h @ str_bytes json"

fun WorkerManagerComm_ok :: "WorkerManagerComm_t \<Rightarrow> bool" where
  "WorkerManagerComm_ok (h, json) \<longleftrightarrow> short json"

interpretation WorkerManagerComm: wire_codec WorkerManagerComm WorkerManagerComm_bytes WorkerManagerComm_ok
  unfolding WorkerManagerComm_def
  by (rule wire_cong, (rule wire_codecs)+, auto simp: packet_specs)

fun RejoinRequestProtocol_bytes :: "RejoinRequestProtocol_t \<Rightarrow> byte list" where
  "RejoinRequestProtocol_bytes (h, ip, port) =
     head_bytes h @ le_bytes 4 ip @ le_bytes 2 port"

lemma length_RejoinRequestProtocol [simp]: "length (RejoinRequestProtocol_bytes p) = 10"
  by (cases p) simp

interpretation RejoinRequestProtocol: wire_codec RejoinRequestProtocol RejoinRequestProtocol_bytes any
  unfolding RejoinRequestProtocol_def
  by (rule wire_cong, (rule wire_codecs)+, auto simp: packet_specs)

fun RejoinResponseProtocol_bytes :: "RejoinResponseProtocol_t \<Rightarrow> byte list" where
  "RejoinResponseProtocol_bytes (h, code, ip, port) =
     head_bytes h @ le_bytes 4 code @ le_bytes 4 ip @ le_bytes 2 port"

lemma length_RejoinResponseProtocol [simp]: "length (RejoinResponseProtocol_bytes p) = 14"
  by (cases p) simp

interpretation RejoinResponseProtocol: wire_codec RejoinResponseProtocol RejoinResponseProtocol_bytes any
  unfolding RejoinResponseProtocol_def
  by (rule wire_cong, (rule wire_codecs)+, auto simp: packet_specs)

fun RejoinRequest2Protocol_bytes :: "RejoinRequest2Protocol_t \<Rightarrow> byte list" where
  "RejoinRequest2Protocol_bytes (h, ip, port) =
     head_bytes h @ le_bytes 4 ip @ le_bytes 2 port"

lemma length_RejoinRequest2Protocol [simp]: "length (RejoinRequest2Protocol_bytes p) = 10"
  by (cases p) simp

interpretation RejoinRequest2Protocol: wire_codec RejoinRequest2Protocol RejoinRequest2Protocol_bytes any
  unfolding RejoinRequest2Protocol_def
  by (rule wire_cong, (rule wire_codecs)+, auto simp: packet_specs)

fun RejoinResponse2Protocol_bytes :: "RejoinResponse2Protocol_t \<Rightarrow> byte list" where
  "RejoinResponse2Protocol_bytes (h, code, ip, port) =
     head_bytes h @ le_bytes 4 code @ le_bytes 4 ip @ le_bytes 2 port"

lemma length_RejoinResponse2Protocol [simp]: "length (RejoinResponse2Protocol_bytes p) = 14"
  by (cases p) simp

interpretation RejoinResponse2Protocol: wire_codec RejoinResponse2Protocol RejoinResponse2Protocol_bytes any
  unfolding RejoinResponse2Protocol_def
  by (rule wire_cong, (rule wire_codecs)+, auto simp: packet_specs)

section \<open>Delivery of every packet\<close>

lemmas length_wire_simps = str_bytes_def var_bytes_def seq_bytes_def map_wf_def

text \<open>C3. Every packet of the unified LBS protocol is sent in its wire format (server
  type, uri, then the members in order, integers little-endian, strings and
  containers behind a variable-length count, all behind the frame length), and
  the receiver's stream operators give back the packet and consume the frame,
  for every value whose strings and containers have less than \<open>2 ^ 23\<close> elements
  and whose body is below the packet limit.\<close>

theorem lbs_packets_delivered:
  "(LbsTestJoinReq_ok p1 \<and> fits (length (LbsTestJoinReq_bytes p1)) \<longrightarrow> delivers LbsTestJoinReq LbsTestJoinReq_bytes p1) \<and>
   (LbsJoinReq_ok p2 \<and> fits (length (LbsJoinReq_bytes p2)) \<longrightarrow> delivers LbsJoinReq LbsJoinReq_bytes p2) \<and>
   delivers LbsJoinRes LbsJoinRes_bytes p3 \<and>
   (LbsJoinReq2_ok p4 \<and> fits (length (LbsJoinReq2_bytes p4)) \<longrightarrow> delivers LbsJoinReq2 LbsJoinReq2_bytes p4) \<and>
   (LbsJoinRes2_ok p5 \<and> fits (length (LbsJoinRes2_bytes p5)) \<longrightarrow> delivers LbsJoinRes2 LbsJoinRes2_bytes p5) \<and>
   (LbsPing_ok p6 \<and> fits (length (LbsPing_bytes p6)) \<longrightarrow> delivers LbsPing LbsPing_bytes p6) \<and>
   (LbsPong_ok p7 \<and> fits (length (LbsPong_bytes p7)) \<longrightarrow> delivers LbsPong LbsPong_bytes p7) \<and>
   (LbsFullChannelList_ok p8 \<and> fits (length (LbsFullChannelList_bytes p8)) \<longrightarrow> delivers LbsFullChannelList LbsFullChannelList_bytes p8) \<and>
   (LbsDeltaChannelList_ok p9 \<and> fits (length (LbsDeltaChannelList_bytes p9)) \<longrightarrow> delivers LbsDeltaChannelList LbsDeltaChannelList_bytes p9)"
  by (intro conjI impI LbsTestJoinReq.delivery LbsJoinReq.delivery LbsJoinRes.delivery LbsJoinReq2.delivery LbsJoinRes2.delivery LbsPing.delivery LbsPong.delivery LbsFullChannelList.delivery LbsDeltaChannelList.delivery) simp_all

theorem lbs_packets_delivered_witness:
  "delivers LbsTestJoinReq LbsTestJoinReq_bytes ((17, kLbsTestJoinReqUri), 7, [104, 105], [104, 105], 4001) \<and>
   delivers LbsJoinReq LbsJoinReq_bytes ((17, kLbsJoinReqUri), 7, [104, 105], 4001) \<and>
   delivers LbsJoinRes LbsJoinRes_bytes ((17, kLbsJoinResUri), 7, 7) \<and>
   delivers LbsJoinReq2 LbsJoinReq2_bytes ((17, kLbsJoinReq2Uri), 7, [104, 105], 4001, [(6, [49]), (7, [])]) \<and>
   delivers LbsJoinRes2 LbsJoinRes2_bytes ((17, kLbsJoinRes2Uri), 7, 7, [(6, [49]), (7, [])]) \<and>
   delivers LbsPing LbsPing_bytes ((17, kLbsPingUri), 7, [(1, 20), (5, 100)]) \<and>
   delivers LbsPong LbsPong_bytes ((17, kLbsPongUri), 7, [(1, 20), (5, 100)]) \<and>
   delivers LbsFullChannelList LbsFullChannelList_bytes ((17, kLbsFullChannelListUri), 7, [(9, [97]), (8, [])]) \<and>
   delivers LbsDeltaChannelList LbsDeltaChannelList_bytes ((17, kLbsDeltaChannelListUri), 7, [(9, [97]), (8, [])], [(9, [97]), (8, [])])"
  using lbs_packets_delivered [of "((17, kLbsTestJoinReqUri), 7, [104, 105], [104, 105], 4001)" "((17, kLbsJoinReqUri), 7, [104, 105], 4001)" "((17, kLbsJoinResUri), 7, 7)" "((17, kLbsJoinReq2Uri), 7, [104, 105], 4001, [(6, [49]), (7, [])])" "((17, kLbsJoinRes2Uri), 7, 7, [(6, [49]), (7, [])])" "((17, kLbsPingUri), 7, [(1, 20), (5, 100)])" "((17, kLbsPongUri), 7, [(1, 20), (5, 100)])" "((17, kLbsFullChannelListUri), 7, [(9, [97]), (8, [])])" "((17, kLbsDeltaChannelListUri), 7, [(9, [97]), (8, [])], [(9, [97]), (8, [])])"]
  by (simp add: length_wire_simps)

text \<open>The same for the access tickets: the ticket itself, the three versions of
  its content and the text that is signed.\<close>

theorem tickets_delivered:
  "(AccessTicket_ok p1 \<and> fits (length (AccessTicket_bytes p1)) \<longrightarrow> delivers AccessTicket AccessTicket_bytes p1) \<and>
   (TicketDetail5_ok p2 \<and> fits (length (TicketDetail5_bytes p2)) \<longrightarrow> delivers TicketDetail5 TicketDetail5_bytes p2) \<and>
   (DetailedSignature5_ok p3 \<and> fits (length (DetailedSignature5_bytes p3)) \<longrightarrow> delivers DetailedSignature5 DetailedSignature5_bytes p3) \<and>
   (TicketDetail7_ok p4 \<and> fits (length (TicketDetail7_bytes p4)) \<longrightarrow> delivers TicketDetail7 TicketDetail7_bytes p4) \<and>
   (TicketDetail8_ok p5 \<and> fits (length (TicketDetail8_bytes p5)) \<longrightarrow> delivers TicketDetail8 TicketDetail8_bytes p5)"
  by (intro conjI impI AccessTicket.delivery TicketDetail5.delivery DetailedSignature5.delivery TicketDetail7.delivery TicketDetail8.delivery) simp_all

theorem tickets_delivered_witness:
  "delivers AccessTicket AccessTicket_bytes ([1, 2], [1, 2]) \<and>
   delivers TicketDetail5 TicketDetail5_bytes ((17, kVersion5), 7, 7, [1, 2, 3], 7, 7, [104, 105]) \<and>
   delivers DetailedSignature5 DetailedSignature5_bytes (7, 7, 7, [1, 2, 3], 7, 7, [104, 105]) \<and>
   delivers TicketDetail7 TicketDetail7_bytes ((17, kVersion7), 7, 7, 7, 7, [104, 105]) \<and>
   delivers TicketDetail8 TicketDetail8_bytes ((17, kVersion8), 7, 7, 7, [1, 2, 3], 7, 7, [104, 105], 7)"
  using tickets_delivered [of "([1, 2], [1, 2])" "((17, kVersion5), 7, 7, [1, 2, 3], 7, 7, [104, 105])" "(7, 7, 7, [1, 2, 3], 7, 7, [104, 105])" "((17, kVersion7), 7, 7, 7, 7, [104, 105])" "((17, kVersion8), 7, 7, 7, [1, 2, 3], 7, 7, [104, 105], 7)"]
  by (simp add: length_wire_simps)

text \<open>C33. The same for the edge LBS protocol: the JSON message of the worker manager
  and both versions of the rejoin request and response.\<close>

theorem elbs_packets_delivered:
  "(WorkerManagerComm_ok p1 \<and> fits (length (WorkerManagerComm_bytes p1)) \<longrightarrow> delivers WorkerManagerComm WorkerManagerComm_bytes p1) \<and>
   delivers RejoinRequestProtocol RejoinRequestProtocol_bytes p2 \<and>
   delivers RejoinResponseProtocol RejoinResponseProtocol_bytes p3 \<and>
   delivers RejoinRequest2Protocol RejoinRequest2Protocol_bytes p4 \<and>
   delivers RejoinResponse2Protocol RejoinResponse2Protocol_bytes p5"
  by (intro conjI impI WorkerManagerComm.delivery RejoinRequestProtocol.delivery RejoinResponseProtocol.delivery RejoinRequest2Protocol.delivery RejoinResponse2Protocol.delivery) simp_all

theorem elbs_packets_delivered_witness:
  "delivers WorkerManagerComm WorkerManagerComm_bytes ((17, kUapUri), [104, 105]) \<and>
   delivers RejoinRequestProtocol RejoinRequestProtocol_bytes ((17, kRejoinRequestUri), 7, 4001) \<and>
   delivers RejoinResponseProtocol RejoinResponseProtocol_bytes ((17, kRejoinResponseUri), 7, 7, 4001) \<and>
   delivers RejoinRequest2Protocol RejoinRequest2Protocol_bytes ((17, kRejoinRequest2Uri), 7, 4001) \<and>
   delivers RejoinResponse2Protocol RejoinResponse2Protocol_bytes ((17, kRejoinResponse2Uri), 7, 7, 4001)"
  using elbs_packets_delivered [of "((17, kUapUri), [104, 105])" "((17, kRejoinRequestUri), 7, 4001)" "((17, kRejoinResponseUri), 7, 7, 4001)" "((17, kRejoinRequest2Uri), 7, 4001)" "((17, kRejoinResponse2Uri), 7, 7, 4001)"]
  by (simp add: length_wire_simps)

end
