(* ===== verification/Mem_Slice.thy ===== *)
theory Mem_Slice
  imports Mem_Buf "HOL-Library.Multiset"
begin

text \<open>
  \<open>MemSlice\<close> (src/turnserver/memory/mem_slice.h, mem_slice.cpp): a counted
  reference to a \<open>MemBuf\<close> with a begin and an end offset.  The blocks live in an
  explicit heap, because several slices share one block and the last of them
  frees it: \<open>blocks\<close> maps the address of every block that is allocated, and an
  access through an address that was freed, or through a null pointer, is
  \<open>None\<close>.  The allocator never reuses an address, so that no access through a
  dangling pointer succeeds by accident.

  The central invariant \<open>heap_ok\<close> relates the heap to the multiset of the slices
  that are alive: the count of a block is the number of slices that refer to
  it, a block without references does not exist, and the offsets of a slice lie
  in its block.  The machine \<open>slice_exec\<close> runs any program over slice variables.
\<close>

section \<open>The heap of blocks\<close>

record mem_heap =
  blocks :: "nat \<rightharpoonup> mem_buf"
  brk :: nat

definition heap_empty :: mem_heap where
  "heap_empty = \<lparr>blocks = Map.empty, brk = 0\<rparr>"

definition heap_alloc :: "mem_buf \<Rightarrow> mem_heap \<Rightarrow> nat \<times> mem_heap" where
  "heap_alloc b h = (brk h, \<lparr>blocks = (blocks h)(brk h \<mapsto> b), brk = brk h + 1\<rparr>)"

text \<open>\<open>fetch_add\<close> and \<open>fetch_sub\<close> on an \<open>atomic<int32_t>\<close> wrap around.\<close>

definition int32_wrap :: "int \<Rightarrow> int" where
  "int32_wrap x = (x + 2 ^ 31) mod 2 ^ 32 - 2 ^ 31"

definition AddRef :: "nat \<Rightarrow> mem_heap \<Rightarrow> mem_heap option" where
  "AddRef a h =
     do { b \<leftarrow> blocks h a;
          Some (h\<lparr>blocks := (blocks h)(a \<mapsto> b\<lparr>ref_cnt := int32_wrap (ref_cnt b + 1)\<rparr>)\<rparr>) }"

definition Release :: "nat \<Rightarrow> mem_heap \<Rightarrow> mem_heap option" where
  "Release a h =
     do { b \<leftarrow> blocks h a;
          Some (h\<lparr>blocks := (blocks h)(a := if ref_cnt b \<le> 1 then None
            else Some (b\<lparr>ref_cnt := int32_wrap (ref_cnt b - 1)\<rparr>))\<rparr>) }"

definition RefCount :: "nat \<Rightarrow> mem_heap \<Rightarrow> int option" where
  "RefCount a h = map_option ref_cnt (blocks h a)"

section \<open>Slices\<close>

record mem_slice =
  ms_buffer :: "nat option"
  begin_offset :: u32
  end_offset :: u32

definition null_slice :: mem_slice where
  "null_slice = \<lparr>ms_buffer = None, begin_offset = 0, end_offset = 0\<rparr>"

definition Release_opt :: "nat option \<Rightarrow> mem_heap \<Rightarrow> mem_heap option" where
  "Release_opt buf h = (case buf of None \<Rightarrow> Some h | Some a \<Rightarrow> Release a h)"

definition MemSlice_Initialize :: "nat option \<Rightarrow> mem_heap \<Rightarrow> (mem_slice \<times> mem_heap) option" where
  "MemSlice_Initialize buffer h =
     (case buffer of
        None \<Rightarrow> Some (null_slice, h)
      | Some a \<Rightarrow>
          do { h \<leftarrow> AddRef a h; b \<leftarrow> blocks h a;
               Some (\<lparr>ms_buffer = buffer, begin_offset = 0, end_offset = capacity b\<rparr>, h) })"

definition MemSlice_new :: "nat option \<Rightarrow> u32 \<Rightarrow> mem_heap \<Rightarrow> (mem_slice \<times> mem_heap) option" where
  "MemSlice_new buffer sz h =
     do { (s, h) \<leftarrow> MemSlice_Initialize buffer h;
          case buffer of
            None \<Rightarrow> Some (s, h)
          | Some a \<Rightarrow> do { b \<leftarrow> blocks h a; Some (s\<lparr>end_offset := min sz (capacity b)\<rparr>, h) } }"

text \<open>The default of the size argument of the constructor.\<close>

definition kSliceSize :: u32 where "kSliceSize = 65536"

definition MemSlice_copy :: "mem_slice \<Rightarrow> mem_heap \<Rightarrow> (mem_slice \<times> mem_heap) option" where
  "MemSlice_copy rhs h =
     do { (s, h) \<leftarrow> MemSlice_Initialize (ms_buffer rhs) h;
          Some (s\<lparr>begin_offset := begin_offset rhs, end_offset := end_offset rhs\<rparr>, h) }"

text \<open>The move constructor returns the new slice and what is left in \<open>rhs\<close>.\<close>

definition MemSlice_move :: "mem_slice \<Rightarrow> mem_heap \<Rightarrow> (mem_slice \<times> mem_slice \<times> mem_heap) option" where
  "MemSlice_move rhs h =
     do { (s, h) \<leftarrow> MemSlice_Initialize (ms_buffer rhs) h;
          h \<leftarrow> Release_opt (ms_buffer rhs) h;
          Some (s\<lparr>begin_offset := begin_offset rhs, end_offset := end_offset rhs\<rparr>, null_slice, h) }"

definition MemSlice_destroy :: "mem_slice \<Rightarrow> mem_heap \<Rightarrow> mem_heap option" where
  "MemSlice_destroy s h = Release_opt (ms_buffer s) h"

text \<open>Copy assignment; \<open>same\<close> is \<open>this == &rhs\<close>.\<close>

definition MemSlice_assign :: "bool \<Rightarrow> mem_slice \<Rightarrow> mem_slice \<Rightarrow> mem_heap \<Rightarrow> (mem_slice \<times> mem_heap) option" where
  "MemSlice_assign same s rhs h =
     (if same then Some (s, h)
      else do { h \<leftarrow> Release_opt (ms_buffer s) h;
                h \<leftarrow> (case ms_buffer rhs of None \<Rightarrow> Some h | Some a \<Rightarrow> AddRef a h);
                Some (s\<lparr>ms_buffer := ms_buffer rhs, begin_offset := begin_offset rhs,
                        end_offset := end_offset rhs\<rparr>, h) })"

text \<open>Move assignment swaps the two slices.\<close>

definition MemSlice_move_assign :: "mem_slice \<Rightarrow> mem_slice \<Rightarrow> mem_slice \<times> mem_slice" where
  "MemSlice_move_assign s rhs =
     (s\<lparr>ms_buffer := ms_buffer rhs, begin_offset := begin_offset rhs, end_offset := end_offset rhs\<rparr>,
      rhs\<lparr>ms_buffer := ms_buffer s, begin_offset := begin_offset s, end_offset := end_offset s\<rparr>)"

definition MemSlice_Reset :: "nat option \<Rightarrow> mem_slice \<Rightarrow> mem_heap \<Rightarrow> (mem_slice \<times> mem_heap) option" where
  "MemSlice_Reset buf s h = do { h \<leftarrow> Release_opt (ms_buffer s) h; MemSlice_Initialize buf h }"

text \<open>\<open>operator=(const MemBuf *)\<close> is written out with the body of \<open>Reset\<close>.\<close>

definition MemSlice_assign_buf :: "nat option \<Rightarrow> mem_slice \<Rightarrow> mem_heap \<Rightarrow> (mem_slice \<times> mem_heap) option" where
  "MemSlice_assign_buf buf s h = do { h \<leftarrow> Release_opt (ms_buffer s) h; MemSlice_Initialize buf h }"

definition UpdateBegin :: "u32 \<Rightarrow> mem_slice \<Rightarrow> bool \<times> mem_slice" where
  "UpdateBegin off_set s =
     (if begin_offset s + off_set > end_offset s then (False, s)
      else (True, s\<lparr>begin_offset := begin_offset s + off_set\<rparr>))"

definition GetUsedSize :: "mem_slice \<Rightarrow> u32" where
  "GetUsedSize s = end_offset s - begin_offset s"

text \<open>A pointer is the address of a block and an offset into it.\<close>

definition MemSlice_Begin :: "mem_slice \<Rightarrow> mem_heap \<Rightarrow> (nat \<times> u32) option" where
  "MemSlice_Begin s h = do { a \<leftarrow> ms_buffer s; _ \<leftarrow> blocks h a; Some (a, begin_offset s) }"

definition MemSlice_End :: "mem_slice \<Rightarrow> mem_heap \<Rightarrow> (nat \<times> u32) option" where
  "MemSlice_End s h = do { a \<leftarrow> ms_buffer s; _ \<leftarrow> blocks h a; Some (a, end_offset s) }"

definition SetBeginPointer :: "u32 \<Rightarrow> mem_slice \<Rightarrow> mem_heap \<Rightarrow> ((nat \<times> u32) \<times> mem_slice) option" where
  "SetBeginPointer position s h =
     (let position = (if position > end_offset s then end_offset s else position);
          s = s\<lparr>begin_offset := position\<rparr>
      in do { p \<leftarrow> MemSlice_Begin s h; Some (p, s) })"

definition SetEndPointer :: "u32 \<Rightarrow> mem_slice \<Rightarrow> mem_heap \<Rightarrow> ((nat \<times> u32) \<times> mem_slice) option" where
  "SetEndPointer position s h =
     (let position = (if position < begin_offset s then begin_offset s else position)
      in do { a \<leftarrow> ms_buffer s; b \<leftarrow> blocks h a;
              let s = s\<lparr>end_offset := (if position > capacity b then capacity b else position)\<rparr>
              in do { p \<leftarrow> MemSlice_End s h; Some (p, s) } })"

text \<open>Addition of two \<open>int32_t\<close> values: an overflow is undefined.\<close>

definition int32_add :: "int \<Rightarrow> int \<Rightarrow> int option" where
  "int32_add x y = (if - (2 ^ 31) \<le> x + y \<and> x + y < 2 ^ 31 then Some (x + y) else None)"

definition AdjustBeginPointer :: "int \<Rightarrow> mem_slice \<Rightarrow> mem_heap \<Rightarrow> ((nat \<times> u32) \<times> mem_slice) option" where
  "AdjustBeginPointer off s h =
     do { position \<leftarrow> int32_add (sint (begin_offset s)) off; SetBeginPointer (word_of_int position) s h }"

definition AdjustEndPointer :: "int \<Rightarrow> mem_slice \<Rightarrow> mem_heap \<Rightarrow> ((nat \<times> u32) \<times> mem_slice) option" where
  "AdjustEndPointer off s h =
     do { position \<leftarrow> int32_add (sint (end_offset s)) off; SetEndPointer (word_of_int position) s h }"

definition MemSlice_Clone :: "mem_slice \<Rightarrow> mem_heap \<Rightarrow> (mem_slice \<times> mem_heap) option" where
  "MemSlice_Clone s h =
     do { a \<leftarrow> ms_buffer s; b \<leftarrow> blocks h a;
          let (a', h) = heap_alloc (MemBuf_Clone b) h
          in do { (t, h) \<leftarrow> MemSlice_new (Some a') kSliceSize h;
                  Some (t\<lparr>begin_offset := begin_offset s, end_offset := end_offset s\<rparr>, h) } }"

text \<open>The cells a slice refers to.\<close>

definition slice_cells :: "mem_heap \<Rightarrow> mem_slice \<Rightarrow> cell list" where
  "slice_cells h s =
     (case ms_buffer s of
        None \<Rightarrow> []
      | Some a \<Rightarrow> (case blocks h a of None \<Rightarrow> []
          | Some b \<Rightarrow> take (unat (GetUsedSize s)) (drop (unat (begin_offset s)) (cells b))))"

definition CloneSlicedMem :: "mem_slice \<Rightarrow> mem_heap \<Rightarrow> (nat \<times> mem_heap) option" where
  "CloneSlicedMem s h =
     do { (a, off) \<leftarrow> MemSlice_Begin s h; b \<leftarrow> blocks h a;
          c \<leftarrow> MemBuf_Create_copy (drop (unat off) (cells b)) (GetUsedSize s);
          Some (heap_alloc c h) }"

section \<open>Programs over slice variables\<close>

text \<open>
  A program is a list of operations; a variable is named by its position.  A
  constructor appends a variable, \<open>ODestroy\<close> ends the life of one.  The
  operations that take a \<open>MemBuf *\<close> get a fresh block (\<open>OCreate\<close>, \<open>OData\<close>) or the
  block of another variable (\<open>OFrom\<close>, \<open>OReset\<close>, through \<open>GetMemBuf\<close>).
\<close>

datatype slice_op =
  ONull | OCreate u32 u32 | OData "byte list" u32 | OFrom nat u32 | OCopy nat | OMove nat | ODestroy nat
| OAssign nat nat | OMoveAssign nat nat | OReset nat nat | OResetNull nat | OUpdateBegin nat u32
| OSetBegin nat u32 | OSetEnd nat u32 | OAdjustBegin nat int | OAdjustEnd nat int | OClone nat | OCloneSliced nat

type_synonym slice_state = "mem_heap \<times> mem_slice list"

definition append_var :: "mem_slice list \<Rightarrow> (mem_slice \<times> mem_heap) option \<Rightarrow> slice_state option" where
  "append_var xs r = map_option (\<lambda>(s, h). (h, xs @ [s])) r"

definition update_var :: "nat \<Rightarrow> mem_slice list \<Rightarrow> (mem_slice \<times> mem_heap) option \<Rightarrow> slice_state option" where
  "update_var i xs r = map_option (\<lambda>(s, h). (h, xs[i := s])) r"

fun slice_exec :: "slice_op \<Rightarrow> slice_state \<Rightarrow> slice_state option" where
  "slice_exec ONull (h, xs) = append_var xs (MemSlice_new None kSliceSize h)"
| "slice_exec (OCreate cap sz) (h, xs) =
     (let (a, h) = heap_alloc (MemBuf_Create cap) h in append_var xs (MemSlice_new (Some a) sz h))"
| "slice_exec (OData bs n) (h, xs) =
     do { b \<leftarrow> MemBuf_Create_copy (map Some bs) n;
          let (a, h) = heap_alloc b h in append_var xs (MemSlice_new (Some a) kSliceSize h) }"
| "slice_exec (OFrom i sz) (h, xs) = append_var xs (MemSlice_new (ms_buffer (xs ! i)) sz h)"
| "slice_exec (OCopy i) (h, xs) = append_var xs (MemSlice_copy (xs ! i) h)"
| "slice_exec (OMove i) (h, xs) =
     map_option (\<lambda>(s, r, h). (h, xs[i := r] @ [s])) (MemSlice_move (xs ! i) h)"
| "slice_exec (ODestroy i) (h, xs) =
     map_option (\<lambda>h. (h, take i xs @ drop (Suc i) xs)) (MemSlice_destroy (xs ! i) h)"
| "slice_exec (OAssign i j) (h, xs) = update_var i xs (MemSlice_assign (i = j) (xs ! i) (xs ! j) h)"
| "slice_exec (OMoveAssign i j) (h, xs) =
     (let (s, r) = MemSlice_move_assign (xs ! i) (xs ! j) in Some (h, xs[i := s, j := r]))"
| "slice_exec (OReset i j) (h, xs) = update_var i xs (MemSlice_Reset (ms_buffer (xs ! j)) (xs ! i) h)"
| "slice_exec (OResetNull i) (h, xs) = update_var i xs (MemSlice_Reset None (xs ! i) h)"
| "slice_exec (OUpdateBegin i off) (h, xs) = Some (h, xs[i := snd (UpdateBegin off (xs ! i))])"
| "slice_exec (OSetBegin i pos) (h, xs) = map_option (\<lambda>(_, s). (h, xs[i := s])) (SetBeginPointer pos (xs ! i) h)"
| "slice_exec (OSetEnd i pos) (h, xs) = map_option (\<lambda>(_, s). (h, xs[i := s])) (SetEndPointer pos (xs ! i) h)"
| "slice_exec (OAdjustBegin i off) (h, xs) = map_option (\<lambda>(_, s). (h, xs[i := s])) (AdjustBeginPointer off (xs ! i) h)"
| "slice_exec (OAdjustEnd i off) (h, xs) = map_option (\<lambda>(_, s). (h, xs[i := s])) (AdjustEndPointer off (xs ! i) h)"
| "slice_exec (OClone i) (h, xs) = append_var xs (MemSlice_Clone (xs ! i) h)"
| "slice_exec (OCloneSliced i) (h, xs) =
     do { (a, h) \<leftarrow> CloneSlicedMem (xs ! i) h; append_var xs (MemSlice_new (Some a) kSliceSize h) }"

text \<open>
  What the caller has to see to: a variable is alive; the pointer operations
  need a buffer; a block is not given back to the only slice that refers to it;
  the sum of a position and an adjustment is an \<open>int32_t\<close>.
\<close>

definition vars_of :: "slice_op \<Rightarrow> nat list" where
  "vars_of op =
     (case op of ONull \<Rightarrow> [] | OCreate _ _ \<Rightarrow> [] | OData _ _ \<Rightarrow> [] | OFrom i _ \<Rightarrow> [i] | OCopy i \<Rightarrow> [i]
      | OMove i \<Rightarrow> [i] | ODestroy i \<Rightarrow> [i] | OAssign i j \<Rightarrow> [i, j] | OMoveAssign i j \<Rightarrow> [i, j]
      | OReset i j \<Rightarrow> [i, j] | OResetNull i \<Rightarrow> [i] | OUpdateBegin i _ \<Rightarrow> [i] | OSetBegin i _ \<Rightarrow> [i]
      | OSetEnd i _ \<Rightarrow> [i] | OAdjustBegin i _ \<Rightarrow> [i] | OAdjustEnd i _ \<Rightarrow> [i] | OClone i \<Rightarrow> [i] | OCloneSliced i \<Rightarrow> [i])"

definition has_buffer :: "mem_slice list \<Rightarrow> nat \<Rightarrow> bool" where
  "has_buffer xs i \<longleftrightarrow> ms_buffer (xs ! i) \<noteq> None"

definition slice_valid :: "slice_op \<Rightarrow> slice_state \<Rightarrow> bool" where
  "slice_valid op st =
     (case st of (h, xs) \<Rightarrow>
        list_all (\<lambda>i. i < length xs) (vars_of op) \<and> length xs + 1 < 2 ^ 31 \<and>
        (case op of OData bs n \<Rightarrow> unat n \<le> length bs
         | OReset i j \<Rightarrow> i \<noteq> j
         | OSetBegin i _ \<Rightarrow> has_buffer xs i | OSetEnd i _ \<Rightarrow> has_buffer xs i
         | OClone i \<Rightarrow> has_buffer xs i | OCloneSliced i \<Rightarrow> has_buffer xs i
         | OAdjustBegin i off \<Rightarrow> has_buffer xs i \<and> int32_add (sint (begin_offset (xs ! i))) off \<noteq> None
         | OAdjustEnd i off \<Rightarrow> has_buffer xs i \<and> int32_add (sint (end_offset (xs ! i))) off \<noteq> None
         | _ \<Rightarrow> True))"

text \<open>Running a program, and that every operation is admissible in the state it is run in.\<close>

fun run_program :: "('op \<Rightarrow> 's \<Rightarrow> 's option) \<Rightarrow> 'op list \<Rightarrow> 's \<Rightarrow> 's option" where
  "run_program exec [] st = Some st"
| "run_program exec (op # ops) st = Option.bind (exec op st) (run_program exec ops)"

fun valid_program :: "('op \<Rightarrow> 's \<Rightarrow> 's option) \<Rightarrow> ('op \<Rightarrow> 's \<Rightarrow> bool) \<Rightarrow> 'op list \<Rightarrow> 's \<Rightarrow> bool" where
  "valid_program exec valid [] st = True"
| "valid_program exec valid (op # ops) st =
     (valid op st \<and> (case exec op st of None \<Rightarrow> True | Some st' \<Rightarrow> valid_program exec valid ops st'))"

text \<open>The contract of a machine whose admissible operations are defined and keep an invariant.\<close>

locale safe_machine =
  fixes exec :: "'op \<Rightarrow> 's \<Rightarrow> 's option" and valid :: "'op \<Rightarrow> 's \<Rightarrow> bool" and inv :: "'s \<Rightarrow> bool"
  assumes step: "inv st \<Longrightarrow> valid op st \<Longrightarrow> \<exists>st'. exec op st = Some st' \<and> inv st'"
begin

lemma program_safe:
  "inv st \<Longrightarrow> valid_program exec valid ops st \<Longrightarrow> \<exists>st'. run_program exec ops st = Some st' \<and> inv st'"
proof (induction ops arbitrary: st)
  case Nil
  then show ?case by simp
next
  case (Cons op ops)
  then have "inv st" "valid op st" by simp_all
  from step [OF this] obtain st' where st': "exec op st = Some st'" "inv st'" by auto
  with Cons.prems(2) have "valid_program exec valid ops st'" by simp
  from Cons.IH [OF st'(2) this] show ?case by (simp add: st'(1))
qed

end

section \<open>The invariant\<close>

definition refs :: "mem_slice multiset \<Rightarrow> nat \<Rightarrow> nat" where
  "refs M a = count (image_mset ms_buffer M) (Some a)"

definition slice_ok :: "mem_heap \<Rightarrow> mem_slice \<Rightarrow> bool" where
  "slice_ok h s \<longleftrightarrow>
     (case ms_buffer s of
        None \<Rightarrow> begin_offset s = 0 \<and> end_offset s = 0
      | Some a \<Rightarrow> (case blocks h a of None \<Rightarrow> False
          | Some b \<Rightarrow> begin_offset s \<le> end_offset s \<and> end_offset s \<le> capacity b))"

definition heap_ok :: "mem_heap \<Rightarrow> mem_slice multiset \<Rightarrow> bool" where
  "heap_ok h M \<longleftrightarrow>
     (\<forall>a. case blocks h a of None \<Rightarrow> refs M a = 0
          | Some b \<Rightarrow> ref_cnt b = int (refs M a) \<and> 0 < refs M a \<and> MemBuf_wf b \<and> a < brk h) \<and>
     (\<forall>s. s \<in># M \<longrightarrow> slice_ok h s) \<and> size M < 2 ^ 31"

text \<open>What does not depend on the counts: the capacity and the cells of a block.\<close>

definition same_block :: "mem_heap \<Rightarrow> mem_heap \<Rightarrow> nat \<Rightarrow> bool" where
  "same_block h h' a \<longleftrightarrow>
     map_option (\<lambda>b. (capacity b, cells b)) (blocks h a) = map_option (\<lambda>b. (capacity b, cells b)) (blocks h' a)"

lemma refs_add [simp]: "refs (add_mset s M) a = (if ms_buffer s = Some a then 1 else 0) + refs M a"
  by (simp add: refs_def)

lemma refs_le: "refs M a \<le> size M"
  unfolding refs_def by (metis count_le_size size_image_mset)

lemma slice_ok_cong:
  "slice_ok h s \<Longrightarrow> (\<And>a. ms_buffer s = Some a \<Longrightarrow> same_block h h' a) \<Longrightarrow> slice_ok h' s"
  by (auto simp: slice_ok_def same_block_def split: option.splits)

lemma slice_cells_cong:
  "(\<And>a. ms_buffer s = Some a \<Longrightarrow> same_block h h' a) \<Longrightarrow> slice_cells h' s = slice_cells h s"
  by (auto simp: slice_cells_def same_block_def split: option.splits)

lemma refs_pos: "s \<in># M \<Longrightarrow> ms_buffer s = Some a \<Longrightarrow> 0 < refs M a"
  by (induction M) auto

lemma int32_wrap_id: "- (2 ^ 31) \<le> x \<Longrightarrow> x < 2 ^ 31 \<Longrightarrow> int32_wrap x = x"
  by (simp add: int32_wrap_def)

lemma heap_ok_empty: "heap_ok heap_empty {#}"
  by (simp add: heap_ok_def heap_empty_def refs_def)

lemma heap_ok_block:
  assumes "heap_ok h M" and "s \<in># M" and "ms_buffer s = Some a"
  obtains b where "blocks h a = Some b" "ref_cnt b = int (refs M a)" "MemBuf_wf b" "a < brk h"
    "begin_offset s \<le> end_offset s" "end_offset s \<le> capacity b"
proof -
  from assms have "slice_ok h s" "0 < refs M a" by (simp_all add: heap_ok_def refs_pos)
  with assms(1,3) show ?thesis using that
    by (auto simp: heap_ok_def slice_ok_def split: option.splits dest!: spec [of _ a])
qed

lemma heap_ok_null: "heap_ok h (add_mset null_slice M) \<longleftrightarrow> heap_ok h M \<and> size M + 1 < 2 ^ 31"
  by (auto simp: heap_ok_def null_slice_def slice_ok_def cong: option.case_cong)

lemma heap_ok_swap:
  assumes "heap_ok h (add_mset s M)" and "ms_buffer t = ms_buffer s" and "slice_ok h t"
  shows "heap_ok h (add_mset t M)"
proof -
  have "refs (add_mset t M) = refs (add_mset s M)" using assms(2) by (auto intro!: ext)
  with assms show ?thesis by (simp only: heap_ok_def) simp
qed

lemma heap_okI:
  assumes "\<And>a. blocks h a = None \<Longrightarrow> refs M a = 0"
    and "\<And>a b. blocks h a = Some b \<Longrightarrow> ref_cnt b = int (refs M a) \<and> 0 < refs M a \<and> MemBuf_wf b \<and> a < brk h"
    and "\<And>s. s \<in># M \<Longrightarrow> slice_ok h s" and "size M < 2 ^ 31"
  shows "heap_ok h M"
  using assms by (simp add: heap_ok_def split: option.split)

lemma heap_okD:
  assumes "heap_ok h M"
  shows "blocks h a = None \<Longrightarrow> refs M a = 0"
    and "blocks h a = Some b \<Longrightarrow> ref_cnt b = int (refs M a) \<and> 0 < refs M a \<and> MemBuf_wf b \<and> a < brk h"
    and "s \<in># M \<Longrightarrow> slice_ok h s" and "size M < 2 ^ 31"
proof -
  from assms have "case blocks h a of None \<Rightarrow> refs M a = 0
    | Some b \<Rightarrow> ref_cnt b = int (refs M a) \<and> 0 < refs M a \<and> MemBuf_wf b \<and> a < brk h"
    and "s \<in># M \<longrightarrow> slice_ok h s" and "size M < 2 ^ 31" unfolding heap_ok_def by blast+
  then show "blocks h a = None \<Longrightarrow> refs M a = 0"
    and "blocks h a = Some b \<Longrightarrow> ref_cnt b = int (refs M a) \<and> 0 < refs M a \<and> MemBuf_wf b \<and> a < brk h"
    and "s \<in># M \<Longrightarrow> slice_ok h s" and "size M < 2 ^ 31" by simp_all
qed

text \<open>One more reference, and one less.\<close>

lemma AddRef_ok:
  assumes "heap_ok h M" and "blocks h a = Some b" and "ms_buffer t = Some a" and "slice_ok h t"
    and "size M + 1 < 2 ^ 31"
  shows "\<exists>h'. AddRef a h = Some h' \<and> heap_ok h' (add_mset t M) \<and> same_block h h' = (\<lambda>_. True) \<and> brk h' = brk h"
proof -
  let ?h = "h\<lparr>blocks := (blocks h)(a \<mapsto> b\<lparr>ref_cnt := int (refs M a) + 1\<rparr>)\<rparr>"
  have "int (refs M a) + 1 < 2 ^ 31" using refs_le [of M a] assms(5) by simp
  then have add: "AddRef a h = Some ?h"
    using assms(2) heap_okD(2) [OF assms(1,2)] by (simp add: AddRef_def int32_wrap_id)
  have same: "same_block h ?h = (\<lambda>_. True)" using assms(2) by (auto simp: same_block_def intro!: ext)
  have "heap_ok ?h (add_mset t M)"
  proof (rule heap_okI)
    fix x assume "blocks ?h x = None"
    then show "refs (add_mset t M) x = 0" using heap_okD(1) [OF assms(1)] assms(3) by (simp split: if_splits)
  next
    fix x c assume "blocks ?h x = Some c"
    then show "ref_cnt c = int (refs (add_mset t M) x) \<and> 0 < refs (add_mset t M) x \<and> MemBuf_wf c \<and> x < brk ?h"
      using heap_okD(2) [OF assms(1)] assms(2,3) by (auto simp: MemBuf_wf_def split: if_splits)
  next
    fix s assume "s \<in># add_mset t M"
    then have "slice_ok h s" using heap_okD(3) [OF assms(1)] assms(4) by auto
    then show "slice_ok ?h s" by (rule slice_ok_cong) (simp add: same)
  qed (use assms(5) in simp)
  with add same show ?thesis by auto
qed

lemma Release_ok:
  assumes "heap_ok h (add_mset s M)" and "ms_buffer s = Some a"
  shows "\<exists>h'. Release a h = Some h' \<and> heap_ok h' M \<and> (\<forall>x. 0 < refs M x \<longrightarrow> same_block h h' x) \<and> brk h' = brk h"
proof -
  obtain b where b: "blocks h a = Some b" "ref_cnt b = int (refs M a) + 1"
    by (rule heap_ok_block [OF assms(1) _ assms(2)]) (simp_all add: assms(2))
  let ?h = "h\<lparr>blocks := (blocks h)(a := if refs M a = 0 then None else Some (b\<lparr>ref_cnt := int (refs M a)\<rparr>))\<rparr>"
  have "int (refs M a) < 2 ^ 31" using refs_le [of M a] heap_okD(4) [OF assms(1)] by simp
  then have rel: "Release a h = Some ?h" using b by (simp add: Release_def int32_wrap_id)
  have same: "same_block h ?h x" if "0 < refs M x" for x using that b by (cases "x = a") (simp_all add: same_block_def)
  have "heap_ok ?h M"
  proof (rule heap_okI)
    fix x assume "blocks ?h x = None"
    then show "refs M x = 0" using heap_okD(1) [OF assms(1)] by (auto split: if_splits)
  next
    fix x c assume "blocks ?h x = Some c"
    then show "ref_cnt c = int (refs M x) \<and> 0 < refs M x \<and> MemBuf_wf c \<and> x < brk ?h"
      using heap_okD(2) [OF assms(1), of x c] heap_okD(2) [OF assms(1) b(1)] assms(2)
      by (cases "x = a") (auto simp: MemBuf_wf_def split: if_splits)
  next
    fix t assume "t \<in># M"
    then have "slice_ok h t" using heap_okD(3) [OF assms(1)] by simp
    then show "slice_ok ?h t" by (rule slice_ok_cong) (rule same [OF refs_pos [OF \<open>t \<in># M\<close>]])
  qed (use heap_okD(4) [OF assms(1)] in simp)
  with rel same show ?thesis by auto
qed

lemma Release_opt_ok:
  assumes "heap_ok h (add_mset s M)"
  shows "\<exists>h'. Release_opt (ms_buffer s) h = Some h' \<and> heap_ok h' M \<and>
    (\<forall>x. 0 < refs M x \<longrightarrow> same_block h h' x) \<and> brk h' = brk h"
proof (cases "ms_buffer s")
  case None
  have "heap_ok h M"
  proof (rule heap_okI)
    show "refs M a = 0" if "blocks h a = None" for a using heap_okD(1) [OF assms that] by simp
    show "ref_cnt b = int (refs M a) \<and> 0 < refs M a \<and> MemBuf_wf b \<and> a < brk h" if "blocks h a = Some b" for a b
      using heap_okD(2) [OF assms that] None by simp
    show "slice_ok h t" if "t \<in># M" for t using heap_okD(3) [OF assms, of t] that by simp
    show "size M < 2 ^ 31" using heap_okD(4) [OF assms] by simp
  qed
  with None show ?thesis by (simp add: Release_opt_def same_block_def)
next
  case (Some a)
  with Release_ok [OF assms] show ?thesis by (simp add: Release_opt_def)
qed

text \<open>
  A further reference, to a block that is alive or to none; \<open>t\<close> is any slice of
  that block that the caller makes of the initialised one.
\<close>

lemma Initialize_ok:
  assumes "heap_ok h M" and "size M + 1 < 2 ^ 31" and "slice_ok h t"
  shows "\<exists>s h'. MemSlice_Initialize (ms_buffer t) h = Some (s, h') \<and> heap_ok h' (add_mset t M) \<and>
    same_block h h' = (\<lambda>_. True) \<and> ms_buffer s = ms_buffer t"
proof (cases "ms_buffer t")
  case None
  then have "t = null_slice" using assms(3) by (simp add: slice_ok_def null_slice_def)
  then show ?thesis
    using assms heap_ok_null [of h M] by (simp add: MemSlice_Initialize_def null_slice_def same_block_def fun_eq_iff)
next
  case (Some a)
  then obtain b where b: "blocks h a = Some b" using assms(3) by (auto simp: slice_ok_def split: option.splits)
  from AddRef_ok [OF assms(1) b Some assms(3,2)] obtain h' where h: "AddRef a h = Some h'"
    "heap_ok h' (add_mset t M)" "same_block h h' = (\<lambda>_. True)" by auto
  obtain b' where "blocks h' a = Some b'" by (rule heap_ok_block [OF h(2) _ Some]) simp_all
  with h show ?thesis by (simp add: MemSlice_Initialize_def Some)
qed

text \<open>The first reference to a block that was just allocated.\<close>

lemma heap_alloc_slice:
  assumes "heap_ok h M" and "MemBuf_wf b" and "ref_cnt b = 0" and "size M + 1 < 2 ^ 31"
    and "heap_alloc b h = (a, h1)" and "begin_offset t \<le> end_offset t" and "end_offset t \<le> capacity b" and "ms_buffer t = Some a"
  shows "\<exists>h'. MemSlice_Initialize (Some a) h1 = Some (\<lparr>ms_buffer = Some a, begin_offset = 0, end_offset = capacity b\<rparr>, h') \<and>
    heap_ok h' (add_mset t M) \<and> blocks h' a = Some (b\<lparr>ref_cnt := 1\<rparr>) \<and> (\<forall>x. x \<noteq> a \<longrightarrow> blocks h' x = blocks h x) \<and>
    blocks h a = None"
proof -
  have a: "a = brk h" and h1: "h1 = \<lparr>blocks = (blocks h)(a \<mapsto> b), brk = a + 1\<rparr>"
    using assms(5) by (auto simp: heap_alloc_def)
  let ?h = "\<lparr>blocks = (blocks h)(a \<mapsto> b\<lparr>ref_cnt := 1\<rparr>), brk = a + 1\<rparr>"
  have fresh: "blocks h a = None" using heap_okD(2) [OF assms(1), of a] a by (cases "blocks h a") auto
  have "heap_ok ?h (add_mset t M)"
  proof (rule heap_okI)
    show "refs (add_mset t M) x = 0" if "blocks ?h x = None" for x
      using that heap_okD(1) [OF assms(1), of x] assms(8) by (simp split: if_splits)
    show "ref_cnt c = int (refs (add_mset t M) x) \<and> 0 < refs (add_mset t M) x \<and> MemBuf_wf c \<and> x < brk ?h"
      if "blocks ?h x = Some c" for x c
      using that heap_okD(1) [OF assms(1) fresh] heap_okD(2) [OF assms(1), of x c] assms(2,8) a
      by (cases "x = a") (auto simp: MemBuf_wf_def)
    show "slice_ok ?h s" if "s \<in># add_mset t M" for s
    proof (cases "s = t")
      case True
      then show ?thesis using assms(6-8) by (simp add: slice_ok_def)
    next
      case False
      then have s: "s \<in># M" using that by simp
      have "same_block h ?h x" if "ms_buffer s = Some x" for x
        using refs_pos [OF s that] heap_okD(1) [OF assms(1) fresh] by (cases "x = a") (auto simp: same_block_def)
      with heap_okD(3) [OF assms(1) s] show ?thesis by (rule slice_ok_cong)
    qed
    show "size (add_mset t M) < 2 ^ 31" using assms(4) by simp
  qed
  moreover have "MemSlice_Initialize (Some a) h1 = Some (\<lparr>ms_buffer = Some a, begin_offset = 0, end_offset = capacity b\<rparr>, ?h)"
    using assms(3) by (simp add: MemSlice_Initialize_def AddRef_def h1 int32_wrap_id)
  ultimately show ?thesis using fresh by auto
qed

section \<open>Every operation keeps the invariant\<close>

lemma MemSlice_new_ok:
  assumes "heap_ok h M" and "size M + 1 < 2 ^ 31" and "s \<in># M"
  shows "\<exists>t h'. MemSlice_new (ms_buffer s) sz h = Some (t, h') \<and> heap_ok h' (add_mset t M)"
proof (cases "ms_buffer s")
  case None
  then show ?thesis using assms(1,2) heap_ok_null by (simp add: MemSlice_new_def MemSlice_Initialize_def)
next
  case (Some a)
  obtain b where b: "blocks h a = Some b" by (rule heap_ok_block [OF assms(1,3) Some])
  let ?t = "\<lparr>ms_buffer = Some a, begin_offset = 0, end_offset = min sz (capacity b)\<rparr>"
  have "slice_ok h ?t" by (simp add: slice_ok_def b)
  from Initialize_ok [OF assms(1,2) this] obtain u h' where h: "MemSlice_Initialize (Some a) h = Some (u, h')"
    "heap_ok h' (add_mset ?t M)" "same_block h h' = (\<lambda>_. True)" by auto
  from h(1) b have "u = \<lparr>ms_buffer = Some a, begin_offset = 0, end_offset = capacity b\<rparr>" "blocks h' a \<noteq> None" "capacity (the (blocks h' a)) = capacity b"
    by (auto simp: MemSlice_Initialize_def AddRef_def)
  with h show ?thesis by (auto simp: MemSlice_new_def Some)
qed

lemma MemSlice_copy_ok:
  assumes "heap_ok h M" and "size M + 1 < 2 ^ 31" and "s \<in># M"
  shows "\<exists>h'. MemSlice_copy s h = Some (s, h') \<and> heap_ok h' (add_mset s M) \<and> same_block h h' = (\<lambda>_. True)"
proof -
  from Initialize_ok [OF assms(1,2) heap_okD(3) [OF assms(1,3)]] show ?thesis
    by (auto simp: MemSlice_copy_def)
qed

lemma MemSlice_destroy_ok:
  "heap_ok h (add_mset s M) \<Longrightarrow> \<exists>h'. MemSlice_destroy s h = Some h' \<and> heap_ok h' M \<and>
     (\<forall>x. 0 < refs M x \<longrightarrow> same_block h h' x)"
  using Release_opt_ok [of h s M] by (auto simp: MemSlice_destroy_def)

lemma MemSlice_move_ok:
  assumes "heap_ok h (add_mset s M)" and "size M + 2 < 2 ^ 31"
  shows "\<exists>h'. MemSlice_move s h = Some (s, null_slice, h') \<and> heap_ok h' (add_mset s (add_mset null_slice M)) \<and>
    (\<forall>x. 0 < refs (add_mset s M) x \<longrightarrow> same_block h h' x)"
proof -
  have "slice_ok h s" using heap_okD(3) [OF assms(1), of s] by simp
  from Initialize_ok [OF assms(1) _ this] assms(2) obtain u h1 where h1: "MemSlice_Initialize (ms_buffer s) h = Some (u, h1)"
    "heap_ok h1 (add_mset s (add_mset s M))" "same_block h h1 = (\<lambda>_. True)" "ms_buffer u = ms_buffer s" by auto
  from Release_opt_ok [OF h1(2)] obtain h2 where h2: "Release_opt (ms_buffer s) h1 = Some h2"
    "heap_ok h2 (add_mset s M)" "\<And>x. 0 < refs (add_mset s M) x \<Longrightarrow> same_block h1 h2 x" by auto
  have "same_block h h1 x" for x using h1(3) by simp
  with h2(3) have "same_block h h2 x" if "0 < refs (add_mset s M) x" for x using that by (simp add: same_block_def)
  moreover have "heap_ok h2 (add_mset s (add_mset null_slice M))"
    using h2(2) heap_ok_null [of h2 "add_mset s M"] assms(2) by (simp add: add_mset_commute)
  ultimately show ?thesis using h1 h2 by (simp add: MemSlice_move_def)
qed

lemma Reset_ok:
  assumes "heap_ok h (add_mset s M)" and "ms_buffer t = None \<or> t \<in># M"
  shows "\<exists>u h'. MemSlice_Reset (ms_buffer t) s h = Some (u, h') \<and> heap_ok h' (add_mset u M) \<and>
    (\<forall>x. 0 < refs M x \<longrightarrow> same_block h h' x)"
proof -
  have size: "size M + 1 < 2 ^ 31" using heap_okD(4) [OF assms(1)] by simp
  from Release_opt_ok [OF assms(1)] obtain h1 where h1: "Release_opt (ms_buffer s) h = Some h1" "heap_ok h1 M"
    "\<And>x. 0 < refs M x \<Longrightarrow> same_block h h1 x" by auto
  show ?thesis
  proof (cases "ms_buffer t")
    case None
    with h1 size heap_ok_null show ?thesis by (auto simp: MemSlice_Reset_def MemSlice_Initialize_def)
  next
    case (Some a)
    then have t: "t \<in># M" using assms(2) by simp
    obtain b where b: "blocks h1 a = Some b" by (rule heap_ok_block [OF h1(2) t Some])
    let ?u = "\<lparr>ms_buffer = Some a, begin_offset = 0, end_offset = capacity b\<rparr>"
    have "slice_ok h1 ?u" by (simp add: slice_ok_def b)
    from Initialize_ok [OF h1(2) size this] obtain v h2 where h2: "MemSlice_Initialize (Some a) h1 = Some (v, h2)"
      "heap_ok h2 (add_mset ?u M)" "same_block h1 h2 = (\<lambda>_. True)" by auto
    from h2(1) b have "v = ?u" by (auto simp: MemSlice_Initialize_def AddRef_def)
    moreover have "same_block h h2 x" if "0 < refs M x" for x
      using h1(3) [OF that] h2(3) by (simp add: same_block_def fun_eq_iff)
    ultimately show ?thesis using h1 h2 by (simp add: MemSlice_Reset_def Some)
  qed
qed

lemma MemSlice_assign_ok:
  assumes "heap_ok h (add_mset s M)" and "t \<in># M"
  shows "\<exists>h'. MemSlice_assign False s t h = Some (t, h') \<and> heap_ok h' (add_mset t M) \<and>
    (\<forall>x. 0 < refs M x \<longrightarrow> same_block h h' x)"
proof -
  have size: "size M + 1 < 2 ^ 31" using heap_okD(4) [OF assms(1)] by simp
  from Release_opt_ok [OF assms(1)] obtain h1 where h1: "Release_opt (ms_buffer s) h = Some h1" "heap_ok h1 M"
    "\<And>x. 0 < refs M x \<Longrightarrow> same_block h h1 x" by auto
  have t: "slice_ok h1 t" by (rule heap_okD(3) [OF h1(2) assms(2)])
  show ?thesis
  proof (cases "ms_buffer t")
    case None
    then have "t = null_slice" using t by (simp add: slice_ok_def null_slice_def)
    with h1 size heap_ok_null [of h1 M] show ?thesis by (simp add: MemSlice_assign_def null_slice_def)
  next
    case (Some a)
    obtain b where b: "blocks h1 a = Some b" by (rule heap_ok_block [OF h1(2) assms(2) Some])
    from AddRef_ok [OF h1(2) b Some t size] obtain h2 where h2: "AddRef a h1 = Some h2"
      "heap_ok h2 (add_mset t M)" "same_block h1 h2 = (\<lambda>_. True)" by auto
    have "same_block h h2 x" if "0 < refs M x" for x
      using h1(3) [OF that] h2(3) by (simp add: same_block_def fun_eq_iff)
    with h1 h2 Some show ?thesis by (simp add: MemSlice_assign_def)
  qed
qed

text \<open>A slice of a block that was just allocated, and the two ways to copy the memory of a slice.\<close>

lemma MemSlice_new_fresh:
  assumes "heap_ok h M" and "size M + 1 < 2 ^ 31" and "MemBuf_wf b" and "ref_cnt b = 0" and "heap_alloc b h = (a, h1)"
    and "begin_offset t \<le> end_offset t" and "end_offset t \<le> capacity b" and "ms_buffer t = Some a"
  shows "\<exists>h'. MemSlice_new (Some a) sz h1 =
      Some (\<lparr>ms_buffer = Some a, begin_offset = 0, end_offset = min sz (capacity b)\<rparr>, h') \<and>
    heap_ok h' (add_mset t M) \<and> blocks h' a = Some (b\<lparr>ref_cnt := 1\<rparr>) \<and>
    (\<forall>x. x \<noteq> a \<longrightarrow> blocks h' x = blocks h x) \<and> refs M a = 0"
proof -
  from heap_alloc_slice [OF assms(1,3,4,2,5-8)] obtain h' where
    h: "MemSlice_Initialize (Some a) h1 = Some (\<lparr>ms_buffer = Some a, begin_offset = 0, end_offset = capacity b\<rparr>, h')"
    "heap_ok h' (add_mset t M)" "blocks h' a = Some (b\<lparr>ref_cnt := 1\<rparr>)" "\<And>x. x \<noteq> a \<Longrightarrow> blocks h' x = blocks h x"
    "blocks h a = None" by auto
  with heap_okD(1) [OF assms(1) h(5)] show ?thesis by (auto simp: MemSlice_new_def)
qed

lemma fresh_same_block:
  assumes "\<forall>x. x \<noteq> a \<longrightarrow> blocks h' x = blocks h x" and "refs M a = 0" and "0 < refs M x"
  shows "same_block h h' x"
  using assms by (cases "x = a") (auto simp: same_block_def)

lemma slice_range:
  assumes "heap_ok h M" and "s \<in># M" and "ms_buffer s = Some a"
  obtains b where "blocks h a = Some b" "MemBuf_wf b" "begin_offset s \<le> end_offset s" "end_offset s \<le> capacity b"
    "unat (GetUsedSize s) = unat (end_offset s) - unat (begin_offset s)"
    "unat (begin_offset s) + unat (GetUsedSize s) \<le> length (cells b)"
proof -
  obtain b where b: "blocks h a = Some b" "MemBuf_wf b" "begin_offset s \<le> end_offset s" "end_offset s \<le> capacity b"
    by (rule heap_ok_block [OF assms])
  from b(3) have "unat (GetUsedSize s) = unat (end_offset s) - unat (begin_offset s)"
    by (simp add: GetUsedSize_def unat_sub)
  with b show ?thesis using that by (simp add: MemBuf_wf_def word_le_nat_alt)
qed

lemma Clone_ok:
  assumes "heap_ok h M" and "size M + 1 < 2 ^ 31" and "s \<in># M" and "ms_buffer s = Some a"
  shows "\<exists>t h'. MemSlice_Clone s h = Some (t, h') \<and> heap_ok h' (add_mset t M) \<and>
    slice_cells h' t = slice_cells h s \<and> (\<forall>x. 0 < refs M x \<longrightarrow> same_block h h' x) \<and>
    ms_buffer t \<noteq> ms_buffer s \<and> GetUsedSize t = GetUsedSize s"
proof -
  obtain b where b: "blocks h a = Some b" "MemBuf_wf b" "begin_offset s \<le> end_offset s" "end_offset s \<le> capacity b"
    by (rule slice_range [OF assms(1,3,4)])
  obtain a' h1 where al: "heap_alloc (MemBuf_Clone b) h = (a', h1)" by force
  let ?t = "s\<lparr>ms_buffer := Some a'\<rparr>"
  have wf: "MemBuf_wf (MemBuf_Clone b)" using MemBuf_Clone_same [OF b(2)] b(2) by (simp add: MemBuf_wf_def)
  obtain h' where h': "MemSlice_new (Some a') kSliceSize h1 =
      Some (\<lparr>ms_buffer = Some a', begin_offset = 0, end_offset = min kSliceSize (capacity (MemBuf_Clone b))\<rparr>, h')"
    "heap_ok h' (add_mset ?t M)" "blocks h' a' = Some ((MemBuf_Clone b)\<lparr>ref_cnt := 1\<rparr>)"
    "\<forall>x. x \<noteq> a' \<longrightarrow> blocks h' x = blocks h x" "refs M a' = 0"
    using MemSlice_new_fresh [OF assms(1,2) wf _ al, of ?t kSliceSize] b MemBuf_Clone_same [OF b(2)] by auto
  have "a \<noteq> a'" using refs_pos [OF assms(3,4)] h'(5) by auto
  moreover have "slice_cells h' ?t = slice_cells h s"
    using b h'(3) MemBuf_Clone_same [OF b(2)] assms(4) by (simp add: slice_cells_def GetUsedSize_def)
  moreover have "MemSlice_Clone s h = Some (?t, h')" using b(1) al h'(1) assms(4) by (simp add: MemSlice_Clone_def)
  ultimately show ?thesis using fresh_same_block [OF h'(4,5)] h'(2) assms(4) by (auto simp: GetUsedSize_def)
qed

lemma CloneSliced_ok:
  assumes "heap_ok h M" and "size M + 1 < 2 ^ 31" and "s \<in># M" and "ms_buffer s = Some a"
  shows "\<exists>a' h1 t h'. CloneSlicedMem s h = Some (a', h1) \<and> MemSlice_new (Some a') sz h1 = Some (t, h') \<and>
    heap_ok h' (add_mset t M) \<and> (GetUsedSize s \<le> sz \<longrightarrow> slice_cells h' t = slice_cells h s) \<and>
    (\<forall>x. 0 < refs M x \<longrightarrow> same_block h h' x)"
proof -
  obtain b where b: "blocks h a = Some b" "MemBuf_wf b"
    "unat (begin_offset s) + unat (GetUsedSize s) \<le> length (cells b)"
    by (rule slice_range [OF assms(1,3,4)])
  let ?c = "\<lparr>ref_cnt = 0, capacity = GetUsedSize s, cells = take (unat (GetUsedSize s)) (drop (unat (begin_offset s)) (cells b))\<rparr>"
  obtain a' h1 where al: "heap_alloc ?c h = (a', h1)" by force
  have cl: "CloneSlicedMem s h = Some (a', h1)"
    using b assms(4) al by (simp add: CloneSlicedMem_def MemSlice_Begin_def MemBuf_Create_copy_def)
  have wf: "MemBuf_wf ?c" using b(3) by (simp add: MemBuf_wf_def)
  let ?t = "\<lparr>ms_buffer = Some a', begin_offset = 0, end_offset = min sz (GetUsedSize s)\<rparr>"
  obtain h' where h': "MemSlice_new (Some a') sz h1 = Some (?t, h')"
    "heap_ok h' (add_mset ?t M)" "blocks h' a' = Some (?c\<lparr>ref_cnt := 1\<rparr>)"
    "\<forall>x. x \<noteq> a' \<longrightarrow> blocks h' x = blocks h x" "refs M a' = 0"
    using MemSlice_new_fresh [OF assms(1,2) wf _ al, of ?t sz] by auto
  have "slice_cells h' ?t = slice_cells h s" if "GetUsedSize s \<le> sz"
  proof -
    have "GetUsedSize ?t = GetUsedSize s" using that by (simp add: GetUsedSize_def)
    then show ?thesis using b h'(3) assms(4) by (simp add: slice_cells_def)
  qed
  with cl h'(1,2) fresh_same_block [OF h'(4,5)] show ?thesis by blast
qed

lemma UpdateBegin_ok: "slice_ok h s \<Longrightarrow> slice_ok h (snd (UpdateBegin off s)) \<and> ms_buffer (snd (UpdateBegin off s)) = ms_buffer s"
  by (auto simp: UpdateBegin_def slice_ok_def not_less split: option.splits)

lemma slice_block:
  "slice_ok h s \<Longrightarrow> ms_buffer s = Some a \<Longrightarrow>
   \<exists>b. blocks h a = Some b \<and> begin_offset s \<le> end_offset s \<and> end_offset s \<le> capacity b"
  by (auto simp: slice_ok_def split: option.splits)

lemma SetBegin_ok:
  assumes "slice_ok h s" and "ms_buffer s = Some a"
  shows "SetBeginPointer pos s h = Some ((a, min pos (end_offset s)), s\<lparr>begin_offset := min pos (end_offset s)\<rparr>)"
    and "slice_ok h (s\<lparr>begin_offset := min pos (end_offset s)\<rparr>)"
proof -
  obtain b where b: "blocks h a = Some b" "begin_offset s \<le> end_offset s" "end_offset s \<le> capacity b"
    using slice_block [OF assms] by auto
  have "(if pos > end_offset s then end_offset s else pos) = min pos (end_offset s)" by (auto simp: min_def)
  then show "SetBeginPointer pos s h = Some ((a, min pos (end_offset s)), s\<lparr>begin_offset := min pos (end_offset s)\<rparr>)"
    using assms(2) b by (simp add: SetBeginPointer_def MemSlice_Begin_def Let_def)
  show "slice_ok h (s\<lparr>begin_offset := min pos (end_offset s)\<rparr>)" using assms(2) b by (simp add: slice_ok_def)
qed

lemma SetEnd_ok:
  assumes "slice_ok h s" and "ms_buffer s = Some a" and "blocks h a = Some b"
  shows "SetEndPointer pos s h =
      Some ((a, min (max pos (begin_offset s)) (capacity b)), s\<lparr>end_offset := min (max pos (begin_offset s)) (capacity b)\<rparr>)"
    and "slice_ok h (s\<lparr>end_offset := min (max pos (begin_offset s)) (capacity b)\<rparr>)"
proof -
  have b: "begin_offset s \<le> end_offset s" "end_offset s \<le> capacity b" using slice_block [OF assms(1,2)] assms(3) by auto
  define e where "e = min (max pos (begin_offset s)) (capacity b)"
  have "(if (if pos < begin_offset s then begin_offset s else pos) > capacity b then capacity b
         else (if pos < begin_offset s then begin_offset s else pos)) = e"
    by (auto simp: e_def min_def max_def not_less)
  then show "SetEndPointer pos s h = Some ((a, min (max pos (begin_offset s)) (capacity b)),
      s\<lparr>end_offset := min (max pos (begin_offset s)) (capacity b)\<rparr>)"
    using assms(2,3) unfolding e_def [symmetric] by (simp add: SetEndPointer_def MemSlice_End_def Let_def)
  have "begin_offset s \<le> e" using b by (simp add: e_def)
  then show "slice_ok h (s\<lparr>end_offset := min (max pos (begin_offset s)) (capacity b)\<rparr>)"
    using assms(2,3) unfolding e_def [symmetric] by (simp add: slice_ok_def e_def)
qed

section \<open>Programs are safe\<close>

definition slices_inv :: "slice_state \<Rightarrow> bool" where
  "slices_inv st = (case st of (h, xs) \<Rightarrow> heap_ok h (mset xs))"

definition other_vars :: "nat \<Rightarrow> mem_slice list \<Rightarrow> mem_slice list" where
  "other_vars i xs = take i xs @ drop (Suc i) xs"

lemma mset_var: "i < length xs \<Longrightarrow> mset xs = add_mset (xs ! i) (mset (other_vars i xs))"
  by (subst id_take_nth_drop [of i xs]) (simp_all add: other_vars_def)

lemma mset_update_var: "i < length xs \<Longrightarrow> mset (xs[i := s]) = add_mset s (mset (other_vars i xs))"
  by (simp add: upd_conv_take_nth_drop other_vars_def)

lemma size_other_vars: "i < length xs \<Longrightarrow> Suc (length (other_vars i xs)) = length xs"
  by (simp add: other_vars_def)

lemma other_vars_mem: "i < length xs \<Longrightarrow> j < length xs \<Longrightarrow> i \<noteq> j \<Longrightarrow> xs ! j \<in> set (other_vars i xs)"
proof -
  assume a: "i < length xs" "j < length xs" "i \<noteq> j"
  then consider "j < i" | "Suc i \<le> j" by linarith
  then show ?thesis
  proof cases
    case 1
    then have "xs ! j = take i xs ! j" "j < length (take i xs)" using a by simp_all
    then show ?thesis by (metis UnI1 nth_mem other_vars_def set_append)
  next
    case 2
    then have "xs ! j = drop (Suc i) xs ! (j - Suc i)" "j - Suc i < length (drop (Suc i) xs)" using a by simp_all
    then show ?thesis by (metis UnI2 nth_mem other_vars_def set_append)
  qed
qed

lemma append_var_inv:
  "(\<exists>t h'. r = Some (t, h') \<and> heap_ok h' (add_mset t (mset xs))) \<Longrightarrow>
   \<exists>st'. append_var xs r = Some st' \<and> slices_inv st'"
  by (auto simp: append_var_def slices_inv_def)

lemma update_var_inv:
  "i < length xs \<Longrightarrow> (\<exists>t h'. r = Some (t, h') \<and> heap_ok h' (add_mset t (mset (other_vars i xs)))) \<Longrightarrow>
   \<exists>st'. update_var i xs r = Some st' \<and> slices_inv st'"
  by (auto simp: update_var_def slices_inv_def mset_update_var)

lemma retarget_inv:
  assumes "heap_ok h (mset xs)" and "i < length xs" and "slice_ok h t" and "ms_buffer t = ms_buffer (xs ! i)"
  shows "slices_inv (h, xs[i := t])"
  using heap_ok_swap [OF assms(1) [unfolded mset_var [OF assms(2)]] assms(4,3)] assms(2)
  by (simp add: slices_inv_def mset_update_var)

lemma move_assign_swap: "MemSlice_move_assign s r = (r, s)"
  by (simp add: MemSlice_move_assign_def)

lemma fresh_step:
  assumes "heap_ok h (mset xs)" and "length xs + 1 < 2 ^ 31" and "MemBuf_wf b" and "ref_cnt b = 0"
  shows "\<exists>st'. (let (a, h) = heap_alloc b h in append_var xs (MemSlice_new (Some a) sz h)) = Some st' \<and> slices_inv st'"
proof -
  obtain a h1 where al: "heap_alloc b h = (a, h1)" by force
  from MemSlice_new_fresh [OF assms(1) _ assms(3,4) al,
      of "\<lparr>ms_buffer = Some a, begin_offset = 0, end_offset = min sz (capacity b)\<rparr>" sz] assms(2)
  have "\<exists>t h'. MemSlice_new (Some a) sz h1 = Some (t, h') \<and> heap_ok h' (add_mset t (mset xs))" by auto
  from append_var_inv [OF this] show ?thesis by (simp add: al)
qed

lemma slice_var:
  assumes "heap_ok h (mset xs)" and "i < length xs"
  shows "xs ! i \<in># mset xs" and "heap_ok h (add_mset (xs ! i) (mset (other_vars i xs)))" and "slice_ok h (xs ! i)"
  using assms heap_okD(3) [OF assms(1), of "xs ! i"] by (simp_all add: mset_var [OF assms(2), symmetric])

lemma begin_step:
  assumes "heap_ok h (mset xs)" and "i < length xs" and "has_buffer xs i"
  shows "\<exists>st'. map_option (\<lambda>(_, s). (h, xs[i := s])) (SetBeginPointer pos (xs ! i) h) = Some st' \<and> slices_inv st'"
proof -
  obtain a where a: "ms_buffer (xs ! i) = Some a" using assms(3) by (auto simp: has_buffer_def)
  from SetBegin_ok [OF slice_var(3) [OF assms(1,2)] a] retarget_inv [OF assms(1,2)] show ?thesis by simp
qed

lemma end_step:
  assumes "heap_ok h (mset xs)" and "i < length xs" and "has_buffer xs i"
  shows "\<exists>st'. map_option (\<lambda>(_, s). (h, xs[i := s])) (SetEndPointer pos (xs ! i) h) = Some st' \<and> slices_inv st'"
proof -
  obtain a where a: "ms_buffer (xs ! i) = Some a" using assms(3) by (auto simp: has_buffer_def)
  obtain b where b: "blocks h a = Some b" using slice_block [OF slice_var(3) [OF assms(1,2)] a] by auto
  from SetEnd_ok [OF slice_var(3) [OF assms(1,2)] a b] retarget_inv [OF assms(1,2)] show ?thesis by simp
qed

lemma assign_step:
  assumes "heap_ok h (mset xs)" and "i < length xs" and "j < length xs"
  shows "\<exists>st'. update_var i xs (MemSlice_assign (i = j) (xs ! i) (xs ! j) h) = Some st' \<and> slices_inv st'"
proof (cases "i = j")
  case True
  then show ?thesis using assms(1) by (simp add: MemSlice_assign_def update_var_def slices_inv_def)
next
  case False
  then have "xs ! j \<in># mset (other_vars i xs)" using other_vars_mem [OF assms(2,3)] by simp
  from MemSlice_assign_ok [OF slice_var(2) [OF assms(1,2)] this] False show ?thesis
    by (intro update_var_inv [OF assms(2)]) auto
qed

lemma reset_step:
  assumes "heap_ok h (mset xs)" and "i < length xs" and "ms_buffer t = None \<or> t \<in> set (other_vars i xs)"
  shows "\<exists>st'. update_var i xs (MemSlice_Reset (ms_buffer t) (xs ! i) h) = Some st' \<and> slices_inv st'"
  using Reset_ok [OF slice_var(2) [OF assms(1,2)], of t] assms(3) by (intro update_var_inv [OF assms(2)]) auto

lemma clone_step:
  assumes "heap_ok h (mset xs)" and "length xs + 1 < 2 ^ 31" and "i < length xs" and "has_buffer xs i"
  shows "\<exists>st'. append_var xs (MemSlice_Clone (xs ! i) h) = Some st' \<and> slices_inv st'"
    and "\<exists>st'. Option.bind (CloneSlicedMem (xs ! i) h) (\<lambda>(a, h). append_var xs (MemSlice_new (Some a) kSliceSize h)) = Some st'
      \<and> slices_inv st'"
proof -
  obtain a where a: "ms_buffer (xs ! i) = Some a" using assms(4) by (auto simp: has_buffer_def)
  have len: "size (mset xs) + 1 < 2 ^ 31" using assms(2) by simp
  from Clone_ok [OF assms(1) len slice_var(1) [OF assms(1,3)] a]
  show "\<exists>st'. append_var xs (MemSlice_Clone (xs ! i) h) = Some st' \<and> slices_inv st'" by (intro append_var_inv) auto
  from CloneSliced_ok [OF assms(1) len slice_var(1) [OF assms(1,3)] a, of kSliceSize]
  show "\<exists>st'. Option.bind (CloneSlicedMem (xs ! i) h) (\<lambda>(a, h). append_var xs (MemSlice_new (Some a) kSliceSize h)) = Some st'
      \<and> slices_inv st'" by (auto simp: append_var_def slices_inv_def)
qed

lemma construct_step:
  assumes "heap_ok h (mset xs)" and "length xs + 1 < 2 ^ 31" and "i < length xs"
  shows "\<exists>st'. slice_exec (OFrom i sz) (h, xs) = Some st' \<and> slices_inv st'"
    and "\<exists>st'. slice_exec (OCopy i) (h, xs) = Some st' \<and> slices_inv st'"
    and "\<exists>st'. slice_exec (OMove i) (h, xs) = Some st' \<and> slices_inv st'"
proof -
  have len: "size (mset xs) + 1 < 2 ^ 31" "size (mset (other_vars i xs)) + 2 < 2 ^ 31"
    using assms(2) size_other_vars [OF assms(3)] by simp_all
  note var = slice_var [OF assms(1,3)]
  from append_var_inv [OF MemSlice_new_ok [OF assms(1) len(1) var(1)]]
  show "\<exists>st'. slice_exec (OFrom i sz) (h, xs) = Some st' \<and> slices_inv st'" by simp
  from MemSlice_copy_ok [OF assms(1) len(1) var(1)]
  show "\<exists>st'. slice_exec (OCopy i) (h, xs) = Some st' \<and> slices_inv st'" by (auto simp: append_var_def slices_inv_def)
  from MemSlice_move_ok [OF var(2) len(2)]
  show "\<exists>st'. slice_exec (OMove i) (h, xs) = Some st' \<and> slices_inv st'"
    by (auto simp: slices_inv_def mset_update_var [OF assms(3)])
qed

lemma slice_step:
  assumes "slices_inv st" and "slice_valid op st"
  shows "\<exists>st'. slice_exec op st = Some st' \<and> slices_inv st'"
proof -
  obtain h xs where st: "st = (h, xs)" by force
  have ok: "heap_ok h (mset xs)" using assms(1) by (simp add: st slices_inv_def)
  note valid = assms(2) [unfolded st slice_valid_def]
  then have len: "length xs + 1 < 2 ^ 31" by simp
  show ?thesis unfolding st
  proof (cases op)
    case ONull
    show "\<exists>st'. slice_exec op (h, xs) = Some st' \<and> slices_inv st'"
      using heap_ok_null [of h "mset xs"] ok len
      by (simp add: ONull append_var_def slices_inv_def MemSlice_new_def MemSlice_Initialize_def)
  next
    case (OData bs n)
    then obtain b where b: "MemBuf_Create_copy (map Some bs) n = Some b" "ref_cnt b = 0"
      using valid by (simp add: MemBuf_Create_copy_def)
    from fresh_step [OF ok len MemBuf_Create_copy_wf [OF b(1)] b(2)]
    show "\<exists>st'. slice_exec op (h, xs) = Some st' \<and> slices_inv st'" by (simp add: OData b(1))
  next
    case (ODestroy i)
    with valid MemSlice_destroy_ok [OF slice_var(2) [OF ok, of i]]
    show "\<exists>st'. slice_exec op (h, xs) = Some st' \<and> slices_inv st'"
      by (auto simp: vars_of_def slices_inv_def other_vars_def)
  next
    case (OMoveAssign i j)
    with valid mset_swap [of j xs i] ok show "\<exists>st'. slice_exec op (h, xs) = Some st' \<and> slices_inv st'"
      by (simp add: vars_of_def move_assign_swap slices_inv_def)
  next
    case (OReset i j)
    with valid other_vars_mem [of i xs j] reset_step [OF ok, of i "xs ! j"]
    show "\<exists>st'. slice_exec op (h, xs) = Some st' \<and> slices_inv st'" by (simp add: vars_of_def)
  next
    case (OResetNull i)
    with valid reset_step [OF ok, of i null_slice]
    show "\<exists>st'. slice_exec op (h, xs) = Some st' \<and> slices_inv st'" by (simp add: vars_of_def null_slice_def)
  next
    case (OUpdateBegin i off)
    then have i: "i < length xs" using valid by (simp add: vars_of_def)
    with UpdateBegin_ok [OF slice_var(3) [OF ok i]] retarget_inv [OF ok i]
    show "\<exists>st'. slice_exec op (h, xs) = Some st' \<and> slices_inv st'" by (simp add: OUpdateBegin)
  qed (use valid ok len fresh_step [OF ok len] construct_step [OF ok len] assign_step [OF ok] begin_step [OF ok]
      end_step [OF ok] clone_step [OF ok len] in
      \<open>auto simp: vars_of_def AdjustBeginPointer_def AdjustEndPointer_def split: option.splits\<close>)
qed

interpretation slices: safe_machine slice_exec slice_valid slices_inv
  by unfold_locales (rule slice_step)

section \<open>Properties\<close>

lemma refs_filter: "refs (mset xs) a = length (filter (\<lambda>s. ms_buffer s = Some a) xs)"
  by (induction xs) (auto simp: refs_def)

text \<open>C22. Memory safety of reference counting: a program of slice operations that respects the
  preconditions never uses a freed block or a null pointer.  At every end the count of a block is the
  number of slices that refer to it, a block to which none refers is freed (so nothing leaks), and the
  range of every slice lies in its block.\<close>

theorem slices_never_dangle:
  assumes "valid_program slice_exec slice_valid ops (heap_empty, [])"
  shows "\<exists>h xs. run_program slice_exec ops (heap_empty, []) = Some (h, xs) \<and>
    (\<forall>a. RefCount a h =
       (let n = length (filter (\<lambda>s. ms_buffer s = Some a) xs) in if n = 0 then None else Some (int n))) \<and>
    (\<forall>s. s \<in> set xs \<longrightarrow> slice_ok h s)"
proof -
  have "slices_inv (heap_empty, [])" using heap_ok_empty by (simp add: slices_inv_def)
  from slices.program_safe [OF this assms] obtain h xs where
    run: "run_program slice_exec ops (heap_empty, []) = Some (h, xs)" and ok: "heap_ok h (mset xs)"
    by (auto simp: slices_inv_def)
  have "RefCount a h = (let n = refs (mset xs) a in if n = 0 then None else Some (int n))" for a
    using heap_okD(1) [OF ok, of a] heap_okD(2) [OF ok, of a] by (cases "blocks h a") (auto simp: RefCount_def)
  with run heap_okD(3) [OF ok] show ?thesis by (auto simp: refs_filter)
qed

lemmas slice_eval = slice_valid_def vars_of_def has_buffer_def MemSlice_new_def MemSlice_Initialize_def AddRef_def
  Release_def Release_opt_def heap_alloc_def heap_empty_def MemBuf_Create_def append_var_def update_var_def
  MemSlice_copy_def MemSlice_move_def MemSlice_destroy_def MemSlice_assign_def MemSlice_Reset_def
  SetBeginPointer_def MemSlice_Begin_def null_slice_def kSliceSize_def int32_wrap_def

theorem slices_never_dangle_witness:
  "\<exists>h xs. run_program slice_exec
      [OCreate 10 65536, OCopy 0, OSetBegin 1 4, OMove 0, OReset 0 1, ODestroy 0, ODestroy 0, ODestroy 0]
      (heap_empty, []) = Some (h, xs) \<and> (\<forall>s. s \<in> set xs \<longrightarrow> slice_ok h s)"
proof -
  have "valid_program slice_exec slice_valid
      [OCreate 10 65536, OCopy 0, OSetBegin 1 4, OMove 0, OReset 0 1, ODestroy 0, ODestroy 0, ODestroy 0] (heap_empty, [])"
    by (simp add: slice_eval Let_def)
  from slices_never_dangle [OF this] show ?thesis by blast
qed

text \<open>C36. Giving a slice its own block back (\<open>Reset(s.GetMemBuf())\<close> or \<open>s = s.GetMemBuf()\<close>) is
  undefined exactly when no other slice refers to the block: the release frees it before the reference is added.\<close>

theorem reset_own_buffer:
  assumes "heap_ok h (add_mset s M)" and "ms_buffer s = Some a"
  shows "(MemSlice_Reset (ms_buffer s) s h = None \<longleftrightarrow> refs M a = 0) \<and>
    (MemSlice_assign_buf (ms_buffer s) s h = None \<longleftrightarrow> refs M a = 0)"
proof -
  from Release_opt_ok [OF assms(1)] obtain h' where h: "Release_opt (ms_buffer s) h = Some h'" "heap_ok h' M" by auto
  have "MemSlice_Initialize (Some a) h' = None \<longleftrightarrow> blocks h' a = None"
    by (cases "blocks h' a") (auto simp: MemSlice_Initialize_def AddRef_def)
  also have "\<dots> \<longleftrightarrow> refs M a = 0" using heap_okD(1) [OF h(2), of a] heap_okD(2) [OF h(2), of a] by (cases "blocks h' a") auto
  finally show ?thesis using h(1) assms(2) by (simp add: MemSlice_Reset_def MemSlice_assign_buf_def)
qed

definition one_slice :: mem_slice where
  "one_slice = \<lparr>ms_buffer = Some 0, begin_offset = 0, end_offset = 10\<rparr>"

definition one_heap :: mem_heap where
  "one_heap = \<lparr>blocks = [0 \<mapsto> (MemBuf_Create 10)\<lparr>ref_cnt := 1\<rparr>], brk = 1\<rparr>"

lemma one_heap_ok: "heap_ok one_heap {#one_slice#}"
  by (auto simp: heap_ok_def one_heap_def one_slice_def slice_ok_def MemBuf_wf_def MemBuf_Create_def refs_def)

theorem reset_own_buffer_witness: "MemSlice_Reset (ms_buffer one_slice) one_slice one_heap = None"
  using reset_own_buffer [of one_heap one_slice "{#}" 0] one_heap_ok by (simp add: one_slice_def refs_def)

text \<open>A copy shares the block of its source; \<open>Clone\<close> and \<open>CloneSlicedMem\<close> give the same bytes in a
  block of their own, and no other slice sees a difference.\<close>

theorem clone_same_bytes:
  assumes "heap_ok h M" and "size M + 1 < 2 ^ 31" and "s \<in># M" and "ms_buffer s = Some a" and "GetUsedSize s \<le> kSliceSize"
  shows "\<exists>t h' a' h1 u h2. MemSlice_Clone s h = Some (t, h') \<and> CloneSlicedMem s h = Some (a', h1) \<and>
    MemSlice_new (Some a') kSliceSize h1 = Some (u, h2) \<and>
    slice_cells h' t = slice_cells h s \<and> slice_cells h2 u = slice_cells h s \<and> ms_buffer t \<noteq> ms_buffer s \<and>
    (\<forall>r. r \<in># M \<longrightarrow> slice_cells h' r = slice_cells h r \<and> slice_cells h2 r = slice_cells h r)"
proof -
  from Clone_ok [OF assms(1-4)] obtain t h' where c: "MemSlice_Clone s h = Some (t, h')"
    "slice_cells h' t = slice_cells h s" "\<And>x. 0 < refs M x \<Longrightarrow> same_block h h' x" "ms_buffer t \<noteq> ms_buffer s" by auto
  from CloneSliced_ok [OF assms(1-4), of kSliceSize] assms(5) obtain a' h1 u h2 where d: "CloneSlicedMem s h = Some (a', h1)"
    "MemSlice_new (Some a') kSliceSize h1 = Some (u, h2)" "slice_cells h2 u = slice_cells h s"
    "\<And>x. 0 < refs M x \<Longrightarrow> same_block h h2 x" by auto
  have "slice_cells h' r = slice_cells h r \<and> slice_cells h2 r = slice_cells h r" if "r \<in># M" for r
    using slice_cells_cong [of r h h'] slice_cells_cong [of r h h2] c(3) d(4) refs_pos [OF that] by blast
  with c d show ?thesis by blast
qed

theorem clone_same_bytes_witness:
  "\<exists>t h'. MemSlice_Clone one_slice one_heap = Some (t, h') \<and> slice_cells h' t = slice_cells one_heap one_slice"
  using clone_same_bytes [OF one_heap_ok, of one_slice 0]
  by (auto simp: one_slice_def GetUsedSize_def kSliceSize_def)

lemma sint_uint_small: "uint (x :: u32) < 2 ^ 31 \<Longrightarrow> sint x = uint x"
proof -
  assume "uint x < 2 ^ 31"
  moreover have "- (2 ^ 31) \<le> uint x" by (rule order_trans [of _ 0]) simp_all
  ultimately show ?thesis by (simp add: sint_uint signed_take_bit_int_eq_self)
qed

lemma uint_of_position:
  assumes "- (2 ^ 31) \<le> n" and "n < 2 ^ 31"
  shows "uint (word_of_int n :: u32) = (if n < 0 then n + 2 ^ 32 else n)"
proof (cases "n < 0")
  case True
  have "n mod 2 ^ 32 = (n + 2 ^ 32) mod 2 ^ 32" by simp
  also have "\<dots> = n + 2 ^ 32" using assms True by (intro mod_pos_pos_trivial) simp_all
  finally show ?thesis using True by (simp add: uint_word_of_int)
next
  case False
  then have "n mod 2 ^ 32 = n" using assms by (intro mod_pos_pos_trivial) simp_all
  with False show ?thesis by (simp add: uint_word_of_int)
qed

lemma uint_min: "uint (min a b) = min (uint a) (uint b)"
  by (simp add: min_def word_le_def)

lemma uint_max: "uint (max a b) = max (uint a) (uint b)"
  by (simp add: max_def word_le_def)

text \<open>Moving the begin of a slice by a signed offset: the new begin is the sum, cut off at the end of the
  slice; a sum below zero wraps to a large position and empties the slice.  Moving the end cuts off at the
  begin and at the capacity; there a sum below zero extends the slice to the whole block.\<close>

theorem adjust_clamps:
  assumes "slice_ok h s" and "ms_buffer s = Some a" and "blocks h a = Some b" and "uint (capacity b) < 2 ^ 31"
    and "- (2 ^ 31) \<le> off" and "off < 2 ^ 31 - uint (end_offset s)"
  shows "\<exists>p q t u. AdjustBeginPointer off s h = Some (p, t) \<and> AdjustEndPointer off s h = Some (q, u) \<and>
    uint (begin_offset t) =
      (if uint (begin_offset s) + off < 0 then uint (end_offset s) else min (uint (begin_offset s) + off) (uint (end_offset s))) \<and>
    end_offset t = end_offset s \<and> begin_offset u = begin_offset s \<and>
    uint (end_offset u) =
      (if uint (end_offset s) + off < 0 then uint (capacity b)
       else min (max (uint (end_offset s) + off) (uint (begin_offset s))) (uint (capacity b)))"
proof -
  have le: "uint (begin_offset s) \<le> uint (end_offset s)" "uint (end_offset s) \<le> uint (capacity b)"
    using slice_block [OF assms(1,2)] assms(3) by (auto simp: word_le_def)
  have nn: "0 \<le> uint (begin_offset s)" "0 \<le> uint (end_offset s)" by simp_all
  have off: "- 2147483648 \<le> off" "off < 2147483648 - uint (end_offset s)" "uint (capacity b) < 2147483648"
    using assms(4-6) by simp_all
  let ?p = "uint (begin_offset s) + off" and ?q = "uint (end_offset s) + off"
  have p: "- 2147483648 \<le> ?p" "?p < 2147483648" using le nn off by linarith+
  have q: "- 2147483648 \<le> ?q" "?q < 2147483648" using le nn off by linarith+
  have sm: "uint (begin_offset s) < 2147483648" "uint (end_offset s) < 2147483648" using le off by linarith+
  have add: "int32_add (sint (begin_offset s)) off = Some ?p" "int32_add (sint (end_offset s)) off = Some ?q"
    using p q sm by (simp_all add: sint_uint_small int32_add_def)
  define P Q :: u32 where PQ: "P = word_of_int ?p" "Q = word_of_int ?q"
  have pos: "uint P = (if ?p < 0 then ?p + 4294967296 else ?p)" "uint Q = (if ?q < 0 then ?q + 4294967296 else ?q)"
    unfolding PQ using uint_of_position [of ?p] uint_of_position [of ?q] p q by simp_all
  have "min (uint P) (uint (end_offset s)) = (if ?p < 0 then uint (end_offset s) else min ?p (uint (end_offset s)))"
    using p(1) sm(2) unfolding pos by (cases "?p < 0") (simp_all add: min_def)
  moreover have "min (max (uint Q) (uint (begin_offset s))) (uint (capacity b)) =
      (if ?q < 0 then uint (capacity b) else min (max ?q (uint (begin_offset s))) (uint (capacity b)))"
    using q(1) sm(1) off(3) unfolding pos by (cases "?q < 0") (simp_all add: min_def max_def)
  moreover have "AdjustBeginPointer off s h = SetBeginPointer P s h" "AdjustEndPointer off s h = SetEndPointer Q s h"
    unfolding AdjustBeginPointer_def AdjustEndPointer_def add PQ by simp_all
  ultimately show ?thesis
    using SetBegin_ok(1) [OF assms(1,2), of P] SetEnd_ok(1) [OF assms(1-3), of Q] by (simp add: uint_min uint_max)
qed

theorem adjust_clamps_witness:
  "\<exists>p q t u. AdjustBeginPointer (- 1) one_slice one_heap = Some (p, t) \<and> AdjustEndPointer (- 1) one_slice one_heap = Some (q, u) \<and>
    uint (begin_offset t) = 10 \<and> uint (end_offset u) = 9"
  using adjust_clamps [of one_heap one_slice 0 "(MemBuf_Create 10)\<lparr>ref_cnt := 1\<rparr>" "- 1"] one_heap_ok
  by (auto simp: heap_ok_def one_slice_def one_heap_def)

end
