(* ===== verification/Mem_Slice_Span.thy ===== *)
theory Mem_Slice_Span
  imports Mem_Slice
begin

text \<open>
  \<open>MemSliceSpan\<close> (src/turnserver/memory/mem_slice_span.h, mem_slice_span.cpp): up to
  four slices that are sent as one packet.  A span is a record of its fields; its
  \<open>buffer_\<close> array has four slices, of which the first \<open>block_count\<close> are in use.  The
  heap of \<open>Mem_Slice\<close> is threaded through the operations.  A slice that is passed by
  value is owned by the operation, which destroys it when it returns.
\<close>

definition kMaxBlocks :: nat where "kMaxBlocks = 4"

record mem_span =
  sp_size :: u32
  block_count :: int
  sp_buffer :: "mem_slice list"

definition empty_span :: mem_span where
  "empty_span = \<lparr>sp_size = 0, block_count = 0, sp_buffer = replicate kMaxBlocks null_slice\<rparr>"

text \<open>\<open>buffer_[i] = std::move(t)\<close> for a temporary or a parameter \<open>t\<close>, and the end of \<open>t\<close>.\<close>

definition move_into :: "nat \<Rightarrow> mem_slice \<Rightarrow> mem_slice list \<Rightarrow> mem_heap \<Rightarrow> (mem_slice list \<times> mem_heap) option" where
  "move_into i t bs h =
     (let (s, r) = MemSlice_move_assign (bs ! i) t
      in do { h \<leftarrow> MemSlice_destroy r h; Some (bs[i := s], h) })"

text \<open>The loops over the array: \<open>buffer_[i] = a.buffer_[i]\<close> and \<open>buffer_[i].Reset()\<close>.\<close>

fun assign_blocks :: "nat list \<Rightarrow> mem_slice list \<Rightarrow> mem_slice list \<Rightarrow> mem_heap \<Rightarrow> (mem_slice list \<times> mem_heap) option" where
  "assign_blocks [] src bs h = Some (bs, h)"
| "assign_blocks (i # is) src bs h =
     do { (s, h) \<leftarrow> MemSlice_assign False (bs ! i) (src ! i) h; assign_blocks is src (bs[i := s]) h }"

fun move_blocks :: "nat list \<Rightarrow> mem_slice list \<Rightarrow> mem_slice list \<Rightarrow> mem_slice list \<times> mem_slice list" where
  "move_blocks [] src bs = (bs, src)"
| "move_blocks (i # is) src bs =
     (let (s, r) = MemSlice_move_assign (bs ! i) (src ! i) in move_blocks is (src[i := r]) (bs[i := s]))"

fun reset_blocks :: "nat list \<Rightarrow> mem_slice list \<Rightarrow> mem_heap \<Rightarrow> (mem_slice list \<times> mem_heap) option" where
  "reset_blocks [] bs h = Some (bs, h)"
| "reset_blocks (i # is) bs h = do { (s, h) \<leftarrow> MemSlice_Reset None (bs ! i) h; reset_blocks is (bs[i := s]) h }"

section \<open>Construction and assignment\<close>

definition MemSliceSpan_of_buf :: "nat option \<Rightarrow> mem_heap \<Rightarrow> (mem_span \<times> mem_heap) option" where
  "MemSliceSpan_of_buf buffer h =
     (case buffer of
        None \<Rightarrow> Some (empty_span, h)
      | Some a \<Rightarrow>
          do { b \<leftarrow> blocks h a;
               (t, h) \<leftarrow> MemSlice_new buffer kSliceSize h;
               (bs, h) \<leftarrow> move_into 0 t (sp_buffer empty_span) h;
               Some (\<lparr>sp_size = capacity b, block_count = 1, sp_buffer = bs\<rparr>, h) })"

definition MemSliceSpan_of_slice :: "mem_slice \<Rightarrow> mem_heap \<Rightarrow> (mem_span \<times> mem_heap) option" where
  "MemSliceSpan_of_slice buffer h =
     (if GetUsedSize buffer = 0
      then do { h \<leftarrow> MemSlice_destroy buffer h; Some (empty_span, h) }
      else do { (bs, h) \<leftarrow> move_into 0 buffer (sp_buffer empty_span) h;
                Some (\<lparr>sp_size = GetUsedSize buffer, block_count = 1, sp_buffer = bs\<rparr>, h) })"

text \<open>The elements of an initializer list are constant: \<open>std::move(*it)\<close> is a copy assignment.\<close>

fun span_fill :: "mem_slice list \<Rightarrow> mem_span \<Rightarrow> mem_heap \<Rightarrow> (mem_span \<times> mem_heap) option" where
  "span_fill [] sp h = Some (sp, h)"
| "span_fill (s # ss) sp h =
     (if block_count sp < int kMaxBlocks
      then do { (t, h) \<leftarrow> MemSlice_assign False (sp_buffer sp ! nat (block_count sp)) s h;
                span_fill ss \<lparr>sp_size = sp_size sp + GetUsedSize s, block_count = block_count sp + 1,
                  sp_buffer = (sp_buffer sp)[nat (block_count sp) := t]\<rparr> h }
      else Some (sp, h))"

definition MemSliceSpan_of_list :: "mem_slice list \<Rightarrow> mem_heap \<Rightarrow> (mem_span \<times> mem_heap) option" where
  "MemSliceSpan_of_list ss h = (if length ss < kMaxBlocks then span_fill ss empty_span h else None)"

definition MemSliceSpan_of_data :: "byte list \<Rightarrow> u64 \<Rightarrow> mem_heap \<Rightarrow> (mem_span \<times> mem_heap) option" where
  "MemSliceSpan_of_data buf len h =
     do { b \<leftarrow> MemBuf_Create_copy (map Some buf) (ucast len);
          let (a, h) = heap_alloc b h
          in do { (t, h) \<leftarrow> MemSlice_new (Some a) kSliceSize h;
                  (bs, h) \<leftarrow> move_into 0 t (sp_buffer empty_span) h;
                  Some (\<lparr>sp_size = ucast len, block_count = 1, sp_buffer = bs\<rparr>, h) } }"

definition MemSliceSpan_copy :: "mem_span \<Rightarrow> mem_heap \<Rightarrow> (mem_span \<times> mem_heap) option" where
  "MemSliceSpan_copy a h =
     do { (bs, h) \<leftarrow> assign_blocks [0..<nat (block_count a)] (sp_buffer a) (sp_buffer empty_span) h;
          Some (\<lparr>sp_size = sp_size a, block_count = block_count a, sp_buffer = bs\<rparr>, h) }"

text \<open>A move returns the new span and what is left in \<open>a\<close>.\<close>

definition MemSliceSpan_move :: "mem_span \<Rightarrow> mem_span \<times> mem_span" where
  "MemSliceSpan_move a =
     (let (bs, src) = move_blocks [0..<nat (block_count a)] (sp_buffer a) (sp_buffer empty_span)
      in (\<lparr>sp_size = sp_size a, block_count = block_count a, sp_buffer = bs\<rparr>,
          \<lparr>sp_size = 0, block_count = 0, sp_buffer = src\<rparr>))"

definition MemSliceSpan_assign :: "bool \<Rightarrow> mem_span \<Rightarrow> mem_span \<Rightarrow> mem_heap \<Rightarrow> (mem_span \<times> mem_heap) option" where
  "MemSliceSpan_assign same sp a h =
     (if same then Some (sp, h)
      else if \<not> block_count a \<le> int kMaxBlocks then None
      else do { (bs, h) \<leftarrow> assign_blocks [0..<nat (block_count a)] (sp_buffer a) (sp_buffer sp) h;
                (bs, h) \<leftarrow> reset_blocks [nat (block_count a)..<nat (block_count sp)] bs h;
                Some (\<lparr>sp_size = sp_size a, block_count = block_count a, sp_buffer = bs\<rparr>, h) })"

definition MemSliceSpan_move_assign ::
  "bool \<Rightarrow> mem_span \<Rightarrow> mem_span \<Rightarrow> mem_heap \<Rightarrow> (mem_span \<times> mem_span \<times> mem_heap) option" where
  "MemSliceSpan_move_assign same sp a h =
     (if same then Some (sp, a, h)
      else if \<not> block_count a \<le> int kMaxBlocks then None
      else let (bs, src) = move_blocks [0..<nat (block_count a)] (sp_buffer a) (sp_buffer sp)
           in do { (bs, h) \<leftarrow> reset_blocks [nat (block_count a)..<nat (block_count sp)] bs h;
                   Some (\<lparr>sp_size = sp_size a, block_count = block_count a, sp_buffer = bs\<rparr>,
                         \<lparr>sp_size = 0, block_count = 0, sp_buffer = src\<rparr>, h) })"

definition MemSliceSpan_assign_slice :: "mem_slice \<Rightarrow> mem_span \<Rightarrow> mem_heap \<Rightarrow> (mem_span \<times> mem_heap) option" where
  "MemSliceSpan_assign_slice buffer sp h =
     do { (bs, h) \<leftarrow> reset_blocks [1..<nat (block_count sp)] (sp_buffer sp) h;
          (bs, h) \<leftarrow> move_into 0 buffer bs h;
          Some (\<lparr>sp_size = GetUsedSize buffer, block_count = 1, sp_buffer = bs\<rparr>, h) }"

definition MemSliceSpan_assign_buf :: "nat option \<Rightarrow> mem_span \<Rightarrow> mem_heap \<Rightarrow> (mem_span \<times> mem_heap) option" where
  "MemSliceSpan_assign_buf buf sp h =
     do { (t, h) \<leftarrow> MemSlice_new buf kSliceSize h; MemSliceSpan_assign_slice t sp h }"

text \<open>The destructor destroys the four slices.\<close>

fun destroy_slices :: "mem_slice list \<Rightarrow> mem_heap \<Rightarrow> mem_heap option" where
  "destroy_slices [] h = Some h"
| "destroy_slices (s # ss) h = do { h \<leftarrow> MemSlice_destroy s h; destroy_slices ss h }"

definition MemSliceSpan_destroy :: "mem_span \<Rightarrow> mem_heap \<Rightarrow> mem_heap option" where
  "MemSliceSpan_destroy sp h = destroy_slices (rev (sp_buffer sp)) h"

section \<open>Queries\<close>

definition IsSingleBlock :: "mem_span \<Rightarrow> bool" where
  "IsSingleBlock sp \<longleftrightarrow> block_count sp = 1"

definition span_Empty :: "mem_span \<Rightarrow> bool" where
  "span_Empty sp \<longleftrightarrow> sp_size sp = 0"

definition GetFirstBlock :: "mem_span \<Rightarrow> mem_slice option" where
  "GetFirstBlock sp = (if block_count sp = 0 then None else Some (sp_buffer sp ! 0))"

definition span_nth :: "mem_span \<Rightarrow> nat \<Rightarrow> mem_slice option" where
  "span_nth sp i = (if int i < block_count sp then Some (sp_buffer sp ! i) else None)"

definition span_blocks :: "mem_span \<Rightarrow> mem_slice list" where
  "span_blocks sp = take (nat (block_count sp)) (sp_buffer sp)"

section \<open>Operations\<close>

definition PushBack :: "mem_slice \<Rightarrow> mem_span \<Rightarrow> mem_heap \<Rightarrow> (bool \<times> mem_span \<times> mem_heap) option" where
  "PushBack block sp h =
     (if block_count sp \<ge> int kMaxBlocks
      then do { h \<leftarrow> MemSlice_destroy block h; Some (False, sp, h) }
      else do { (bs, h) \<leftarrow> move_into (nat (block_count sp)) block (sp_buffer sp) h;
                Some (True, \<lparr>sp_size = sp_size sp + GetUsedSize block, block_count = block_count sp + 1,
                             sp_buffer = bs\<rparr>, h) })"

definition span_Reset :: "mem_slice \<Rightarrow> mem_span \<Rightarrow> mem_heap \<Rightarrow> (mem_span \<times> mem_heap) option" where
  "span_Reset block sp h =
     do { (bs, h) \<leftarrow> reset_blocks (rev [0..<nat (block_count sp)]) (sp_buffer sp) h;
          (bs, h) \<leftarrow> move_into 0 block bs h;
          Some (\<lparr>sp_size = GetUsedSize (bs ! 0), block_count = (if GetUsedSize (bs ! 0) = 0 then 0 else 1),
                 sp_buffer = bs\<rparr>, h) }"

fun clone_blocks :: "nat list \<Rightarrow> mem_slice list \<Rightarrow> mem_slice list \<Rightarrow> mem_heap \<Rightarrow> (mem_slice list \<times> mem_heap) option" where
  "clone_blocks [] src bs h = Some (bs, h)"
| "clone_blocks (i # is) src bs h =
     do { (t, h) \<leftarrow> MemSlice_Clone (src ! i) h; (bs, h) \<leftarrow> move_into i t bs h; clone_blocks is src bs h }"

definition span_Clone :: "mem_span \<Rightarrow> mem_heap \<Rightarrow> (mem_span \<times> mem_heap) option" where
  "span_Clone sp h =
     (if \<not> block_count sp < int kMaxBlocks then None
      else do { (bs, h) \<leftarrow> clone_blocks [0..<nat (block_count sp)] (sp_buffer sp) (sp_buffer empty_span) h;
                Some (\<lparr>sp_size = sp_size sp, block_count = block_count sp, sp_buffer = bs\<rparr>, h) })"

text \<open>The bytes from \<open>Begin()\<close> on, for \<open>GetUsedSize()\<close> bytes; outside the block is undefined.\<close>

definition read_slice :: "mem_slice \<Rightarrow> mem_heap \<Rightarrow> cell list option" where
  "read_slice s h =
     do { (a, off) \<leftarrow> MemSlice_Begin s h; b \<leftarrow> blocks h a;
          if unat off + unat (GetUsedSize s) \<le> length (cells b)
          then Some (take (unat (GetUsedSize s)) (drop (unat off) (cells b))) else None }"

text \<open>\<open>memcpy\<close> of every block behind the last, into the block of \<open>size_\<close> bytes.\<close>

fun copy_blocks :: "mem_slice list \<Rightarrow> nat \<Rightarrow> cell list \<Rightarrow> mem_heap \<Rightarrow> cell list option" where
  "copy_blocks [] q m h = Some m"
| "copy_blocks (s # ss) q m h =
     do { c \<leftarrow> read_slice s h;
          if q + length c \<le> length m
          then copy_blocks ss (q + length c) (take q m @ c @ drop (q + length c) m) h else None }"

definition CloneSpannedMem :: "mem_span \<Rightarrow> mem_heap \<Rightarrow> (nat \<times> mem_heap) option" where
  "CloneSpannedMem sp h =
     (if \<not> block_count sp < int kMaxBlocks then None
      else do { m \<leftarrow> copy_blocks (span_blocks sp) 0 (cells (MemBuf_Create (sp_size sp))) h;
                Some (heap_alloc ((MemBuf_Create (sp_size sp))\<lparr>cells := m\<rparr>) h) })"

definition ToSingleBlock :: "mem_span \<Rightarrow> mem_heap \<Rightarrow> (mem_span \<times> mem_heap) option" where
  "ToSingleBlock sp h =
     (if \<not> block_count sp < int kMaxBlocks then None
      else if block_count sp \<le> 1 then MemSliceSpan_copy sp h
      else do { (a, h) \<leftarrow> CloneSpannedMem sp h; MemSliceSpan_of_buf (Some a) h })"

text \<open>\<open>ToRawBuffer\<close> reads the bytes, which must have been written.\<close>

fun raw_blocks :: "mem_slice list \<Rightarrow> mem_heap \<Rightarrow> byte list option" where
  "raw_blocks [] h = Some []"
| "raw_blocks (s # ss) h =
     do { c \<leftarrow> read_slice s h; bs \<leftarrow> mem_init 0 (length c) c; rest \<leftarrow> raw_blocks ss h; Some (bs @ rest) }"

definition ToRawBuffer :: "mem_span \<Rightarrow> mem_heap \<Rightarrow> byte list option" where
  "ToRawBuffer sp h =
     (if \<not> block_count sp < int kMaxBlocks then None
      else if block_count sp \<le> 0 \<or> sp_size sp = 0 then Some []
      else raw_blocks (span_blocks sp) h)"

text \<open>
  The first loop of \<open>AdjustBeginPointer\<close>: what is left to drop, the position where
  it stops and the blocks.  The argument of \<open>block.AdjustBeginPointer\<close> is an
  \<open>int32_t\<close>.
\<close>

fun adjust_loop :: "nat list \<Rightarrow> u32 \<Rightarrow> mem_slice list \<Rightarrow> mem_heap \<Rightarrow> nat \<Rightarrow> (nat \<times> mem_slice list) option" where
  "adjust_loop [] left bs h stop = Some (stop, bs)"
| "adjust_loop (pos # ps) left bs h stop =
     (let n = min left (GetUsedSize (bs ! pos))
      in do { (_, t) \<leftarrow> AdjustBeginPointer (sint n) (bs ! pos) h;
              if left - n = 0 then Some (if GetUsedSize t = 0 then pos + 1 else pos, bs[pos := t])
              else adjust_loop ps (left - n) (bs[pos := t]) h stop })"

text \<open>The second loop: \<open>k\<close> stays 0, every remaining block is moved into \<open>buffer_[0]\<close>.\<close>

fun shift_loop :: "nat list \<Rightarrow> mem_slice list \<Rightarrow> mem_slice list" where
  "shift_loop [] bs = bs"
| "shift_loop (pos # ps) bs =
     (let (s, r) = MemSlice_move_assign (bs ! 0) (bs ! pos) in shift_loop ps (bs[0 := s, pos := r]))"

definition span_AdjustBeginPointer :: "u32 \<Rightarrow> mem_span \<Rightarrow> mem_heap \<Rightarrow> (mem_span \<times> mem_heap) option" where
  "span_AdjustBeginPointer off sp h =
     (if \<not> off < sp_size sp then None
      else let n = nat (block_count sp)
           in do { (pos, bs) \<leftarrow> adjust_loop [0..<n] off (sp_buffer sp) h n;
                   Some (\<lparr>sp_size = sp_size sp - off, block_count = block_count sp - int pos,
                          sp_buffer = (if pos = 0 then bs else shift_loop [pos..<n] bs)\<rparr>, h) })"

section \<open>The loops\<close>

definition span_cells :: "mem_heap \<Rightarrow> mem_span \<Rightarrow> cell list" where
  "span_cells h sp = concat (map (slice_cells h) (span_blocks sp))"

definition span_ok :: "mem_span \<Rightarrow> bool" where
  "span_ok sp \<longleftrightarrow>
     length (sp_buffer sp) = kMaxBlocks \<and> 0 \<le> block_count sp \<and> block_count sp \<le> int kMaxBlocks \<and>
     sp_size sp = sum_list (map GetUsedSize (span_blocks sp))"

lemma refs_union [simp]: "refs (M + N) a = refs M a + refs N a"
  by (simp add: refs_def)

lemma refs_mono: "M \<subseteq># N \<Longrightarrow> 0 < refs M a \<Longrightarrow> 0 < refs N a"
  by (metis add_gr_0 refs_union subset_mset.add_diff_inverse)

lemma slice_cells_frame:
  "s \<in># M \<Longrightarrow> (\<And>x. 0 < refs M x \<Longrightarrow> same_block h h' x) \<Longrightarrow> slice_cells h' s = slice_cells h s"
  by (rule slice_cells_cong) (auto dest: refs_pos)

lemma same_block_trans: "same_block h h1 x \<Longrightarrow> same_block h1 h2 x \<Longrightarrow> same_block h h2 x"
  by (simp add: same_block_def)

lemma move_into_ok:
  assumes "i < length bs" and "heap_ok h (add_mset t (mset bs + M))"
  shows "\<exists>h'. move_into i t bs h = Some (bs[i := t], h') \<and> heap_ok h' (mset (bs[i := t]) + M) \<and>
    (\<forall>x. 0 < refs (mset (bs[i := t]) + M) x \<longrightarrow> same_block h h' x)"
proof -
  have "heap_ok h (add_mset (bs ! i) (mset (bs[i := t]) + M))"
    using assms(2) unfolding mset_update_var [OF assms(1)] by (subst (asm) mset_var [OF assms(1)]) (simp add: add_mset_commute)
  from MemSlice_destroy_ok [OF this] show ?thesis by (auto simp: move_into_def move_assign_swap)
qed

lemma reset_blocks_ok:
  assumes "heap_ok h (mset bs + M)" and "\<forall>i \<in> set is. i < length bs"
  shows "\<exists>bs' h'. reset_blocks is bs h = Some (bs', h') \<and> heap_ok h' (mset bs' + M) \<and> length bs' = length bs \<and>
    (\<forall>j < length bs. bs' ! j = (if j \<in> set is then null_slice else bs ! j)) \<and>
    (\<forall>x. 0 < refs M x \<longrightarrow> same_block h h' x)"
  using assms
proof (induction "is" arbitrary: bs h)
  case Nil
  then show ?case by (simp add: same_block_def)
next
  case (Cons i "is")
  then have i: "i < length bs" by simp
  have "heap_ok h (add_mset (bs ! i) (mset (other_vars i bs) + M))"
    using Cons.prems(1) by (subst (asm) mset_var [OF i]) simp
  from Reset_ok [OF this, of null_slice] obtain u h1 where
    h1: "MemSlice_Reset None (bs ! i) h = Some (u, h1)" "heap_ok h1 (add_mset u (mset (other_vars i bs) + M))"
    "\<And>x. 0 < refs M x \<Longrightarrow> same_block h h1 x" by (auto simp: null_slice_def)
  have u: "u = null_slice" using h1(1) by (auto simp: MemSlice_Reset_def MemSlice_Initialize_def split: bind_splits)
  have "heap_ok h1 (mset (bs[i := u]) + M)" using h1(2) by (simp add: mset_update_var [OF i])
  from Cons.IH [OF this] Cons.prems(2) obtain bs' h2 where
    r: "reset_blocks is (bs[i := u]) h1 = Some (bs', h2)" "heap_ok h2 (mset bs' + M)" "length bs' = length bs"
    "\<And>j. j < length bs \<Longrightarrow> bs' ! j = (if j \<in> set is then null_slice else bs[i := u] ! j)"
    "\<And>x. 0 < refs M x \<Longrightarrow> same_block h1 h2 x" by auto
  have "bs' ! j = (if j \<in> set (i # is) then null_slice else bs ! j)" if "j < length bs" for j
    using r(4) [OF that] u i by (auto simp: nth_list_update)
  with r h1(1) same_block_trans [OF h1(3) r(5)] show ?case by simp
qed

lemma assign_blocks_ok:
  assumes "heap_ok h (mset bs + M)" and "\<forall>i \<in> set is. i < length bs \<and> src ! i \<in># M"
  shows "\<exists>bs' h'. assign_blocks is src bs h = Some (bs', h') \<and> heap_ok h' (mset bs' + M) \<and> length bs' = length bs \<and>
    (\<forall>j < length bs. bs' ! j = (if j \<in> set is then src ! j else bs ! j)) \<and>
    (\<forall>x. 0 < refs M x \<longrightarrow> same_block h h' x)"
  using assms
proof (induction "is" arbitrary: bs h)
  case Nil
  then show ?case by (simp add: same_block_def)
next
  case (Cons i "is")
  then have i: "i < length bs" "src ! i \<in># M" by simp_all
  have "heap_ok h (add_mset (bs ! i) (mset (other_vars i bs) + M))"
    using Cons.prems(1) by (subst (asm) mset_var [OF i(1)]) simp
  from MemSlice_assign_ok [OF this, of "src ! i"] i(2) obtain h1 where
    h1: "MemSlice_assign False (bs ! i) (src ! i) h = Some (src ! i, h1)"
    "heap_ok h1 (add_mset (src ! i) (mset (other_vars i bs) + M))" "\<And>x. 0 < refs M x \<Longrightarrow> same_block h h1 x" by auto
  have "heap_ok h1 (mset (bs[i := src ! i]) + M)" using h1(2) by (simp add: mset_update_var [OF i(1)])
  from Cons.IH [OF this] Cons.prems(2) obtain bs' h2 where
    r: "assign_blocks is src (bs[i := src ! i]) h1 = Some (bs', h2)" "heap_ok h2 (mset bs' + M)" "length bs' = length bs"
    "\<And>j. j < length bs \<Longrightarrow> bs' ! j = (if j \<in> set is then src ! j else bs[i := src ! i] ! j)"
    "\<And>x. 0 < refs M x \<Longrightarrow> same_block h1 h2 x" by auto
  have "bs' ! j = (if j \<in> set (i # is) then src ! j else bs ! j)" if "j < length bs" for j
    using r(4) [OF that] i by (auto simp: nth_list_update)
  with r h1(1) same_block_trans [OF h1(3) r(5)] show ?case by simp
qed

lemma move_blocks_ok:
  assumes "distinct is" and "\<forall>i \<in> set is. i < length bs \<and> i < length src"
  shows "\<exists>bs' src'. move_blocks is src bs = (bs', src') \<and> length bs' = length bs \<and> length src' = length src \<and>
    mset bs' + mset src' = mset bs + mset src \<and>
    (\<forall>j < length bs. bs' ! j = (if j \<in> set is then src ! j else bs ! j))"
  using assms
proof (induction "is" arbitrary: bs src)
  case Nil
  then show ?case by simp
next
  case (Cons i "is")
  then have i: "i < length bs" "i < length src" by simp_all
  from Cons.IH [of "bs[i := src ! i]" "src[i := bs ! i]"] Cons.prems obtain bs' src' where
    r: "move_blocks is (src[i := bs ! i]) (bs[i := src ! i]) = (bs', src')" "length bs' = length bs" "length src' = length src"
    "mset bs' + mset src' = mset (bs[i := src ! i]) + mset (src[i := bs ! i])"
    "\<And>j. j < length bs \<Longrightarrow> bs' ! j = (if j \<in> set is then src[i := bs ! i] ! j else bs[i := src ! i] ! j)" by auto
  have "mset (bs[i := src ! i]) + mset (src[i := bs ! i]) = mset bs + mset src"
    unfolding mset_update_var [OF i(1)] mset_update_var [OF i(2)] mset_var [OF i(1)] mset_var [OF i(2)] by simp
  moreover have "bs' ! j = (if j \<in> set (i # is) then src ! j else bs ! j)" if "j < length bs" for j
    using r(5) [OF that] i Cons.prems(1) by (auto simp: nth_list_update)
  ultimately show ?case using r by (simp add: move_assign_swap)
qed

lemma take_eqI: "length xs = length ys \<Longrightarrow> (\<And>j. j < n \<Longrightarrow> j < length xs \<Longrightarrow> xs ! j = ys ! j) \<Longrightarrow> take n xs = take n ys"
  by (rule nth_equalityI) auto

section \<open>Reading a span\<close>

definition span_total :: "mem_span \<Rightarrow> nat" where
  "span_total sp = sum_list (map (unat \<circ> GetUsedSize) (span_blocks sp))"

text \<open>Every block in use refers to memory.\<close>

definition span_solid :: "mem_span \<Rightarrow> bool" where
  "span_solid sp = list_all (\<lambda>s. ms_buffer s \<noteq> None) (span_blocks sp)"

lemma slice_ok_cells:
  assumes "heap_ok h M" and "s \<in># M"
  shows "length (slice_cells h s) = unat (GetUsedSize s)"
    and "ms_buffer s \<noteq> None \<Longrightarrow> read_slice s h = Some (slice_cells h s)"
proof -
  have "length (slice_cells h s) = unat (GetUsedSize s) \<and> (ms_buffer s \<noteq> None \<longrightarrow> read_slice s h = Some (slice_cells h s))"
  proof (cases "ms_buffer s")
    case None
    then show ?thesis using heap_okD(3) [OF assms] by (simp add: slice_cells_def slice_ok_def GetUsedSize_def)
  next
    case (Some a)
    then obtain b where "blocks h a = Some b" "unat (begin_offset s) + unat (GetUsedSize s) \<le> length (cells b)"
      by (rule slice_range [OF assms])
    then show ?thesis by (simp add: slice_cells_def read_slice_def MemSlice_Begin_def Some)
  qed
  then show "length (slice_cells h s) = unat (GetUsedSize s)"
    and "ms_buffer s \<noteq> None \<Longrightarrow> read_slice s h = Some (slice_cells h s)" by simp_all
qed

lemma raw_blocks_ok:
  assumes "heap_ok h M" and "set ss \<subseteq> set_mset M" and "list_all (\<lambda>s. ms_buffer s \<noteq> None) ss"
    and "concat (map (slice_cells h) ss) = map Some bs"
  shows "raw_blocks ss h = Some bs"
  using assms(2-4)
proof (induction ss arbitrary: bs)
  case Nil
  then show ?case by simp
next
  case (Cons s ss)
  from Cons.prems(3) obtain b1 b2 where b: "bs = b1 @ b2" "slice_cells h s = map Some b1"
    "concat (map (slice_cells h) ss) = map Some b2" by (auto simp: append_eq_map_conv)
  have "read_slice s h = Some (map Some b1)"
    using slice_ok_cells(2) [OF assms(1), of s] Cons.prems(1,2) b(2) by simp
  moreover have "mem_init 0 (length b1) (map Some b1) = Some b1" by (rule mem_init_map_Some) simp_all
  ultimately show ?case using Cons.IH [OF _ _ b(3)] Cons.prems(1,2) b(1) by simp
qed

lemma copy_blocks_ok:
  assumes "heap_ok h M" and "set ss \<subseteq> set_mset M" and "list_all (\<lambda>s. ms_buffer s \<noteq> None) ss"
    and "q + length (concat (map (slice_cells h) ss)) \<le> length m"
  shows "copy_blocks ss q m h =
    Some (take q m @ concat (map (slice_cells h) ss) @ drop (q + length (concat (map (slice_cells h) ss))) m)"
  using assms(2-4)
proof (induction ss arbitrary: q m)
  case Nil
  then show ?case by simp
next
  case (Cons s ss)
  let ?c = "slice_cells h s" and ?r = "concat (map (slice_cells h) ss)"
  have "read_slice s h = Some ?c" using slice_ok_cells(2) [OF assms(1), of s] Cons.prems(1,2) by simp
  moreover have "copy_blocks ss (q + length ?c) (take q m @ ?c @ drop (q + length ?c) m) h =
      Some (take q m @ ?c @ ?r @ drop (q + length ?c + length ?r) m)"
    using Cons.IH [of "q + length ?c" "take q m @ ?c @ drop (q + length ?c) m"] Cons.prems
    by (simp add: add.commute add.left_commute)
  ultimately show ?case using Cons.prems(3) by (simp add: add.assoc)
qed

lemma span_blocks_mem: "set (span_blocks sp) \<subseteq> set_mset (mset (sp_buffer sp) + M)"
  by (auto simp: span_blocks_def dest: in_set_takeD)

lemma span_cells_length: "heap_ok h (mset (sp_buffer sp) + M) \<Longrightarrow> length (span_cells h sp) = span_total sp"
proof -
  assume ok: "heap_ok h (mset (sp_buffer sp) + M)"
  have "map (length \<circ> slice_cells h) (span_blocks sp) = map (unat \<circ> GetUsedSize) (span_blocks sp)"
    using slice_ok_cells(1) [OF ok] span_blocks_mem [of sp M] by auto
  then show ?thesis by (simp only: span_cells_def span_total_def length_concat map_map)
qed

lemma unat_sum_list:
  "sum_list (map (unat \<circ> f) xs) < 2 ^ 32 \<Longrightarrow> unat (sum_list (map f xs) :: u32) = sum_list (map (unat \<circ> f) xs)"
proof (induction xs)
  case (Cons x xs)
  then show ?case by (simp add: comp_def u32_unat_add)
qed simp

lemma span_size_total: "span_ok sp \<Longrightarrow> span_total sp < 2 ^ 32 \<Longrightarrow> unat (sp_size sp) = span_total sp"
  using unat_sum_list [of GetUsedSize "span_blocks sp"] by (simp add: span_ok_def span_total_def)

lemma CloneSpannedMem_ok:
  assumes "heap_ok h (mset (sp_buffer sp) + M)" and "span_ok sp" and "span_solid sp" and "block_count sp < 4" and "span_total sp < 2 ^ 32"
  shows "CloneSpannedMem sp h = Some (heap_alloc \<lparr>ref_cnt = 0, capacity = sp_size sp, cells = span_cells h sp\<rparr> h)"
proof -
  have len: "length (concat (map (slice_cells h) (span_blocks sp))) = unat (sp_size sp)"
    using span_cells_length [OF assms(1)] span_size_total [OF assms(2,5)] by (simp add: span_cells_def)
  have "copy_blocks (span_blocks sp) 0 (replicate (unat (sp_size sp)) None) h = Some (span_cells h sp)"
    using copy_blocks_ok [OF assms(1) span_blocks_mem, of 0 "replicate (unat (sp_size sp)) None"] assms(3)
    by (simp add: len span_solid_def span_cells_def)
  then show ?thesis using assms(4) by (simp add: CloneSpannedMem_def MemBuf_Create_def kMaxBlocks_def)
qed

lemma empty_buffer: "sp_buffer empty_span = [null_slice, null_slice, null_slice, null_slice]"
  by (simp add: empty_span_def kMaxBlocks_def eval_nat_numeral)

lemma heap_ok_nulls: "heap_ok h M \<Longrightarrow> size M + 4 < 2 ^ 31 \<Longrightarrow> heap_ok h (mset (sp_buffer empty_span) + M)"
  by (simp add: empty_buffer heap_ok_null)

lemma empty_span_sel [simp]: "length (sp_buffer empty_span) = 4" "j < 4 \<Longrightarrow> sp_buffer empty_span ! j = null_slice"
  by (simp_all add: empty_span_def kMaxBlocks_def)

text \<open>A span over one block of fresh memory.\<close>

lemma span_of_fresh:
  assumes "heap_ok h M" and "size M + 5 < 2 ^ 31" and "MemBuf_wf b" and "ref_cnt b = 0" and "heap_alloc b h = (a, h1)"
  shows "\<exists>sp h'. MemSliceSpan_of_buf (Some a) h1 = Some (sp, h') \<and> heap_ok h' (mset (sp_buffer sp) + M) \<and>
    sp_size sp = capacity b \<and> block_count sp = 1 \<and> length (sp_buffer sp) = 4 \<and>
    span_cells h' sp = take 65536 (cells b) \<and> GetUsedSize (sp_buffer sp ! 0) = min kSliceSize (capacity b) \<and>
    (\<forall>x. 0 < refs M x \<longrightarrow> same_block h h' x)"
proof -
  let ?t = "\<lparr>ms_buffer = Some a, begin_offset = 0, end_offset = min kSliceSize (capacity b)\<rparr>"
  have a: "a = brk h" "h1 = \<lparr>blocks = (blocks h)(a \<mapsto> b), brk = a + 1\<rparr>" using assms(5) by (auto simp: heap_alloc_def)
  obtain h2 where h2: "MemSlice_new (Some a) kSliceSize h1 = Some (?t, h2)" "heap_ok h2 (add_mset ?t M)"
    "blocks h2 a = Some (b\<lparr>ref_cnt := 1\<rparr>)" "\<forall>x. x \<noteq> a \<longrightarrow> blocks h2 x = blocks h x" "refs M a = 0"
    using MemSlice_new_fresh [OF assms(1) _ assms(3-5), of ?t kSliceSize] assms(2) by auto
  have "heap_ok h2 (add_mset ?t (mset (sp_buffer empty_span) + M))"
    using heap_ok_nulls [OF h2(2)] assms(2) by simp
  from move_into_ok [OF _ this, of 0] obtain h3 where
    h3: "move_into 0 ?t (sp_buffer empty_span) h2 = Some ((sp_buffer empty_span)[0 := ?t], h3)"
    "heap_ok h3 (mset ((sp_buffer empty_span)[0 := ?t]) + M)"
    "\<And>x. 0 < refs (mset ((sp_buffer empty_span)[0 := ?t]) + M) x \<Longrightarrow> same_block h2 h3 x" by auto
  let ?sp = "\<lparr>sp_size = capacity b, block_count = 1, sp_buffer = (sp_buffer empty_span)[0 := ?t]\<rparr>"
  have t: "?t \<in># mset ((sp_buffer empty_span)[0 := ?t]) + M" by (simp add: set_update_memI)
  have used: "GetUsedSize ?t = min kSliceSize (capacity b)" by (simp add: GetUsedSize_def)
  have "span_cells h3 ?sp = slice_cells h3 ?t" by (simp add: span_cells_def span_blocks_def empty_buffer)
  also have "\<dots> = slice_cells h2 ?t" using slice_cells_frame [OF t h3(3)] by simp
  also have "\<dots> = take (min 65536 (unat (capacity b))) (cells b)"
    by (simp add: slice_cells_def h2(3) used) (simp add: kSliceSize_def min_def word_le_nat_alt)
  also have "\<dots> = take 65536 (cells b)" using assms(3) by (simp add: MemBuf_wf_def min_def)
  finally have "span_cells h3 ?sp = take 65536 (cells b)" .
  moreover have "same_block h h3 x" if "0 < refs M x" for x
    using fresh_same_block [OF h2(4,5) that] h3(3) [of x] that by (auto intro: same_block_trans)
  moreover have "MemSliceSpan_of_buf (Some a) h1 = Some (?sp, h3)"
    using h2(1) h3(1) a by (simp add: MemSliceSpan_of_buf_def)
  ultimately show ?thesis using h3(2) used by (simp add: nth_list_update)
qed

section \<open>Dropping bytes at the front\<close>

lemma adjust_block:
  assumes "heap_ok h M" and "s \<in># M" and "ms_buffer s = Some a" and "uint (end_offset s) < 2 ^ 31" and "n \<le> GetUsedSize s"
  shows "AdjustBeginPointer (sint n) s h = Some ((a, begin_offset s + n), s\<lparr>begin_offset := begin_offset s + n\<rparr>)"
    and "slice_cells h (s\<lparr>begin_offset := begin_offset s + n\<rparr>) = drop (unat n) (slice_cells h s)"
    and "GetUsedSize (s\<lparr>begin_offset := begin_offset s + n\<rparr>) = GetUsedSize s - n"
    and "slice_ok h (s\<lparr>begin_offset := begin_offset s + n\<rparr>)"
proof -
  obtain b where b: "blocks h a = Some b" "MemBuf_wf b" "begin_offset s \<le> end_offset s" "end_offset s \<le> capacity b"
    "unat (GetUsedSize s) = unat (end_offset s) - unat (begin_offset s)" by (rule slice_range [OF assms(1-3)])
  have ok: "slice_ok h s" by (rule heap_okD(3) [OF assms(1,2)])
  have n: "unat n + unat (begin_offset s) \<le> unat (end_offset s)"
    using assms(5) b(3,5) unfolding word_le_nat_alt by linarith
  have "int (unat (end_offset s)) < int 2147483648" using assms(4) by simp
  then have e: "unat (end_offset s) < 2147483648" by (simp only: of_nat_less_iff)
  have sum: "unat (begin_offset s + n) = unat (begin_offset s) + unat n" using n e by (intro u32_unat_add) simp
  then have le: "begin_offset s + n \<le> end_offset s" using n by (simp add: word_le_nat_alt)
  have u: "uint (begin_offset s) + uint n < 2147483648" unfolding uint_nat using n e by linarith
  have nn: "0 \<le> uint (begin_offset s)" "0 \<le> uint n" by simp_all
  have "uint (begin_offset s) < 2147483648" "uint n < 2147483648" using u nn by linarith+
  then have "sint (begin_offset s) = uint (begin_offset s)" "sint n = uint n" by (simp_all add: sint_uint_small)
  moreover have "- 2147483648 \<le> uint (begin_offset s) + uint n" using nn by linarith
  ultimately have "int32_add (sint (begin_offset s)) (sint n) = Some (uint (begin_offset s) + uint n)"
    using u by (simp add: int32_add_def)
  then show "AdjustBeginPointer (sint n) s h = Some ((a, begin_offset s + n), s\<lparr>begin_offset := begin_offset s + n\<rparr>)"
    using SetBegin_ok(1) [OF ok assms(3), of "begin_offset s + n"] le by (simp add: AdjustBeginPointer_def)
  show used: "GetUsedSize (s\<lparr>begin_offset := begin_offset s + n\<rparr>) = GetUsedSize s - n" by (simp add: GetUsedSize_def)
  have "unat (GetUsedSize s - n) = unat (GetUsedSize s) - unat n" using assms(5) by (rule unat_sub)
  then show "slice_cells h (s\<lparr>begin_offset := begin_offset s + n\<rparr>) = drop (unat n) (slice_cells h s)"
    using b(1) assms(3) by (simp add: slice_cells_def used sum drop_take add.commute [of "unat n"])
  show "slice_ok h (s\<lparr>begin_offset := begin_offset s + n\<rparr>)" using SetBegin_ok(2) [OF ok assms(3), of "begin_offset s + n"] le by simp
qed

lemma span_cells_frame:
  assumes "\<And>x. 0 < refs (mset (sp_buffer sp) + M) x \<Longrightarrow> same_block h h' x"
  shows "span_cells h' sp = span_cells h sp"
proof -
  have "slice_cells h' s = slice_cells h s" if "s \<in> set (span_blocks sp)" for s
  proof (rule slice_cells_frame)
    show "s \<in># mset (sp_buffer sp) + M" using that span_blocks_mem [of sp M] by auto
  qed (rule assms)
  then have "map (slice_cells h') (span_blocks sp) = map (slice_cells h) (span_blocks sp)" by simp
  then show ?thesis by (simp only: span_cells_def)
qed

section \<open>Properties\<close>

text \<open>\<open>PushBack\<close> appends a block, as long as there are fewer than four: it returns whether it did, the
  bytes of the span are then the old ones followed by those of the block, and the size and the reference
  counts stay right in both cases.\<close>

theorem PushBack_appends:
  assumes "span_ok sp" and "heap_ok h (add_mset block (mset (sp_buffer sp) + M))"
  shows "\<exists>sp' h'. PushBack block sp h = Some (block_count sp < 4, sp', h') \<and> span_ok sp' \<and>
    heap_ok h' (mset (sp_buffer sp') + M) \<and>
    span_cells h' sp' = span_cells h sp @ (if block_count sp < 4 then slice_cells h block else [])"
proof (cases "block_count sp < 4")
  case True
  let ?i = "nat (block_count sp)"
  have i: "?i < length (sp_buffer sp)" using assms(1) True by (simp add: span_ok_def kMaxBlocks_def)
  let ?bs = "(sp_buffer sp)[?i := block]"
  let ?sp = "\<lparr>sp_size = sp_size sp + GetUsedSize block, block_count = block_count sp + 1, sp_buffer = ?bs\<rparr>"
  from move_into_ok [OF i assms(2)] obtain h' where h': "move_into ?i block (sp_buffer sp) h = Some (?bs, h')"
    "heap_ok h' (mset ?bs + M)" "\<And>x. 0 < refs (mset ?bs + M) x \<Longrightarrow> same_block h h' x" by auto
  have nn: "0 \<le> block_count sp" using assms(1) by (simp add: span_ok_def)
  then have bl: "span_blocks ?sp = span_blocks sp @ [block]"
    using i by (simp add: span_blocks_def nat_add_distrib take_Suc_conv_app_nth)
  have "span_cells h' ?sp = span_cells h ?sp" by (rule span_cells_frame [of _ M]) (use h'(3) in simp)
  then have "span_cells h' ?sp = span_cells h sp @ slice_cells h block" by (simp add: span_cells_def bl)
  moreover have "span_ok ?sp" using assms(1) True nn bl by (simp add: span_ok_def kMaxBlocks_def)
  ultimately show ?thesis using h' True by (auto simp: PushBack_def kMaxBlocks_def)
next
  case False
  from MemSlice_destroy_ok [OF assms(2)] obtain h' where h': "MemSlice_destroy block h = Some h'"
    "heap_ok h' (mset (sp_buffer sp) + M)" "\<And>x. 0 < refs (mset (sp_buffer sp) + M) x \<Longrightarrow> same_block h h' x" by auto
  have "span_cells h' sp = span_cells h sp" by (rule span_cells_frame [OF h'(3)])
  with h' False assms(1) show ?thesis by (auto simp: PushBack_def kMaxBlocks_def)
qed

theorem PushBack_appends_witness:
  "\<exists>sp' h'. PushBack one_slice empty_span one_heap = Some (True, sp', h') \<and>
     span_cells h' sp' = slice_cells one_heap one_slice"
proof -
  have "heap_ok one_heap (mset (sp_buffer empty_span) + {#one_slice#})" by (intro heap_ok_nulls one_heap_ok) simp
  then have "heap_ok one_heap (add_mset one_slice (mset (sp_buffer empty_span) + {#}))" by simp
  moreover have "span_ok empty_span" by (simp add: span_ok_def empty_span_def span_blocks_def)
  ultimately show ?thesis
    using PushBack_appends [of empty_span one_heap one_slice "{#}"]
    by (auto simp: empty_span_def span_cells_def span_blocks_def)
qed

text \<open>Assigning a span: afterwards both spans have the blocks and the bytes of the source, blocks that
  were in use before and are no more are released, and no reference is lost or counted twice.\<close>

theorem span_assign_same:
  assumes "span_ok sp" and "span_ok a" and "heap_ok h (mset (sp_buffer sp) + (mset (sp_buffer a) + M))"
  shows "\<exists>sp' h'. MemSliceSpan_assign False sp a h = Some (sp', h') \<and> span_ok sp' \<and>
    heap_ok h' (mset (sp_buffer sp') + (mset (sp_buffer a) + M)) \<and>
    span_blocks sp' = span_blocks a \<and> sp_size sp' = sp_size a \<and>
    span_cells h' sp' = span_cells h a \<and> span_cells h' a = span_cells h a"
proof -
  define N where "N = mset (sp_buffer a) + M"
  let ?n = "nat (block_count a)"
  have ok: "heap_ok h (mset (sp_buffer sp) + N)" using assms(3) by (simp add: N_def)
  have len: "length (sp_buffer sp) = 4" "length (sp_buffer a) = 4" "?n \<le> 4" "nat (block_count sp) \<le> 4"
    using assms(1,2) by (auto simp: span_ok_def kMaxBlocks_def)
  have "\<forall>i \<in> set [0..<?n]. i < length (sp_buffer sp) \<and> sp_buffer a ! i \<in># N" using len by (auto simp: N_def)
  from assign_blocks_ok [OF ok this] obtain bs1 h1 where
    b1: "assign_blocks [0..<?n] (sp_buffer a) (sp_buffer sp) h = Some (bs1, h1)" "heap_ok h1 (mset bs1 + N)" "length bs1 = 4"
    "\<And>j. j < 4 \<Longrightarrow> j < ?n \<Longrightarrow> bs1 ! j = sp_buffer a ! j" "\<And>x. 0 < refs N x \<Longrightarrow> same_block h h1 x" using len by auto
  have "\<forall>i \<in> set [?n..<nat (block_count sp)]. i < length bs1" using len b1(3) by auto
  from reset_blocks_ok [OF b1(2) this] obtain bs2 h2 where
    b2: "reset_blocks [?n..<nat (block_count sp)] bs1 h1 = Some (bs2, h2)" "heap_ok h2 (mset bs2 + N)" "length bs2 = 4"
    "\<And>j. j < 4 \<Longrightarrow> j < ?n \<Longrightarrow> bs2 ! j = bs1 ! j" "\<And>x. 0 < refs N x \<Longrightarrow> same_block h1 h2 x" using b1(3) by auto
  let ?sp = "\<lparr>sp_size = sp_size a, block_count = block_count a, sp_buffer = bs2\<rparr>"
  have bl: "span_blocks ?sp = span_blocks a"
    using b1(4) b2(3,4) len by (auto simp: span_blocks_def intro!: take_eqI)
  have "span_cells h2 a = span_cells h a" 
    using same_block_trans [OF b1(5) b2(5)] unfolding N_def by (rule span_cells_frame)
  then have "span_cells h2 ?sp = span_cells h a" "span_cells h2 a = span_cells h a" by (simp_all add: span_cells_def bl)
  moreover have "span_ok ?sp" using assms(2) b2(3) bl by (simp add: span_ok_def kMaxBlocks_def)
  moreover have "MemSliceSpan_assign False sp a h = Some (?sp, h2)"
    using b1(1) b2(1) assms(2) by (simp add: MemSliceSpan_assign_def span_ok_def)
  ultimately show ?thesis using b2(2) bl unfolding N_def by (intro exI [of _ ?sp] exI [of _ h2]) simp
qed

definition one_span :: mem_span where
  "one_span = \<lparr>sp_size = 10, block_count = 1, sp_buffer = [one_slice, null_slice, null_slice, null_slice]\<rparr>"

lemma one_span_ok: "span_ok one_span" "heap_ok one_heap (mset (sp_buffer one_span) + {#})"
  "span_ok empty_span" "heap_ok one_heap (mset (sp_buffer empty_span) + (mset (sp_buffer one_span) + {#}))"
proof -
  show "span_ok one_span" by (simp add: span_ok_def one_span_def span_blocks_def one_slice_def GetUsedSize_def kMaxBlocks_def)
  have "mset (sp_buffer one_span) = add_mset null_slice (add_mset null_slice (add_mset null_slice {#one_slice#}))"
    by (simp add: one_span_def add_mset_commute)
  then show "heap_ok one_heap (mset (sp_buffer one_span) + {#})" using one_heap_ok by (simp add: heap_ok_null)
  then show "heap_ok one_heap (mset (sp_buffer empty_span) + (mset (sp_buffer one_span) + {#}))"
    by (intro heap_ok_nulls) (simp_all add: one_span_def)
  show "span_ok empty_span" by (simp add: span_ok_def empty_span_def span_blocks_def)
qed

theorem span_assign_same_witness:
  "\<exists>sp' h'. MemSliceSpan_assign False empty_span one_span one_heap = Some (sp', h') \<and>
     span_cells h' sp' = span_cells one_heap one_span"
  using span_assign_same [OF one_span_ok(3,1,4)] by blast


text \<open>Two blocks of one byte each.\<close>

definition byte_block :: "byte \<Rightarrow> mem_buf" where
  "byte_block b = \<lparr>ref_cnt = 1, capacity = 1, cells = [Some b]\<rparr>"

definition byte_slice :: "nat \<Rightarrow> mem_slice" where
  "byte_slice a = \<lparr>ms_buffer = Some a, begin_offset = 0, end_offset = 1\<rparr>"

definition bytes_heap :: mem_heap where
  "bytes_heap = \<lparr>blocks = [0 \<mapsto> byte_block 65, 1 \<mapsto> byte_block 66, 2 \<mapsto> byte_block 67], brk = 3\<rparr>"

definition abc_span :: mem_span where
  "abc_span = \<lparr>sp_size = 3, block_count = 3, sp_buffer = [byte_slice 0, byte_slice 1, byte_slice 2, null_slice]\<rparr>"

lemma abc_span_ok: "heap_ok bytes_heap (mset (sp_buffer abc_span) + {#})" "span_ok abc_span" "span_solid abc_span"
  "span_cells bytes_heap abc_span = map Some [65, 66, 67]" "span_total abc_span = 3"
proof -
  show "heap_ok bytes_heap (mset (sp_buffer abc_span) + {#})"
  proof (rule heap_okI)
    show "refs (mset (sp_buffer abc_span) + {#}) a = 0" if "blocks bytes_heap a = None" for a
      using that by (auto simp: refs_def bytes_heap_def abc_span_def byte_slice_def null_slice_def split: if_splits)
    show "ref_cnt b = int (refs (mset (sp_buffer abc_span) + {#}) a) \<and> 0 < refs (mset (sp_buffer abc_span) + {#}) a \<and>
        MemBuf_wf b \<and> a < brk bytes_heap" if "blocks bytes_heap a = Some b" for a b
      using that by (auto simp: refs_def bytes_heap_def abc_span_def byte_slice_def byte_block_def null_slice_def MemBuf_wf_def
          split: if_splits)
    show "slice_ok bytes_heap s" if "s \<in># mset (sp_buffer abc_span) + {#}" for s
      using that by (auto simp: slice_ok_def bytes_heap_def abc_span_def byte_slice_def byte_block_def null_slice_def)
  qed (simp add: abc_span_def)
qed (simp_all add: span_ok_def span_solid_def abc_span_def span_blocks_def kMaxBlocks_def GetUsedSize_def byte_slice_def
    span_cells_def slice_cells_def bytes_heap_def byte_block_def span_total_def)


lemma upt_2_3: "[0..<2] = [0, 1 :: nat]" "[0..<3] = [0, 1, 2 :: nat]" "[Suc 0..<2] = [1]" "[Suc 0..<3] = [1, 2]"
  by (simp_all add: upt_rec)

text \<open>One round of the loop, for the first block.\<close>

lemma adjust_first:
  assumes "heap_ok h M" and "s \<in># M" and "ms_buffer s \<noteq> None" and "uint (end_offset s) < 2 ^ 31" and "bs ! pos = s"
  shows "left \<le> GetUsedSize s \<Longrightarrow> adjust_loop (pos # ps) left bs h stop =
      Some (if left = GetUsedSize s then pos + 1 else pos, bs[pos := s\<lparr>begin_offset := begin_offset s + left\<rparr>])"
    and "GetUsedSize s < left \<Longrightarrow> adjust_loop (pos # ps) left bs h stop =
      adjust_loop ps (left - GetUsedSize s) (bs[pos := s\<lparr>begin_offset := begin_offset s + GetUsedSize s\<rparr>]) h stop"
proof -
  obtain a where a: "ms_buffer s = Some a" using assms(3) by auto
  note adj = adjust_block [OF assms(1,2) a assms(4)]
  show "left \<le> GetUsedSize s \<Longrightarrow> adjust_loop (pos # ps) left bs h stop =
      Some (if left = GetUsedSize s then pos + 1 else pos, bs[pos := s\<lparr>begin_offset := begin_offset s + left\<rparr>])"
    using adj(1,3) [of left] assms(5) by (auto simp: Let_def)
  show "GetUsedSize s < left \<Longrightarrow> adjust_loop (pos # ps) left bs h stop =
      adjust_loop ps (left - GetUsedSize s) (bs[pos := s\<lparr>begin_offset := begin_offset s + GetUsedSize s\<rparr>]) h stop"
    using adj(1,3) [of "GetUsedSize s"] assms(5) by (auto simp: Let_def)
qed

text \<open>Dropping bytes at the front of a span of one or two blocks: the bytes that remain are the old ones
  without the first \<open>offset\<close>, and the size is right again.\<close>

theorem span_adjust_drops:
  assumes "heap_ok h (mset (sp_buffer sp) + M)" and "span_ok sp" and "span_solid sp" and "block_count sp \<le> 2"
    and "span_total sp < 2 ^ 32" and "list_all (\<lambda>s. uint (end_offset s) < 2 ^ 31) (span_blocks sp)" and "off < sp_size sp"
  shows "\<exists>sp' h'. span_AdjustBeginPointer off sp h = Some (sp', h') \<and>
    span_cells h' sp' = drop (unat off) (span_cells h sp) \<and> sp_size sp' = sp_size sp - off \<and>
    sp_size sp' = sum_list (map GetUsedSize (span_blocks sp'))"
proof -
  obtain b0 b1 b2 b3 where bs: "sp_buffer sp = [b0, b1, b2, b3]"
    using assms(2) by (auto simp: span_ok_def kMaxBlocks_def length_Suc_conv eval_nat_numeral)
  note adj = adjust_first [OF assms(1)] and cells = adjust_block(2,3) [OF assms(1)]
  have len: "length (slice_cells h b0) = unat (GetUsedSize b0)" using slice_ok_cells(1) [OF assms(1)] bs by simp
  have "block_count sp \<noteq> 0" using assms(2,7) by (auto simp: span_ok_def span_blocks_def)
  then consider (one) "block_count sp = 1" | (two) "block_count sp = 2" using assms(2,4) by (force simp: span_ok_def)
  then show ?thesis
  proof cases
    case one
    then have bl: "span_blocks sp = [b0]" "sp_size sp = GetUsedSize b0" using assms(2) by (simp_all add: span_ok_def span_blocks_def bs)
    then obtain a where a: "ms_buffer b0 = Some a" "uint (end_offset b0) < 2 ^ 31" using assms(3,6) by (auto simp: span_solid_def)
    have "off \<le> GetUsedSize b0" "off \<noteq> GetUsedSize b0" using assms(7) bl by auto
    with adj(1) [of b0 "[b0, b1, b2, b3]" 0 off "[]" 1] cells [of b0 a off] a bl assms(7) one show ?thesis
      by (simp add: span_AdjustBeginPointer_def bs span_cells_def span_blocks_def)
  next
    case two
    then have bl: "span_blocks sp = [b0, b1]" "sp_size sp = GetUsedSize b0 + GetUsedSize b1"
      using assms(2) by (simp_all add: span_ok_def span_blocks_def bs)
    then obtain a c where a: "ms_buffer b0 = Some a" "uint (end_offset b0) < 2 ^ 31" "ms_buffer b1 = Some c" "uint (end_offset b1) < 2 ^ 31"
      using assms(3,6) by (auto simp: span_solid_def)
    have sum: "unat (sp_size sp) = unat (GetUsedSize b0) + unat (GetUsedSize b1)"
      using span_size_total [OF assms(2,5)] bl by (simp add: span_total_def)
    consider (less) "off < GetUsedSize b0" | (eq) "off = GetUsedSize b0" | (more) "GetUsedSize b0 < off" by (rule linorder_cases)
    then show ?thesis
    proof cases
      case less
      then have "off \<le> GetUsedSize b0" "off \<noteq> GetUsedSize b0" by auto
      moreover have "unat off < unat (GetUsedSize b0)" using less by (simp add: word_less_nat_alt)
      ultimately show ?thesis using adj(1) [of b0 "[b0, b1, b2, b3]" 0 off "[1]" 2] cells [of b0 a off] a bl assms(7) two len
        by (simp add: span_AdjustBeginPointer_def bs span_cells_def span_blocks_def upt_2_3)
    next
      case eq
      with adj(1) [of b0 "[b0, b1, b2, b3]" 0 off "[1]" 2] a bl assms(7) two len show ?thesis
        by (simp add: span_AdjustBeginPointer_def bs span_cells_def span_blocks_def upt_2_3 move_assign_swap)
    next
      case more
      let ?t = "b0\<lparr>begin_offset := begin_offset b0 + GetUsedSize b0\<rparr>" and ?left = "off - GetUsedSize b0"
      have left: "unat ?left = unat off - unat (GetUsedSize b0)" using more by (intro unat_sub) simp
      then have lt: "unat ?left < unat (GetUsedSize b1)" using assms(7) sum more by (simp add: word_less_nat_alt)
      have le: "unat (GetUsedSize b0) \<le> unat off" using more by (simp add: word_less_nat_alt)
      from lt have "?left \<le> GetUsedSize b1" "?left \<noteq> GetUsedSize b1" by (auto simp: word_le_nat_alt)
      with adj(2) [of b0 "[b0, b1, b2, b3]" 0 off "[1]" 2] adj(1) [of b1 "[?t, b1, b2, b3]" 1 ?left "[]" 2]
        cells [of b1 c ?left] a bl assms(7) two len left more lt le show ?thesis
        by (simp add: span_AdjustBeginPointer_def bs span_cells_def span_blocks_def upt_2_3 move_assign_swap algebra_simps)
    qed
  qed
qed

definition ab_span :: mem_span where
  "ab_span = \<lparr>sp_size = 2, block_count = 2, sp_buffer = [byte_slice 0, byte_slice 1, byte_slice 2, null_slice]\<rparr>"

theorem span_adjust_drops_witness:
  "\<exists>sp' h'. span_AdjustBeginPointer 1 ab_span bytes_heap = Some (sp', h') \<and> span_cells h' sp' = [Some 66]"
proof -
  have "heap_ok bytes_heap (mset (sp_buffer ab_span) + {#})" using abc_span_ok(1) by (simp add: ab_span_def abc_span_def)
  moreover have "span_ok ab_span" "span_solid ab_span" "span_total ab_span = 2" "span_cells bytes_heap ab_span = [Some 65, Some 66]"
    "span_blocks ab_span = [byte_slice 0, byte_slice 1]"
    by (simp_all add: span_ok_def span_solid_def ab_span_def span_blocks_def kMaxBlocks_def GetUsedSize_def byte_slice_def
        span_cells_def slice_cells_def bytes_heap_def byte_block_def span_total_def)
  ultimately show ?thesis
    using span_adjust_drops [of bytes_heap ab_span "{#}" 1] by (auto simp: ab_span_def byte_slice_def)
qed

text \<open>With three blocks the second loop of \<open>AdjustBeginPointer\<close> loses one: when exactly the first block is
  dropped, the third block takes its place and the emptied first block is the second; the bytes of the second
  block are gone, although the size still counts them.\<close>

theorem span_adjust_loses_block:
  assumes "heap_ok h (mset (sp_buffer sp) + M)" and "span_ok sp" and "span_solid sp" and "block_count sp = 3"
    and "uint (end_offset (sp_buffer sp ! 0)) < 2 ^ 31" and "GetUsedSize (sp_buffer sp ! 0) < sp_size sp"
  shows "\<exists>sp' h'. span_AdjustBeginPointer (GetUsedSize (sp_buffer sp ! 0)) sp h = Some (sp', h') \<and>
    span_cells h' sp' = slice_cells h (sp_buffer sp ! 2) \<and>
    sp_size sp' = GetUsedSize (sp_buffer sp ! 1) + GetUsedSize (sp_buffer sp ! 2)"
proof -
  obtain b0 b1 b2 b3 where bs: "sp_buffer sp = [b0, b1, b2, b3]"
    using assms(2) by (auto simp: span_ok_def kMaxBlocks_def length_Suc_conv eval_nat_numeral)
  have bl: "span_blocks sp = [b0, b1, b2]" "sp_size sp = GetUsedSize b0 + (GetUsedSize b1 + GetUsedSize b2)"
    using assms(2,4) by (simp_all add: span_ok_def span_blocks_def bs)
  then obtain a where a: "ms_buffer b0 = Some a" using assms(3) by (auto simp: span_solid_def)
  have len: "length (slice_cells h b0) = unat (GetUsedSize b0)" using slice_ok_cells(1) [OF assms(1)] bs by simp
  from adjust_first(1) [OF assms(1), of b0 "[b0, b1, b2, b3]" 0 "GetUsedSize b0" "[1, 2]" 3]
    adjust_block(2) [OF assms(1), of b0 a "GetUsedSize b0"] a bl assms(4-6) len show ?thesis
    by (simp add: span_AdjustBeginPointer_def bs span_cells_def span_blocks_def upt_2_3 move_assign_swap)
qed

theorem span_adjust_loses_block_witness:
  "\<exists>sp' h'. span_AdjustBeginPointer 1 abc_span bytes_heap = Some (sp', h') \<and> span_cells h' sp' = [Some 67] \<and> sp_size sp' = 2"
  using span_adjust_loses_block [OF abc_span_ok(1-3)]
  by (auto simp: abc_span_def byte_slice_def GetUsedSize_def slice_cells_def bytes_heap_def byte_block_def)

end
