(* ===== verification/Machine_Double.thy ===== *)
theory Machine_Double
  imports Prelude Complex_Main "HOL-Library.Log_Nat"
begin

text \<open>
  The type \<open>double\<close> of the sources: IEEE 754 binary64 with rounding to nearest,
  ties to even, as the x86-64 host computes it, and the conversions of
  \<open>sprintf\<close> that src/turnserver/new_elbs/cJSON.cc uses.  A finite value is a sign
  and a magnitude, so that the two zeros are different values; the sign of a
  NaN is kept because \<open>sprintf\<close> shows it.  The conversions of a \<open>double\<close> to an
  integer type are undefined in C++ when the value is out of range; the model
  has the result of the instruction \<open>cvttsd2si\<close>.
\<close>

datatype double = Fin bool rat | Inf bool | NaN bool

section \<open>Rounding\<close>

definition round_even :: "rat \<Rightarrow> int" where
  "round_even x =
     (let n = \<lfloor>x\<rfloor>; r = x - of_int n in if r < 1 / 2 \<or> (r = 1 / 2 \<and> even n) then n else n + 1)"

text \<open>The exponent of the largest power of two that is at most \<open>m\<close>.\<close>

definition binade :: "rat \<Rightarrow> int" where
  "binade m =
     (let (p, q) = quotient_of m; e = int (floorlog 2 (nat p)) - int (floorlog 2 (nat q))
      in if 2 powi e \<le> m then e else e - 1)"

definition quantum :: "rat \<Rightarrow> int" where
  "quantum m = max (binade m - 52) (- 1074)"

definition round_mag :: "rat \<Rightarrow> rat" where
  "round_mag m = of_int (round_even (m / 2 powi quantum m)) * 2 powi quantum m"

definition round_double :: "bool \<Rightarrow> rat \<Rightarrow> double" where
  "round_double s m = (if round_mag m \<ge> 2 ^ 1024 then Inf s else Fin s (round_mag m))"

section \<open>Operations\<close>

fun double_val :: "double \<Rightarrow> rat" where
  "double_val (Fin s m) = (if s then - m else m)"
| "double_val _ = 0"

definition double_of_rat :: "rat \<Rightarrow> double" where
  "double_of_rat r = round_double (r < 0) \<bar>r\<bar>"

definition double_of_int :: "int \<Rightarrow> double" where
  "double_of_int i = double_of_rat (of_int i)"

fun double_mul :: "double \<Rightarrow> double \<Rightarrow> double" where
  "double_mul (NaN s) _ = NaN s"
| "double_mul _ (NaN s) = NaN s"
| "double_mul (Fin s m) (Fin t n) = round_double (s \<noteq> t) (m * n)"
| "double_mul (Fin s m) (Inf t) = (if m = 0 then NaN True else Inf (s \<noteq> t))"
| "double_mul (Inf s) (Fin t n) = (if n = 0 then NaN True else Inf (s \<noteq> t))"
| "double_mul (Inf s) (Inf t) = Inf (s \<noteq> t)"

fun double_add :: "double \<Rightarrow> double \<Rightarrow> double" where
  "double_add (NaN s) _ = NaN s"
| "double_add _ (NaN s) = NaN s"
| "double_add (Fin s m) (Fin t n) =
     (let v = double_val (Fin s m) + double_val (Fin t n)
      in if v = 0 then Fin (s \<and> t) 0 else round_double (v < 0) \<bar>v\<bar>)"
| "double_add (Fin s m) (Inf t) = Inf t"
| "double_add (Inf s) (Fin t n) = Inf s"
| "double_add (Inf s) (Inf t) = (if s = t then Inf s else NaN True)"

fun double_sub :: "double \<Rightarrow> double \<Rightarrow> double" where
  "double_sub x (Fin s m) = double_add x (Fin (\<not> s) m)"
| "double_sub x (Inf s) = double_add x (Inf (\<not> s))"
| "double_sub x (NaN s) = double_add x (NaN s)"

fun double_fabs :: "double \<Rightarrow> double" where
  "double_fabs (Fin s m) = Fin False m"
| "double_fabs (Inf s) = Inf False"
| "double_fabs (NaN s) = NaN False"

fun double_floor :: "double \<Rightarrow> double" where
  "double_floor (Fin s m) = Fin s (of_int \<bar>\<lfloor>double_val (Fin s m)\<rfloor>\<bar>)"
| "double_floor x = x"

fun double_le :: "double \<Rightarrow> double \<Rightarrow> bool" where
  "double_le (NaN _) _ = False"
| "double_le _ (NaN _) = False"
| "double_le (Inf s) y = (s \<or> y = Inf False)"
| "double_le x (Inf t) = (\<not> t)"
| "double_le x y = (double_val x \<le> double_val y)"

definition double_lt :: "double \<Rightarrow> double \<Rightarrow> bool" where
  "double_lt x y \<longleftrightarrow> double_le x y \<and> \<not> double_le y x"

definition INT_MIN :: int where "INT_MIN = - (2 ^ 31)"
definition INT_MAX :: int where "INT_MAX = 2 ^ 31 - 1"
definition DBL_EPSILON :: double where "DBL_EPSILON = Fin False (1 / 2 ^ 52)"

fun double_trunc :: "double \<Rightarrow> int option" where
  "double_trunc (Fin s m) = Some (if s then - \<lfloor>m\<rfloor> else \<lfloor>m\<rfloor>)"
| "double_trunc _ = None"

text \<open>\<open>(int)d\<close>\<close>

definition int_of_double :: "double \<Rightarrow> int" where
  "int_of_double d =
     (case double_trunc d of Some i \<Rightarrow> if INT_MIN \<le> i \<and> i \<le> INT_MAX then i else INT_MIN | None \<Rightarrow> INT_MIN)"

text \<open>\<open>(unsigned int)d\<close>: the low half of the 64-bit conversion.\<close>

definition uint_of_double :: "double \<Rightarrow> u32" where
  "uint_of_double d =
     (case double_trunc d of Some i \<Rightarrow> if - (2 ^ 63) \<le> i \<and> i < 2 ^ 63 then of_int i else 0 | None \<Rightarrow> 0)"

section \<open>Decimal output\<close>

fun dec :: "nat \<Rightarrow> byte list" where
  "dec n = (if n < 10 then [48 + of_nat n] else dec (n div 10) @ [48 + of_nat (n mod 10)])"

declare dec.simps [simp del]

definition dec_pad :: "nat \<Rightarrow> nat \<Rightarrow> byte list" where
  "dec_pad k n = replicate (k - length (dec n)) 48 @ dec n"

definition minus_sign :: "bool \<Rightarrow> byte list" where
  "minus_sign s = (if s then [45] else [])"

fun special :: "double \<Rightarrow> byte list" where
  "special (Inf s) = minus_sign s @ [105, 110, 102]"
| "special (NaN s) = minus_sign s @ [110, 97, 110]"
| "special (Fin s m) = []"

text \<open>\<open>%d\<close>, \<open>%.0f\<close>, \<open>%f\<close> and \<open>%e\<close>.\<close>

definition sprintf_d :: "int \<Rightarrow> byte list" where
  "sprintf_d i = minus_sign (i < 0) @ dec (nat \<bar>i\<bar>)"

definition sprintf_f0 :: "double \<Rightarrow> byte list" where
  "sprintf_f0 d = (case d of Fin s m \<Rightarrow> minus_sign s @ dec (nat (round_even m)) | _ \<Rightarrow> special d)"

definition sprintf_f :: "double \<Rightarrow> byte list" where
  "sprintf_f d =
     (case d of Fin s m \<Rightarrow>
        let n = nat (round_even (m * 10 ^ 6))
        in minus_sign s @ dec (n div 10 ^ 6) @ [46] @ dec_pad 6 (n mod 10 ^ 6)
      | _ \<Rightarrow> special d)"

text \<open>The exponent of the largest power of ten that is at most \<open>m\<close>.\<close>

definition decade :: "rat \<Rightarrow> int" where
  "decade m =
     (if m = 0 then 0
      else if 1 \<le> m then int (length (dec (nat \<lfloor>m\<rfloor>))) - 1
      else - int (length (dec (nat (\<lceil>1 / m\<rceil> - 1)))))"

definition sprintf_e :: "double \<Rightarrow> byte list" where
  "sprintf_e d =
     (case d of Fin s m \<Rightarrow>
        let x = decade m; n = nat (round_even (m / 10 powi (x - 6)));
            (n, x) = (if n = 10 ^ 7 then (10 ^ 6, x + 1) else (n, x))
        in minus_sign s @ dec (n div 10 ^ 6) @ [46] @ dec_pad 6 (n mod 10 ^ 6) @
           [101, if x < 0 then 45 else 43] @ dec_pad 2 (nat \<bar>x\<bar>)
      | _ \<Rightarrow> special d)"


section \<open>Integers are exact below 2 to the 53\<close>

lemma floorlog_2:
  assumes "0 < n"
  shows "2 powi (int (floorlog 2 n) - 1) \<le> (of_nat n :: rat)" and "(of_nat n :: rat) < 2 powi int (floorlog 2 n)"
proof -
  define k where "k = floorlog 2 n"
  have "2 ^ (k - 1) \<le> n" and "n < 2 ^ k" using floorlog_bounds [of n 2] assms by (simp_all add: k_def)
  moreover have "0 < k" using assms floorlog_eq_zero_iff [of 2 n] by (auto simp: k_def)
  ultimately have "(2 :: rat) ^ (k - 1) \<le> of_nat n" "(of_nat n :: rat) < 2 ^ k" "int k - 1 = int (k - 1)"
    by (metis of_nat_le_iff of_nat_numeral of_nat_power, metis of_nat_less_iff of_nat_numeral of_nat_power, simp)
  then show "2 powi (int (floorlog 2 n) - 1) \<le> (of_nat n :: rat)" and "(of_nat n :: rat) < 2 powi int (floorlog 2 n)"
    unfolding k_def [symmetric] by (simp_all only: power_int_of_nat)
qed

lemma binade_le:
  assumes "0 < m"
  shows "2 powi binade m \<le> m"
proof -
  obtain p q where pq: "quotient_of m = (p, q)" by (cases "quotient_of m")
  then have q: "0 < q" and m: "m = of_int p / of_int q"
    using quotient_of_denom_pos quotient_of_div by auto
  with assms have p: "0 < p" by (simp add: zero_less_divide_iff)
  define a b where "a = int (floorlog 2 (nat p))" and "b = int (floorlog 2 (nat q))"
  have "(2 :: rat) powi (a - 1) \<le> of_int p" and "(of_int q :: rat) < 2 powi b"
    using floorlog_2(1) [of "nat p"] floorlog_2(2) [of "nat q"] p q by (simp_all add: a_def b_def)
  then have "2 powi (a - 1) / 2 powi b \<le> m"
    unfolding m using p q by (intro frac_le) auto
  moreover have "(2 :: rat) powi (a - 1) / 2 powi b = 2 powi (a - b - 1)"
    by (simp add: power_int_diff)
  ultimately show ?thesis by (simp add: binade_def pq a_def b_def Let_def)
qed

lemma round_even_of_int [simp]: "round_even (of_int i) = i"
  by (simp add: round_even_def)

lemma round_even_bound:
  shows "x - 1 / 2 \<le> of_int (round_even x)" and "of_int (round_even x) \<le> x + 1 / 2"
  proof -
  define n where "n = (of_int \<lfloor>x\<rfloor> :: rat)"
  then have "n \<le> x" "x < n + 1" using floor_correct [of x] by simp_all
  then show "x - 1 / 2 \<le> of_int (round_even x)" and "of_int (round_even x) \<le> x + 1 / 2"
    by (auto simp: round_even_def Let_def n_def [symmetric])
qed

lemma round_mag_of_int:
  assumes "0 \<le> i" and "i < 2 ^ 53"
  shows "round_mag (of_int i) = of_int i"
proof (cases "i = 0")
  case True
  then show ?thesis by (simp add: round_mag_def round_even_def)
next
  case False
  with assms(1) have "2 powi binade (of_int i) \<le> (of_int i :: rat)" by (intro binade_le) simp
  also have "\<dots> < of_int (2 ^ 53)" using assms(2) by (simp only: of_int_less_iff)
  also have "\<dots> = 2 powi 53" by simp
  finally have "binade (of_int i) < 53" using power_int_increasing [of 53 "binade (of_int i)" "2 :: rat"] by force
  then have q: "quantum (of_int i) \<le> 0" by (simp add: quantum_def)
  define k where "k = nat (- quantum (of_int i))"
  with q have "quantum (of_int i) = - int k" by simp
  then have "of_int i / 2 powi quantum (of_int i) = (of_int (i * 2 ^ k) :: rat)"
    by (simp add: power_int_minus divide_inverse)
  with \<open>quantum (of_int i) = - int k\<close> show ?thesis
    unfolding round_mag_def by (simp only: round_even_of_int) (simp add: power_int_minus)
qed

lemma round_double_of_int:
  assumes "0 \<le> i" and "i < 2 ^ 53"
  shows "round_double s (of_int i) = Fin s (of_int i)"
proof -
  have "(of_int i :: rat) < of_int (2 ^ 53)" using assms(2) by (simp only: of_int_less_iff)
  also have "\<dots> < 2 ^ 1024" by simp
  finally show ?thesis by (simp add: round_double_def round_mag_of_int [OF assms])
qed

text \<open>The integers every operation of the sources is exact on.\<close>

definition exact_int :: "int \<Rightarrow> bool" where
  "exact_int i \<longleftrightarrow> \<bar>i\<bar> < 2 ^ 53"

lemma double_of_int_exact: "exact_int i \<Longrightarrow> double_of_int i = Fin (i < 0) (of_int \<bar>i\<bar>)"
  using round_double_of_int [of "\<bar>i\<bar>" "i < 0"] by (simp add: exact_int_def double_of_int_def double_of_rat_def)

lemma double_val_of_int: "exact_int i \<Longrightarrow> double_val (double_of_int i) = of_int i"
  by (simp add: double_of_int_exact)

lemma double_mul_exact:
  assumes "exact_int i" and "exact_int j" and "exact_int (i * j)" and "0 \<le> i \<and> 0 \<le> j"
  shows "double_mul (double_of_int i) (double_of_int j) = double_of_int (i * j)"
  using assms round_double_of_int [of "i * j" False]
  by (simp add: double_of_int_exact not_less) (simp add: exact_int_def not_less)

lemma double_add_exact:
  assumes "exact_int i" and "exact_int j" and "exact_int (i + j)"
  shows "double_add (double_of_int i) (double_of_int j) = double_of_int (i + j)"
proof -
  have v: "double_val (Fin (i < 0) (of_int \<bar>i\<bar>)) + double_val (Fin (j < 0) (of_int \<bar>j\<bar>)) = of_int (i + j)"
    by simp
  have r: "round_double s \<bar>of_int (i + j)\<bar> = Fin s (of_int \<bar>i + j\<bar>)" for s
    using round_double_of_int [of "\<bar>i + j\<bar>" s] assms(3) by (simp add: exact_int_def)
  have "(of_int (i + j) = (0 :: rat)) = (i + j = 0)" "((of_int (i + j) :: rat) < 0) = (i + j < 0)"
    using of_int_eq_0_iff of_int_less_0_iff by blast+
  then show ?thesis
    unfolding double_of_int_exact [OF assms(1)] double_of_int_exact [OF assms(2)] double_of_int_exact [OF assms(3)]
      double_add.simps v Let_def r by auto
qed

lemma int_of_double_of_int:
  assumes "exact_int i"
  shows "int_of_double (double_of_int i) = (if INT_MIN \<le> i \<and> i \<le> INT_MAX then i else INT_MIN)"
  using assms by (auto simp: int_of_double_def double_of_int_exact simp del: of_int_abs)

lemma uint_of_double_of_int: "exact_int i \<Longrightarrow> uint_of_double (double_of_int i) = of_int i"
  by (auto simp: uint_of_double_def double_of_int_exact exact_int_def simp del: of_int_abs)


section \<open>Decimal digits\<close>

definition is_digit :: "byte \<Rightarrow> bool" where
  "is_digit c \<longleftrightarrow> 48 \<le> c \<and> c \<le> 57"

lemma digit_byte: "d < 10 \<Longrightarrow> unat (48 + of_nat d :: byte) = 48 + d" for d :: nat
  by (simp add: unat_word_ariths unat_of_nat)

lemma is_digit_byte: "d < 10 \<Longrightarrow> is_digit (48 + of_nat d)" for d :: nat
  by (simp add: is_digit_def word_le_nat_alt digit_byte)

lemma dec_not_Nil [simp]: "dec n \<noteq> []"
  by (subst dec.simps) simp

lemma dec_digits: "list_all is_digit (dec n)"
  by (induction n rule: dec.induct) (subst dec.simps, auto simp: is_digit_byte)

lemma dec_hd: "0 < n \<Longrightarrow> 49 \<le> hd (dec n)"
proof (induction n rule: dec.induct)
  case (1 n)
  show ?case
  proof (cases "n < 10")
    case True
    with 1(2) show ?thesis by (subst dec.simps) (simp add: word_le_nat_alt digit_byte)
  next
    case False
    with 1 show ?thesis by (subst dec.simps) (simp add: hd_append)
  qed
qed

lemma dec_length: "n < 10 ^ k \<Longrightarrow> 0 < k \<Longrightarrow> length (dec n) \<le> k"
proof (induction k arbitrary: n)
  case (Suc k)
  show ?case
  proof (cases "n < 10")
    case True
    then show ?thesis by (subst dec.simps) simp
  next
    case False
    with Suc.prems have "n div 10 < 10 ^ k" "0 < k" by (auto intro!: Nat.gr0I)
    from Suc.IH [OF this] False show ?thesis by (subst dec.simps) simp
  qed
qed simp

lemma length_dec_pad: "n < 10 ^ k \<Longrightarrow> 0 < k \<Longrightarrow> length (dec_pad k n) = k"
  using dec_length [of n k] by (simp add: dec_pad_def)

lemma minus_sign_simps [simp]: "minus_sign False = []" "minus_sign True = [45]"
  by (simp_all add: minus_sign_def)

lemma length_minus_sign: "length (minus_sign s) \<le> 1"
  by (cases s) simp_all


lemma round_mag_bounds:
  assumes "1 \<le> m"
  shows "m / 2 \<le> round_mag m" and "round_mag m \<le> 2 * m"
proof -
  define u where "u = (2 :: rat) powi quantum m"
  have "2 powi (binade m - 52) \<le> (2 :: rat) powi binade m" "2 powi binade m \<le> m" "2 powi (- 1074) \<le> (1 :: rat)"
    using binade_le [of m] assms power_int_increasing [of "- 1074" 0 "2 :: rat"]
    by (auto intro: power_int_increasing simp del: power_int_minus_one_minus)
  then have u: "0 < u" "u \<le> m" using assms by (auto simp: u_def quantum_def max_def)
  define r where "r = (of_int (round_even (m / u)) :: rat)"
  have "m / u - 1 / 2 \<le> r" "r \<le> m / u + 1 / 2" using round_even_bound [of "m / u"] by (simp_all add: r_def)
  then have "m - u / 2 \<le> r * u" "r * u \<le> m + u / 2"
    using u mult_right_mono [of "m / u - 1 / 2" r u] mult_right_mono [of r "m / u + 1 / 2" u]
    by (simp_all add: algebra_simps)
  moreover have "round_mag m = r * u" by (simp add: round_mag_def r_def u_def)
  ultimately show "m / 2 \<le> round_mag m" and "round_mag m \<le> 2 * m" using u by linarith+
qed

lemma round_double_bounds:
  assumes "1 \<le> m" and "m \<le> 2 ^ 1000"
  shows "\<exists>r. round_double s m = Fin s r \<and> m / 2 \<le> r \<and> r \<le> 2 * m"
proof -
  have "2 * m \<le> 2 * 2 ^ 1000" using assms(2) by simp
  also have "\<dots> < (2 ^ 1024 :: rat)" by simp
  finally show ?thesis using round_mag_bounds [OF assms(1)] by (auto simp: round_double_def)
qed

end
