(* ===== verification/CJson.thy ===== *)
theory CJson
  imports Machine_Double
begin

text \<open>
  The JSON parser and printer of src/turnserver/new_elbs/cJSON.cc and cJSON.h.
  (src/turnserver/thrift/turnserver holds the same two files.)

  An item is the record of its own fields and the list of the items below it:
  \<open>child\<close> and the chain of \<open>next\<close> pointers.  A text that is parsed is the memory
  the pointer points to, up to the end of its allocation; a pointer into it is
  the rest of the memory from there on, and reading at the end of the memory is
  \<open>Undefined\<close>.  Stored strings (\<open>valuestring\<close>, \<open>string\<close>) are their characters
  before the terminating zero.  Memory is always allocated: the failures of
  \<open>cJSON_malloc\<close> are not modelled, and the printers return the size they
  allocate next to the characters they write, so that the two can be compared.
  The lengths are below the limits of \<open>int\<close>.
\<close>

section \<open>Items\<close>

record cJSON_fields =
  cj_type :: nat
  valuestring :: "byte list option"
  valueint :: int
  valuedouble :: double
  cj_string :: "byte list option"

datatype cJSON = Node (own: cJSON_fields) (child: "cJSON list")

definition cJSON_False :: nat where "cJSON_False = 0"
definition cJSON_True :: nat where "cJSON_True = 1"
definition cJSON_NULL :: nat where "cJSON_NULL = 2"
definition cJSON_Number :: nat where "cJSON_Number = 3"
definition cJSON_String :: nat where "cJSON_String = 4"
definition cJSON_Array :: nat where "cJSON_Array = 5"
definition cJSON_Object :: nat where "cJSON_Object = 6"
definition cJSON_IsReference :: nat where "cJSON_IsReference = 256"

definition cJSON_New_Item :: cJSON_fields where
  "cJSON_New_Item =
     \<lparr>cj_type = 0, valuestring = None, valueint = 0, valuedouble = Fin False 0, cj_string = None\<rparr>"

text \<open>A string is read up to its first zero.\<close>

definition c_str :: "byte list \<Rightarrow> byte list" where
  "c_str s = takeWhile (\<lambda>c. c \<noteq> 0) s"

section \<open>Parsing\<close>

text \<open>
  \<open>Failed ep\<close> is a null result with the error pointer at \<open>ep\<close>; \<open>Exhausted\<close> says that
  the fuel of the recursion was not enough.
\<close>

datatype 'a outcome = Undefined | Exhausted | Failed "byte list" | Parsed 'a "byte list"

fun and_then :: "'a outcome \<Rightarrow> ('a \<Rightarrow> byte list \<Rightarrow> 'b outcome) \<Rightarrow> 'b outcome" where
  "and_then (Parsed x r) f = f x r"
| "and_then (Failed e) f = Failed e"
| "and_then Exhausted f = Exhausted"
| "and_then Undefined f = Undefined"

fun skip_ws :: "byte list \<Rightarrow> byte list option" where
  "skip_ws [] = None"
| "skip_ws (c # s) = (if c \<noteq> 0 \<and> c \<le> 32 then skip_ws s else Some (c # s))"

definition skipping :: "byte list \<Rightarrow> (byte list \<Rightarrow> 'a outcome) \<Rightarrow> 'a outcome" where
  "skipping s f = (case skip_ws s of None \<Rightarrow> Undefined | Some s' \<Rightarrow> f s')"

text \<open>\<open>!strncmp(s, lit, strlen(lit))\<close> for a literal.\<close>

fun starts :: "byte list \<Rightarrow> byte list \<Rightarrow> bool option" where
  "starts [] s = Some True"
| "starts (c # lit) [] = None"
| "starts (c # lit) (d # s) = (if c = d then starts lit s else Some False)"

subsection \<open>Numbers\<close>

text \<open>The loops over the digits before and after the point; the middle result counts them.\<close>

fun scan_digits :: "double \<Rightarrow> byte list \<Rightarrow> (double \<times> nat \<times> byte list) option" where
  "scan_digits n [] = None"
| "scan_digits n (c # s) =
     (if is_digit c
      then map_option (\<lambda>(n, k, r). (n, Suc k, r))
             (scan_digits (double_add (double_mul n (double_of_int 10)) (double_of_int (uint c - 48))) s)
      else Some (n, 0, c # s))"

text \<open>The exponent is an \<open>int\<close>; there is no result when it overflows.\<close>

fun scan_exponent :: "int \<Rightarrow> byte list \<Rightarrow> (int \<times> byte list) option" where
  "scan_exponent n [] = None"
| "scan_exponent n (c # s) =
     (if is_digit c
      then if n * 10 + (uint c - 48) \<le> INT_MAX then scan_exponent (n * 10 + (uint c - 48)) s else None
      else Some (n, c # s))"

text \<open>\<open>if (*num == c) num++\<close>\<close>

definition accept :: "byte \<Rightarrow> byte list \<Rightarrow> (bool \<times> byte list) option" where
  "accept c s = (case s of [] \<Rightarrow> None | d # r \<Rightarrow> Some (if d = c then (True, r) else (False, s)))"

definition integer_part :: "byte list \<Rightarrow> (double \<times> byte list) option" where
  "integer_part s =
     (case s of [] \<Rightarrow> None
      | c # r \<Rightarrow> if 49 \<le> c \<and> c \<le> 57
                then map_option (\<lambda>(n, k, r). (n, r)) (scan_digits (Fin False 0) s)
                else Some (Fin False 0, s))"

definition fraction_part :: "double \<Rightarrow> byte list \<Rightarrow> (double \<times> nat \<times> byte list) option" where
  "fraction_part n s =
     (case s of [] \<Rightarrow> None
      | c # r \<Rightarrow> if c = 46
                then case r of [] \<Rightarrow> None | d # _ \<Rightarrow> if is_digit d then scan_digits n r else Some (n, 0, s)
                else Some (n, 0, s))"

definition exponent_part :: "byte list \<Rightarrow> (int \<times> byte list) option" where
  "exponent_part s =
     (case s of [] \<Rightarrow> None
      | c # r \<Rightarrow> if c = 101 \<or> c = 69
                then do { (plus, r) \<leftarrow> accept 43 r;
                          (minus, r) \<leftarrow> (if plus then Some (False, r) else accept 45 r);
                          (subscale, r) \<leftarrow> scan_exponent 0 r;
                          Some (if minus then - subscale else subscale, r) }
                else Some (0, s))"

text \<open>
  \<open>pow10\<close> is the library function \<open>pow\<close> with first argument \<open>10.0\<close>.  The C standard leaves its
  accuracy to the implementation; it requires that the result is 1 when the exponent is 0.
\<close>

definition pow_spec :: "(double \<Rightarrow> double) \<Rightarrow> bool" where
  "pow_spec pow10 \<longleftrightarrow> pow10 (Fin False 0) = Fin False 1"

definition parse_number :: "(double \<Rightarrow> double) \<Rightarrow> cJSON_fields \<Rightarrow> byte list \<Rightarrow> cJSON_fields outcome" where
  "parse_number pow10 item num =
     (case do { (minus, s) \<leftarrow> accept 45 num;
                (_, s) \<leftarrow> accept 48 s;
                (n, s) \<leftarrow> integer_part s;
                (n, k, s) \<leftarrow> fraction_part n s;
                (e, s) \<leftarrow> exponent_part s;
                let scale = double_add (double_of_int (- int k)) (double_of_int e);
                Some (double_mul (double_mul (double_of_int (if minus then -1 else 1)) n) (pow10 scale), s) }
      of None \<Rightarrow> Undefined
      | Some (n, s) \<Rightarrow>
          Parsed (item\<lparr>valuedouble := n, valueint := int_of_double n, cj_type := cJSON_Number\<rparr>) s)"

subsection \<open>Strings\<close>

definition hex_digit :: "byte \<Rightarrow> u32 option" where
  "hex_digit c =
     (if 48 \<le> c \<and> c \<le> 57 then Some (ucast c - 48)
      else if 65 \<le> c \<and> c \<le> 70 then Some (10 + ucast c - 65)
      else if 97 \<le> c \<and> c \<le> 102 then Some (10 + ucast c - 97)
      else None)"

fun hex_loop :: "nat \<Rightarrow> u32 \<Rightarrow> byte list \<Rightarrow> u32 option" where
  "hex_loop 0 h s = Some h"
| "hex_loop (Suc k) h [] = None"
| "hex_loop (Suc k) h (c # s) =
     (case hex_digit c of None \<Rightarrow> Some 0 | Some d \<Rightarrow> hex_loop k (push_bit 4 h + d) s)"

definition parse_hex4 :: "byte list \<Rightarrow> u32 option" where
  "parse_hex4 str = hex_loop 4 0 str"

definition firstByteMark :: "u32 list" where
  "firstByteMark = [0x00, 0x00, 0xC0, 0xE0, 0xF0, 0xF8, 0xFC]"

text \<open>The \<open>switch (len)\<close> writes the bytes from the last to the first.\<close>

fun utf8_bytes :: "nat \<Rightarrow> u32 \<Rightarrow> u32 \<Rightarrow> byte list" where
  "utf8_bytes 0 mark uc = []"
| "utf8_bytes (Suc 0) mark uc = [ucast (uc OR mark)]"
| "utf8_bytes (Suc (Suc k)) mark uc =
     utf8_bytes (Suc k) mark (drop_bit 6 uc) @ [ucast ((uc OR 0x80) AND 0xBF)]"

definition utf8 :: "u32 \<Rightarrow> byte list" where
  "utf8 uc =
     (let len = (if uc < 0x80 then 1 else if uc < 0x800 then 2 else if uc < 0x10000 then 3 else 4)
      in utf8_bytes len (firstByteMark ! len) uc)"

text \<open>
  The \<open>switch (*ptr)\<close> on the character after a backslash, with the \<open>ptr++\<close> that follows
  it: what is written and where \<open>ptr\<close> is then.
\<close>

definition unescape_u :: "byte list \<Rightarrow> (byte list \<times> byte list) option" where
  "unescape_u r =
     do { uc \<leftarrow> parse_hex4 r;
          if (0xDC00 \<le> uc \<and> uc \<le> 0xDFFF) \<or> uc = 0 then Some ([], drop 4 r)
          else if 0xD800 \<le> uc \<and> uc \<le> 0xDBFF
          then do { pair \<leftarrow> starts [92, 117] (drop 4 r);
                    if \<not> pair then Some ([], drop 4 r)
                    else do { uc2 \<leftarrow> parse_hex4 (drop 6 r);
                              if uc2 < 0xDC00 \<or> 0xDFFF < uc2 then Some ([], drop 10 r)
                              else Some (utf8 (0x10000 + (push_bit 10 (uc AND 0x3FF) OR (uc2 AND 0x3FF))), drop 10 r) } }
          else Some (utf8 uc, drop 4 r) }"

fun unescape :: "byte list \<Rightarrow> (byte list \<times> byte list) option" where
  "unescape [] = None"
| "unescape (c # r) =
     (if c = 98 then Some ([8], r)
      else if c = 102 then Some ([12], r)
      else if c = 110 then Some ([10], r)
      else if c = 114 then Some ([13], r)
      else if c = 116 then Some ([9], r)
      else if c = 117 then unescape_u r
      else Some ([c], r))"

text \<open>The first loop counts, the second copies into the \<open>len + 1\<close> characters allocated.\<close>

fun string_length :: "byte list \<Rightarrow> nat option" where
  "string_length [] = None"
| "string_length (c # s) =
     (if c = 34 \<or> c = 0 then Some 0
      else if c = 92 then case s of [] \<Rightarrow> None | _ # s' \<Rightarrow> map_option Suc (string_length s')
      else map_option Suc (string_length s))"

lemma unescape_shorter: "unescape s = Some (e, r) \<Longrightarrow> length r < length s"
  by (cases s) (auto simp: unescape_u_def split: if_splits option.splits bind_splits)

function copy_string :: "nat \<Rightarrow> byte list \<Rightarrow> (byte list \<times> byte list) option" where
  "copy_string room [] = None"
| "copy_string room (c # s) =
     (if c = 34 \<or> c = 0 then if 1 \<le> room then Some ([], c # s) else None
      else if c \<noteq> 92
      then if 1 \<le> room then map_option (\<lambda>(out, r). (c # out, r)) (copy_string (room - 1) s) else None
      else case unescape s of None \<Rightarrow> None
           | Some (e, r) \<Rightarrow>
               if length e \<le> room then map_option (\<lambda>(out, r). (e @ out, r)) (copy_string (room - length e) r)
               else None)"
  by pat_completeness auto

termination copy_string
  by (relation "measure (\<lambda>(room, s). length s)") (auto dest: unescape_shorter)

definition parse_string :: "cJSON_fields \<Rightarrow> byte list \<Rightarrow> cJSON_fields outcome" where
  "parse_string item str =
     (case str of [] \<Rightarrow> Undefined
      | c # s \<Rightarrow>
          if c \<noteq> 34 then Failed str
          else case do { len \<leftarrow> string_length s; copy_string (len + 1) s } of None \<Rightarrow> Undefined
               | Some (out, r) \<Rightarrow>
                   Parsed (item\<lparr>valuestring := Some (c_str out), cj_type := cJSON_String\<rparr>)
                     (if r \<noteq> [] \<and> hd r = 34 then tl r else r))"

subsection \<open>Values, arrays and objects\<close>

text \<open>
  The functions for arrays and objects take the function for the values below
  them; \<open>parse_member\<close> is the code that \<open>parse_object\<close> has twice: a name, a colon
  and a value, then white space.  The numbers bound the depth of the recursion and
  the turns of the two loops.
\<close>

fun parse_elements ::
  "(cJSON_fields \<Rightarrow> byte list \<Rightarrow> cJSON outcome) \<Rightarrow> nat \<Rightarrow> cJSON list \<Rightarrow> byte list \<Rightarrow> cJSON list outcome" where
  "parse_elements pv 0 xs value = Exhausted"
| "parse_elements pv (Suc k) xs value =
     (case value of [] \<Rightarrow> Undefined
      | c # s \<Rightarrow>
          if c = 44
          then and_then (skipping s (pv cJSON_New_Item)) (\<lambda>x r. skipping r (parse_elements pv k (xs @ [x])))
          else if c = 93 then Parsed xs s
          else Failed value)"

definition parse_array ::
  "(cJSON_fields \<Rightarrow> byte list \<Rightarrow> cJSON outcome) \<Rightarrow> nat \<Rightarrow> cJSON_fields \<Rightarrow> byte list \<Rightarrow> cJSON outcome" where
  "parse_array pv k item value =
     (case value of [] \<Rightarrow> Undefined
      | c # s \<Rightarrow>
          if c \<noteq> 91 then Failed value
          else skipping s (\<lambda>v.
            case v of [] \<Rightarrow> Undefined
            | c # r \<Rightarrow>
                if c = 93 then Parsed (Node (item\<lparr>cj_type := cJSON_Array\<rparr>) []) r
                else and_then (skipping v (pv cJSON_New_Item)) (\<lambda>x r.
                     and_then (skipping r (parse_elements pv k [x])) (\<lambda>xs r.
                     Parsed (Node (item\<lparr>cj_type := cJSON_Array\<rparr>) xs) r))))"

definition parse_member ::
  "(cJSON_fields \<Rightarrow> byte list \<Rightarrow> cJSON outcome) \<Rightarrow> byte list \<Rightarrow> cJSON outcome" where
  "parse_member pv value =
     and_then (parse_string cJSON_New_Item value) (\<lambda>f r.
     skipping r (\<lambda>v.
       case v of [] \<Rightarrow> Undefined
       | c # s \<Rightarrow>
           if c \<noteq> 58 then Failed v
           else and_then (skipping s (pv (f\<lparr>cj_string := valuestring f, valuestring := None\<rparr>))) (\<lambda>x r.
                skipping r (\<lambda>v. Parsed x v))))"

fun parse_members ::
  "(cJSON_fields \<Rightarrow> byte list \<Rightarrow> cJSON outcome) \<Rightarrow> nat \<Rightarrow> cJSON list \<Rightarrow> byte list \<Rightarrow> cJSON list outcome" where
  "parse_members pv 0 xs value = Exhausted"
| "parse_members pv (Suc k) xs value =
     (case value of [] \<Rightarrow> Undefined
      | c # s \<Rightarrow>
          if c = 44 then and_then (skipping s (parse_member pv)) (\<lambda>x r. parse_members pv k (xs @ [x]) r)
          else if c = 125 then Parsed xs s
          else Failed value)"

definition parse_object ::
  "(cJSON_fields \<Rightarrow> byte list \<Rightarrow> cJSON outcome) \<Rightarrow> nat \<Rightarrow> cJSON_fields \<Rightarrow> byte list \<Rightarrow> cJSON outcome" where
  "parse_object pv k item value =
     (case value of [] \<Rightarrow> Undefined
      | c # s \<Rightarrow>
          if c \<noteq> 123 then Failed value
          else skipping s (\<lambda>v.
            case v of [] \<Rightarrow> Undefined
            | c # r \<Rightarrow>
                if c = 125 then Parsed (Node (item\<lparr>cj_type := cJSON_Object\<rparr>) []) r
                else and_then (skipping v (parse_member pv)) (\<lambda>x r.
                     and_then (parse_members pv k [x] r) (\<lambda>xs r.
                     Parsed (Node (item\<lparr>cj_type := cJSON_Object\<rparr>) xs) r))))"

definition leaf :: "cJSON_fields outcome \<Rightarrow> cJSON outcome" where
  "leaf o1 = and_then o1 (\<lambda>f r. Parsed (Node f []) r)"

primrec parse_value :: "(double \<Rightarrow> double) \<Rightarrow> nat \<Rightarrow> cJSON_fields \<Rightarrow> byte list \<Rightarrow> cJSON outcome" where
  "parse_value pow10 0 item value = Exhausted"
| "parse_value pow10 (Suc k) item value =
     (case (starts [110, 117, 108, 108] value, starts [102, 97, 108, 115, 101] value, starts [116, 114, 117, 101] value) of
        (None, _, _) \<Rightarrow> Undefined
      | (Some True, _, _) \<Rightarrow> Parsed (Node (item\<lparr>cj_type := cJSON_NULL\<rparr>) []) (drop 4 value)
      | (Some False, None, _) \<Rightarrow> Undefined
      | (Some False, Some True, _) \<Rightarrow> Parsed (Node (item\<lparr>cj_type := cJSON_False\<rparr>) []) (drop 5 value)
      | (Some False, Some False, None) \<Rightarrow> Undefined
      | (Some False, Some False, Some True) \<Rightarrow>
          Parsed (Node (item\<lparr>cj_type := cJSON_True, valueint := 1\<rparr>) []) (drop 4 value)
      | (Some False, Some False, Some False) \<Rightarrow>
          (case value of [] \<Rightarrow> Undefined
           | c # s \<Rightarrow>
               if c = 34 then leaf (parse_string item value)
               else if c = 45 \<or> is_digit c then leaf (parse_number pow10 item value)
               else if c = 91 then parse_array (parse_value pow10 k) k item value
               else if c = 123 then parse_object (parse_value pow10 k) k item value
               else Failed value))"

definition cJSON_ParseWithOpts :: "(double \<Rightarrow> double) \<Rightarrow> bool \<Rightarrow> byte list \<Rightarrow> cJSON outcome" where
  "cJSON_ParseWithOpts pow10 require_null_terminated value =
     and_then (skipping value (parse_value pow10 (length value + 1) cJSON_New_Item)) (\<lambda>c e.
       if require_null_terminated
       then skipping e (\<lambda>e. if e \<noteq> [] \<and> hd e \<noteq> 0 then Failed e else Parsed c e)
       else Parsed c e)"

definition cJSON_Parse :: "(double \<Rightarrow> double) \<Rightarrow> byte list \<Rightarrow> cJSON outcome" where
  "cJSON_Parse pow10 value = cJSON_ParseWithOpts pow10 False value"

section \<open>Printing\<close>

text \<open>A printer returns the size it allocates and the characters it writes before the final zero.\<close>

definition print_number :: "cJSON_fields \<Rightarrow> nat \<times> byte list" where
  "print_number item =
     (let d = valuedouble item
      in if double_le (double_fabs (double_sub (double_of_int (valueint item)) d)) DBL_EPSILON \<and>
            double_le d (double_of_int INT_MAX) \<and> double_le (double_of_int INT_MIN) d
         then (21, sprintf_d (valueint item))
         else (64,
           if double_le (double_fabs (double_sub (double_floor d) d)) DBL_EPSILON \<and>
              double_lt (double_fabs d) (double_of_rat (10 ^ 60))
           then sprintf_f0 d
           else if double_lt (double_fabs d) (double_of_rat (1 / 10 ^ 6)) \<or>
                   double_lt (double_of_rat (10 ^ 9)) (double_fabs d)
           then sprintf_e d
           else sprintf_f d))"

definition hex_char :: "u32 \<Rightarrow> byte" where
  "hex_char d = (if d < 10 then 48 + ucast d else 87 + ucast d)"

fun escape :: "byte list \<Rightarrow> byte list" where
  "escape [] = []"
| "escape (c # s) =
     (if c = 0 then []
      else if 31 < c \<and> c \<noteq> 34 \<and> c \<noteq> 92 then c # escape s
      else if c = 92 then [92, 92] @ escape s
      else if c = 34 then [92, 34] @ escape s
      else if c = 8 then [92, 98] @ escape s
      else if c = 12 then [92, 102] @ escape s
      else if c = 10 then [92, 110] @ escape s
      else if c = 13 then [92, 114] @ escape s
      else if c = 9 then [92, 116] @ escape s
      else [92, 117, 48, 48, hex_char (drop_bit 4 (ucast c)), hex_char (ucast c AND 15)] @ escape s)"

fun escaped_length :: "byte list \<Rightarrow> nat" where
  "escaped_length [] = 0"
| "escaped_length (c # s) =
     (if c = 0 then 0
      else (if c \<in> {34, 92, 8, 12, 10, 13, 9} then 2 else if c < 32 then 6 else 1) + escaped_length s)"

fun print_string_ptr :: "byte list option \<Rightarrow> nat \<times> byte list" where
  "print_string_ptr None = (1, [])"
| "print_string_ptr (Some str) = (escaped_length str + 3, [34] @ escape str @ [34])"

definition print_string :: "cJSON_fields \<Rightarrow> nat \<times> byte list" where
  "print_string item = print_string_ptr (valuestring item)"

text \<open>\<open>cJSON_strdup\<close> of a literal.\<close>

definition strdup :: "byte list \<Rightarrow> nat \<times> byte list" where
  "strdup s = (length s + 1, s)"

text \<open>The loops that compose the output of an array and of an object.\<close>

fun compose_array :: "bool \<Rightarrow> byte list list \<Rightarrow> byte list" where
  "compose_array fmt [] = []"
| "compose_array fmt [e] = e"
| "compose_array fmt (e # es) = e @ [44] @ (if fmt then [32] else []) @ compose_array fmt es"

definition tabs :: "nat \<Rightarrow> byte list" where
  "tabs n = replicate n 9"

fun compose_object :: "bool \<Rightarrow> nat \<Rightarrow> (byte list \<times> byte list) list \<Rightarrow> byte list" where
  "compose_object fmt depth [] = []"
| "compose_object fmt depth ((name, e) # es) =
     (if fmt then tabs depth else []) @ name @ [58] @ (if fmt then [9] else []) @ e @
     (if es = [] then [] else [44]) @ (if fmt then [10] else []) @ compose_object fmt depth es"

definition print_array :: "bool \<Rightarrow> byte list list \<Rightarrow> nat \<times> byte list" where
  "print_array fmt entries =
     (if entries = [] then (3, [91, 93])
      else (5 + (\<Sum>e \<leftarrow> entries. length e + 2 + (if fmt then 1 else 0)), [91] @ compose_array fmt entries @ [93]))"

definition print_object :: "bool \<Rightarrow> nat \<Rightarrow> (byte list \<times> byte list) list \<Rightarrow> nat \<times> byte list" where
  "print_object fmt depth entries =
     (if entries = []
      then (if fmt then depth + 4 else 3, [123] @ (if fmt then [10] @ tabs (depth - 1) else []) @ [125])
      else let depth = depth + 1
           in (7 + (if fmt then depth else 0) +
                 (\<Sum>(name, e) \<leftarrow> entries. length e + length name + 2 + (if fmt then 2 + depth else 0)),
               [123] @ (if fmt then [10] else []) @ compose_object fmt depth entries @
               (if fmt then tabs (depth - 1) else []) @ [125]))"

fun print_value :: "nat \<Rightarrow> bool \<Rightarrow> cJSON \<Rightarrow> (nat \<times> byte list) option"
  and print_entries :: "nat \<Rightarrow> bool \<Rightarrow> cJSON list \<Rightarrow> byte list list option" where
  "print_value depth fmt (Node item cs) =
     (let t = cj_type item mod 256
      in if t = cJSON_NULL then Some (strdup [110, 117, 108, 108])
         else if t = cJSON_False then Some (strdup [102, 97, 108, 115, 101])
         else if t = cJSON_True then Some (strdup [116, 114, 117, 101])
         else if t = cJSON_Number then Some (print_number item)
         else if t = cJSON_String then Some (print_string item)
         else if t = cJSON_Array
         then do { entries \<leftarrow> print_entries (depth + 1) fmt cs; Some (print_array fmt entries) }
         else if t = cJSON_Object
         then do { entries \<leftarrow> print_entries (depth + 1) fmt cs;
                   Some (print_object fmt depth
                     (zip (map (\<lambda>c. snd (print_string_ptr (cj_string (own c)))) cs) entries)) }
         else None)"
| "print_entries depth fmt [] = Some []"
| "print_entries depth fmt (c # cs) =
     do { (n, e) \<leftarrow> print_value depth fmt c; es \<leftarrow> print_entries depth fmt cs; Some (e # es) }"

definition cJSON_Print :: "cJSON \<Rightarrow> byte list option" where
  "cJSON_Print item = map_option snd (print_value 0 True item)"

definition cJSON_PrintUnformatted :: "cJSON \<Rightarrow> byte list option" where
  "cJSON_PrintUnformatted item = map_option snd (print_value 0 False item)"

section \<open>The parser ends\<close>

text \<open>\<open>leaves n o\<close>: the fuel was enough, and at most \<open>n\<close> characters are left.\<close>

fun leaves :: "nat \<Rightarrow> 'a outcome \<Rightarrow> bool" where
  "leaves n Exhausted = False"
| "leaves n (Parsed x r) = (length r \<le> n)"
| "leaves n _ = True"

lemma leaves_and_then:
  assumes "leaves n o1" and "\<And>x r. length r \<le> n \<Longrightarrow> leaves m (f x r)"
  shows "leaves m (and_then o1 f)"
  using assms by (cases o1) simp_all

lemma skip_ws_shorter: "skip_ws s = Some r \<Longrightarrow> length r \<le> length s \<and> r \<noteq> []"
  by (induction s rule: skip_ws.induct) (auto split: if_splits)

lemma leaves_skipping:
  assumes "\<And>r. length r \<le> length s \<Longrightarrow> r \<noteq> [] \<Longrightarrow> leaves n (f r)"
  shows "leaves n (skipping s f)"
  using assms by (auto simp: skipping_def dest: skip_ws_shorter split: option.split)

lemma leaves_mono: "leaves n o1 \<Longrightarrow> n \<le> m \<Longrightarrow> leaves m o1"
  by (cases o1) simp_all

lemma copy_string_shorter: "copy_string room s = Some (out, r) \<Longrightarrow> length r \<le> length s"
proof (induction room s arbitrary: out r rule: copy_string.induct)
  case (2 room c s)
  show ?case
  proof (cases "c = 92")
    case True
    with 2(3) obtain e r1 out1 where u: "unescape s = Some (e, r1)" "length e \<le> room"
      and "copy_string (room - length e) r1 = Some (out1, r)"
      by (auto split: option.splits if_splits)
    with 2(2) [of "(e, r1)" e r1 out1 r] True unescape_shorter [of s e r1] show ?thesis by simp
  next
    case False
    with 2(3) 2(1) show ?thesis by (fastforce split: if_splits)
  qed
qed simp

lemma parse_string_leaves: "leaves (length s - 1) (parse_string item s)"
  by (cases s) (auto simp: parse_string_def split: option.split dest!: bind_eq_Some_conv [THEN iffD1] copy_string_shorter)

lemma scan_digits_shorter: "scan_digits n s = Some (n', k, r) \<Longrightarrow> length r \<le> length s \<and> (is_digit (hd s) \<longrightarrow> length r < length s)"
  by (induction n s arbitrary: n' k r rule: scan_digits.induct) (fastforce split: if_splits)+

lemma scan_exponent_shorter: "scan_exponent n s = Some (n', r) \<Longrightarrow> length r \<le> length s"
  by (induction n s rule: scan_exponent.induct) (auto split: if_splits)

lemma accept_shorter: "accept c s = Some (b, r) \<Longrightarrow> length r \<le> length s \<and> (b \<longrightarrow> length r < length s) \<and> (\<not> b \<longrightarrow> r = s) \<and> b = (hd s = c)"
  by (auto simp: accept_def split: list.splits if_splits)

lemma is_digit_49: "49 \<le> c \<Longrightarrow> c \<le> 57 \<Longrightarrow> is_digit c"
  by (simp add: is_digit_def word_le_nat_alt)

lemma integer_part_shorter:
  "integer_part s = Some (n, r) \<Longrightarrow> length r \<le> length s \<and> (49 \<le> hd s \<and> hd s \<le> 57 \<longrightarrow> length r < length s)"
  by (cases s) (auto simp: integer_part_def split: if_splits dest!: scan_digits_shorter intro: is_digit_49)

lemma fraction_part_shorter: "fraction_part n s = Some (n', k, r) \<Longrightarrow> length r \<le> length s"
  by (auto simp: fraction_part_def split: list.splits if_splits dest!: scan_digits_shorter)

lemma exponent_part_shorter: "exponent_part s = Some (e, r) \<Longrightarrow> length r \<le> length s"
  by (auto simp: exponent_part_def bind_eq_Some_conv split: list.splits if_splits dest!: scan_exponent_shorter accept_shorter)

lemma parse_number_leaves:
  assumes "hd num = 45 \<or> is_digit (hd num)"
  shows "leaves (length num - 1) (parse_number pow10 item num)"
proof (cases "parse_number pow10 item num")
  case (Parsed f r)
  then obtain m s1 z s2 n s3 n' k s4 e where
    a: "accept 45 num = Some (m, s1)" and b: "accept 48 s1 = Some (z, s2)" and c: "integer_part s2 = Some (n, s3)"
    and d: "fraction_part n s3 = Some (n', k, s4)" and x: "exponent_part s4 = Some (e, r)"
    by (auto simp: parse_number_def bind_eq_Some_conv Let_def split: option.splits)
  have "length s3 < length num"
  proof (cases "m \<or> z")
    case True
    then show ?thesis using accept_shorter [OF a] accept_shorter [OF b] integer_part_shorter [OF c] by auto
  next
    case False
    then have "s2 = num" "hd num \<noteq> 45" "hd num \<noteq> 48" using accept_shorter [OF a] accept_shorter [OF b] by auto
    moreover have "48 < hd num \<Longrightarrow> 49 \<le> hd num" by (simp add: word_less_nat_alt word_le_nat_alt)
    ultimately show ?thesis using assms integer_part_shorter [OF c] by (auto simp: is_digit_def order_less_le)
  qed
  with Parsed fraction_part_shorter [OF d] exponent_part_shorter [OF x] show ?thesis by simp
qed (auto simp: parse_number_def split: option.splits)

lemma parse_elements_leaves:
  assumes pv: "\<And>item t. length t < n \<Longrightarrow> leaves (length t - 1) (pv item t)"
  shows "length s \<le> n \<Longrightarrow> length s < k \<Longrightarrow> leaves (length s - 1) (parse_elements pv k xs s)"
proof (induction k arbitrary: s xs)
  case (Suc k)
  show ?case
  proof (cases s)
    case (Cons c t)
    have "leaves (length t) (and_then (skipping t (pv cJSON_New_Item)) (\<lambda>x r. skipping r (parse_elements pv k (xs @ [x]))))"
    proof (rule leaves_and_then [OF leaves_skipping])
      fix r :: "byte list" assume "length r \<le> length t" "r \<noteq> []"
      with Suc.prems Cons have "length r < n" "length r - 1 \<le> length t - 1" by simp_all
      with pv show "leaves (length t - 1) (pv cJSON_New_Item r)" by (blast intro: leaves_mono)
    next
      fix x and r :: "byte list" assume r: "length r \<le> length t - 1"
      show "leaves (length t) (skipping r (parse_elements pv k (xs @ [x])))"
      proof (rule leaves_skipping)
        fix v :: "byte list" assume "length v \<le> length r" "v \<noteq> []"
        with r Suc.prems Cons have "length v \<le> n" "length v < k" "length v - 1 \<le> length t"
          by (auto simp: Suc_le_eq length_greater_0_conv [symmetric] simp del: length_greater_0_conv)
        with Suc.IH show "leaves (length t) (parse_elements pv k (xs @ [x]) v)" by (blast intro: leaves_mono)
      qed
    qed
    with Cons show ?thesis by simp
  qed simp
qed simp

lemma parse_member_leaves:
  assumes "\<And>item t. length t < n \<Longrightarrow> leaves (length t - 1) (pv item t)" and "length s \<le> n" and "s \<noteq> []"
  shows "leaves (length s - 1) (parse_member pv s)"
  unfolding parse_member_def
proof (rule leaves_and_then [OF parse_string_leaves], rule leaves_skipping)
  fix f and r v :: "byte list" assume "length r \<le> length s - 1" "length v \<le> length r" "v \<noteq> []"
  then have v: "length v < length s" using assms(3) by (cases s) auto
  have "leaves (length s - 1) (and_then (skipping (tl v) (pv i)) (\<lambda>x r. skipping r (\<lambda>v. Parsed x v)))" for i
  proof (rule leaves_and_then [OF leaves_skipping, where n = "length s - 1"])
    fix r :: "byte list" assume "length r \<le> length (tl v)"
    then have "length r < n" "length r - 1 \<le> length s - 1" using v assms(2) by auto
    with assms(1) show "leaves (length s - 1) (pv i r)" by (blast intro: leaves_mono)
  qed (auto intro!: leaves_skipping)
  then show "leaves (length s - 1)
        (case v of [] \<Rightarrow> Undefined
         | c # s \<Rightarrow> if c \<noteq> 58 then Failed v
            else and_then (skipping s (pv (f\<lparr>cj_string := valuestring f, valuestring := None\<rparr>)))
              (\<lambda>x r. skipping r (Parsed x)))"
    by (cases v) simp_all
qed

lemma parse_members_leaves:
  assumes pv: "\<And>item t. length t < n \<Longrightarrow> leaves (length t - 1) (pv item t)"
  shows "length s \<le> n \<Longrightarrow> length s < k \<Longrightarrow> leaves (length s - 1) (parse_members pv k xs s)"
proof (induction k arbitrary: s xs)
  case (Suc k)
  show ?case
  proof (cases s)
    case (Cons c t)
    have "leaves (length t) (and_then (skipping t (parse_member pv)) (\<lambda>x r. parse_members pv k (xs @ [x]) r))"
    proof (rule leaves_and_then [OF leaves_skipping])
      fix r :: "byte list" assume "length r \<le> length t" "r \<noteq> []"
      moreover from this Suc.prems Cons have "length r \<le> n" by simp
      ultimately have "leaves (length r - 1) (parse_member pv r)" using parse_member_leaves [of n pv r] pv by blast
      then show "leaves (length t - 1) (parse_member pv r)" using \<open>length r \<le> length t\<close> by (auto intro: leaves_mono)
    next
      fix x and r :: "byte list" assume "length r \<le> length t - 1"
      then have "length r \<le> n" "length r < k" "length r - 1 \<le> length t" using Suc.prems Cons by simp_all
      with Suc.IH show "leaves (length t) (parse_members pv k (xs @ [x]) r)" by (blast intro: leaves_mono)
    qed
    with Cons show ?thesis by simp
  qed simp
qed simp


lemma parse_array_leaves:
  assumes pv: "\<And>item t. length t < n \<Longrightarrow> leaves (length t - 1) (pv item t)" and n: "length s \<le> n" "n \<le> k"
  shows "leaves (length s - 1) (parse_array pv k item s)"
proof (cases s)
  case (Cons c t)
  have "leaves (length t) (case v of [] \<Rightarrow> Undefined
     | c # r \<Rightarrow> if c = 93 then Parsed (Node (item\<lparr>cj_type := cJSON_Array\<rparr>) []) r
        else and_then (skipping v (pv cJSON_New_Item)) (\<lambda>x r. and_then (skipping r (parse_elements pv k [x]))
          (\<lambda>xs. Parsed (Node (item\<lparr>cj_type := cJSON_Array\<rparr>) xs))))"
    if v: "length v \<le> length t" "v \<noteq> []" for v
  proof -
    have "leaves (length t) (and_then (skipping v (pv cJSON_New_Item)) (\<lambda>x r. and_then (skipping r (parse_elements pv k [x]))
          (\<lambda>xs. Parsed (Node (item\<lparr>cj_type := cJSON_Array\<rparr>) xs))))"
    proof (rule leaves_and_then [OF leaves_skipping])
      fix r :: "byte list" assume "length r \<le> length v" "r \<noteq> []"
      with v n Cons have "length r < n" "length r - 1 \<le> length t" by simp_all
      with pv show "leaves (length t) (pv cJSON_New_Item r)" by (blast intro: leaves_mono)
    next
      fix x and r :: "byte list" assume r: "length r \<le> length t"
      show "leaves (length t) (and_then (skipping r (parse_elements pv k [x])) (\<lambda>xs. Parsed (Node (item\<lparr>cj_type := cJSON_Array\<rparr>) xs)))"
      proof (rule leaves_and_then [OF leaves_skipping, where n = "length t"])
        fix w :: "byte list" assume "length w \<le> length r" "w \<noteq> []"
        with r n Cons have "length w \<le> n" "length w < k" "length w - 1 \<le> length t" by simp_all
        then have "leaves (length w - 1) (parse_elements pv k [x] w)" by (intro parse_elements_leaves [OF pv])
        then show "leaves (length t) (parse_elements pv k [x] w)" using \<open>length w - 1 \<le> length t\<close> by (rule leaves_mono)
      qed simp
    qed
    with v show ?thesis by (cases v) simp_all
  qed
  then have "leaves (length t) (skipping t (\<lambda>v. case v of [] \<Rightarrow> Undefined
     | c # r \<Rightarrow> if c = 93 then Parsed (Node (item\<lparr>cj_type := cJSON_Array\<rparr>) []) r
        else and_then (skipping v (pv cJSON_New_Item)) (\<lambda>x r. and_then (skipping r (parse_elements pv k [x]))
          (\<lambda>xs. Parsed (Node (item\<lparr>cj_type := cJSON_Array\<rparr>) xs)))))"
    by (rule leaves_skipping)
  with Cons show ?thesis by (simp add: parse_array_def)
qed (simp add: parse_array_def)

lemma parse_object_leaves:
  assumes pv: "\<And>item t. length t < n \<Longrightarrow> leaves (length t - 1) (pv item t)" and n: "length s \<le> n" "n \<le> k"
  shows "leaves (length s - 1) (parse_object pv k item s)"
proof (cases s)
  case (Cons c t)
  have "leaves (length t) (case v of [] \<Rightarrow> Undefined
     | c # r \<Rightarrow> if c = 125 then Parsed (Node (item\<lparr>cj_type := cJSON_Object\<rparr>) []) r
        else and_then (skipping v (parse_member pv)) (\<lambda>x r. and_then (parse_members pv k [x] r)
          (\<lambda>xs. Parsed (Node (item\<lparr>cj_type := cJSON_Object\<rparr>) xs))))"
    if v: "length v \<le> length t" "v \<noteq> []" for v
  proof -
    have "leaves (length t) (and_then (skipping v (parse_member pv)) (\<lambda>x r. and_then (parse_members pv k [x] r)
          (\<lambda>xs. Parsed (Node (item\<lparr>cj_type := cJSON_Object\<rparr>) xs))))"
    proof (rule leaves_and_then [OF leaves_skipping])
      fix r :: "byte list" assume "length r \<le> length v" "r \<noteq> []"
      with v n Cons have "length r \<le> n" "r \<noteq> []" "length r - 1 \<le> length t" by simp_all
      then show "leaves (length t) (parse_member pv r)" using parse_member_leaves [of n pv r] pv by (blast intro: leaves_mono)
    next
      fix x and r :: "byte list" assume "length r \<le> length t"
      with n Cons have "length r \<le> n" "length r < k" "length r - 1 \<le> length t" by simp_all
      then have "leaves (length r - 1) (parse_members pv k [x] r)" by (intro parse_members_leaves [OF pv])
      then have "leaves (length t) (parse_members pv k [x] r)" using \<open>length r - 1 \<le> length t\<close> by (rule leaves_mono)
      then show "leaves (length t) (and_then (parse_members pv k [x] r) (\<lambda>xs. Parsed (Node (item\<lparr>cj_type := cJSON_Object\<rparr>) xs)))"
        by (rule leaves_and_then) simp
    qed
    with v show ?thesis by (cases v) simp_all
  qed
  then have "leaves (length t) (skipping t (\<lambda>v. case v of [] \<Rightarrow> Undefined
     | c # r \<Rightarrow> if c = 125 then Parsed (Node (item\<lparr>cj_type := cJSON_Object\<rparr>) []) r
        else and_then (skipping v (parse_member pv)) (\<lambda>x r. and_then (parse_members pv k [x] r)
          (\<lambda>xs. Parsed (Node (item\<lparr>cj_type := cJSON_Object\<rparr>) xs)))))"
    by (rule leaves_skipping)
  with Cons show ?thesis by (simp add: parse_object_def)
qed (simp add: parse_object_def)

lemma leaf_leaves: "leaves n o1 \<Longrightarrow> leaves n (leaf o1)"
  unfolding leaf_def by (rule leaves_and_then) auto

lemma parse_value_leaves: "length s < k \<Longrightarrow> leaves (length s - 1) (parse_value pow10 k item s)"
proof (induction k arbitrary: s item)
  case (Suc k)
  have pv: "leaves (length t - 1) (parse_value pow10 k item t)" if "length t < k" for t item
    using Suc.IH that by blast
  have "length s \<le> k" using Suc.prems by simp
  note sub = parse_array_leaves [OF pv this order_refl] parse_object_leaves [OF pv this order_refl]
  show ?case
    using sub leaf_leaves [OF parse_string_leaves, of s item] leaf_leaves [OF parse_number_leaves, of s pow10 item]
    by (auto split: option.split bool.split list.split)
qed simp

end
