(* ===== verification/CJson_Safety.thy ===== *)
theory CJson_Safety
  imports CJson
begin

text \<open>
  The parser ends on every text, and where it stays inside its buffers: a string
  whose \<open>\\u\<close> escapes are complete is copied into the memory allocated for it, and a
  short text with an incomplete one writes past it.  The printers never write
  more than they allocate.
\<close>

section \<open>Termination\<close>

text \<open>C29. The parser ends on every text: the fuel of the model is always enough, and a
  successful parse ends inside the text, behind its first character.\<close>

theorem parse_terminates:
  "case cJSON_ParseWithOpts pow10 require_null_terminated value of
     Exhausted \<Rightarrow> False | Parsed c e \<Rightarrow> length e < length value | _ \<Rightarrow> True"
proof -
  have "leaves (length value - 1) (skipping value (parse_value pow10 (length value + 1) cJSON_New_Item))"
  proof (rule leaves_skipping)
    fix r :: "byte list" assume "length r \<le> length value" "r \<noteq> []"
    then have "leaves (length r - 1) (parse_value pow10 (length value + 1) cJSON_New_Item r)"
      by (intro parse_value_leaves) simp
    with \<open>length r \<le> length value\<close> show "leaves (length value - 1) (parse_value pow10 (length value + 1) cJSON_New_Item r)"
      by (auto intro: leaves_mono)
  qed
  then have "leaves (length value - 1) (cJSON_ParseWithOpts pow10 require_null_terminated value)"
    unfolding cJSON_ParseWithOpts_def by (rule leaves_and_then) (auto intro!: leaves_skipping)
  moreover have "value = [] \<Longrightarrow> cJSON_ParseWithOpts pow10 require_null_terminated value = Undefined"
    by (simp add: cJSON_ParseWithOpts_def skipping_def)
  ultimately show ?thesis by (cases "value = []") (auto simp: length_greater_0_conv [symmetric] simp del: length_greater_0_conv split: outcome.splits)
qed

section \<open>Strings\<close>

definition is_hex :: "byte \<Rightarrow> bool" where
  "is_hex c \<longleftrightarrow> hex_digit c \<noteq> None"

text \<open>The string ends, no backslash stands before a zero, and four hexadecimal digits follow a \<open>\\u\<close>.\<close>

function escapes_ok :: "byte list \<Rightarrow> bool" where
  "escapes_ok [] = False"
| "escapes_ok (c # s) =
     (if c = 34 \<or> c = 0 then True
      else if c = 92
      then (case s of [] \<Rightarrow> False
            | d # r \<Rightarrow> d \<noteq> 0 \<and>
                (if d = 117 then 4 \<le> length r \<and> list_all is_hex (take 4 r) \<and> escapes_ok (drop 4 r) else escapes_ok r))
      else escapes_ok s)"
  by pat_completeness auto

termination escapes_ok
  by (relation "measure length") auto

lemma is_hex_plain: "is_hex c \<Longrightarrow> c \<noteq> 34 \<and> c \<noteq> 0 \<and> c \<noteq> 92"
  by (auto simp: is_hex_def hex_digit_def)

lemma take4: "4 \<le> length r \<Longrightarrow> \<exists>a b c d s. r = [a, b, c, d] @ s"
  by (cases r; cases "tl r"; cases "tl (tl r)"; cases "tl (tl (tl r))") auto

lemma parse_hex4_total: "\<exists>u. parse_hex4 ([a, b, c, d] @ s) = Some u"
  by (auto simp: parse_hex4_def eval_nat_numeral split: option.split)

lemma length_utf8: "length (utf8 uc) \<le> 4"
  by (simp add: utf8_def eval_nat_numeral)

lemma hex_plain_scan:
  assumes "list_all is_hex [a, b, c, d]" and "string_length s = Some n"
  shows "string_length ([a, b, c, d] @ s) = Some (n + 4)"
  using assms is_hex_plain by auto

lemma unescape_u_cases:
  assumes "escapes_ok t"
  obtains e where "unescape_u ([a, b, c, d] @ t) = Some (e, t)" "length e \<le> 4"
    | e a' b' c' d' t' where "t = [92, 117, a', b', c', d'] @ t'" "list_all is_hex [a', b', c', d']" "escapes_ok t'"
        "unescape_u ([a, b, c, d] @ t) = Some (e, t')" "length e \<le> 4"
proof -
  obtain uc where uc: "parse_hex4 ([a, b, c, d] @ t) = Some uc" using parse_hex4_total by blast
  have ne: "t \<noteq> []" using assms by auto
  show ?thesis
  proof (cases "0xD800 \<le> uc \<and> uc \<le> 0xDBFF \<and> starts [92, 117] t = Some True")
    case True
    then obtain r where r: "t = 92 # 117 # r" by (cases t; cases "tl t") (auto split: if_splits)
    then have "4 \<le> length r" "list_all is_hex (take 4 r)" "escapes_ok (drop 4 r)" using assms by simp_all
    then obtain a' b' c' d' t' where t': "r = [a', b', c', d'] @ t'" "list_all is_hex [a', b', c', d']" "escapes_ok t'"
      using take4 [of r] by auto
    obtain uc2 where uc2: "parse_hex4 ([a', b', c', d'] @ t') = Some uc2" using parse_hex4_total by blast
    have nz: "\<not> ((0xDC00 \<le> uc \<and> uc \<le> 0xDFFF) \<or> uc = 0)" using True by (auto simp: word_le_nat_alt)
    have "unescape_u ([a, b, c, d] @ t) = Some (if uc2 < 0xDC00 \<or> 0xDFFF < uc2 then []
        else utf8 (0x10000 + (push_bit 10 (uc AND 0x3FF) OR (uc2 AND 0x3FF))), t')"
      using uc uc2 True nz unfolding unescape_u_def r t' by simp
    then show ?thesis using that(2) [of a' b' c' d' t'] r t' length_utf8 by (simp split: if_splits)
  next
    case False
    have "starts [92, 117] t \<noteq> None" using assms by (cases t; cases "tl t") auto
    with False uc have "unescape_u ([a, b, c, d] @ t) \<in> {Some ([], t), Some (utf8 uc, t)}"
      unfolding unescape_u_def by auto
    then show ?thesis using that(1) length_utf8 [of uc] by fastforce
  qed
qed

lemma parse_hex4_bad: "hex_digit c = None \<Longrightarrow> parse_hex4 (c # s) = Some 0"
  by (simp add: parse_hex4_def eval_nat_numeral)

lemma copy_escape:
  assumes "unescape s = Some (e, r)" and "length e \<le> m"
    and "\<And>room. n < room \<Longrightarrow> \<exists>out r'. copy_string room r = Some (out, r') \<and> length out \<le> n" and "n + m < room"
  shows "\<exists>out r'. copy_string room (92 # s) = Some (out, r') \<and> length out \<le> n + m"
proof -
  have "n < room - length e" using assms(2,4) by simp
  from assms(3) [OF this] obtain out r' where "copy_string (room - length e) r = Some (out, r')" "length out \<le> n" by blast
  with assms(1,2,4) show ?thesis by (intro exI [of _ "e @ out"] exI [of _ r']) simp
qed

lemma string_length_less: "string_length s = Some n \<Longrightarrow> n < length s"
  by (induction s arbitrary: n rule: string_length.induct) (fastforce split: if_splits list.splits)+

text \<open>The room the first loop computes is enough for the second.\<close>

lemma copy_fits:
  "escapes_ok s \<Longrightarrow> \<exists>n. string_length s = Some n \<and> (\<forall>room > n. \<exists>out r. copy_string room s = Some (out, r) \<and> length out \<le> n)"
proof (induction "length s" arbitrary: s rule: less_induct)
  case less
  then obtain c s' where s: "s = c # s'" by (cases s) auto
  consider "c = 34 \<or> c = 0" | "c \<notin> {34, 0, 92}" | "c = 92" by blast
  then show ?case
  proof cases
    case 1
    with s show ?thesis by auto
  next
    case 2
    with less.prems s less.hyps [of s'] obtain n where n: "string_length s' = Some n"
      "\<And>room. n < room \<Longrightarrow> \<exists>out r. copy_string room s' = Some (out, r) \<and> length out \<le> n" by auto
    have "\<exists>out r. copy_string room s = Some (out, r) \<and> length out \<le> Suc n" if "Suc n < room" for room
    proof -
      have "n < room - 1" using that by simp
      from n(2) [OF this] obtain out r where "copy_string (room - 1) s' = Some (out, r)" "length out \<le> n" by blast
      with that 2 s show ?thesis by (intro exI [of _ "c # out"] exI [of _ r]) simp
    qed
    with n(1) 2 s show ?thesis by auto
  next
    case 3
    then obtain d r where r: "s' = d # r" "d \<noteq> 0" using less.prems s by (auto split: list.splits)
    show ?thesis
    proof (cases "d = 117")
      case False
      with less.prems s 3 r have "escapes_ok r" by simp
      with less.hyps [of r] s r obtain n where n: "string_length r = Some n"
        "\<And>room. n < room \<Longrightarrow> \<exists>out r'. copy_string room r = Some (out, r') \<and> length out \<le> n" by auto
      have "\<exists>b. unescape (d # r) = Some ([b], r)" using False by simp
      then obtain b where b: "unescape (d # r) = Some ([b], r)" by blast
      have "\<exists>out r'. copy_string room s = Some (out, r') \<and> length out \<le> Suc n" if "Suc n < room" for room
        using copy_escape [OF b, of 1 n room] n(2) that by (simp add: s r 3 del: copy_string.simps unescape.simps)
      with n(1) show ?thesis by (auto simp: s r 3)
    next
      case True
      with less.prems s 3 r have "4 \<le> length r" "list_all is_hex (take 4 r)" "escapes_ok (drop 4 r)" by simp_all
      then obtain a b c d t where t: "r = [a, b, c, d] @ t" "list_all is_hex [a, b, c, d]" "escapes_ok t"
        using take4 [of r] by auto
      have u: "unescape (117 # r) = unescape_u ([a, b, c, d] @ t)" using t(1) by simp
      from t(3) show ?thesis
      proof (cases rule: unescape_u_cases [of t a b c d])
        case (1 e)
        from less.hyps [of t] t s r obtain n where n: "string_length t = Some n"
          "\<And>room. n < room \<Longrightarrow> \<exists>out r'. copy_string room t = Some (out, r') \<and> length out \<le> n" by auto
        have "\<exists>out r'. copy_string room s = Some (out, r') \<and> length out \<le> n + 5" if "n + 5 < room" for room
          using copy_escape [of "117 # r" e t 5 n room] n(2) that 1 u by (simp add: s r 3 True del: copy_string.simps unescape.simps)
        moreover have "string_length s = Some (n + 5)"
          using hex_plain_scan [OF t(2) n(1)] unfolding s r 3 True t(1) by simp
        ultimately show ?thesis by blast
      next
        case (2 e a' b' c' d' t')
        from less.hyps [of t'] t s r 2 obtain n where n: "string_length t' = Some n"
          "\<And>room. n < room \<Longrightarrow> \<exists>out r'. copy_string room t' = Some (out, r') \<and> length out \<le> n" by auto
        have "\<exists>out r'. copy_string room s = Some (out, r') \<and> length out \<le> n + 10" if "n + 10 < room" for room
          using copy_escape [of "117 # r" e t' 10 n room] n(2) that 2(4,5) u by (simp add: s r 3 True del: copy_string.simps unescape.simps)
        moreover have "string_length t = Some (n + 5)"
          using hex_plain_scan [OF 2(2) n(1)] unfolding 2(1) by simp
        then have "string_length s = Some (n + 10)"
          using hex_plain_scan [OF t(2)] unfolding s r 3 True t(1) by simp
        ultimately show ?thesis by blast
      qed
    qed
  qed
qed



text \<open>C40. A string literal that ends in an incomplete \<open>\\u\<close> escape: the copying loop skips the
  closing quote and what follows, and writes what comes then behind the two characters allocated.\<close>

theorem incomplete_escape_overflow:
  assumes "2 \<le> length a" and "list_all (\<lambda>c. c \<notin> {0, 34, 92}) a" and "c \<in> {0, 34}"
  shows "string_length ([92, 117, 34, p, q, w] @ a @ c # rest) = Some 1 \<and>
    parse_string item (34 # [92, 117, 34, p, q, w] @ a @ c # rest) = Undefined"
proof -
  have l: "string_length ([92, 117, 34, p, q, w] @ a @ c # rest) = Some 1" by simp
  have u: "unescape (117 # 34 # p # q # w # a @ c # rest) = Some ([], a @ c # rest)"
    using parse_hex4_bad [of 34] by (simp add: unescape_u_def hex_digit_def)
  obtain x y a' where a: "a = x # y # a'" using assms(1) by (cases a; cases "tl a") auto
  have "copy_string 0 (a' @ c # rest) = None" using assms(2,3) by (cases a') (auto simp: a)
  with assms(2) have "copy_string (Suc (Suc 0)) (a @ c # rest) = None" by (simp add: a)
  with u have "copy_string (Suc (Suc 0)) ([92, 117, 34, p, q, w] @ a @ c # rest) = None" by (simp del: unescape.simps)
  with l show ?thesis by (simp add: parse_string_def del: copy_string.simps unescape.simps)
qed

theorem incomplete_escape_overflow_witness:
  "parse_string cJSON_New_Item (34 # [92, 117, 34, 44, 32, 34] @ [65, 65, 65] @ 34 # [0]) = Undefined"
  by (rule incomplete_escape_overflow [THEN conjunct2]) simp_all

section \<open>The buffers of the printers\<close>

definition double_ok :: "double \<Rightarrow> bool" where
  "double_ok d \<longleftrightarrow> (case d of Fin s m \<Rightarrow> 0 \<le> m \<and> m < 2 ^ 1024 \<and> (m = 0 \<or> 1 / 2 ^ 1074 \<le> m) | _ \<Rightarrow> True)"

definition fields_ok :: "cJSON_fields \<Rightarrow> bool" where
  "fields_ok f \<longleftrightarrow> INT_MIN \<le> valueint f \<and> valueint f \<le> INT_MAX \<and> double_ok (valuedouble f)"

fun item_ok :: "cJSON \<Rightarrow> bool" where
  "item_ok (Node f cs) \<longleftrightarrow> fields_ok f \<and> list_all item_ok cs"

lemma dec_bounds:
  shows "n < 10 ^ length (dec n)" and "0 < n \<Longrightarrow> 10 ^ (length (dec n) - 1) \<le> n"
proof -
  show "n < 10 ^ length (dec n)"
  proof (induction n rule: dec.induct)
    case (1 n)
    show ?case
    proof (cases "n < 10")
      case True
      then show ?thesis by (subst dec.simps) simp
    next
      case False
      with 1 have "n div 10 < 10 ^ length (dec (n div 10))" by simp
      then have "n < 10 * 10 ^ length (dec (n div 10))" by simp
      with False show ?thesis by (subst dec.simps) simp
    qed
  qed
  show "0 < n \<Longrightarrow> 10 ^ (length (dec n) - 1) \<le> n"
  proof (induction n rule: dec.induct)
    case (1 n)
    show ?case
    proof (cases "n < 10")
      case True
      with 1 show ?thesis by (subst dec.simps) simp
    next
      case False
      with 1 have "10 ^ (length (dec (n div 10)) - 1) \<le> n div 10" by simp
      moreover obtain k where "length (dec (n div 10)) = Suc k" using dec_not_Nil [of "n div 10"] by (cases "dec (n div 10)") auto
      ultimately have "10 ^ length (dec (n div 10)) \<le> n" by simp
      with False show ?thesis by (subst dec.simps) simp
    qed
  qed
qed

lemma decade_upper:
  assumes "0 < m"
  shows "m < 10 powi (decade m + 1)"
proof (cases "1 \<le> m")
  case True
  define n where "n = nat \<lfloor>m\<rfloor>"
  have "\<lfloor>m\<rfloor> < int (10 ^ length (dec n))" using dec_bounds(1) [of n] True by (simp add: n_def)
  then have "m < of_int (int (10 ^ length (dec n)))" by (simp only: floor_less_iff)
  moreover have "decade m + 1 = int (length (dec n))" using True by (simp add: decade_def n_def)
  ultimately show ?thesis by (simp only: power_int_of_nat) simp
next
  case False
  define n where "n = nat (\<lceil>1 / m\<rceil> - 1)"
  have "1 < 1 / m" using False assms by simp
  then have "1 < \<lceil>1 / m\<rceil>" by (simp only: less_ceiling_iff of_int_1)
  then have n: "0 < n" "int n = \<lceil>1 / m\<rceil> - 1" unfolding n_def by linarith+
  have "10 ^ (length (dec n) - 1) \<le> n" using dec_bounds(2) [OF n(1)] .
  then have "(10 :: rat) ^ (length (dec n) - 1) \<le> of_nat n" by (metis of_nat_le_iff of_nat_numeral of_nat_power)
  also have "(of_nat n :: rat) = of_int (\<lceil>1 / m\<rceil> - 1)" using n(2) by (metis of_int_of_nat_eq)
  also have "\<dots> < 1 / m" using ceiling_correct [of "1 / m"] by simp
  finally have "m < 1 / 10 ^ (length (dec n) - 1)" using assms by (simp add: field_simps)
  moreover have "decade m + 1 = - int (length (dec n) - 1)"
    using False assms dec_not_Nil [of n] by (cases "dec n") (simp_all add: decade_def n_def)
  ultimately show ?thesis by (simp only: power_int_minus power_int_of_nat) (simp add: field_simps)
qed

lemma two_pow_bounds: "(2 ^ 1024 :: rat) < 10 ^ 309" "(2 ^ 1074 :: rat) < 10 ^ 324"
  by simp_all

lemma decade_small:
  assumes "double_ok (Fin s m)"
  shows "\<bar>decade m\<bar> < 1000"
proof (cases "1 \<le> m")
  case True
  have "m < of_int (int (10 ^ 309))" using assms two_pow_bounds(1) by (simp add: double_ok_def)
  then have "\<lfloor>m\<rfloor> < int (10 ^ 309)" by (simp only: floor_less_iff)
  then have "nat \<lfloor>m\<rfloor> < 10 ^ 309" using True by (simp only: nat_less_iff zero_le_floor)
  then have "length (dec (nat \<lfloor>m\<rfloor>)) \<le> 309" by (rule dec_length) simp
  with True show ?thesis by (simp add: decade_def)
next
  case False
  show ?thesis
  proof (cases "m = 0")
    case True
    then show ?thesis by (simp add: decade_def)
  next
    case nz: False
    then have m: "0 < m" "1 / 2 ^ 1074 \<le> m" using assms by (auto simp: double_ok_def)
    then have "1 / m \<le> 2 ^ 1074" by (simp add: field_simps)
    also have "\<dots> < of_int (int (10 ^ 324))" using two_pow_bounds(2) by simp
    finally have "\<lceil>1 / m\<rceil> - 1 < int (10 ^ 324)" by linarith
    moreover have "1 < 1 / m" using False m by simp
    then have "1 < \<lceil>1 / m\<rceil>" by (simp only: less_ceiling_iff of_int_1)
    ultimately have "nat (\<lceil>1 / m\<rceil> - 1) < 10 ^ 324" by (simp only: nat_less_iff) 
    then have "length (dec (nat (\<lceil>1 / m\<rceil> - 1))) \<le> 324" by (rule dec_length) simp
    with False nz show ?thesis by (simp add: decade_def)
  qed
qed


lemma length_sprintf_d: "INT_MIN \<le> i \<Longrightarrow> i \<le> INT_MAX \<Longrightarrow> length (sprintf_d i) \<le> 11"
proof -
  assume "INT_MIN \<le> i" "i \<le> INT_MAX"
  then have "nat \<bar>i\<bar> < 10 ^ 10" by (simp add: INT_MIN_def INT_MAX_def)
  then have "length (dec (nat \<bar>i\<bar>)) \<le> 10" by (rule dec_length) simp
  then show ?thesis using length_minus_sign [of "i < 0"] by (simp add: sprintf_d_def)
qed

lemma length_special: "length (special d) \<le> 4"
  using length_minus_sign by (cases d) (simp_all add: minus_sign_def)

lemma round_even_less:
  assumes "x < of_nat n"
  shows "nat (round_even x) \<le> n"
proof -
  have "(of_int (round_even x) :: rat) \<le> x + 1 / 2" by (rule round_even_bound(2))
  also have "\<dots> < of_int (int n + 1)" using assms by simp
  finally have "round_even x < int n + 1" by (simp only: of_int_less_iff)
  then show ?thesis by simp
qed

lemma length_sprintf_f0:
  assumes "double_lt (double_fabs d) (double_of_rat (10 ^ 60))"
  shows "length (sprintf_f0 d) \<le> 63"
proof (cases d)
  case (Fin s m)
  obtain r where r: "double_of_rat (10 ^ 60) = Fin False r" "r \<le> 2 * 10 ^ 60"
    using round_double_bounds [of "10 ^ 60" False] by (auto simp: double_of_rat_def)
  then have "m < of_nat (2 * 10 ^ 60)" using assms by (simp add: Fin double_lt_def)
  then have "nat (round_even m) \<le> 2 * 10 ^ 60" by (rule round_even_less)
  then have "nat (round_even m) < 10 ^ 61" by (rule le_less_trans) simp
  then have "length (dec (nat (round_even m))) \<le> 61" by (rule dec_length) simp
  with length_minus_sign [of s] show ?thesis by (simp add: Fin sprintf_f0_def)
qed (use length_special [of d] in \<open>simp_all add: sprintf_f0_def\<close>)

lemma length_sprintf_f:
  assumes "\<not> double_lt (double_of_rat (10 ^ 9)) (double_fabs d)"
  shows "length (sprintf_f d) \<le> 63"
proof (cases d)
  case (Fin s m)
  have "double_of_rat (10 ^ 9) = double_of_int (10 ^ 9)" by (simp add: double_of_int_def)
  also have "\<dots> = Fin False (10 ^ 9)" by (simp add: double_of_int_exact exact_int_def)
  finally have "m \<le> 10 ^ 9" using assms by (auto simp: Fin double_lt_def)
  then have "m * 10 ^ 6 < of_nat (10 ^ 15 + 1)" by simp
  then have "nat (round_even (m * 10 ^ 6)) \<le> 10 ^ 15 + 1" by (rule round_even_less)
  then have "nat (round_even (m * 10 ^ 6)) div 10 ^ 6 < 10 ^ 10" by simp
  then have "length (dec (nat (round_even (m * 10 ^ 6)) div 10 ^ 6)) \<le> 10" by (rule dec_length) simp
  moreover have "length (dec_pad 6 (nat (round_even (m * 10 ^ 6)) mod 10 ^ 6)) = 6" by (rule length_dec_pad) simp_all
  ultimately show ?thesis using length_minus_sign [of s] by (simp add: Fin sprintf_f_def Let_def)
qed (use length_special [of d] in \<open>simp_all add: sprintf_f_def\<close>)

lemma length_sprintf_e:
  assumes "double_ok d"
  shows "length (sprintf_e d) \<le> 63"
proof (cases d)
  case (Fin s m)
  define x n where "x = decade m" and "n = nat (round_even (m / 10 powi (x - 6)))"
  have "m / 10 powi (x - 6) < of_nat (10 ^ 7)"
  proof (cases "m = 0")
    case False
    then have "0 < m" using assms by (simp add: Fin double_ok_def)
    then have "m < 10 powi (x + 1)" using decade_upper by (simp add: x_def)
    also have "(10 :: rat) powi (x + 1) = 10 powi (x - 6) * 10 powi 7" by (subst power_int_add [symmetric]) (simp_all add: add.commute)
    finally show ?thesis by (simp add: field_simps)
  qed simp
  then have n: "n \<le> 10 ^ 7" unfolding n_def by (rule round_even_less)
  have x: "nat \<bar>x\<bar> < 10 ^ 3" using decade_small [of s m] assms by (simp add: Fin x_def)
  have e: "length (dec_pad 2 (nat \<bar>y\<bar>)) \<le> 4" if "\<bar>y\<bar> \<le> \<bar>x\<bar> + 1" for y
  proof -
    have "nat \<bar>y\<bar> < 10 ^ 4" using that x by simp
    then have "length (dec (nat \<bar>y\<bar>)) \<le> 4" by (rule dec_length) simp
    then show ?thesis by (simp add: dec_pad_def)
  qed
  have d: "length (dec (k div 10 ^ 6)) \<le> 2" "length (dec_pad 6 (k mod 10 ^ 6)) = 6" if "k \<le> 10 ^ 7" for k
  proof -
    have "k div 10 ^ 6 < 10 ^ 2" using that by simp
    then show "length (dec (k div 10 ^ 6)) \<le> 2" by (rule dec_length) simp
    show "length (dec_pad 6 (k mod 10 ^ 6)) = 6" by (rule length_dec_pad) simp_all
  qed
  show ?thesis
  proof (cases "n = 10 ^ 7")
    case True
    have y: "\<bar>x + 1\<bar> \<le> \<bar>x\<bar> + 1" by simp
    from True show ?thesis using length_minus_sign [of s] d [of "10 ^ 6"] e [OF y]
      unfolding Fin sprintf_e_def double.case x_def [symmetric] n_def [symmetric] Let_def by simp
  next
    case False
    then show ?thesis using length_minus_sign [of s] d [OF n] e [of x]
      unfolding Fin sprintf_e_def double.case x_def [symmetric] n_def [symmetric] Let_def by simp
  qed
qed (use length_special [of d] in \<open>simp_all add: sprintf_e_def\<close>)

lemma print_number_fits: "fields_ok f \<Longrightarrow> length (snd (print_number f)) < fst (print_number f)"
  using length_sprintf_d [of "valueint f"] length_sprintf_f0 [of "valuedouble f"] length_sprintf_f [of "valuedouble f"]
    length_sprintf_e [of "valuedouble f"]
  by (auto simp: print_number_def fields_ok_def Let_def)


lemma length_escape: "length (escape s) = escaped_length s"
proof (induction s)
  case (Cons c s)
  consider "c = 0" | "c \<in> {34, 92, 8, 12, 10, 13, 9}" | "c \<notin> {0, 34, 92, 8, 12, 10, 13, 9}" "31 < c"
    | "c \<notin> {0, 34, 92, 8, 12, 10, 13, 9}" "\<not> 31 < c" by blast
  then show ?case
  proof cases
    case 2
    then show ?thesis using Cons by (elim insertE emptyE) simp_all
  next
    case 3
    then have "\<not> c < 32" by (simp add: word_less_nat_alt)
    with 3 Cons show ?thesis by simp
  next
    case 4
    then have "c < 32" by (simp add: word_less_nat_alt)
    with 4 Cons show ?thesis by simp
  qed simp
qed simp

lemma print_string_fits: "length (snd (print_string_ptr s)) < fst (print_string_ptr s)"
  by (cases s) (simp_all add: length_escape)

lemma length_compose_array:
  "es \<noteq> [] \<Longrightarrow> length (compose_array fmt es) \<le> (\<Sum>e \<leftarrow> es. length e + 2 + (if fmt then 1 else 0))"
  by (induction fmt es rule: compose_array.induct) auto

lemma length_compose_object:
  "length (compose_object fmt depth ms) \<le>
    (\<Sum>(name, e) \<leftarrow> ms. length e + length name + 2 + (if fmt then 2 + depth else 0))"
  by (induction fmt depth ms rule: compose_object.induct) (auto simp: tabs_def)

lemma print_array_fits: "length (snd (print_array fmt es)) < fst (print_array fmt es)"
  using length_compose_array [of es fmt] by (auto simp: print_array_def)

lemma print_object_fits: "length (snd (print_object fmt depth ms)) < fst (print_object fmt depth ms)"
proof (cases "ms = []")
  case True
  then show ?thesis by (auto simp: print_object_def tabs_def)
next
  case False
  then show ?thesis using length_compose_object [of fmt "depth + 1" ms]
    unfolding print_object_def by (cases fmt) (simp_all add: tabs_def Let_def del: compose_object.simps)
qed



end
