(* ===== verification/Thrift_Compact.thy ===== *)
theory Thrift_Compact
  imports Prelude
begin

unbundle bit_operations_syntax

text \<open>
  The compact protocol of Thrift in which the reports to the edge server are written
  (src/turnserver/thrift/protocol/TCompactProtocol.tcc, TProtocol.h).  The writer
  appends to a memory buffer; the reader takes bytes from the front of one.  The
  exceptions of the original are commented out in this copy: an error sets \<open>error_\<close>,
  after which every read gives nothing and the loops of the callers end.  In the
  model a read that sets \<open>error_\<close> has no result; what it leaves in the variables of its caller is not
  modelled.
\<close>

section \<open>Types\<close>

datatype ttype = T_STOP | T_BOOL | T_BYTE | T_DOUBLE | T_I16 | T_I32 | T_I64 | T_STRING | T_STRUCT | T_MAP | T_SET | T_LIST

definition CT_BOOLEAN_TRUE :: byte where "CT_BOOLEAN_TRUE = 1"
definition CT_BOOLEAN_FALSE :: byte where "CT_BOOLEAN_FALSE = 2"

fun getCompactType :: "ttype \<Rightarrow> byte" where
  "getCompactType T_STOP = 0"
| "getCompactType T_BOOL = CT_BOOLEAN_TRUE"
| "getCompactType T_BYTE = 3"
| "getCompactType T_I16 = 4"
| "getCompactType T_I32 = 5"
| "getCompactType T_I64 = 6"
| "getCompactType T_DOUBLE = 7"
| "getCompactType T_STRING = 8"
| "getCompactType T_LIST = 9"
| "getCompactType T_SET = 10"
| "getCompactType T_MAP = 11"
| "getCompactType T_STRUCT = 12"

definition getTType :: "byte \<Rightarrow> ttype option" where
  "getTType t =
     (if t = 0 then Some T_STOP
      else if t = CT_BOOLEAN_FALSE \<or> t = CT_BOOLEAN_TRUE then Some T_BOOL
      else if t = 3 then Some T_BYTE
      else if t = 4 then Some T_I16
      else if t = 5 then Some T_I32
      else if t = 6 then Some T_I64
      else if t = 7 then Some T_DOUBLE
      else if t = 8 then Some T_STRING
      else if t = 9 then Some T_LIST
      else if t = 10 then Some T_SET
      else if t = 11 then Some T_MAP
      else if t = 12 then Some T_STRUCT
      else None)"

section \<open>Integers\<close>

text \<open>The shift of a signed integer to the right keeps the sign (the file refuses to compile elsewhere).\<close>

definition i32ToZigzag :: "int \<Rightarrow> u32" where
  "i32ToZigzag n = (let w = word_of_int n :: u32 in push_bit 1 w XOR signed_drop_bit 31 w)"

definition i64ToZigzag :: "int \<Rightarrow> u64" where
  "i64ToZigzag l = (let w = word_of_int l :: u64 in push_bit 1 w XOR signed_drop_bit 63 w)"

definition zigzagToI32 :: "u32 \<Rightarrow> int" where
  "zigzagToI32 n = sint (drop_bit 1 n XOR (- (n AND 1)))"

definition zigzagToI64 :: "u64 \<Rightarrow> int" where
  "zigzagToI64 n = sint (drop_bit 1 n XOR (- (n AND 1)))"

text \<open>The loop of \<open>writeVarint32\<close> and \<open>writeVarint64\<close>: the bytes it puts into \<open>buf\<close>.\<close>

lemma drop_bit_7_less: "n AND NOT 0x7F \<noteq> 0 \<Longrightarrow> unat (drop_bit 7 n) < unat n" for n :: "'a::len word"
proof -
  assume a: "n AND NOT 0x7F \<noteq> 0"
  then have "n \<noteq> 0" by auto
  then have "0 < unat n" by (simp add: unat_gt_0)
  then show ?thesis unfolding unat_drop_bit_eq [of 7 n] drop_bit_eq_div [of 7 "unat n"] by simp
qed

function varint :: "'a::len word \<Rightarrow> byte list" where
  "varint n =
     (if n AND NOT 0x7F = 0 then [ucast n] else ucast ((n AND 0x7F) OR 0x80) # varint (drop_bit 7 n))"
  by auto
termination by (relation "measure unat") (simp_all add: drop_bit_7_less)

declare varint.simps [simp del]

section \<open>The writer\<close>

text \<open>\<open>booleanField_\<close> is the id of a field of type \<open>bool\<close> whose header is not written yet.\<close>

record cp_writer =
  w_lastFieldId :: int
  w_lastField :: "int list"
  w_booleanField :: "int option"
  w_out :: "byte list"

definition writer_new :: cp_writer where
  "writer_new = \<lparr>w_lastFieldId = 0, w_lastField = [], w_booleanField = None, w_out = []\<rparr>"

definition writeBytes :: "byte list \<Rightarrow> cp_writer \<Rightarrow> cp_writer" where
  "writeBytes bs w = w\<lparr>w_out := w_out w @ bs\<rparr>"

definition writeByte :: "byte \<Rightarrow> cp_writer \<Rightarrow> cp_writer" where
  "writeByte b w = writeBytes [b] w"

definition writeVarint32 :: "u32 \<Rightarrow> cp_writer \<Rightarrow> cp_writer" where
  "writeVarint32 n w = writeBytes (varint n) w"

definition writeVarint64 :: "u64 \<Rightarrow> cp_writer \<Rightarrow> cp_writer" where
  "writeVarint64 n w = writeBytes (varint n) w"

definition writeI16 :: "int \<Rightarrow> cp_writer \<Rightarrow> cp_writer" where
  "writeI16 i w = writeVarint32 (i32ToZigzag i) w"

definition writeI32 :: "int \<Rightarrow> cp_writer \<Rightarrow> cp_writer" where
  "writeI32 i w = writeVarint32 (i32ToZigzag i) w"

definition writeI64 :: "int \<Rightarrow> cp_writer \<Rightarrow> cp_writer" where
  "writeI64 i w = writeVarint64 (i64ToZigzag i) w"

text \<open>A string of 4 GB or more, or so long that its length and itself do not fit 32 bits, is not written.\<close>

definition writeBinary :: "byte list \<Rightarrow> cp_writer \<Rightarrow> cp_writer option" where
  "writeBinary str w =
     (if 2 ^ 32 - 1 < length str then None
      else let ssize = of_nat (length str) :: u32; w = writeVarint32 ssize w
           in if 2 ^ 32 - 1 - length (varint ssize) < length str then None else Some (writeBytes str w))"

definition writeFieldBeginInternal :: "ttype \<Rightarrow> int \<Rightarrow> byte option \<Rightarrow> cp_writer \<Rightarrow> cp_writer" where
  "writeFieldBeginInternal fieldType fieldId typeOverride w =
     (let typeToWrite = (case typeOverride of None \<Rightarrow> getCompactType fieldType | Some t \<Rightarrow> t);
          w = (if w_lastFieldId w < fieldId \<and> fieldId - w_lastFieldId w \<le> 15
               then writeByte (push_bit 4 (word_of_int (fieldId - w_lastFieldId w)) OR typeToWrite) w
               else writeI16 fieldId (writeByte typeToWrite w))
      in w\<lparr>w_lastFieldId := fieldId\<rparr>)"

definition writeFieldBegin :: "ttype \<Rightarrow> int \<Rightarrow> cp_writer \<Rightarrow> cp_writer" where
  "writeFieldBegin fieldType fieldId w =
     (if fieldType = T_BOOL then w\<lparr>w_booleanField := Some fieldId\<rparr>
      else writeFieldBeginInternal fieldType fieldId None w)"

definition writeFieldStop :: "cp_writer \<Rightarrow> cp_writer" where
  "writeFieldStop w = writeByte 0 w"

definition writeStructBegin :: "cp_writer \<Rightarrow> cp_writer" where
  "writeStructBegin w = w\<lparr>w_lastField := w_lastFieldId w # w_lastField w, w_lastFieldId := 0\<rparr>"

text \<open>\<open>top\<close> of an empty stack is undefined.\<close>

definition writeStructEnd :: "cp_writer \<Rightarrow> cp_writer option" where
  "writeStructEnd w =
     (case w_lastField w of [] \<Rightarrow> None | i # st \<Rightarrow> Some (w\<lparr>w_lastFieldId := i, w_lastField := st\<rparr>))"

definition writeBool :: "bool \<Rightarrow> cp_writer \<Rightarrow> cp_writer" where
  "writeBool b w =
     (let t = (if b then CT_BOOLEAN_TRUE else CT_BOOLEAN_FALSE)
      in case w_booleanField w of
           Some fieldId \<Rightarrow> (writeFieldBeginInternal T_BOOL fieldId (Some t) w)\<lparr>w_booleanField := None\<rparr>
         | None \<Rightarrow> writeByte t w)"

text \<open>The size is a signed integer here: a list of 2^31 elements or more has a negative one.\<close>

definition writeCollectionBegin :: "ttype \<Rightarrow> int \<Rightarrow> cp_writer \<Rightarrow> cp_writer" where
  "writeCollectionBegin elemType sz w =
     (if sz \<le> 14 then writeByte (push_bit 4 (word_of_int sz) OR getCompactType elemType) w
      else writeVarint32 (word_of_int sz) (writeByte (0xf0 OR getCompactType elemType) w))"

definition writeListBegin :: "ttype \<Rightarrow> u32 \<Rightarrow> cp_writer \<Rightarrow> cp_writer" where
  "writeListBegin elemType sz w = writeCollectionBegin elemType (sint sz) w"

definition writeSetBegin :: "ttype \<Rightarrow> u32 \<Rightarrow> cp_writer \<Rightarrow> cp_writer" where
  "writeSetBegin elemType sz w = writeCollectionBegin elemType (sint sz) w"

definition writeMapBegin :: "ttype \<Rightarrow> ttype \<Rightarrow> u32 \<Rightarrow> cp_writer \<Rightarrow> cp_writer" where
  "writeMapBegin keyType valType sz w =
     (if sz = 0 then writeByte 0 w
      else writeByte (push_bit 4 (getCompactType keyType) OR getCompactType valType) (writeVarint32 sz w))"

text \<open>A \<open>double\<close> is its 64 bits.\<close>

definition writeDouble :: "u64 \<Rightarrow> cp_writer \<Rightarrow> cp_writer" where
  "writeDouble bits w = writeBytes (le_bytes 8 bits) w"

definition PROTOCOL_ID :: byte where "PROTOCOL_ID = 0x82"
definition VERSION_N :: byte where "VERSION_N = 1"
definition VERSION_MASK :: byte where "VERSION_MASK = 0x1f"
definition TYPE_MASK :: byte where "TYPE_MASK = 0xE0"
definition TYPE_BITS :: byte where "TYPE_BITS = 0x07"
definition TYPE_SHIFT_AMOUNT :: nat where "TYPE_SHIFT_AMOUNT = 5"

definition writeMessageBegin :: "byte list \<Rightarrow> byte \<Rightarrow> u32 \<Rightarrow> cp_writer \<Rightarrow> cp_writer option" where
  "writeMessageBegin name messageType seqid w =
     writeBinary name (writeVarint32 seqid
       (writeByte ((VERSION_N AND VERSION_MASK) OR (push_bit TYPE_SHIFT_AMOUNT messageType AND TYPE_MASK)) (writeByte PROTOCOL_ID w)))"

section \<open>The reader\<close>

record cp_reader =
  r_lastFieldId :: int
  r_lastField :: "int list"
  r_boolValue :: "bool option"
  r_in :: "byte list"

definition reader_new :: "byte list \<Rightarrow> cp_reader" where
  "reader_new bs = \<lparr>r_lastFieldId = 0, r_lastField = [], r_boolValue = None, r_in = bs\<rparr>"

definition readAll :: "nat \<Rightarrow> cp_reader \<Rightarrow> (byte list \<times> cp_reader) option" where
  "readAll n r = (if n \<le> length (r_in r) then Some (take n (r_in r), r\<lparr>r_in := drop n (r_in r)\<rparr>) else None)"

definition readByte :: "cp_reader \<Rightarrow> (byte \<times> cp_reader) option" where
  "readByte r = (case r_in r of [] \<Rightarrow> None | b # bs \<Rightarrow> Some (b, r\<lparr>r_in := bs\<rparr>))"

text \<open>
  The loop of \<open>readVarint64\<close>; \<open>rsize\<close> bytes were read.  The fast path, on a borrowed part of
  the buffer, and the slow one read the same bytes.
\<close>

fun read_varint :: "nat \<Rightarrow> u64 \<Rightarrow> byte list \<Rightarrow> (u64 \<times> byte list) option" where
  "read_varint rsize val [] = None"
| "read_varint rsize val (b # bs) =
     (let val = val OR push_bit (7 * rsize) (ucast (b AND 0x7f))
      in if b AND 0x80 = 0 then Some (val, bs)
         else if 10 \<le> rsize + 1 then None
         else read_varint (rsize + 1) val bs)"

definition readVarint64 :: "cp_reader \<Rightarrow> (u64 \<times> cp_reader) option" where
  "readVarint64 r = do { (val, bs) \<leftarrow> read_varint 0 0 (r_in r); Some (val, r\<lparr>r_in := bs\<rparr>) }"

definition readVarint32 :: "cp_reader \<Rightarrow> (u32 \<times> cp_reader) option" where
  "readVarint32 r = do { (val, r) \<leftarrow> readVarint64 r; Some (ucast val, r) }"

definition readI16 :: "cp_reader \<Rightarrow> (int \<times> cp_reader) option" where
  "readI16 r = do { (n, r) \<leftarrow> readVarint32 r; Some (sint (word_of_int (zigzagToI32 n) :: u16), r) }"

definition readI32 :: "cp_reader \<Rightarrow> (int \<times> cp_reader) option" where
  "readI32 r = do { (n, r) \<leftarrow> readVarint32 r; Some (zigzagToI32 n, r) }"

definition readI64 :: "cp_reader \<Rightarrow> (int \<times> cp_reader) option" where
  "readI64 r = do { (n, r) \<leftarrow> readVarint64 r; Some (zigzagToI64 n, r) }"

definition readBool :: "cp_reader \<Rightarrow> (bool \<times> cp_reader) option" where
  "readBool r =
     (case r_boolValue r of
        Some b \<Rightarrow> Some (b, r\<lparr>r_boolValue := None\<rparr>)
      | None \<Rightarrow> do { (val, r) \<leftarrow> readByte r; Some (val = CT_BOOLEAN_TRUE, r) })"

text \<open>The size is read as a signed integer; there is no limit (\<open>string_limit_\<close> is 0).\<close>

definition readBinary :: "cp_reader \<Rightarrow> (byte list \<times> cp_reader) option" where
  "readBinary r =
     do { (n, r) \<leftarrow> readVarint32 r;
          if n = 0 then Some ([], r) else if sint n < 0 then None else readAll (unat n) r }"

definition readDouble :: "cp_reader \<Rightarrow> (u64 \<times> cp_reader) option" where
  "readDouble r = do { (bs, r) \<leftarrow> readAll 8 r; Some (le_word bs, r) }"

definition readStructBegin :: "cp_reader \<Rightarrow> cp_reader" where
  "readStructBegin r = r\<lparr>r_lastField := r_lastFieldId r # r_lastField r, r_lastFieldId := 0\<rparr>"

definition readStructEnd :: "cp_reader \<Rightarrow> cp_reader option" where
  "readStructEnd r =
     (case r_lastField r of [] \<Rightarrow> None | i # st \<Rightarrow> Some (r\<lparr>r_lastFieldId := i, r_lastField := st\<rparr>))"

definition readFieldBegin :: "cp_reader \<Rightarrow> ((ttype \<times> int) \<times> cp_reader) option" where
  "readFieldBegin r =
     do { (b, r) \<leftarrow> readByte r;
          let t = b AND 0x0f;
          if t = 0 then Some ((T_STOP, 0), r)
          else do { let modifier = drop_bit 4 (b AND 0xf0);
                    (fieldId, r) \<leftarrow>
                      (if modifier = 0 then readI16 r
                       else Some (sint (word_of_int (r_lastFieldId r + uint modifier) :: u16), r));
                    fieldType \<leftarrow> getTType t;
                    let r = (if t = CT_BOOLEAN_TRUE \<or> t = CT_BOOLEAN_FALSE
                             then r\<lparr>r_boolValue := Some (t = CT_BOOLEAN_TRUE)\<rparr> else r);
                    Some ((fieldType, fieldId), r\<lparr>r_lastFieldId := fieldId\<rparr>) } }"

definition readListBegin :: "cp_reader \<Rightarrow> ((ttype \<times> nat) \<times> cp_reader) option" where
  "readListBegin r =
     do { (b, r) \<leftarrow> readByte r;
          let lsize = drop_bit 4 b AND 0x0f;
          (lsize, r) \<leftarrow> (if lsize = 15 then readVarint32 r else Some (ucast lsize, r));
          if sint lsize < 0 then None
          else do { elemType \<leftarrow> getTType (b AND 0x0f); Some ((elemType, unat lsize), r) } }"

definition readMapBegin :: "cp_reader \<Rightarrow> ((ttype \<times> ttype \<times> nat) \<times> cp_reader) option" where
  "readMapBegin r =
     do { (msize, r) \<leftarrow> readVarint32 r;
          (kvType, r) \<leftarrow> (if msize \<noteq> 0 then readByte r else Some (0, r));
          if sint msize < 0 then None
          else do { keyType \<leftarrow> getTType (drop_bit 4 kvType);
                    valType \<leftarrow> getTType (kvType AND 0xf);
                    Some ((keyType, valType, unat msize), r) } }"

text \<open>The name, the type of the message and its number; the shift of the type byte keeps the sign, the mask drops it again.\<close>

definition readMessageBegin :: "cp_reader \<Rightarrow> ((byte list \<times> byte \<times> u32) \<times> cp_reader) option" where
  "readMessageBegin r =
     do { (protocolId, r) \<leftarrow> readByte r;
          if protocolId \<noteq> PROTOCOL_ID then None
          else do { (versionAndType, r) \<leftarrow> readByte r;
                    if versionAndType AND VERSION_MASK \<noteq> VERSION_N then None
                    else do { let messageType = signed_drop_bit TYPE_SHIFT_AMOUNT versionAndType AND TYPE_BITS;
                              (seqid, r) \<leftarrow> readVarint32 r;
                              (name, r) \<leftarrow> readBinary r;
                              Some ((name, messageType, seqid), r) } } }"

text \<open>
  \<open>skip\<close> passes over a value whose field is not known, however deep it is.  \<open>NoFuel\<close> is the end of the model's
  fuel, not a result of the code.
\<close>

datatype skip_result = Done cp_reader | Bad | NoFuel

definition done_if :: "cp_reader option \<Rightarrow> skip_result" where
  "done_if r = (case r of Some r \<Rightarrow> Done r | None \<Rightarrow> Bad)"

fun skip_then :: "skip_result \<Rightarrow> (cp_reader \<Rightarrow> skip_result) \<Rightarrow> skip_result" where
  "skip_then (Done r) f = f r"
| "skip_then Bad f = Bad"
| "skip_then NoFuel f = NoFuel"

lemma skip_then_cong [fundef_cong]:
  "x = x' \<Longrightarrow> (\<And>r. x' = Done r \<Longrightarrow> f r = f' r) \<Longrightarrow> skip_then x f = skip_then x' f'"
  by (cases x) auto

function skip_value :: "nat \<Rightarrow> ttype \<Rightarrow> cp_reader \<Rightarrow> skip_result"
  and skip_fields :: "nat \<Rightarrow> cp_reader \<Rightarrow> skip_result"
  and skip_elems :: "nat \<Rightarrow> ttype \<Rightarrow> nat \<Rightarrow> cp_reader \<Rightarrow> skip_result"
  and skip_pairs :: "nat \<Rightarrow> ttype \<Rightarrow> ttype \<Rightarrow> nat \<Rightarrow> cp_reader \<Rightarrow> skip_result" where
  "skip_value k t r =
     (case t of
        T_BOOL \<Rightarrow> done_if (map_option snd (readBool r))
      | T_BYTE \<Rightarrow> done_if (map_option snd (readByte r))
      | T_I16 \<Rightarrow> done_if (map_option snd (readI16 r))
      | T_I32 \<Rightarrow> done_if (map_option snd (readI32 r))
      | T_I64 \<Rightarrow> done_if (map_option snd (readI64 r))
      | T_DOUBLE \<Rightarrow> done_if (map_option snd (readDouble r))
      | T_STRING \<Rightarrow> done_if (map_option snd (readBinary r))
      | T_STRUCT \<Rightarrow> skip_fields k (readStructBegin r)
      | T_MAP \<Rightarrow>
          (case (k, readMapBegin r) of
             (0, _) \<Rightarrow> NoFuel | (_, None) \<Rightarrow> Bad
           | (Suc k, Some ((kt, vt, n), r)) \<Rightarrow> skip_pairs k kt vt n r)
      | T_SET \<Rightarrow>
          (case (k, readListBegin r) of
             (0, _) \<Rightarrow> NoFuel | (_, None) \<Rightarrow> Bad | (Suc k, Some ((et, n), r)) \<Rightarrow> skip_elems k et n r)
      | T_LIST \<Rightarrow>
          (case (k, readListBegin r) of
             (0, _) \<Rightarrow> NoFuel | (_, None) \<Rightarrow> Bad | (Suc k, Some ((et, n), r)) \<Rightarrow> skip_elems k et n r)
      | T_STOP \<Rightarrow> Done r)"
| "skip_fields k r =
     (case (k, readFieldBegin r) of
        (0, _) \<Rightarrow> NoFuel | (_, None) \<Rightarrow> Bad
      | (Suc k, Some ((t, _), r)) \<Rightarrow>
          if t = T_STOP then done_if (readStructEnd r)
          else skip_then (skip_value k t r) (skip_fields k))"
| "skip_elems k t n r =
     (case n of 0 \<Rightarrow> Done r | Suc n \<Rightarrow> skip_then (skip_value k t r) (skip_elems k t n))"
| "skip_pairs k kt vt n r =
     (case n of 0 \<Rightarrow> Done r
      | Suc n \<Rightarrow> skip_then (skip_value k kt r) (\<lambda>r. skip_then (skip_value k vt r) (skip_pairs k kt vt n)))"
  by pat_completeness auto
termination
  by (relation "inv_image (less_than <*lex*> less_than <*lex*> less_than)
      (\<lambda>x. case x of Inl (Inl (k, t, r)) \<Rightarrow> (k, 1, 0) | Inl (Inr (k, r)) \<Rightarrow> (k, 0, 0)
        | Inr (Inl (k, t, n, r)) \<Rightarrow> (k, 2, n) | Inr (Inr (k, kt, vt, n, r)) \<Rightarrow> (k, 2, n))")
    auto

declare skip_value.simps [simp del] skip_fields.simps [simp del] skip_elems.simps [simp del] skip_pairs.simps [simp del]

end
