(* ===== verification/Thrift_Memory.thy ===== *)
theory Thrift_Memory
  imports Thrift_Compact
begin

text \<open>
  The memory buffer of Thrift into which the reports are written and from which they are read
  (src/turnserver/thrift/transport: \<open>TMemoryBuffer\<close> and \<open>TBufferBase\<close> of TBufferTransports, \<open>readAll\<close> of
  TTransport.h).  Pointers into the buffer are offsets from its start.  Exceptions are
  compiled out in this copy; where the original throws, an \<open>assert(0)\<close> follows, which is \<open>None\<close>
  here.  It is shown that the buffer is a queue of bytes, and that the reads of the compact
  protocol on it are those of \<open>Thrift_Compact\<close>.
\<close>

section \<open>The memory buffer\<close>

record TMemoryBuffer =
  buffer :: "cell list option"
  bufferSize :: u32
  rBase :: nat
  rBound :: nat
  wBase :: nat
  wBound :: nat
  owner :: bool

definition block :: "TMemoryBuffer \<Rightarrow> cell list" where
  "block b = (case buffer b of None \<Rightarrow> [] | Some m \<Rightarrow> m)"

text \<open>\<open>malloc\<close> and \<open>realloc\<close> succeed, except that \<open>realloc\<close> to size 0 gives the block back.\<close>

definition initCommon :: "cell list option \<Rightarrow> u32 \<Rightarrow> bool \<Rightarrow> u32 \<Rightarrow> TMemoryBuffer option" where
  "initCommon buf sz own wPos =
     do { buf \<leftarrow> (if buf = None \<and> sz \<noteq> 0
                 then if own then Some (Some (replicate (unat sz) None)) else None
                 else Some buf);
          Some \<lparr>buffer = buf, bufferSize = sz, rBase = 0, rBound = unat wPos,
                wBase = unat wPos, wBound = unat sz, owner = own\<rparr> }"

definition defaultSize :: u32 where "defaultSize = 1024"

definition TMemoryBuffer_new :: "TMemoryBuffer option" where
  "TMemoryBuffer_new = initCommon None defaultSize True 0"

definition TMemoryBuffer_sized :: "u32 \<Rightarrow> TMemoryBuffer option" where
  "TMemoryBuffer_sized sz = initCommon None sz True 0"

definition available_read :: "TMemoryBuffer \<Rightarrow> u32" where
  "available_read b = of_nat (wBase b - rBase b)"

definition available_write :: "TMemoryBuffer \<Rightarrow> u32" where
  "available_write b = of_nat (wBound b - wBase b)"

text \<open>The loop that doubles the size; it need not end.\<close>

partial_function (option) grow :: "u32 \<Rightarrow> u32 \<Rightarrow> u32 \<Rightarrow> u32 \<Rightarrow> u32 \<Rightarrow> u32 option" where
  "grow len free old new_size avail =
     (if len \<le> avail then Some new_size
      else let new_size = (if 0 < new_size then new_size * 2 else 1)
           in grow len free old new_size (free + (new_size - old)))"

definition realloc :: "nat \<Rightarrow> cell list \<Rightarrow> cell list" where
  "realloc n m = take n m @ replicate (n - length m) None"

definition ensureCanWrite :: "u32 \<Rightarrow> TMemoryBuffer \<Rightarrow> TMemoryBuffer option" where
  "ensureCanWrite len b =
     (let avail = available_write b
      in if len \<le> avail then Some b
         else if \<not> owner b then None
         else do { new_size \<leftarrow> grow len avail (bufferSize b) (bufferSize b) avail;
                   if new_size = 0 then None
                   else Some (b\<lparr>buffer := Some (realloc (unat new_size) (block b)),
                                bufferSize := new_size, wBound := unat new_size\<rparr>) })"

definition memcpy_to :: "nat \<Rightarrow> byte list \<Rightarrow> TMemoryBuffer \<Rightarrow> TMemoryBuffer option" where
  "memcpy_to off bs b =
     (if bs = [] then Some b
      else do { m \<leftarrow> buffer b; m \<leftarrow> mem_write off bs m; Some (b\<lparr>buffer := Some m\<rparr>) })"

definition TMemoryBuffer_writeSlow :: "byte list \<Rightarrow> TMemoryBuffer \<Rightarrow> TMemoryBuffer option" where
  "TMemoryBuffer_writeSlow bs b =
     do { b \<leftarrow> ensureCanWrite (of_nat (length bs)) b;
          b \<leftarrow> memcpy_to (wBase b) bs b;
          Some (b\<lparr>wBase := wBase b + length bs\<rparr>) }"

text \<open>The functions of \<open>TBufferBase\<close>: a fast path, and the slow one of the subclass.\<close>

definition TMemoryBuffer_write :: "byte list \<Rightarrow> TMemoryBuffer \<Rightarrow> TMemoryBuffer option" where
  "TMemoryBuffer_write bs b =
     (if wBase b + length bs \<le> wBound b
      then do { b \<leftarrow> memcpy_to (wBase b) bs b; Some (b\<lparr>wBase := wBase b + length bs\<rparr>) }
      else TMemoryBuffer_writeSlow bs b)"

definition computeRead :: "u32 \<Rightarrow> TMemoryBuffer \<Rightarrow> (nat \<times> u32) \<times> TMemoryBuffer" where
  "computeRead len b =
     (let b = b\<lparr>rBound := wBase b\<rparr>; give = min len (available_read b)
      in ((rBase b, give), b\<lparr>rBase := rBase b + unat give\<rparr>))"

definition TMemoryBuffer_readSlow :: "u32 \<Rightarrow> TMemoryBuffer \<Rightarrow> (byte list \<times> TMemoryBuffer) option" where
  "TMemoryBuffer_readSlow len b =
     (let ((start, give), b) = computeRead len b
      in do { bs \<leftarrow> mem_init start (unat give) (block b); Some (bs, b) })"

definition TMemoryBuffer_read :: "u32 \<Rightarrow> TMemoryBuffer \<Rightarrow> (byte list \<times> TMemoryBuffer) option" where
  "TMemoryBuffer_read len b =
     (if rBase b + unat len \<le> rBound b
      then do { bs \<leftarrow> mem_init (rBase b) (unat len) (block b); Some (bs, b\<lparr>rBase := rBase b + unat len\<rparr>) }
      else TMemoryBuffer_readSlow len b)"

text \<open>
  The loop \<open>readAll\<close> over the \<open>read\<close> of a transport: it fills \<open>len\<close> bytes and returns their number,
  or 0 when a read gave nothing.  Beside the result stand the bytes that it put into the buffer of the caller.
\<close>

function readAll_loop :: "(u32 \<Rightarrow> 's \<Rightarrow> (byte list \<times> 's) option) \<Rightarrow> nat \<Rightarrow> byte list \<Rightarrow> 's \<Rightarrow> (nat \<times> byte list \<times> 's) option" where
  "readAll_loop rd len buf s =
     (if length buf < len
      then (case rd (of_nat (len - length buf)) s of
              None \<Rightarrow> None
            | Some (got, s) \<Rightarrow> if got = [] then Some (0, buf, s) else readAll_loop rd len (buf @ got) s)
      else Some (length buf, buf, s))"
  by pat_completeness auto
termination by (relation "measure (\<lambda>(rd, len, buf, s). len - length buf)") (auto intro!: diff_less_mono2)

declare readAll_loop.simps [simp del]

definition TMemoryBuffer_readAll :: "u32 \<Rightarrow> TMemoryBuffer \<Rightarrow> (nat \<times> byte list \<times> TMemoryBuffer) option" where
  "TMemoryBuffer_readAll len b =
     (if rBase b + unat len \<le> rBound b
      then do { bs \<leftarrow> mem_init (rBase b) (unat len) (block b);
                Some (unat len, bs, b\<lparr>rBase := rBase b + unat len\<rparr>) }
      else readAll_loop TMemoryBuffer_read (unat len) [] b)"

text \<open>\<open>borrow\<close> gives the position of the data and their length, or no position.\<close>

definition TMemoryBuffer_borrowSlow :: "u32 \<Rightarrow> TMemoryBuffer \<Rightarrow> (nat \<times> u32) option \<times> TMemoryBuffer" where
  "TMemoryBuffer_borrowSlow len b =
     (let b = b\<lparr>rBound := wBase b\<rparr>
      in if len \<le> available_read b then (Some (rBase b, available_read b), b) else (None, b))"

definition TMemoryBuffer_borrow :: "u32 \<Rightarrow> TMemoryBuffer \<Rightarrow> (nat \<times> u32) option \<times> TMemoryBuffer" where
  "TMemoryBuffer_borrow len b =
     (if int (unat len) \<le> int (rBound b) - int (rBase b)
      then (Some (rBase b, of_nat (rBound b - rBase b)), b)
      else TMemoryBuffer_borrowSlow len b)"

definition TMemoryBuffer_consume :: "u32 \<Rightarrow> TMemoryBuffer \<Rightarrow> TMemoryBuffer option" where
  "TMemoryBuffer_consume len b =
     (if int (unat len) \<le> int (rBound b) - int (rBase b)
      then Some (b\<lparr>rBase := rBase b + unat len\<rparr>) else None)"

text \<open>\<open>getBuffer\<close>, \<open>getBufferAsString\<close> and \<open>appendBufferToString\<close>.\<close>

definition getBuffer :: "TMemoryBuffer \<Rightarrow> nat \<times> u32" where
  "getBuffer b = (rBase b, of_nat (wBase b - rBase b))"

definition getBufferAsString :: "TMemoryBuffer \<Rightarrow> byte list option" where
  "getBufferAsString b =
     (case buffer b of None \<Rightarrow> Some []
      | Some m \<Rightarrow> (let (buf, sz) = getBuffer b in mem_init buf (unat sz) m))"

definition appendBufferToString :: "TMemoryBuffer \<Rightarrow> byte list \<Rightarrow> byte list option" where
  "appendBufferToString b str =
     (case buffer b of None \<Rightarrow> Some str
      | Some m \<Rightarrow> (let (buf, sz) = getBuffer b in map_option ((@) str) (mem_init buf (unat sz) m)))"

definition TMemoryBuffer_peek :: "TMemoryBuffer \<Rightarrow> bool" where
  "TMemoryBuffer_peek b \<longleftrightarrow> rBase b < wBase b"

definition resetBuffer :: "TMemoryBuffer \<Rightarrow> TMemoryBuffer" where
  "resetBuffer b =
     (let b = b\<lparr>rBase := 0, rBound := 0, wBase := 0\<rparr>
      in if owner b then b else b\<lparr>wBound := wBase b, bufferSize := 0\<rparr>)"

text \<open>What the constructor does with memory of the caller.\<close>

datatype MemoryPolicy = OBSERVE | COPY | TAKE_OWNERSHIP

definition TMemoryBuffer_of :: "cell list option \<Rightarrow> u32 \<Rightarrow> MemoryPolicy \<Rightarrow> TMemoryBuffer option" where
  "TMemoryBuffer_of buf sz policy =
     (if buf = None \<and> sz \<noteq> 0 then None
      else case policy of
        COPY \<Rightarrow> do { b \<leftarrow> initCommon None sz True 0;
                     bs \<leftarrow> mem_init 0 (unat sz) (case buf of None \<Rightarrow> [] | Some m \<Rightarrow> m);
                     TMemoryBuffer_write bs b }
      | _ \<Rightarrow> initCommon buf sz (policy = TAKE_OWNERSHIP) sz)"

text \<open>The other two overloads of \<open>resetBuffer\<close> construct a buffer and swap: the old contents go.\<close>

definition resetBuffer_of :: "cell list option \<Rightarrow> u32 \<Rightarrow> MemoryPolicy \<Rightarrow> TMemoryBuffer \<Rightarrow> TMemoryBuffer option" where
  "resetBuffer_of buf sz policy b = TMemoryBuffer_of buf sz policy"

definition resetBuffer_sized :: "u32 \<Rightarrow> TMemoryBuffer \<Rightarrow> TMemoryBuffer option" where
  "resetBuffer_sized sz b = TMemoryBuffer_sized sz"

definition readAppendToString :: "byte list \<Rightarrow> u32 \<Rightarrow> TMemoryBuffer \<Rightarrow> (u32 \<times> byte list \<times> TMemoryBuffer) option" where
  "readAppendToString str len b =
     (if buffer b = None then Some (0, str, b)
      else let ((start, give), b) = computeRead len b
           in do { bs \<leftarrow> mem_init start (unat give) (block b); Some (give, str @ bs, b) })"

definition readAsString :: "u32 \<Rightarrow> TMemoryBuffer \<Rightarrow> (byte list \<times> TMemoryBuffer) option" where
  "readAsString len b = do { (_, str, b) \<leftarrow> readAppendToString [] len b; Some (str, b) }"

definition TMemoryBuffer_readEnd :: "TMemoryBuffer \<Rightarrow> u32 \<times> TMemoryBuffer" where
  "TMemoryBuffer_readEnd b =
     (let bytes = of_nat (rBase b) in (bytes, if rBase b = wBase b then resetBuffer b else b))"

definition TMemoryBuffer_writeEnd :: "TMemoryBuffer \<Rightarrow> u32" where
  "TMemoryBuffer_writeEnd b = of_nat (wBase b)"

definition getWritePtr :: "u32 \<Rightarrow> TMemoryBuffer \<Rightarrow> (nat \<times> TMemoryBuffer) option" where
  "getWritePtr len b = do { b \<leftarrow> ensureCanWrite len b; Some (wBase b, b) }"

definition wroteBytes :: "u32 \<Rightarrow> TMemoryBuffer \<Rightarrow> TMemoryBuffer option" where
  "wroteBytes len b =
     (if available_write b < len then None else Some (b\<lparr>wBase := wBase b + unat len\<rparr>))"


section \<open>The buffer is a queue\<close>

definition TMemoryBuffer_ok :: "TMemoryBuffer \<Rightarrow> bool" where
  "TMemoryBuffer_ok b \<longleftrightarrow> rBase b \<le> rBound b \<and> rBound b \<le> wBase b \<and> wBase b \<le> wBound b \<and>
     wBound b = unat (bufferSize b) \<and> wBound b \<le> length (block b) \<and>
     None \<notin> set (take (wBase b - rBase b) (drop (rBase b) (block b)))"

definition unread :: "TMemoryBuffer \<Rightarrow> byte list" where
  "unread b = map the (take (wBase b - rBase b) (drop (rBase b) (block b)))"

lemma ok_order:
  assumes "TMemoryBuffer_ok b"
  shows "rBase b \<le> rBound b" "rBound b \<le> wBase b" "wBase b \<le> wBound b" "wBound b = unat (bufferSize b)"
    "wBound b \<le> length (block b)" "wBound b < 2 ^ 32"
  using assms u32_unat_bound [of "bufferSize b"] by (auto simp: TMemoryBuffer_ok_def)

lemma ok_unread:
  assumes "TMemoryBuffer_ok b"
  shows "take (wBase b - rBase b) (drop (rBase b) (block b)) = map Some (unread b)"
proof -
  let ?xs = "take (wBase b - rBase b) (drop (rBase b) (block b))"
  have "None \<notin> set ?xs" using assms by (simp add: TMemoryBuffer_ok_def)
  then show ?thesis unfolding unread_def map_map by (intro map_idI [symmetric]) (metis comp_apply option.collapse)
qed

lemma length_unread: "TMemoryBuffer_ok b \<Longrightarrow> length (unread b) = wBase b - rBase b"
  using ok_order [of b] by (simp add: unread_def)

lemma ok_read:
  assumes "TMemoryBuffer_ok b" and "n \<le> wBase b - rBase b"
  shows "mem_init (rBase b) n (block b) = Some (take n (unread b))"
proof -
  have "take n (drop (rBase b) (block b)) = take n (take (wBase b - rBase b) (drop (rBase b) (block b)))"
    using assms(2) by simp
  then show ?thesis using ok_order [OF assms(1)] assms(2) unfolding mem_init_Some_iff ok_unread [OF assms(1)]
    by (simp add: take_map)
qed

lemma ok_advance:
  assumes "TMemoryBuffer_ok b" and "n \<le> wBase b - rBase b" and "rBase b + n \<le> r" and "r \<le> wBase b"
  shows "TMemoryBuffer_ok (b\<lparr>rBase := rBase b + n, rBound := r\<rparr>)" and
    "unread (b\<lparr>rBase := rBase b + n, rBound := r\<rparr>) = drop n (unread b)"
proof -
  let ?xs = "drop (rBase b) (block b)"
  have cut: "take (wBase b - (rBase b + n)) (drop (rBase b + n) (block b)) = drop n (take (wBase b - rBase b) ?xs)"
    by (simp add: drop_take add.commute)
  show "unread (b\<lparr>rBase := rBase b + n, rBound := r\<rparr>) = drop n (unread b)"
    using cut by (simp add: unread_def block_def drop_map)
  show "TMemoryBuffer_ok (b\<lparr>rBase := rBase b + n, rBound := r\<rparr>)"
    using assms cut by (auto simp: TMemoryBuffer_ok_def block_def dest: in_set_dropD)
qed

lemma ok_rBase:
  assumes "TMemoryBuffer_ok b" and "rBase b + n \<le> rBound b"
  shows "TMemoryBuffer_ok (b\<lparr>rBase := rBase b + n\<rparr>)" and "unread (b\<lparr>rBase := rBase b + n\<rparr>) = drop n (unread b)"
  using ok_advance [of b n "rBound b"] ok_order [OF assms(1)] assms by simp_all

lemma ok_rBound:
  assumes "TMemoryBuffer_ok b"
  shows "TMemoryBuffer_ok (b\<lparr>rBound := wBase b\<rparr>)" and "unread (b\<lparr>rBound := wBase b\<rparr>) = unread b"
  using ok_advance [of b 0 "wBase b"] ok_order [OF assms] assms by simp_all

lemma available_read_unat: "TMemoryBuffer_ok b \<Longrightarrow> unat (available_read b) = wBase b - rBase b"
  unfolding available_read_def by (frule ok_order(6), drule ok_order(3), rule u32_unat_of_nat, simp)

lemma available_write_unat: "TMemoryBuffer_ok b \<Longrightarrow> unat (available_write b) = wBound b - wBase b"
  unfolding available_write_def by (drule ok_order(6), rule u32_unat_of_nat, simp)

text \<open>Both paths of \<open>read\<close> take the first bytes of the queue, as many as there are.\<close>

lemma computeRead_ok:
  assumes "TMemoryBuffer_ok b"
  shows "\<exists>b'. computeRead len b = ((rBase b, min len (available_read b)), b') \<and> TMemoryBuffer_ok b' \<and> block b' = block b \<and>
    unread b' = drop (unat len) (unread b) \<and> wBase b' = wBase b \<and> owner b' = owner b"
proof -
  let ?g = "min len (available_read b)"
  have g: "unat ?g = min (unat len) (wBase b - rBase b)"
    using available_read_unat [OF assms] by (simp add: min_def word_le_nat_alt)
  have o: "rBase b \<le> wBase b" using ok_order [OF assms] by simp
  have "drop (unat ?g) (unread b) = drop (unat len) (unread b)"
    using length_unread [OF assms] unfolding g by (simp add: min_def)
  with ok_advance [OF assms, of "unat ?g" "wBase b"] g o show ?thesis
    by (intro exI [of _ "b\<lparr>rBase := rBase b + unat ?g, rBound := wBase b\<rparr>"])
      (simp add: computeRead_def Let_def available_read_def block_def)
qed

lemma read_queue:
  assumes "TMemoryBuffer_ok b"
  shows "\<exists>b'. TMemoryBuffer_read len b = Some (take (unat len) (unread b), b') \<and> TMemoryBuffer_ok b' \<and>
    unread b' = drop (unat len) (unread b) \<and> wBase b' = wBase b \<and> owner b' = owner b"
proof (cases "rBase b + unat len \<le> rBound b")
  case True
  then show ?thesis using ok_rBase [OF assms True] ok_read [OF assms, of "unat len"] ok_order [OF assms]
    by (simp add: TMemoryBuffer_read_def)
next
  case False
  from computeRead_ok [OF assms, of len] obtain b' where b': "computeRead len b = ((rBase b, min len (available_read b)), b')"
    "TMemoryBuffer_ok b'" "block b' = block b" "unread b' = drop (unat len) (unread b)" "wBase b' = wBase b" "owner b' = owner b"
    by blast
  have g: "unat (min len (available_read b)) = min (unat len) (wBase b - rBase b)"
    using available_read_unat [OF assms] by (simp add: min_def word_le_nat_alt)
  have "take (min (unat len) (wBase b - rBase b)) (unread b) = take (unat len) (unread b)"
    using length_unread [OF assms] by (simp add: min_def)
  with False b' g ok_read [OF assms, of "min (unat len) (wBase b - rBase b)"] show ?thesis
    by (simp add: TMemoryBuffer_read_def TMemoryBuffer_readSlow_def)
qed


section \<open>Growth\<close>

text \<open>
  With at most 2 GB in the buffer the doubling ends, at a size that is large enough and less than twice
  as large as needed.
\<close>

lemma grow_ends:
  assumes "w + unat len \<le> 2 ^ 31" and "w \<le> unat n" and "free = old - of_nat w" and "avail = n - of_nat w"
  shows "\<exists>k. grow len free old n avail = Some k \<and> unat n \<le> unat k \<and> w + unat len \<le> unat k \<and>
    (k = n \<or> unat k < 2 * (w + unat len))"
  using assms
proof (induction "w + unat len - unat n" arbitrary: n avail rule: less_induct)
  case less
  have w: "unat (of_nat w :: u32) = w" using less.prems(1) by (intro u32_unat_of_nat) simp
  have av: "unat avail = unat n - w"
    using w less.prems(2,4) by (simp add: unat_sub word_le_nat_alt)
  show ?case
  proof (cases "len \<le> avail")
    case True
    then show ?thesis using av less.prems(2) by (subst grow.simps) (simp add: word_le_nat_alt)
  next
    case False
    then have short: "unat n < w + unat len" using av less.prems(2) by (simp add: word_le_nat_alt)
    let ?m = "if 0 < n then n * 2 else 1 :: u32"
    have m: "unat ?m = (if 0 < n then 2 * unat n else 1)"
      using short less.prems(1) by (simp add: unat_mult_lem [THEN iffD1] unat_word_ariths)
    then have up: "unat n < unat ?m" by (auto simp: word_less_nat_alt)
    have "free + (?m - old) = ?m - of_nat w" using less.prems(3) by (simp add: algebra_simps)
    with less.hyps [of ?m "free + (?m - old)"] short up less.prems(1-3) obtain k where
      k: "grow len free old ?m (free + (?m - old)) = Some k" "unat ?m \<le> unat k" "w + unat len \<le> unat k"
      "k = ?m \<or> unat k < 2 * (w + unat len)" by fastforce
    have "unat ?m < 2 * (w + unat len)" using m short by auto
    then have "unat k < 2 * (w + unat len)" using k(4) by auto
    moreover have "grow len free old n avail = Some k" using False k(1) by (subst grow.simps) (simp add: Let_def)
    ultimately show ?thesis using k up by auto
  qed
qed

text \<open>Beyond 2 GB the size wraps around to 0, and the block is given back while it is in use.\<close>

lemma grow_wraps: "grow 2 1 0x80000000 0x80000000 1 = Some 0"
  by (subst grow.simps, simp add: word_le_nat_alt, subst grow.simps, simp add: word_le_nat_alt)

text \<open>A write of more than 2 GB into an empty buffer of the default size never ends.\<close>

definition power_size :: "u32 \<Rightarrow> bool" where
  "power_size n \<longleftrightarrow> n = 0 \<or> (\<exists>i < 32. n = 2 ^ i)"

lemma power_size_double: "power_size n \<Longrightarrow> power_size (if 0 < n then n * 2 else 1)"
proof -
  assume "power_size n"
  then consider "n = 0" | i where "i < 32" "n = 2 ^ i" by (auto simp: power_size_def)
  then show ?thesis
  proof cases
    case 1
    then show ?thesis by (auto simp: power_size_def intro!: exI [of _ 0])
  next
    case 2
    then have n: "n * 2 = 2 ^ Suc i" by simp
    have z: "(2::u32) ^ 32 = 0" by simp
    show ?thesis
    proof (cases "i = 31")
      case True
      with n z have "n * 2 = 0" by simp
      then show ?thesis by (auto simp: power_size_def intro!: exI [of _ 0])
    next
      case False
      with n 2 have "power_size (n * 2)" by (auto simp: power_size_def intro!: exI [of _ "Suc i"])
      moreover have "power_size 1" by (auto simp: power_size_def intro!: exI [of _ 0])
      ultimately show ?thesis by simp
    qed
  qed
qed

lemma power_size_bound: "power_size n \<Longrightarrow> n \<le> 0x80000000"
proof -
  assume "power_size n"
  then consider "n = 0" | i where "i < 32" "n = 2 ^ i" by (auto simp: power_size_def)
  then show ?thesis
  proof cases
    case 2
    then have "(2::nat) ^ i < 2 ^ LENGTH(32)" using power_strict_increasing [of i 32 "2::nat"] by simp
    from unat_of_nat_lt [OF this] have "unat n = 2 ^ i" using 2 by simp
    moreover have "(2::nat) ^ i \<le> 2 ^ 31" using 2 by (intro power_increasing) auto
    ultimately show ?thesis by (simp add: word_le_nat_alt)
  qed simp
qed

lemma grow_Some_False:
  assumes "grow len free old n avail = Some k"
  shows "0x80000000 < len \<longrightarrow> free = old \<longrightarrow> avail = n \<longrightarrow> \<not> power_size n"
proof (rule grow.raw_induct [where P = "\<lambda>len free old n avail _. 0x80000000 < len \<longrightarrow> free = old \<longrightarrow> avail = n \<longrightarrow> \<not> power_size n"])
  show "grow len free old n avail = Some k" by (rule assms)
next
  fix g :: "u32 \<Rightarrow> u32 \<Rightarrow> u32 \<Rightarrow> u32 \<Rightarrow> u32 \<Rightarrow> u32 option" and len free old n avail k :: u32
  let ?m = "if 0 < n then n * 2 else 1"
  assume IH: "\<And>len free old n avail k. g len free old n avail = Some k \<Longrightarrow>
      0x80000000 < len \<longrightarrow> free = old \<longrightarrow> avail = n \<longrightarrow> \<not> power_size n"
    and body: "(if len \<le> avail then Some n else let n = ?m in g len free old n (free + (n - old))) = Some k"
  show "0x80000000 < len \<longrightarrow> free = old \<longrightarrow> avail = n \<longrightarrow> \<not> power_size n"
  proof (intro impI notI)
    assume a: "0x80000000 < len" "free = old" "avail = n" and p: "power_size n"
    have "\<not> len \<le> avail" using power_size_bound [OF p] a by auto
    with body have "g len free old ?m (free + (?m - old)) = Some k" by (simp add: Let_def)
    from IH [OF this] a power_size_double [OF p] show False by simp
  qed
qed

lemma grow_diverges: "0x80000000 < len \<Longrightarrow> power_size n \<Longrightarrow> grow len n n n n = None"
  using grow_Some_False [of len n n n n] by (cases "grow len n n n n") auto


section \<open>Writing\<close>

definition memory_room :: "TMemoryBuffer \<Rightarrow> nat" where
  "memory_room b = 2 ^ 31 - wBase b"

lemma take_drop_realloc:
  "r + n \<le> length m \<Longrightarrow> length m \<le> k \<Longrightarrow> take n (drop r (realloc k m)) = take n (drop r m)"
  by (simp add: realloc_def)

lemma ensureCanWrite_ok:
  assumes "TMemoryBuffer_ok b" and "owner b" and "wBound b = length (block b)" and "unat len \<le> memory_room b"
    and "wBase b \<le> 2 ^ 31"
  shows "\<exists>b'. ensureCanWrite len b = Some b' \<and> TMemoryBuffer_ok b' \<and> unread b' = unread b \<and> wBase b' = wBase b \<and>
    rBase b' = rBase b \<and> owner b' \<and> wBound b' = length (block b') \<and> wBase b + unat len \<le> wBound b'"
proof (cases "len \<le> available_write b")
  case True
  then show ?thesis using assms available_write_unat [OF assms(1)] ok_order(3) [OF assms(1)]
    by (simp add: ensureCanWrite_def word_le_nat_alt)
next
  case False
  note o = ok_order [OF assms(1)]
  have av: "available_write b = bufferSize b - of_nat (wBase b)" using o(3,4) by (simp add: available_write_def)
  have fits: "wBase b + unat len \<le> 2 ^ 31" using assms(4,5) by (simp add: memory_room_def)
  have short: "wBound b < wBase b + unat len"
    using False available_write_unat [OF assms(1)] o(3) by (simp add: word_le_nat_alt)
  from grow_ends [OF fits _ av av] o(3,4) obtain k where
    k: "grow len (available_write b) (bufferSize b) (bufferSize b) (available_write b) = Some k"
    "wBound b \<le> unat k" "wBase b + unat len \<le> unat k" by auto
  then have k0: "k \<noteq> 0" using short by auto
  let ?b = "b\<lparr>buffer := Some (realloc (unat k) (block b)), bufferSize := k, wBound := unat k\<rparr>"
  have len: "length (realloc (unat k) (block b)) = unat k" using assms(3) k(2) by (simp add: realloc_def)
  have keep: "take (wBase b - rBase b) (drop (rBase b) (realloc (unat k) (block b))) =
      take (wBase b - rBase b) (drop (rBase b) (block b))"
    using o assms(3) k(2) by (intro take_drop_realloc) auto
  have "TMemoryBuffer_ok ?b" using assms(1) k o len keep by (simp add: TMemoryBuffer_ok_def block_def)
  moreover have "unread ?b = unread b" using keep by (simp add: unread_def block_def)
  ultimately show ?thesis using False k k0 assms(2) len by (simp add: ensureCanWrite_def Let_def block_def)
qed

lemma okI:
  assumes "rBase b \<le> rBound b" "rBound b \<le> wBase b" "wBase b \<le> wBound b" "wBound b = unat (bufferSize b)"
    "wBound b \<le> length (block b)" "take (wBase b - rBase b) (drop (rBase b) (block b)) = map Some xs"
  shows "TMemoryBuffer_ok b \<and> unread b = xs"
  unfolding TMemoryBuffer_ok_def unread_def assms(6) using assms(1-5) by auto

lemma memcpy_ok:
  assumes "TMemoryBuffer_ok b" and "wBase b + length bs \<le> wBound b"
  shows "\<exists>b'. memcpy_to (wBase b) bs b = Some b' \<and> wBase b' = wBase b \<and> length (block b') = length (block b) \<and>
    wBound b' = wBound b \<and> owner b' = owner b \<and> TMemoryBuffer_ok (b'\<lparr>wBase := wBase b + length bs\<rparr>) \<and>
    unread (b'\<lparr>wBase := wBase b + length bs\<rparr>) = unread b @ bs"
proof (cases "bs = []")
  case True
  then show ?thesis using assms(1) by (simp add: memcpy_to_def)
next
  case False
  note o = ok_order [OF assms(1)]
  from False assms(2) o(3,5) obtain m where m: "buffer b = Some m" by (cases "buffer b") (auto simp: block_def)
  then have blk: "block b = m" by (simp add: block_def)
  define m' where "m' = take (wBase b) m @ map Some bs @ drop (wBase b + length bs) m"
  let ?b = "b\<lparr>buffer := Some m'\<rparr>"
  have fits: "wBase b + length bs \<le> length m" using assms(2) o(5) blk by simp
  then have len: "length m' = length m" by (simp add: m'_def)
  have cut: "take (wBase b + length bs - rBase b) (drop (rBase b) m') = map Some (unread b @ bs)"
    using ok_unread [OF assms(1)] length_unread [OF assms(1)] fits o(1-3) blk by (simp add: m'_def take_drop min_def)
  have "TMemoryBuffer_ok (?b\<lparr>wBase := wBase b + length bs\<rparr>) \<and> unread (?b\<lparr>wBase := wBase b + length bs\<rparr>) = unread b @ bs"
    using o assms(2) cut fits blk len by (intro okI) (simp_all add: block_def)
  then show ?thesis using m blk fits False len
    by (intro exI [of _ ?b]) (simp add: memcpy_to_def mem_write_fits block_def m'_def)
qed

text \<open>A buffer that owns its memory, and may grow to 2 GB.\<close>

definition TMemoryBuffer_owned :: "TMemoryBuffer \<Rightarrow> bool" where
  "TMemoryBuffer_owned b \<longleftrightarrow> TMemoryBuffer_ok b \<and> owner b \<and> wBound b = length (block b) \<and> wBase b \<le> 2 ^ 31"

lemma write_queue:
  assumes "TMemoryBuffer_owned b" and "length bs \<le> memory_room b"
  shows "\<exists>b'. TMemoryBuffer_write bs b = Some b' \<and> TMemoryBuffer_owned b' \<and> unread b' = unread b @ bs \<and>
    memory_room b' = memory_room b - length bs"
proof -
  have ok: "TMemoryBuffer_ok b" "owner b" "wBound b = length (block b)" "wBase b \<le> 2 ^ 31"
    using assms(1) by (auto simp: TMemoryBuffer_owned_def)
  have fits: "wBase b + length bs \<le> 2 ^ 31" using assms(2) ok(4) by (simp add: memory_room_def)
  have finish: "\<exists>b'. (do { c \<leftarrow> memcpy_to (wBase c) bs c; Some (c\<lparr>wBase := wBase c + length bs\<rparr>) }) = Some b' \<and>
      TMemoryBuffer_owned b' \<and> unread b' = unread c @ bs \<and> memory_room b' = memory_room b - length bs"
    if c: "TMemoryBuffer_ok c" "owner c" "wBound c = length (block c)" "wBase c = wBase b" "wBase c + length bs \<le> wBound c" for c
    using memcpy_ok [OF c(1,5)] c fits by (fastforce simp: TMemoryBuffer_owned_def memory_room_def block_def)
  show ?thesis
  proof (cases "wBase b + length bs \<le> wBound b")
    case True
    then show ?thesis using finish [OF ok(1-3) refl] by (simp add: TMemoryBuffer_write_def)
  next
    case False
    have len: "unat (of_nat (length bs) :: u32) = length bs" using fits by (intro u32_unat_of_nat) simp
    from ensureCanWrite_ok [OF ok(1-3), of "of_nat (length bs)"] assms(2) ok(4) len obtain c where
      c: "ensureCanWrite (of_nat (length bs)) b = Some c" "TMemoryBuffer_ok c" "unread c = unread b" "wBase c = wBase b"
      "owner c" "wBound c = length (block c)" "wBase b + length bs \<le> wBound c" by auto
    with False finish [of c] show ?thesis by (simp add: TMemoryBuffer_write_def TMemoryBuffer_writeSlow_def)
  qed
qed

lemma new_owned: "\<exists>b. TMemoryBuffer_new = Some b \<and> TMemoryBuffer_owned b \<and> unread b = [] \<and> memory_room b = 2 ^ 31"
  by (simp add: TMemoryBuffer_new_def initCommon_def defaultSize_def TMemoryBuffer_owned_def TMemoryBuffer_ok_def
      unread_def memory_room_def block_def)


section \<open>The two contracts of a transport\<close>

text \<open>
  Reading gives a prefix of the bytes that are there, at most as many as asked for, and none only when none is
  there.  Writing appends, as long as there is room.
\<close>

locale byte_source =
  fixes rd :: "u32 \<Rightarrow> 's \<Rightarrow> (byte list \<times> 's) option" and avail :: "'s \<Rightarrow> byte list" and invar :: "'s \<Rightarrow> bool"
  assumes rd_prefix: "invar s \<Longrightarrow> \<exists>bs s'. rd n s = Some (bs, s') \<and> invar s' \<and> avail s = bs @ avail s' \<and>
    length bs \<le> unat n \<and> (bs = [] \<longrightarrow> n = 0 \<or> avail s = [])"
begin

lemma readAll_enough:
  assumes "invar s" and "len < 2 ^ 32" and "length buf \<le> len" and "len - length buf \<le> length (avail s)"
  shows "\<exists>s'. readAll_loop rd len buf s = Some (len, buf @ take (len - length buf) (avail s), s') \<and> invar s' \<and>
    avail s' = drop (len - length buf) (avail s)"
  using assms
proof (induction "len - length buf" arbitrary: buf s rule: less_induct)
  case less
  show ?case
  proof (cases "length buf < len")
    case False
    with less.prems show ?thesis by (subst readAll_loop.simps) simp
  next
    case True
    define n where "n = (of_nat (len - length buf) :: u32)"
    have n: "unat n = len - length buf" unfolding n_def using less.prems(2) by (intro u32_unat_of_nat) simp
    from rd_prefix [OF less.prems(1), of n] obtain bs s' where
      r: "rd n s = Some (bs, s')" "invar s'" "avail s = bs @ avail s'" "length bs \<le> unat n" "bs = [] \<longrightarrow> n = 0 \<or> avail s = []"
      by blast
    have ne: "bs \<noteq> []" using r(5) n True less.prems(4) by (metis diff_is_0_eq le_zero_eq length_0_conv not_less unat_0)
    have "len - length (buf @ bs) < len - length buf" using ne True by (intro diff_less_mono2) auto
    from less.hyps [OF this r(2)] less.prems(2-4) r(3,4) n obtain s'' where
      IH: "readAll_loop rd len (buf @ bs) s' = Some (len, (buf @ bs) @ take (len - length (buf @ bs)) (avail s'), s'')" "invar s''"
      "avail s'' = drop (len - length (buf @ bs)) (avail s')" by force
    have step: "readAll_loop rd len buf s = readAll_loop rd len (buf @ bs) s'"
      using True r(1) ne unfolding n_def by (subst readAll_loop.simps) simp
    have "len - length buf = length bs + (len - length (buf @ bs))" using r(4) n by simp
    then show ?thesis using IH r(3) unfolding step by simp
  qed
qed

lemma readAll_short:
  assumes "invar s" and "len < 2 ^ 32" and "length buf + length (avail s) < len"
  shows "\<exists>s'. readAll_loop rd len buf s = Some (0, buf @ avail s, s') \<and> invar s' \<and> avail s' = []"
  using assms
proof (induction "length (avail s)" arbitrary: buf s rule: less_induct)
  case less
  define n where "n = (of_nat (len - length buf) :: u32)"
  have n: "unat n = len - length buf" unfolding n_def using less.prems(2) by (intro u32_unat_of_nat) simp
  from rd_prefix [OF less.prems(1), of n] obtain bs s' where
    r: "rd n s = Some (bs, s')" "invar s'" "avail s = bs @ avail s'" "bs = [] \<longrightarrow> n = 0 \<or> avail s = []" by blast
  have lt: "length buf < len" using less.prems(3) by simp
  show ?case
  proof (cases "bs = []")
    case True
    have "n \<noteq> 0" using n lt by auto
    with True r lt show ?thesis unfolding n_def by (subst readAll_loop.simps) simp
  next
    case False
    have step: "readAll_loop rd len buf s = readAll_loop rd len (buf @ bs) s'"
      using lt r(1) False unfolding n_def by (subst readAll_loop.simps) simp
    have "length (avail s') < length (avail s)" using r(3) False by simp
    from less.hyps [OF this r(2) less.prems(2), of "buf @ bs"] less.prems(3) r(3) show ?thesis unfolding step by simp
  qed
qed

end

locale byte_sink =
  fixes wr :: "byte list \<Rightarrow> 's \<Rightarrow> 's option" and stored :: "'s \<Rightarrow> byte list" and room :: "'s \<Rightarrow> nat" and invar :: "'s \<Rightarrow> bool"
  assumes wr_append: "invar s \<Longrightarrow> length bs \<le> room s \<Longrightarrow>
    \<exists>s'. wr bs s = Some s' \<and> invar s' \<and> stored s' = stored s @ bs \<and> room s' = room s - length bs"

lemma memory_read_prefix:
  assumes "TMemoryBuffer_ok b"
  shows "\<exists>bs b'. TMemoryBuffer_read n b = Some (bs, b') \<and> TMemoryBuffer_ok b' \<and> unread b = bs @ unread b' \<and>
    length bs \<le> unat n \<and> (bs = [] \<longrightarrow> n = 0 \<or> unread b = [])"
  using read_queue [OF assms, of n] by (fastforce simp: unat_eq_0)

interpretation memory_source: byte_source TMemoryBuffer_read unread TMemoryBuffer_ok
  by unfold_locales (rule memory_read_prefix)

interpretation memory_sink: byte_sink TMemoryBuffer_write unread memory_room TMemoryBuffer_owned
  by unfold_locales (rule write_queue)

text \<open>\<open>readAll\<close>, with its shortcut: all the bytes, or none when there are too few (those that were there are gone).\<close>

lemma readAll_queue:
  assumes "TMemoryBuffer_ok b"
  shows "\<exists>b'. TMemoryBuffer_ok b' \<and>
    (if unat len \<le> length (unread b)
     then TMemoryBuffer_readAll len b = Some (unat len, take (unat len) (unread b), b') \<and> unread b' = drop (unat len) (unread b)
     else TMemoryBuffer_readAll len b = Some (0, unread b, b') \<and> unread b' = [])"
proof (cases "rBase b + unat len \<le> rBound b")
  case True
  then have "unat len \<le> length (unread b)" using length_unread [OF assms] ok_order [OF assms] by simp
  then show ?thesis using True ok_rBase [OF assms True] ok_read [OF assms, of "unat len"] length_unread [OF assms]
    by (simp add: TMemoryBuffer_readAll_def)
next
  case False
  then show ?thesis
    using memory_source.readAll_enough [OF assms, of "unat len" "[]"] memory_source.readAll_short [OF assms, of "unat len" "[]"] u32_unat_bound [of len]
    by (cases "unat len \<le> length (unread b)") (auto simp: TMemoryBuffer_readAll_def)
qed


section \<open>Varints, read from the buffer\<close>

text \<open>
  \<open>readVarint64\<close>: when the buffer has ten bytes they are borrowed and read in place, otherwise they are taken one by
  one.  The outer \<open>option\<close> is the access to the memory; the inner result is missing when \<open>error_\<close> is set.
\<close>

definition borrowed_byte :: "nat \<Rightarrow> TMemoryBuffer \<Rightarrow> byte option" where
  "borrowed_byte off b = (if off < length (block b) then block b ! off else None)"

function varint_fast :: "nat \<Rightarrow> nat \<Rightarrow> u64 \<Rightarrow> TMemoryBuffer \<Rightarrow> (u64 \<times> nat) option option" where
  "varint_fast borrowed rsize val b =
     (case borrowed_byte (borrowed + rsize) b of
        None \<Rightarrow> None
      | Some byte \<Rightarrow>
          (let val = val OR push_bit (7 * rsize) (ucast (byte AND 0x7f))
           in if byte AND 0x80 = 0 then Some (Some (val, rsize + 1))
              else if rsize + 1 = 10 then Some None
              else varint_fast borrowed (rsize + 1) val b))"
  by pat_completeness auto
termination
  by (relation "measure (\<lambda>(borrowed, rsize, val, b). length (block b) - (borrowed + rsize))")
    (auto simp: borrowed_byte_def split: if_splits)

function varint_slow :: "nat \<Rightarrow> u64 \<Rightarrow> TMemoryBuffer \<Rightarrow> (u64 option \<times> TMemoryBuffer) option" where
  "varint_slow rsize val b =
     (case TMemoryBuffer_readAll 1 b of
        None \<Rightarrow> None
      | Some (rs, bytes, b) \<Rightarrow>
          if rs = 0 then Some (None, b)
          else let val = val OR push_bit (7 * rsize) (ucast (hd bytes AND 0x7f))
               in if hd bytes AND 0x80 = 0 then Some (Some val, b)
                  else if 10 \<le> rsize + 1 then Some (None, b)
                  else varint_slow (rsize + 1) val b)"
  by pat_completeness auto
termination by (relation "measure (\<lambda>(rsize, val, b). 10 - rsize)") auto

declare varint_fast.simps [simp del] varint_slow.simps [simp del]

definition readVarint64_buffer :: "TMemoryBuffer \<Rightarrow> (u64 option \<times> TMemoryBuffer) option" where
  "readVarint64_buffer b =
     (case TMemoryBuffer_borrow 10 b of
        (Some (borrowed, _), b) \<Rightarrow>
          do { r \<leftarrow> varint_fast borrowed 0 0 b;
               case r of None \<Rightarrow> Some (None, b)
               | Some (val, rsize) \<Rightarrow> do { b \<leftarrow> TMemoryBuffer_consume (of_nat rsize) b; Some (Some val, b) } }
      | (None, b) \<Rightarrow> varint_slow 0 0 b)"

lemma borrowed_byte_unread:
  assumes "TMemoryBuffer_ok b" and "i < length (unread b)"
  shows "borrowed_byte (rBase b + i) b = Some (unread b ! i)"
proof -
  note o = ok_order [OF assms(1)]
  have "take (wBase b - rBase b) (drop (rBase b) (block b)) ! i = map Some (unread b) ! i"
    unfolding ok_unread [OF assms(1)] by (rule refl)
  with assms o length_unread [OF assms(1)] show ?thesis by (simp add: borrowed_byte_def)
qed

lemma varint_fast_ok:
  assumes "TMemoryBuffer_ok b" and "10 \<le> length (unread b)" and "rsize < 10"
  shows "\<exists>res. varint_fast (rBase b) rsize val b = Some res \<and>
    (case res of None \<Rightarrow> read_varint rsize val (drop rsize (unread b)) = None
     | Some (v, n) \<Rightarrow> read_varint rsize val (drop rsize (unread b)) = Some (v, drop n (unread b)) \<and> n \<le> 10)"
  using assms(3)
proof (induction "10 - rsize" arbitrary: rsize val)
  case 0
  then show ?case by simp
next
  case (Suc k)
  have lt: "rsize < length (unread b)" using Suc.prems assms(2) by simp
  define byte where "byte = unread b ! rsize"
  have d: "drop rsize (unread b) = byte # drop (Suc rsize) (unread b)"
    unfolding byte_def by (rule Cons_nth_drop_Suc [OF lt, symmetric])
  have c: "borrowed_byte (rBase b + rsize) b = Some byte" unfolding byte_def by (rule borrowed_byte_unread [OF assms(1) lt])
  show ?case
  proof (cases "byte AND 0x80 = 0 \<or> rsize = 9")
    case True
    with Suc.prems show ?thesis unfolding d by (subst varint_fast.simps) (auto simp: c Let_def)
  next
    case False
    let ?val = "val OR push_bit (7 * rsize) (ucast (byte AND 0x7f))"
    have spec: "read_varint rsize val (drop rsize (unread b)) = read_varint (Suc rsize) ?val (drop (Suc rsize) (unread b))"
      using False Suc.prems unfolding d by (simp add: Let_def)
    have impl: "varint_fast (rBase b) rsize val b = varint_fast (rBase b) (Suc rsize) ?val b"
      using False by (subst varint_fast.simps) (simp add: c Let_def)
    show ?thesis unfolding spec impl using Suc.prems Suc.hyps(2) False by (intro Suc.hyps(1)) auto
  qed
qed

lemma varint_slow_ok:
  assumes "TMemoryBuffer_ok b"
  shows "\<exists>b'. varint_slow rsize val b = Some (map_option fst (read_varint rsize val (unread b)), b') \<and> TMemoryBuffer_ok b' \<and>
    (\<forall>v rest. read_varint rsize val (unread b) = Some (v, rest) \<longrightarrow> unread b' = rest)"
  using assms
proof (induction "length (unread b)" arbitrary: b rsize val rule: less_induct)
  case less
  from readAll_queue [OF less.prems, of 1] obtain b' where ok: "TMemoryBuffer_ok b'" and
    r: "if 1 \<le> length (unread b) then TMemoryBuffer_readAll 1 b = Some (1, take 1 (unread b), b') \<and> unread b' = drop 1 (unread b)
        else TMemoryBuffer_readAll 1 b = Some (0, unread b, b') \<and> unread b' = []" by auto
  show ?case
  proof (cases "unread b")
    case Nil
    with r ok show ?thesis by (subst varint_slow.simps) simp
  next
    case (Cons byte bs)
    with r have r': "TMemoryBuffer_readAll 1 b = Some (1, [byte], b')" "unread b' = bs" by auto
    with Cons less.hyps [OF _ ok, of "rsize + 1" "val OR push_bit (7 * rsize) (ucast (byte AND 0x7f))"] ok
    show ?thesis by (subst varint_slow.simps) (simp add: Let_def)
  qed
qed

lemma borrow_queue:
  assumes "TMemoryBuffer_ok b"
  shows "\<exists>r b'. TMemoryBuffer_borrow len b = (r, b') \<and> TMemoryBuffer_ok b' \<and> unread b' = unread b \<and>
    (case r of None \<Rightarrow> length (unread b) < unat len
     | Some (p, n) \<Rightarrow> p = rBase b' \<and> unat len \<le> unat n \<and> unat n \<le> length (unread b) \<and> unat n = rBound b' - rBase b')"
proof (cases "int (unat len) \<le> int (rBound b) - int (rBase b)")
  case True
  note o = ok_order [OF assms]
  have "unat (of_nat (rBound b - rBase b) :: u32) = rBound b - rBase b" using o by (intro u32_unat_of_nat) simp
  moreover have "unat len \<le> rBound b - rBase b" using True by linarith
  ultimately show ?thesis unfolding TMemoryBuffer_borrow_def if_P [OF True]
    using assms o length_unread [OF assms]
    by (intro exI [of _ "Some (rBase b, of_nat (rBound b - rBase b))"] exI [of _ b]) (simp del: of_nat_diff)
next
  case False
  let ?b = "b\<lparr>rBound := wBase b\<rparr>"
  note o = ok_order [OF assms]
  have av: "unat (available_read ?b) = wBase b - rBase b" using available_read_unat [OF ok_rBound(1) [OF assms]] by simp
  show ?thesis unfolding TMemoryBuffer_borrow_def if_not_P [OF False] TMemoryBuffer_borrowSlow_def Let_def
    using ok_rBound [OF assms] av length_unread [OF assms] by (auto simp: word_le_nat_alt)
qed

lemma consume_queue:
  assumes "TMemoryBuffer_ok b" and "unat n \<le> rBound b - rBase b"
  shows "\<exists>b'. TMemoryBuffer_consume n b = Some b' \<and> TMemoryBuffer_ok b' \<and> unread b' = drop (unat n) (unread b)"
proof -
  have "rBase b + unat n \<le> rBound b" using assms(2) ok_order(1) [OF assms(1)] by simp
  note adv = ok_rBase [OF assms(1) this]
  have "int (unat n) \<le> int (rBound b) - int (rBase b)" using \<open>rBase b + unat n \<le> rBound b\<close> by linarith
  then show ?thesis unfolding TMemoryBuffer_consume_def using adv by (simp only: if_True) blast
qed

lemma readVarint64_buffer_queue:
  assumes "TMemoryBuffer_ok b"
  shows "\<exists>b'. readVarint64_buffer b = Some (map_option fst (read_varint 0 0 (unread b)), b') \<and> TMemoryBuffer_ok b' \<and>
    (\<forall>v rest. read_varint 0 0 (unread b) = Some (v, rest) \<longrightarrow> unread b' = rest)"
proof -
  have ten: "unat (10 :: u32) = 10" by simp
  from borrow_queue [OF assms, of 10, unfolded ten] obtain r c where c: "TMemoryBuffer_borrow 10 b = (r, c)" "TMemoryBuffer_ok c" "unread c = unread b"
    "case r of None \<Rightarrow> length (unread b) < 10
     | Some (p, n) \<Rightarrow> p = rBase c \<and> 10 \<le> unat n \<and> unat n \<le> length (unread b) \<and> unat n = rBound c - rBase c" by blast
  show ?thesis
  proof (cases r)
    case None
    with c varint_slow_ok [OF c(2), of 0 0] show ?thesis by (simp add: readVarint64_buffer_def)
  next
    case (Some pn)
    with c obtain n where n: "r = Some (rBase c, n)" "10 \<le> length (unread c)" "10 \<le> rBound c - rBase c" by (cases pn) auto
    from varint_fast_ok [OF c(2) n(2), of 0 0, unfolded drop_0] obtain res where
      res: "varint_fast (rBase c) 0 0 c = Some res"
      "case res of None \<Rightarrow> read_varint 0 0 (unread c) = None
       | Some (v, n) \<Rightarrow> read_varint 0 0 (unread c) = Some (v, drop n (unread c)) \<and> n \<le> 10" by auto
    show ?thesis
    proof (cases res)
      case None
      with res c n(1) show ?thesis by (simp add: readVarint64_buffer_def)
    next
      case (Some vk)
      then obtain v k where vk: "res = Some (v, k)" "read_varint 0 0 (unread c) = Some (v, drop k (unread c))" "k \<le> 10"
        using res(2) by (cases vk) auto
      have k: "unat (of_nat k :: u32) = k" using vk(3) by (intro u32_unat_of_nat) simp
      from consume_queue [OF c(2), of "of_nat k"] k vk(3) n(3) obtain b' where
        "TMemoryBuffer_consume (of_nat k) c = Some b'" "TMemoryBuffer_ok b'" "unread b' = drop k (unread c)" by auto
      with vk res(1) c n(1) show ?thesis by (simp add: readVarint64_buffer_def)
    qed
  qed
qed


section \<open>Programs on a buffer\<close>

text \<open>The operations that a client calls, what they return, and the same operations on a queue of bytes.\<close>

datatype mem_op =
  MWrite "byte list" | MRead u32 | MReadAll u32 | MReadAsString u32 | MReadEnd | MReset | MPeek | MGet

datatype mem_result = RNone | RBytes "byte list" | RAll nat "byte list" | RBool bool

fun mem_step :: "mem_op \<Rightarrow> TMemoryBuffer \<Rightarrow> (mem_result \<times> TMemoryBuffer) option" where
  "mem_step (MWrite bs) b = do { b \<leftarrow> TMemoryBuffer_write bs b; Some (RNone, b) }"
| "mem_step (MRead n) b = do { (bs, b) \<leftarrow> TMemoryBuffer_read n b; Some (RBytes bs, b) }"
| "mem_step (MReadAll n) b = do { (k, bs, b) \<leftarrow> TMemoryBuffer_readAll n b; Some (RAll k bs, b) }"
| "mem_step (MReadAsString n) b = do { (bs, b) \<leftarrow> readAsString n b; Some (RBytes bs, b) }"
| "mem_step MReadEnd b = Some (RNone, snd (TMemoryBuffer_readEnd b))"
| "mem_step MReset b = Some (RNone, resetBuffer b)"
| "mem_step MPeek b = Some (RBool (TMemoryBuffer_peek b), b)"
| "mem_step MGet b = do { bs \<leftarrow> getBufferAsString b; Some (RBytes bs, b) }"

fun queue_step :: "mem_op \<Rightarrow> byte list \<Rightarrow> mem_result \<times> byte list" where
  "queue_step (MWrite bs) q = (RNone, q @ bs)"
| "queue_step (MRead n) q = (RBytes (take (unat n) q), drop (unat n) q)"
| "queue_step (MReadAll n) q =
     (if unat n \<le> length q then (RAll (unat n) (take (unat n) q), drop (unat n) q) else (RAll 0 q, []))"
| "queue_step (MReadAsString n) q = (RBytes (take (unat n) q), drop (unat n) q)"
| "queue_step MReadEnd q = (RNone, q)"
| "queue_step MReset q = (RNone, [])"
| "queue_step MPeek q = (RBool (q \<noteq> []), q)"
| "queue_step MGet q = (RBytes q, q)"

fun mem_run :: "mem_op list \<Rightarrow> TMemoryBuffer \<Rightarrow> (mem_result list \<times> TMemoryBuffer) option" where
  "mem_run [] b = Some ([], b)"
| "mem_run (op # ops) b = do { (r, b) \<leftarrow> mem_step op b; (rs, b) \<leftarrow> mem_run ops b; Some (r # rs, b) }"

fun queue_run :: "mem_op list \<Rightarrow> byte list \<Rightarrow> mem_result list \<times> byte list" where
  "queue_run [] q = ([], q)"
| "queue_run (op # ops) q = (let (r, q) = queue_step op q; (rs, q) = queue_run ops q in (r # rs, q))"

fun op_size :: "mem_op \<Rightarrow> nat" where
  "op_size (MWrite bs) = length bs"
| "op_size _ = 0"

text \<open>Reads keep the position of the writer and the block.\<close>

definition read_only :: "TMemoryBuffer \<Rightarrow> TMemoryBuffer \<Rightarrow> bool" where
  "read_only b b' \<longleftrightarrow> wBase b' = wBase b \<and> owner b' = owner b \<and> wBound b' = wBound b \<and> buffer b' = buffer b"

lemma read_only_read: "TMemoryBuffer_read n b = Some (bs, b') \<Longrightarrow> read_only b b'"
  by (auto simp: TMemoryBuffer_read_def TMemoryBuffer_readSlow_def computeRead_def Let_def read_only_def bind_eq_Some_conv split: if_splits)

lemma read_only_loop: "readAll_loop TMemoryBuffer_read len buf b = Some (k, bs, b') \<Longrightarrow> read_only b b'"
proof (induction "len - length buf" arbitrary: buf b rule: less_induct)
  case less
  define n :: u32 where "n = of_nat (len - length buf)"
  have eq: "(if length buf < len
      then (case TMemoryBuffer_read n b of None \<Rightarrow> None
            | Some (got, c) \<Rightarrow> if got = [] then Some (0, buf, c) else readAll_loop TMemoryBuffer_read len (buf @ got) c)
      else Some (length buf, buf, b)) = Some (k, bs, b')"
    using less.prems unfolding n_def by (subst (asm) readAll_loop.simps)
  show ?case
  proof (cases "length buf < len")
    case False
    with eq show ?thesis by (simp add: read_only_def)
  next
    case True
    with eq obtain got c where c: "TMemoryBuffer_read n b = Some (got, c)"
      "(if got = [] then Some (0, buf, c) else readAll_loop TMemoryBuffer_read len (buf @ got) c) = Some (k, bs, b')"
      by (auto split: option.splits)
    note ro = read_only_read [OF c(1)]
    show ?thesis
    proof (cases "got = []")
      case True
      with c ro show ?thesis by simp
    next
      case False
      then have "len - length (buf @ got) < len - length buf" using True by (intro diff_less_mono2) auto
      from less.hyps [OF this] c(2) False ro show ?thesis by (auto simp: read_only_def)
    qed
  qed
qed

lemma read_only_readAll: "TMemoryBuffer_readAll n b = Some (k, bs, b') \<Longrightarrow> read_only b b'"
  by (cases "rBase b + unat n \<le> rBound b")
    (auto simp: TMemoryBuffer_readAll_def bind_eq_Some_conv read_only_def dest: read_only_loop [unfolded read_only_def])

lemma read_only_owned: "read_only b b' \<Longrightarrow> TMemoryBuffer_owned b \<Longrightarrow> TMemoryBuffer_ok b' \<Longrightarrow> TMemoryBuffer_owned b'"
  by (simp add: read_only_def TMemoryBuffer_owned_def block_def)

lemma owned_empty:
  assumes "TMemoryBuffer_owned b"
  shows "TMemoryBuffer_owned (resetBuffer b)" and "unread (resetBuffer b) = []" and "wBase (resetBuffer b) = 0"
  using assms by (auto simp: TMemoryBuffer_owned_def TMemoryBuffer_ok_def resetBuffer_def unread_def block_def)

lemma readAsString_queue:
  assumes "TMemoryBuffer_ok b"
  shows "\<exists>b'. readAsString len b = Some (take (unat len) (unread b), b') \<and> TMemoryBuffer_ok b' \<and> read_only b b' \<and>
    unread b' = drop (unat len) (unread b)"
proof (cases "buffer b")
  case None
  then have "unread b = []" by (simp add: unread_def block_def)
  then show ?thesis using None assms by (simp add: readAsString_def readAppendToString_def read_only_def)
next
  case (Some m)
  from computeRead_ok [OF assms, of len] obtain b' where b': "computeRead len b = ((rBase b, min len (available_read b)), b')"
    "TMemoryBuffer_ok b'" "block b' = block b" "unread b' = drop (unat len) (unread b)" by blast
  have ro: "read_only b b'" using b'(1) by (auto simp: computeRead_def Let_def read_only_def)
  have g: "unat (min len (available_read b)) = min (unat len) (wBase b - rBase b)"
    using available_read_unat [OF assms] by (simp add: min_def word_le_nat_alt)
  have "take (min (unat len) (wBase b - rBase b)) (unread b) = take (unat len) (unread b)"
    using length_unread [OF assms] by (simp add: min_def)
  with Some ro b' g ok_read [OF assms, of "min (unat len) (wBase b - rBase b)"] show ?thesis
    by (simp add: readAsString_def readAppendToString_def)
qed

lemma getBufferAsString_queue:
  assumes "TMemoryBuffer_ok b"
  shows "getBufferAsString b = Some (unread b)"
proof (cases "buffer b")
  case None
  then show ?thesis by (simp add: getBufferAsString_def unread_def block_def)
next
  case (Some m)
  have n: "unat (snd (getBuffer b)) = wBase b - rBase b"
    using available_read_unat [OF assms] by (simp add: getBuffer_def available_read_def)
  have "mem_init (rBase b) (wBase b - rBase b) (block b) = Some (take (wBase b - rBase b) (unread b))"
    by (rule ok_read [OF assms order_refl])
  with Some n length_unread [OF assms] show ?thesis
    by (simp add: getBufferAsString_def block_def case_prod_beta) (simp add: getBuffer_def)
qed


lemma mem_step_queue:
  assumes "TMemoryBuffer_owned b" and "wBase b + op_size op \<le> 2 ^ 31"
  shows "\<exists>r b'. mem_step op b = Some (r, b') \<and> queue_step op (unread b) = (r, unread b') \<and> TMemoryBuffer_owned b' \<and>
    wBase b' \<le> wBase b + op_size op"
proof -
  have ok: "TMemoryBuffer_ok b" using assms(1) by (simp add: TMemoryBuffer_owned_def)
  note ro = read_only_owned [OF _ assms(1)]
  show ?thesis
  proof (cases op)
    case (MWrite bs)
    then have "length bs \<le> memory_room b" using assms(2) by (simp add: memory_room_def)
    from write_queue [OF assms(1) this] MWrite assms(2) show ?thesis
      by (fastforce simp: memory_room_def TMemoryBuffer_owned_def)
  next
    case (MRead n)
    from read_queue [OF ok, of n] MRead show ?thesis using ro read_only_read by fastforce
  next
    case (MReadAll n)
    from readAll_queue [OF ok, of n] MReadAll show ?thesis
      using ro read_only_readAll by (cases "unat n \<le> length (unread b)") (fastforce simp: read_only_def)+
  next
    case (MReadAsString n)
    from readAsString_queue [OF ok, of n] MReadAsString show ?thesis using ro by (fastforce simp: read_only_def)
  next
    case MReadEnd
    have "unread b = []" if "rBase b = wBase b" using that by (simp add: unread_def)
    then show ?thesis using MReadEnd assms(1) owned_empty [OF assms(1)] by (simp add: TMemoryBuffer_readEnd_def)
  next
    case MReset
    then show ?thesis using owned_empty [OF assms(1)] by simp
  next
    case MPeek
    have "TMemoryBuffer_peek b \<longleftrightarrow> unread b \<noteq> []"
      using length_unread [OF ok] by (auto simp: TMemoryBuffer_peek_def simp flip: length_greater_0_conv)
    then show ?thesis using MPeek assms(1) by simp
  next
    case MGet
    then show ?thesis using getBufferAsString_queue [OF ok] assms(1) by simp
  qed
qed

lemma mem_run_queue:
  assumes "TMemoryBuffer_owned b" and "wBase b + (\<Sum>op\<leftarrow>ops. op_size op) \<le> 2 ^ 31"
  shows "\<exists>rs b'. mem_run ops b = Some (rs, b') \<and> queue_run ops (unread b) = (rs, unread b') \<and> TMemoryBuffer_owned b'"
  using assms
proof (induction ops arbitrary: b)
  case Nil
  then show ?case by simp
next
  case (Cons op ops)
  then have "wBase b + op_size op \<le> 2 ^ 31" by simp
  from mem_step_queue [OF Cons.prems(1) this] obtain r c where c: "mem_step op b = Some (r, c)"
    "queue_step op (unread b) = (r, unread c)" "TMemoryBuffer_owned c" "wBase c \<le> wBase b + op_size op" by blast
  from Cons.IH [OF c(3)] c Cons.prems(2) show ?case by fastforce
qed

text \<open>What the writer of the compact protocol appends piece by piece is what \<open>getBufferAsString\<close> gives the report.\<close>

lemma queue_run_append:
  "queue_run (xs @ ys) q = (let (rs, q) = queue_run xs q; (rs', q) = queue_run ys q in (rs @ rs', q))"
  by (induction xs arbitrary: q) (auto simp: Let_def split: prod.splits)

lemma queue_run_writes: "queue_run (map MWrite ps) q = (map (\<lambda>_. RNone) ps, q @ concat ps)"
  by (induction ps arbitrary: q) auto

lemma pieces_collected:
  assumes "length (concat ps) \<le> 2 ^ 31"
  shows "\<exists>b0 b. TMemoryBuffer_new = Some b0 \<and>
    mem_run (map MWrite ps @ [MGet]) b0 = Some (map (\<lambda>_. RNone) ps @ [RBytes (concat ps)], b)"
proof -
  from new_owned obtain b0 where b0: "TMemoryBuffer_new = Some b0" "TMemoryBuffer_owned b0" "unread b0 = []" by blast
  then have "wBase b0 = 0" by (auto simp: TMemoryBuffer_new_def initCommon_def defaultSize_def)
  moreover have "(\<Sum>op\<leftarrow>map MWrite ps @ [MGet]. op_size op) = length (concat ps)"
    by (simp add: length_concat comp_def)
  ultimately show ?thesis using mem_run_queue [OF b0(2), of "map MWrite ps @ [MGet]"] assms b0
    by (auto simp: queue_run_append queue_run_writes)
qed

text \<open>C14. The memory buffer is a queue of bytes: every sequence of operations on a new buffer returns what the same
  sequence returns on a queue, across all growth and both paths of reading, as long as it writes at most 2 GB in all.\<close>

theorem memory_buffer_queue:
  assumes "(\<Sum>op\<leftarrow>ops. op_size op) \<le> 2 ^ 31"
  shows "\<exists>b0 b. TMemoryBuffer_new = Some b0 \<and> mem_run ops b0 = Some (fst (queue_run ops []), b) \<and> TMemoryBuffer_ok b \<and>
    unread b = snd (queue_run ops [])"
proof -
  from new_owned obtain b0 where b0: "TMemoryBuffer_new = Some b0" "TMemoryBuffer_owned b0" "unread b0 = []" by blast
  then have "wBase b0 = 0" by (auto simp: TMemoryBuffer_new_def initCommon_def defaultSize_def)
  with mem_run_queue [OF b0(2), of ops] assms b0 show ?thesis by (auto simp: TMemoryBuffer_owned_def)
qed

theorem memory_buffer_queue_witness:
  "\<exists>b0 b. TMemoryBuffer_new = Some b0 \<and>
     mem_run [MWrite (replicate 1500 7), MWrite [1, 2], MReadAll 1501, MPeek, MRead 5, MReadEnd, MReadAll 1] b0 =
       Some ([RNone, RNone, RAll 1501 (replicate 1500 7 @ [1]), RBool True, RBytes [2], RNone, RAll 0 []], b) \<and>
     TMemoryBuffer_ok b \<and> unread b = []"
  using memory_buffer_queue [of "[MWrite (replicate 1500 7), MWrite [1, 2], MReadAll 1501, MPeek, MRead 5, MReadEnd, MReadAll 1]"]
  by simp

text \<open>C15. Reading an integer of variable length from the buffer: the fast path on borrowed bytes and the byte-wise path both
  give what the byte-wise definition of the format gives on the unread bytes, without a read outside the buffer, and
  leave the same bytes unread.\<close>

theorem varint_paths_agree:
  assumes "TMemoryBuffer_ok b"
  shows "\<exists>b'. readVarint64_buffer b = Some (map_option fst (read_varint 0 0 (unread b)), b') \<and> TMemoryBuffer_ok b' \<and>
    (\<forall>v rest. read_varint 0 0 (unread b) = Some (v, rest) \<longrightarrow> unread b' = rest)"
  by (rule readVarint64_buffer_queue [OF assms])

definition observed :: TMemoryBuffer where
  "observed = \<lparr>buffer = Some (map Some [0x96, 1, 9]), bufferSize = 3, rBase = 0, rBound = 3, wBase = 3, wBound = 3, owner = False\<rparr>"

theorem varint_paths_agree_witness:
  "\<exists>b'. readVarint64_buffer observed = Some (Some 150, b') \<and> unread b' = [9]"
proof -
  have ok: "TMemoryBuffer_ok observed" and u: "unread observed = [0x96, 1, 9]"
    by (simp_all add: TMemoryBuffer_ok_def observed_def unread_def block_def)
  have "read_varint 0 0 [0x96, 1, 9] = Some (150, [9])" by code_simp
  with varint_paths_agree [OF ok] show ?thesis unfolding u by auto
qed

text \<open>One write of more than 2 GB into a new buffer does not return, and growth past 2 GB gives the block back.\<close>

lemma huge_write_hangs:
  assumes "2 ^ 31 < length bs" and "length bs < 2 ^ 32" and "TMemoryBuffer_new = Some b"
  shows "TMemoryBuffer_write bs b = None"
proof -
  have b: "b = \<lparr>buffer = Some (replicate 1024 None), bufferSize = 1024, rBase = 0, rBound = 0, wBase = 0, wBound = 1024, owner = True\<rparr>"
    using assms(3) by (simp add: TMemoryBuffer_new_def initCommon_def defaultSize_def)
  have len: "unat (of_nat (length bs) :: u32) = length bs" using assms(2) by (intro u32_unat_of_nat) simp
  have p: "power_size 1024" unfolding power_size_def by (intro disjI2 exI [of _ 10]) simp
  have "grow (of_nat (length bs)) 1024 1024 1024 1024 = None"
    using assms(1) len by (intro grow_diverges p) (simp add: word_less_nat_alt)
  moreover have "\<not> (of_nat (length bs) :: u32) \<le> 1024" using assms(1) len by (simp add: word_le_nat_alt)
  ultimately show ?thesis using assms(1) unfolding b
    by (simp add: TMemoryBuffer_write_def TMemoryBuffer_writeSlow_def ensureCanWrite_def available_write_def Let_def)
qed

end
