(* ===== verification/Thrift_Transport.thy ===== *)
theory Thrift_Transport
  imports Thrift_Memory
begin

text \<open>
  The transports of Thrift that wrap another one (src/turnserver/thrift/transport:
  \<open>TBufferedTransport\<close> and \<open>TFramedTransport\<close> of TBufferTransports).  The wrapped transport is reached
  through its virtual functions, the record \<open>ttransport\<close>; the contracts \<open>byte_source\<close> and \<open>byte_sink\<close> of
  \<open>Thrift_Memory\<close> say what the wrappers rely on and what they promise in turn.  At the end
  stands \<open>TFDTransport\<close>, the transport over a file descriptor.
\<close>

record 's ttransport =
  t_read :: "u32 \<Rightarrow> 's \<Rightarrow> (byte list \<times> 's) option"
  t_readAll :: "u32 \<Rightarrow> 's \<Rightarrow> (nat \<times> byte list \<times> 's) option"
  t_write :: "byte list \<Rightarrow> 's \<Rightarrow> 's option"
  t_flush :: "'s \<Rightarrow> 's option"
  t_peek :: "'s \<Rightarrow> (bool \<times> 's) option"
  t_close :: "'s \<Rightarrow> 's option"

definition memory_transport :: "TMemoryBuffer ttransport" where
  "memory_transport =
     \<lparr>t_read = TMemoryBuffer_read, t_readAll = TMemoryBuffer_readAll, t_write = TMemoryBuffer_write,
      t_flush = Some, t_peek = (\<lambda>b. Some (TMemoryBuffer_peek b, b)), t_close = Some\<rparr>"

section \<open>The buffered transport\<close>

text \<open>
  The two arrays have \<open>DEFAULT_BUFFER_SIZE\<close> bytes each, whatever sizes the constructor is given.
\<close>

definition DEFAULT_BUFFER_SIZE :: u32 where "DEFAULT_BUFFER_SIZE = 512"

record 's TBufferedTransport =
  b_transport :: 's
  b_rBufSize :: u32
  b_wBufSize :: u32
  b_rBuf :: "cell list"
  b_wBuf :: "cell list"
  b_rBase :: nat
  b_rBound :: nat
  b_wBase :: nat
  b_wBound :: nat

definition TBufferedTransport_sized :: "'s \<Rightarrow> u32 \<Rightarrow> u32 \<Rightarrow> 's TBufferedTransport" where
  "TBufferedTransport_sized t rsz wsz =
     \<lparr>b_transport = t, b_rBufSize = rsz, b_wBufSize = wsz,
      b_rBuf = replicate (unat DEFAULT_BUFFER_SIZE) None, b_wBuf = replicate (unat DEFAULT_BUFFER_SIZE) None,
      b_rBase = 0, b_rBound = 0, b_wBase = 0, b_wBound = unat wsz\<rparr>"

definition TBufferedTransport_new :: "'s \<Rightarrow> 's TBufferedTransport" where
  "TBufferedTransport_new t = TBufferedTransport_sized t DEFAULT_BUFFER_SIZE DEFAULT_BUFFER_SIZE"

text \<open>Reading a full buffer from the transport, in \<open>readSlow\<close> and \<open>peek\<close>.\<close>

definition b_refill :: "'s ttransport \<Rightarrow> 's TBufferedTransport \<Rightarrow> 's TBufferedTransport option" where
  "b_refill T b =
     do { (got, t) \<leftarrow> t_read T (b_rBufSize b) (b_transport b);
          m \<leftarrow> mem_write 0 got (b_rBuf b);
          Some (b\<lparr>b_transport := t, b_rBuf := m, b_rBase := 0, b_rBound := length got\<rparr>) }"

definition Buffered_readSlow :: "'s ttransport \<Rightarrow> u32 \<Rightarrow> 's TBufferedTransport \<Rightarrow> (byte list \<times> 's TBufferedTransport) option" where
  "Buffered_readSlow T len b =
     (let held = of_nat (b_rBound b - b_rBase b) :: u32
      in if \<not> held < len then None
         else if 0 < held
         then do { bs \<leftarrow> mem_init (b_rBase b) (unat held) (b_rBuf b); Some (bs, b\<lparr>b_rBase := 0, b_rBound := 0\<rparr>) }
         else do { b \<leftarrow> b_refill T b;
                   let give = min len (of_nat (b_rBound b - b_rBase b));
                   bs \<leftarrow> mem_init (b_rBase b) (unat give) (b_rBuf b);
                   Some (bs, b\<lparr>b_rBase := b_rBase b + unat give\<rparr>) })"

definition Buffered_read :: "'s ttransport \<Rightarrow> u32 \<Rightarrow> 's TBufferedTransport \<Rightarrow> (byte list \<times> 's TBufferedTransport) option" where
  "Buffered_read T len b =
     (if b_rBase b + unat len \<le> b_rBound b
      then do { bs \<leftarrow> mem_init (b_rBase b) (unat len) (b_rBuf b); Some (bs, b\<lparr>b_rBase := b_rBase b + unat len\<rparr>) }
      else Buffered_readSlow T len b)"

definition Buffered_readAll :: "'s ttransport \<Rightarrow> u32 \<Rightarrow> 's TBufferedTransport \<Rightarrow> (nat \<times> byte list \<times> 's TBufferedTransport) option" where
  "Buffered_readAll T len b =
     (if b_rBase b + unat len \<le> b_rBound b
      then do { bs \<leftarrow> mem_init (b_rBase b) (unat len) (b_rBuf b);
                Some (unat len, bs, b\<lparr>b_rBase := b_rBase b + unat len\<rparr>) }
      else readAll_loop (Buffered_read T) (unat len) [] b)"

definition Buffered_peek :: "'s ttransport \<Rightarrow> 's TBufferedTransport \<Rightarrow> (bool \<times> 's TBufferedTransport) option" where
  "Buffered_peek T b =
     do { b \<leftarrow> (if b_rBase b = b_rBound b then b_refill T b else Some b); Some (b_rBase b < b_rBound b, b) }"

definition Buffered_writeSlow :: "'s ttransport \<Rightarrow> byte list \<Rightarrow> 's TBufferedTransport \<Rightarrow> 's TBufferedTransport option" where
  "Buffered_writeSlow T buf b =
     (let have_bytes = of_nat (b_wBase b) :: u32; space = b_wBound b - b_wBase b; len = of_nat (length buf) :: u32
      in if \<not> b_wBound b - b_wBase b < length buf then None
         else if 2 * b_wBufSize b \<le> have_bytes + len \<or> have_bytes = 0
         then do { t \<leftarrow> (if 0 < have_bytes
                        then do { bs \<leftarrow> mem_init 0 (unat have_bytes) (b_wBuf b); t_write T bs (b_transport b) }
                        else Some (b_transport b));
                   t \<leftarrow> t_write T buf t;
                   Some (b\<lparr>b_transport := t, b_wBase := 0\<rparr>) }
         else do { m \<leftarrow> mem_write (b_wBase b) (take space buf) (b_wBuf b);
                   bs \<leftarrow> mem_init 0 (unat (b_wBufSize b)) m;
                   t \<leftarrow> t_write T bs (b_transport b);
                   let rest = drop space buf;
                   if \<not> length rest < unat (b_wBufSize b) then None
                   else do { m \<leftarrow> mem_write 0 rest m;
                             Some (b\<lparr>b_transport := t, b_wBuf := m, b_wBase := length rest\<rparr>) } })"

definition Buffered_write :: "'s ttransport \<Rightarrow> byte list \<Rightarrow> 's TBufferedTransport \<Rightarrow> 's TBufferedTransport option" where
  "Buffered_write T buf b =
     (if b_wBase b + length buf \<le> b_wBound b
      then do { m \<leftarrow> mem_write (b_wBase b) buf (b_wBuf b); Some (b\<lparr>b_wBuf := m, b_wBase := b_wBase b + length buf\<rparr>) }
      else Buffered_writeSlow T buf b)"

definition Buffered_flush :: "'s ttransport \<Rightarrow> 's TBufferedTransport \<Rightarrow> 's TBufferedTransport option" where
  "Buffered_flush T b =
     (let have_bytes = of_nat (b_wBase b) :: u32
      in do { b \<leftarrow> (if 0 < have_bytes
                   then do { bs \<leftarrow> mem_init 0 (unat have_bytes) (b_wBuf b);
                             t \<leftarrow> t_write T bs (b_transport b);
                             Some (b\<lparr>b_transport := t, b_wBase := 0\<rparr>) }
                   else Some b);
              t \<leftarrow> t_flush T (b_transport b);
              Some (b\<lparr>b_transport := t\<rparr>) })"

text \<open>\<open>borrow\<close> gives what the buffer holds, if that is enough; the slow path of both transports gives nothing.\<close>

definition Buffered_borrow :: "u32 \<Rightarrow> 's TBufferedTransport \<Rightarrow> (nat \<times> u32) option" where
  "Buffered_borrow len b =
     (if int (unat len) \<le> int (b_rBound b) - int (b_rBase b) then Some (b_rBase b, of_nat (b_rBound b - b_rBase b)) else None)"

definition Buffered_consume :: "u32 \<Rightarrow> 's TBufferedTransport \<Rightarrow> 's TBufferedTransport option" where
  "Buffered_consume len b =
     (if int (unat len) \<le> int (b_rBound b) - int (b_rBase b) then Some (b\<lparr>b_rBase := b_rBase b + unat len\<rparr>) else None)"

definition Buffered_close :: "'s ttransport \<Rightarrow> 's TBufferedTransport \<Rightarrow> 's TBufferedTransport option" where
  "Buffered_close T b = do { b \<leftarrow> Buffered_flush T b; t \<leftarrow> t_close T (b_transport b); Some (b\<lparr>b_transport := t\<rparr>) }"

text \<open>A size larger than the array writes behind it: 600 bytes that arrive at once.\<close>

lemma buffered_overrun:
  assumes "t_read T 1024 t = Some (got, t')" and "512 < length got"
  shows "Buffered_read T 1 (TBufferedTransport_sized t 1024 1024) = None"
  using assms by (simp add: Buffered_read_def Buffered_readSlow_def TBufferedTransport_sized_def b_refill_def mem_write_def DEFAULT_BUFFER_SIZE_def)

section \<open>The framed transport\<close>

record 's TFramedTransport =
  f_transport :: 's
  f_rBufSize :: u32
  f_wBufSize :: u32
  f_rBuf :: "byte list"
  f_wBuf :: "byte list"
  f_rBase :: nat
  f_rBound :: nat
  f_wBase :: nat
  f_wBound :: nat
  f_bufReclaimThresh :: u32

definition vec_write :: "nat \<Rightarrow> byte list \<Rightarrow> byte list \<Rightarrow> byte list option" where
  "vec_write off bs v = (if off + length bs \<le> length v then Some (take off v @ bs @ drop (off + length bs) v) else None)"

definition resize :: "nat \<Rightarrow> byte list \<Rightarrow> byte list" where
  "resize n v = take n v @ replicate (n - length v) 0"

text \<open>\<open>htonl\<close> and \<open>ntohl\<close>, as bytes in memory.\<close>

definition be_bytes :: "u32 \<Rightarrow> byte list" where
  "be_bytes w = rev (le_bytes 4 w)"

definition be_word :: "byte list \<Rightarrow> u32" where
  "be_word bs = le_word (rev bs)"

partial_function (option) double_until :: "u32 \<Rightarrow> u32 \<Rightarrow> u32 option" where
  "double_until need new_size =
     (if need \<le> new_size then Some new_size
      else double_until need (if 0 < new_size then new_size * 2 else 1))"

definition Framed_writeSlow :: "byte list \<Rightarrow> 's TFramedTransport \<Rightarrow> 's TFramedTransport option" where
  "Framed_writeSlow buf f =
     (let held = of_nat (f_wBase f) :: u32; len = of_nat (length buf) :: u32
      in if len + held < held \<or> 0x7fffffff < len + held then None
         else do { new_size \<leftarrow> double_until (len + held) (f_wBufSize f);
                   old \<leftarrow> mem_read 0 (unat held) (f_wBuf f);
                   new_buf \<leftarrow> vec_write 0 old (replicate (unat new_size) 0);
                   new_buf \<leftarrow> vec_write (unat held) buf new_buf;
                   Some (f\<lparr>f_wBuf := new_buf, f_wBufSize := new_size, f_wBound := unat new_size,
                           f_wBase := unat held + length buf\<rparr>) })"

definition Framed_write :: "byte list \<Rightarrow> 's TFramedTransport \<Rightarrow> 's TFramedTransport option" where
  "Framed_write buf f =
     (if f_wBase f + length buf \<le> f_wBound f
      then do { v \<leftarrow> vec_write (f_wBase f) buf (f_wBuf f); Some (f\<lparr>f_wBuf := v, f_wBase := f_wBase f + length buf\<rparr>) }
      else Framed_writeSlow buf f)"

definition TFramedTransport_sized :: "'s \<Rightarrow> u32 \<Rightarrow> u32 \<Rightarrow> 's TFramedTransport option" where
  "TFramedTransport_sized t sz thresh =
     Framed_write [0, 0, 0, 0]
       \<lparr>f_transport = t, f_rBufSize = 0, f_wBufSize = sz, f_rBuf = [], f_wBuf = replicate (unat sz) 0,
        f_rBase = 0, f_rBound = 0, f_wBase = 0, f_wBound = unat sz, f_bufReclaimThresh = thresh\<rparr>"

definition TFramedTransport_new :: "'s \<Rightarrow> 's TFramedTransport option" where
  "TFramedTransport_new t = TFramedTransport_sized t DEFAULT_BUFFER_SIZE 0xffffffff"

text \<open>The end of \<open>flush\<close>: a large write buffer is given back.\<close>

definition reclaim :: "'s TFramedTransport \<Rightarrow> 's TFramedTransport" where
  "reclaim f =
     (if f_bufReclaimThresh f < f_wBufSize f
      then f\<lparr>f_wBufSize := DEFAULT_BUFFER_SIZE, f_wBuf := resize (unat DEFAULT_BUFFER_SIZE) (f_wBuf f),
             f_wBound := unat DEFAULT_BUFFER_SIZE, f_wBase := 4\<rparr>
      else f)"

definition Framed_flush :: "'s ttransport \<Rightarrow> 's TFramedTransport \<Rightarrow> 's TFramedTransport option" where
  "Framed_flush T f =
     (if \<not> 4 < f_wBufSize f then None
      else let sz = of_nat (f_wBase f) - 4 :: u32
           in do { v \<leftarrow> vec_write 0 (be_bytes sz) (f_wBuf f);
                   let f = f\<lparr>f_wBuf := v\<rparr>;
                   f \<leftarrow> (if 0 < sint sz
                        then do { bs \<leftarrow> mem_read 0 (unat (4 + sz)) (f_wBuf f);
                                  t \<leftarrow> t_write T bs (f_transport f);
                                  Some (f\<lparr>f_wBase := 4, f_transport := t\<rparr>) }
                        else Some f);
                   t \<leftarrow> t_flush T (f_transport f);
                   Some (reclaim (f\<lparr>f_transport := t\<rparr>)) })"

text \<open>
  \<open>readFrame\<close>: the loop over the four bytes of the size is the one of \<open>readAll\<close>, and ends differently.  What
  \<open>readAll\<close> returns for the payload is not looked at.
\<close>

definition readFrame :: "'s ttransport \<Rightarrow> 's TFramedTransport \<Rightarrow> (bool \<times> 's TFramedTransport) option" where
  "readFrame T f =
     do { (k, szp, t) \<leftarrow> readAll_loop (t_read T) 4 [] (f_transport f);
          let f = f\<lparr>f_transport := t\<rparr>;
          if k = 0 then (if szp = [] then Some (False, f) else None)
          else do { let sz = be_word szp;
                    if sint sz < 0 then None
                    else do { let f = (if sint (f_rBufSize f) < sint sz
                                       then f\<lparr>f_rBuf := resize (unat sz) (f_rBuf f), f_rBufSize := sz\<rparr> else f);
                              (_, bs, t) \<leftarrow> t_readAll T sz (f_transport f);
                              v \<leftarrow> vec_write 0 bs (f_rBuf f);
                              Some (True, f\<lparr>f_transport := t, f_rBuf := v, f_rBase := 0, f_rBound := unat sz\<rparr>) } } }"

definition Framed_readSlow :: "'s ttransport \<Rightarrow> u32 \<Rightarrow> 's TFramedTransport \<Rightarrow> (byte list \<times> 's TFramedTransport) option" where
  "Framed_readSlow T len f =
     (let held = of_nat (f_rBound f - f_rBase f) :: u32
      in if \<not> held < len then None
         else if 0 < held
         then do { bs \<leftarrow> mem_read (f_rBase f) (unat held) (f_rBuf f); Some (bs, f\<lparr>f_rBase := 0, f_rBound := 0\<rparr>) }
         else do { (ok, f) \<leftarrow> readFrame T f;
                   if \<not> ok then Some ([], f)
                   else do { let give = min len (of_nat (f_rBound f - f_rBase f));
                             bs \<leftarrow> mem_read (f_rBase f) (unat give) (f_rBuf f);
                             Some (bs, f\<lparr>f_rBase := f_rBase f + unat give\<rparr>) } })"

definition Framed_read :: "'s ttransport \<Rightarrow> u32 \<Rightarrow> 's TFramedTransport \<Rightarrow> (byte list \<times> 's TFramedTransport) option" where
  "Framed_read T len f =
     (if f_rBase f + unat len \<le> f_rBound f
      then do { bs \<leftarrow> mem_read (f_rBase f) (unat len) (f_rBuf f); Some (bs, f\<lparr>f_rBase := f_rBase f + unat len\<rparr>) }
      else Framed_readSlow T len f)"

definition Framed_readAll :: "'s ttransport \<Rightarrow> u32 \<Rightarrow> 's TFramedTransport \<Rightarrow> (nat \<times> byte list \<times> 's TFramedTransport) option" where
  "Framed_readAll T len f =
     (if f_rBase f + unat len \<le> f_rBound f
      then do { bs \<leftarrow> mem_read (f_rBase f) (unat len) (f_rBuf f);
                Some (unat len, bs, f\<lparr>f_rBase := f_rBase f + unat len\<rparr>) }
      else readAll_loop (Framed_read T) (unat len) [] f)"

definition Framed_borrow :: "u32 \<Rightarrow> 's TFramedTransport \<Rightarrow> (nat \<times> u32) option" where
  "Framed_borrow len f =
     (if int (unat len) \<le> int (f_rBound f) - int (f_rBase f) then Some (f_rBase f, of_nat (f_rBound f - f_rBase f)) else None)"

definition Framed_consume :: "u32 \<Rightarrow> 's TFramedTransport \<Rightarrow> 's TFramedTransport option" where
  "Framed_consume len f =
     (if int (unat len) \<le> int (f_rBound f) - int (f_rBase f) then Some (f\<lparr>f_rBase := f_rBase f + unat len\<rparr>) else None)"

definition Framed_readEnd :: "'s TFramedTransport \<Rightarrow> u32 \<times> 's TFramedTransport" where
  "Framed_readEnd f =
     (let bytes_read = of_nat (f_rBound f + 4)
      in (bytes_read, if f_bufReclaimThresh f < f_rBufSize f
                      then f\<lparr>f_rBufSize := 0, f_rBuf := [], f_rBase := 0, f_rBound := 0\<rparr> else f))"

definition Framed_writeEnd :: "'s TFramedTransport \<Rightarrow> u32" where
  "Framed_writeEnd f = of_nat (f_wBase f)"

definition Framed_peek :: "'s ttransport \<Rightarrow> 's TFramedTransport \<Rightarrow> (bool \<times> 's TFramedTransport) option" where
  "Framed_peek T f =
     (if f_rBase f < f_rBound f then Some (True, f)
      else do { (p, t) \<leftarrow> t_peek T (f_transport f); Some (p, f\<lparr>f_transport := t\<rparr>) })"

definition Framed_close :: "'s ttransport \<Rightarrow> 's TFramedTransport \<Rightarrow> 's TFramedTransport option" where
  "Framed_close T f = do { f \<leftarrow> Framed_flush T f; t \<leftarrow> t_close T (f_transport f); Some (f\<lparr>f_transport := t\<rparr>) }"


section \<open>A buffered source is a source\<close>

lemma mem_init_take: "mem_init off n m = Some bs \<Longrightarrow> k \<le> n \<Longrightarrow> mem_init off k m = Some (take k bs)"
  unfolding mem_init_Some_iff by (metis add_le_mono1 le_trans min.absorb1 nat_add_left_cancel_le take_map take_take)

lemma mem_init_drop: "mem_init off n m = Some bs \<Longrightarrow> k \<le> n \<Longrightarrow> mem_init (off + k) (n - k) m = Some (drop k bs)"
  unfolding mem_init_Some_iff by (simp add: drop_map [symmetric] drop_take [symmetric] add.commute) (metis drop_drop drop_map drop_take)

lemma mem_init_length: "mem_init off n m = Some bs \<Longrightarrow> length bs = n"
  unfolding mem_init_Some_iff by (metis length_map length_take length_drop add_le_imp_le_diff add.commute min.absorb2)

lemma mem_write_init: "mem_write off bs m = Some m' \<Longrightarrow> mem_init off (length bs) m' = Some bs"
  by (auto simp: mem_write_def mem_init_Some_iff split: if_splits)

lemma mem_write_keeps:
  "mem_write off bs m = Some m' \<Longrightarrow> mem_init lo n m = Some xs \<Longrightarrow> lo + n \<le> off \<Longrightarrow> mem_init lo n m' = Some xs"
  by (auto simp: mem_write_def mem_init_Some_iff drop_take min_def split: if_splits)

lemma mem_init_append:
  assumes "mem_init off n m = Some xs" and "mem_init (off + n) k m = Some ys"
  shows "mem_init off (n + k) m = Some (xs @ ys)"
proof -
  have "take (n + k) (drop off m) = take n (drop off m) @ take k (drop (off + n) m)"
    by (simp only: take_add drop_drop add.commute [of n off])
  then show ?thesis using assms unfolding mem_init_Some_iff by simp
qed

lemma mem_init_0: "off \<le> length m \<Longrightarrow> mem_init off 0 m = Some []"
  by (simp add: mem_init_def)

definition b_rest :: "'s TBufferedTransport \<Rightarrow> byte list option" where
  "b_rest b = mem_init (b_rBase b) (b_rBound b - b_rBase b) (b_rBuf b)"

definition b_avail :: "('s \<Rightarrow> byte list) \<Rightarrow> 's TBufferedTransport \<Rightarrow> byte list" where
  "b_avail avail b = the (b_rest b) @ avail (b_transport b)"

definition b_source_ok :: "('s \<Rightarrow> bool) \<Rightarrow> 's TBufferedTransport \<Rightarrow> bool" where
  "b_source_ok invar b \<longleftrightarrow> invar (b_transport b) \<and> 0 < b_rBufSize b \<and> b_rBufSize b \<le> DEFAULT_BUFFER_SIZE \<and>
     length (b_rBuf b) = unat DEFAULT_BUFFER_SIZE \<and> b_rBase b \<le> b_rBound b \<and> b_rBound b \<le> unat DEFAULT_BUFFER_SIZE \<and> b_rest b \<noteq> None"

locale transport_source = byte_source "t_read T" avail invar
  for T :: "'s ttransport" and avail :: "'s \<Rightarrow> byte list" and invar :: "'s \<Rightarrow> bool" +
  assumes readAll_law: "invar s \<Longrightarrow> unat n \<le> length (avail s) \<Longrightarrow>
    \<exists>s'. t_readAll T n s = Some (unat n, take (unat n) (avail s), s') \<and> invar s' \<and> avail s' = drop (unat n) (avail s)"
begin

lemma refill_ok:
  assumes "b_source_ok invar b" and "b_rBound b = b_rBase b"
  shows "\<exists>b' got. b_refill T b = Some b' \<and> b_source_ok invar b' \<and> b_rest b' = Some got \<and>
    b_avail avail b' = b_avail avail b \<and> (got = [] \<longrightarrow> avail (b_transport b) = []) \<and> b_rBase b' = 0 \<and> b_rBound b' = length got"
proof -
  have i: "invar (b_transport b)" "0 < b_rBufSize b" "b_rBufSize b \<le> DEFAULT_BUFFER_SIZE" "length (b_rBuf b) = unat DEFAULT_BUFFER_SIZE"
    "b_rest b = Some []"
    using assms by (auto simp: b_source_ok_def b_rest_def mem_init_def)
  from rd_prefix [OF i(1), of "b_rBufSize b"] obtain got t where
    r: "t_read T (b_rBufSize b) (b_transport b) = Some (got, t)" "invar t" "avail (b_transport b) = got @ avail t"
    "length got \<le> unat (b_rBufSize b)" "got = [] \<longrightarrow> b_rBufSize b = 0 \<or> avail (b_transport b) = []" by blast
  have fits: "length got \<le> unat DEFAULT_BUFFER_SIZE" using r(4) i(3) by (simp add: word_le_nat_alt)
  then obtain m where m: "mem_write 0 got (b_rBuf b) = Some m" using i(4) by (simp add: mem_write_def)
  have "length m = unat DEFAULT_BUFFER_SIZE" using mem_write_length [OF m] i(4) by simp
  then show ?thesis using r m i fits mem_write_init [OF m]
    by (auto simp: b_refill_def b_source_ok_def b_rest_def b_avail_def)
qed

lemma buffered_advance:
  assumes "b_source_ok invar b" and "b_rest b = Some xs" and "n \<le> length xs"
  shows "b_source_ok invar (b\<lparr>b_rBase := b_rBase b + n\<rparr>)" and "b_rest (b\<lparr>b_rBase := b_rBase b + n\<rparr>) = Some (drop n xs)"
proof -
  have l: "length xs = b_rBound b - b_rBase b" using assms(2) mem_init_length by (auto simp: b_rest_def)
  with mem_init_drop [OF assms(2) [unfolded b_rest_def], of n] assms(3)
  show r: "b_rest (b\<lparr>b_rBase := b_rBase b + n\<rparr>) = Some (drop n xs)" by (simp add: b_rest_def)
  show "b_source_ok invar (b\<lparr>b_rBase := b_rBase b + n\<rparr>)"
    using assms l r by (auto simp: b_source_ok_def)
qed

lemma buffered_read_prefix:
  assumes "b_source_ok invar b"
  shows "\<exists>bs b'. Buffered_read T n b = Some (bs, b') \<and> b_source_ok invar b' \<and> b_avail avail b = bs @ b_avail avail b' \<and>
    length bs \<le> unat n \<and> (bs = [] \<longrightarrow> n = 0 \<or> b_avail avail b = [])"
proof -
  from assms obtain xs where xs: "b_rest b = Some xs" by (auto simp: b_source_ok_def)
  have l: "length xs = b_rBound b - b_rBase b" using xs mem_init_length by (auto simp: b_rest_def)
  have o: "b_rBase b \<le> b_rBound b" "b_rBound b \<le> 512" "length (b_rBuf b) = 512"
    using assms by (auto simp: b_source_ok_def DEFAULT_BUFFER_SIZE_def)
  show ?thesis
  proof (cases "b_rBase b + unat n \<le> b_rBound b")
    case True
    with o l have "unat n \<le> length xs" by simp
    with True buffered_advance [OF assms xs this] mem_init_take [OF xs [unfolded b_rest_def], of "unat n"] xs l
    show ?thesis by (auto simp: Buffered_read_def b_avail_def unat_eq_0)
  next
    case False
    let ?held = "of_nat (b_rBound b - b_rBase b) :: u32"
    have held: "unat ?held = length xs" unfolding l using o by (intro u32_unat_of_nat) simp
    have lt: "?held < n" using held l False o by (simp add: word_less_nat_alt del: of_nat_diff)
    show ?thesis
    proof (cases "xs = []")
      case False
      have "b_source_ok invar (b\<lparr>b_rBase := 0, b_rBound := 0\<rparr>)" "b_rest (b\<lparr>b_rBase := 0, b_rBound := 0\<rparr>) = Some []"
        using assms by (auto simp: b_source_ok_def b_rest_def mem_init_0)
      moreover have "0 < ?held" using held False by (simp add: word_less_nat_alt del: of_nat_diff)
      moreover have "length xs < unat n" using lt held by (simp add: word_less_nat_alt)
      ultimately show ?thesis using \<open>\<not> b_rBase b + unat n \<le> b_rBound b\<close> lt held xs False l
        by (simp add: Buffered_read_def Buffered_readSlow_def Let_def b_rest_def b_avail_def del: of_nat_diff)
    next
      case True
      then have "?held = 0" using held by (simp add: unat_eq_0 del: of_nat_diff)
      moreover have "b_rBound b = b_rBase b" using True l o by simp
      from refill_ok [OF assms this] obtain b' got where b': "b_refill T b = Some b'" "b_source_ok invar b'" "b_rest b' = Some got"
        "b_avail avail b' = b_avail avail b" "got = [] \<longrightarrow> avail (b_transport b) = []" "b_rBase b' = 0" "b_rBound b' = length got" by blast
      have "length got \<le> 512" using b'(2,7) by (simp add: b_source_ok_def DEFAULT_BUFFER_SIZE_def)
      then have g: "unat (of_nat (length got) :: u32) = length got" by (intro u32_unat_of_nat) simp
      define give where "give = min n (of_nat (length got))"
      have give: "unat give = min (unat n) (length got)" unfolding give_def using g by (simp add: min_def word_le_nat_alt)
      have adv: "b_source_ok invar (b'\<lparr>b_rBase := unat give\<rparr>)" "b_rest (b'\<lparr>b_rBase := unat give\<rparr>) = Some (drop (unat give) got)"
        using buffered_advance [OF b'(2,3), of "unat give"] b'(6) give by simp_all
      have tk: "mem_init 0 (unat give) (b_rBuf b') = Some (take (unat give) got)"
        using mem_init_take [OF b'(3) [unfolded b_rest_def], of "unat give"] b'(6,7) give by simp
      have av: "b_avail avail b = got @ avail (b_transport b')" using b'(3,4) by (simp add: b_avail_def)
      have av0: "b_avail avail b = avail (b_transport b)" using xs True by (simp add: b_avail_def)
      have "Buffered_read T n b = Some (take (unat give) got, b'\<lparr>b_rBase := unat give\<rparr>)"
        using \<open>\<not> b_rBase b + unat n \<le> b_rBound b\<close> lt \<open>?held = 0\<close> b'(1,6,7) tk
        by (simp add: Buffered_read_def Buffered_readSlow_def Let_def give_def)
      moreover have "b_avail avail (b'\<lparr>b_rBase := unat give\<rparr>) = drop (unat give) got @ avail (b_transport b')"
        using adv(2) by (simp add: b_avail_def)
      moreover have "n = 0 \<or> b_avail avail b = []" if "take (unat give) got = []"
        using that give b'(5) av0 by (auto simp: min_def unat_eq_0 split: if_splits)
      ultimately show ?thesis using adv(1) av give by simp
    qed
  qed
qed

end

sublocale transport_source \<subseteq> buffered: byte_source "Buffered_read T" "b_avail avail" "b_source_ok invar"
  by unfold_locales (rule buffered_read_prefix)

interpretation memory_in: transport_source memory_transport unread TMemoryBuffer_ok
proof (unfold_locales, goal_cases)
  case (1 s n)
  then show ?case using memory_read_prefix by (simp add: memory_transport_def)
next
  case (2 s n)
  then show ?case using readAll_queue [OF 2(1), of n] by (auto simp: memory_transport_def)
qed


section \<open>A buffered sink is a sink\<close>

definition b_pending :: "'s TBufferedTransport \<Rightarrow> byte list option" where
  "b_pending b = mem_init 0 (b_wBase b) (b_wBuf b)"

definition b_stored :: "('s \<Rightarrow> byte list) \<Rightarrow> 's TBufferedTransport \<Rightarrow> byte list" where
  "b_stored stored b = stored (b_transport b) @ the (b_pending b)"

definition b_room :: "('s \<Rightarrow> nat) \<Rightarrow> 's TBufferedTransport \<Rightarrow> nat" where
  "b_room room b = room (b_transport b) - b_wBase b"

definition b_sink_ok :: "('s \<Rightarrow> nat) \<Rightarrow> ('s \<Rightarrow> bool) \<Rightarrow> 's TBufferedTransport \<Rightarrow> bool" where
  "b_sink_ok room invar b \<longleftrightarrow> invar (b_transport b) \<and> b_wBound b = unat (b_wBufSize b) \<and> b_wBufSize b \<le> DEFAULT_BUFFER_SIZE \<and>
     length (b_wBuf b) = unat DEFAULT_BUFFER_SIZE \<and> b_wBase b \<le> b_wBound b \<and> b_pending b \<noteq> None \<and> b_wBase b \<le> room (b_transport b)"

locale transport_sink = byte_sink "t_write T" stored room invar
  for T :: "'s ttransport" and stored :: "'s \<Rightarrow> byte list" and room :: "'s \<Rightarrow> nat" and invar :: "'s \<Rightarrow> bool" +
  assumes flush_law: "invar s \<Longrightarrow> \<exists>s'. t_flush T s = Some s' \<and> invar s' \<and> stored s' = stored s \<and> room s' = room s"
    and room_bound: "invar s \<Longrightarrow> room s \<le> 2 ^ 31"
begin

lemma buffered_slow:
  assumes "b_sink_ok room invar b" and "length bs \<le> b_room room b" and "b_wBound b < b_wBase b + length bs"
  shows "\<exists>b'. Buffered_writeSlow T bs b = Some b' \<and> b_sink_ok room invar b' \<and> b_stored stored b' = b_stored stored b @ bs \<and>
    b_room room b' = b_room room b - length bs"
proof -
  have i: "invar (b_transport b)" "b_wBound b = unat (b_wBufSize b)" "unat (b_wBufSize b) \<le> 512" "length (b_wBuf b) = 512"
    "b_wBase b \<le> b_wBound b" "b_wBase b \<le> room (b_transport b)"
    using assms(1) by (auto simp: b_sink_ok_def DEFAULT_BUFFER_SIZE_def word_le_nat_alt)
  from assms(1) obtain pd where pd: "mem_init 0 (b_wBase b) (b_wBuf b) = Some pd" by (auto simp: b_sink_ok_def b_pending_def)
  have lpd: "length pd = b_wBase b" using mem_init_length [OF pd] by simp
  have rm: "b_wBase b + length bs \<le> room (b_transport b)" using assms(2) i(6) by (simp add: b_room_def)
  have big: "b_wBase b + length bs \<le> 2 ^ 31" using rm room_bound [OF i(1)] by simp
  let ?h = "of_nat (b_wBase b) :: u32" and ?l = "of_nat (length bs) :: u32"
  have u: "unat ?h = b_wBase b" "unat ?l = length bs" using big by (auto intro!: u32_unat_of_nat)
  have sum: "unat (?h + ?l) = b_wBase b + length bs" using u big by (simp add: unat_add_lem [THEN iffD1])
  have two: "unat (2 * b_wBufSize b) = 2 * unat (b_wBufSize b)" using i(3) by (simp add: unat_mult_lem [THEN iffD1])
  have guard: "2 * b_wBufSize b \<le> ?h + ?l \<or> ?h = 0 \<longleftrightarrow> 2 * b_wBound b \<le> b_wBase b + length bs \<or> b_wBase b = 0"
    unfolding word_le_nat_alt two sum i(2) unat_eq_0 [symmetric] u(1) by (rule refl)
  have slow: "b_wBound b - b_wBase b < length bs" using assms(3) i(5) by simp
  show ?thesis
  proof (cases "2 * b_wBound b \<le> b_wBase b + length bs \<or> b_wBase b = 0")
    case True
    from wr_append [OF i(1), of pd] lpd rm obtain t where t: "t_write T pd (b_transport b) = Some t" "invar t"
      "stored t = stored (b_transport b) @ pd" "room t = room (b_transport b) - b_wBase b" by auto
    obtain t' where t': "(if 0 < ?h then do { bs \<leftarrow> mem_init 0 (unat ?h) (b_wBuf b); t_write T bs (b_transport b) }
          else Some (b_transport b)) = Some t'" "invar t'" "stored t' = stored (b_transport b) @ pd"
      "room t' = room (b_transport b) - b_wBase b"
    proof (cases "b_wBase b = 0")
      case True
      then show ?thesis using that [of "b_transport b"] i(1) lpd by simp
    next
      case False
      then have "0 < ?h" using u(1) by (simp add: word_less_nat_alt)
      then show ?thesis using that [of t] t pd u(1) by simp
    qed
    have "length bs \<le> room t'" using t'(4) rm by simp
    from wr_append [OF t'(2) this] obtain t2 where t2: "t_write T bs t' = Some t2" "invar t2"
      "stored t2 = stored t' @ bs" "room t2 = room t' - length bs" by blast
    let ?b = "b\<lparr>b_transport := t2, b_wBase := 0\<rparr>"
    have "Buffered_writeSlow T bs b = Some ?b"
      unfolding Buffered_writeSlow_def Let_def guard using True slow t'(1) t2(1) by (simp del: of_nat_eq_0_iff)
    moreover have "b_pending ?b = Some []" by (simp add: b_pending_def mem_init_0)
    ultimately show ?thesis using t2 t'(3,4) pd i by (simp add: b_sink_ok_def b_stored_def b_pending_def b_room_def DEFAULT_BUFFER_SIZE_def word_le_nat_alt)
  next
    case False
    let ?space = "b_wBound b - b_wBase b"
    have sp: "length (take ?space bs) = ?space" using slow by simp
    then obtain m where m: "mem_write (b_wBase b) (take ?space bs) (b_wBuf b) = Some m"
      using i by (simp add: mem_write_def)
    have full: "mem_init 0 (unat (b_wBufSize b)) m = Some (pd @ take ?space bs)"
      using mem_init_append [OF mem_write_keeps [OF m pd], of ?space "take ?space bs"] mem_write_init [OF m] sp i(2,5) by simp
    have lm: "length m = 512" using mem_write_length [OF m] i(4) by simp
    have "b_wBound b \<le> room (b_transport b)" using rm slow i(5) by simp
    with wr_append [OF i(1), of "pd @ take ?space bs"] lpd sp slow obtain t where
      t: "t_write T (pd @ take ?space bs) (b_transport b) = Some t" "invar t" "stored t = stored (b_transport b) @ pd @ take ?space bs"
      "room t = room (b_transport b) - b_wBound b" using i(5) by auto
    have lr: "length (drop ?space bs) < unat (b_wBufSize b)" "length (drop ?space bs) \<le> 512" using False i by auto
    then obtain m' where m': "mem_write 0 (drop ?space bs) m = Some m'" using lm by (simp add: mem_write_def)
    let ?b = "b\<lparr>b_transport := t, b_wBuf := m', b_wBase := length (drop ?space bs)\<rparr>"
    have "Buffered_writeSlow T bs b = Some ?b"
      unfolding Buffered_writeSlow_def Let_def guard using False slow m full t(1) lr m' by simp
    moreover have "b_pending ?b = Some (drop ?space bs)" using mem_write_init [OF m'] by (simp add: b_pending_def)
    moreover have "length m' = 512" using mem_write_length [OF m'] lm by simp
    moreover have "length (drop ?space bs) \<le> room t" using t(4) rm i(5) slow by simp
    moreover have "room t - length (drop ?space bs) = b_room room b - length bs" using t(4) rm i(5) slow by (simp add: b_room_def)
    ultimately show ?thesis using t i lr pd
      by (intro exI [of _ ?b]) (simp add: b_sink_ok_def b_stored_def b_pending_def b_room_def DEFAULT_BUFFER_SIZE_def word_le_nat_alt)
  qed
qed

lemma buffered_write_append:
  assumes "b_sink_ok room invar b" and "length bs \<le> b_room room b"
  shows "\<exists>b'. Buffered_write T bs b = Some b' \<and> b_sink_ok room invar b' \<and> b_stored stored b' = b_stored stored b @ bs \<and>
    b_room room b' = b_room room b - length bs"
proof (cases "b_wBase b + length bs \<le> b_wBound b")
  case True
  have i: "b_wBound b \<le> length (b_wBuf b)" "b_wBase b \<le> room (b_transport b)"
    using assms(1) by (auto simp: b_sink_ok_def word_le_nat_alt)
  from assms(1) obtain pd where pd: "mem_init 0 (b_wBase b) (b_wBuf b) = Some pd" by (auto simp: b_sink_ok_def b_pending_def)
  from True i obtain m where m: "mem_write (b_wBase b) bs (b_wBuf b) = Some m" by (simp add: mem_write_def)
  have "mem_init 0 (b_wBase b + length bs) m = Some (pd @ bs)"
    using mem_init_append [OF mem_write_keeps [OF m pd], of "length bs" bs] mem_write_init [OF m] by simp
  then show ?thesis using True m pd assms i mem_write_length [OF m]
    by (simp add: Buffered_write_def b_sink_ok_def b_stored_def b_pending_def b_room_def)
next
  case False
  then show ?thesis using buffered_slow [OF assms] by (simp add: Buffered_write_def)
qed

lemma buffered_flush_stored:
  assumes "b_sink_ok room invar b"
  shows "\<exists>b'. Buffered_flush T b = Some b' \<and> b_sink_ok room invar b' \<and> stored (b_transport b') = b_stored stored b \<and> b_wBase b' = 0"
proof -
  have i: "invar (b_transport b)" "b_wBase b \<le> 512" "b_wBase b \<le> room (b_transport b)"
    using assms by (auto simp: b_sink_ok_def DEFAULT_BUFFER_SIZE_def word_le_nat_alt)
  from assms obtain pd where pd: "mem_init 0 (b_wBase b) (b_wBuf b) = Some pd" by (auto simp: b_sink_ok_def b_pending_def)
  have lpd: "length pd = b_wBase b" using mem_init_length [OF pd] by simp
  have u: "unat (of_nat (b_wBase b) :: u32) = b_wBase b" using i(2) by (intro u32_unat_of_nat) simp
  have pos: "0 < (of_nat (b_wBase b) :: u32) \<longleftrightarrow> 0 < b_wBase b" using u by (simp add: word_less_nat_alt)
  have keep: "b_sink_ok room invar (b\<lparr>b_wBase := 0, b_transport := t\<rparr>)" if "invar t" for t
    using assms that by (simp add: b_sink_ok_def b_pending_def mem_init_0)
  show ?thesis
  proof (cases "b_wBase b = 0")
    case True
    with flush_law [OF i(1)] pd keep assms lpd show ?thesis
      by (fastforce simp: Buffered_flush_def pos b_stored_def b_pending_def b_sink_ok_def)
  next
    case False
    from wr_append [OF i(1), of pd] lpd i(3) obtain t where t: "t_write T pd (b_transport b) = Some t" "invar t"
      "stored t = stored (b_transport b) @ pd" by auto
    from flush_law [OF t(2)] obtain t' where t': "t_flush T t = Some t'" "invar t'" "stored t' = stored t" by blast
    with False pd u t keep [OF t'(2)] show ?thesis
      by (simp add: Buffered_flush_def Let_def pos b_stored_def b_pending_def del: of_nat_eq_0_iff)
  qed
qed

end

sublocale transport_sink \<subseteq> buffered: byte_sink "Buffered_write T" "b_stored stored" "b_room room" "b_sink_ok room invar"
  by unfold_locales (rule buffered_write_append)

interpretation memory_out: transport_sink memory_transport unread memory_room TMemoryBuffer_owned
  by unfold_locales (auto simp: memory_transport_def memory_room_def dest: write_queue [unfolded memory_room_def])


section \<open>The file descriptor transport\<close>

text \<open>
  \<open>TFDTransport\<close> (TFDTransport.h and .cpp) over the calls of the system.  A read gives bytes or fails, and then tells
  whether it was interrupted; a write gives the number of bytes that were taken.
\<close>

record 'w fd_sys =
  sys_fd_read :: "int \<Rightarrow> u32 \<Rightarrow> 'w \<Rightarrow> (byte list + bool) \<times> 'w"
  sys_fd_write :: "int \<Rightarrow> byte list \<Rightarrow> 'w \<Rightarrow> int \<times> 'w"
  sys_fd_close :: "int \<Rightarrow> 'w \<Rightarrow> int \<times> 'w"

record TFDTransport =
  fdt_fd :: int
  close_on_destroy :: bool

definition fd_isOpen :: "TFDTransport \<Rightarrow> bool" where
  "fd_isOpen t \<longleftrightarrow> 0 \<le> fdt_fd t"

text \<open>A failed \<open>close\<close> is an assertion, unless an exception is on its way, which there is not.\<close>

definition TFDTransport_close :: "'w fd_sys \<Rightarrow> TFDTransport \<Rightarrow> 'w \<Rightarrow> (TFDTransport \<times> 'w) option" where
  "TFDTransport_close sys t w =
     (if \<not> fd_isOpen t then Some (t, w)
      else let (rv, w) = sys_fd_close sys (fdt_fd t) w in if rv < 0 then None else Some (t\<lparr>fdt_fd := -1\<rparr>, w))"

definition TFDTransport_destroy :: "'w fd_sys \<Rightarrow> TFDTransport \<Rightarrow> 'w \<Rightarrow> 'w option" where
  "TFDTransport_destroy sys t w = (if close_on_destroy t then map_option snd (TFDTransport_close sys t w) else Some w)"

definition maxRetries :: nat where "maxRetries = 5"

function fd_read_loop :: "'w fd_sys \<Rightarrow> int \<Rightarrow> u32 \<Rightarrow> nat \<Rightarrow> 'w \<Rightarrow> (byte list \<times> 'w) option" where
  "fd_read_loop sys fd len retries w =
     (case sys_fd_read sys fd len w of
        (Inl bs, w) \<Rightarrow> Some (bs, w)
      | (Inr interrupted, w) \<Rightarrow>
          if interrupted \<and> retries < maxRetries then fd_read_loop sys fd len (retries + 1) w else None)"
  by pat_completeness auto
termination by (relation "measure (\<lambda>(sys, fd, len, retries, w). maxRetries - retries)") auto

definition TFDTransport_read :: "'w fd_sys \<Rightarrow> u32 \<Rightarrow> TFDTransport \<Rightarrow> 'w \<Rightarrow> (byte list \<times> 'w) option" where
  "TFDTransport_read sys len t w = (if \<not> fd_isOpen t then Some ([], w) else fd_read_loop sys (fdt_fd t) len 0 w)"

function fd_write_loop :: "'w fd_sys \<Rightarrow> int \<Rightarrow> byte list \<Rightarrow> 'w \<Rightarrow> 'w option" where
  "fd_write_loop sys fd buf w =
     (if buf = [] then Some w
      else let (rv, w) = sys_fd_write sys fd buf w
           in if rv \<le> 0 \<or> int (length buf) < rv then None else fd_write_loop sys fd (drop (nat rv) buf) w)"
  by pat_completeness auto
termination by (relation "measure (\<lambda>(sys, fd, buf, w). length buf)") auto

declare fd_read_loop.simps [simp del] fd_write_loop.simps [simp del]

definition TFDTransport_write :: "'w fd_sys \<Rightarrow> byte list \<Rightarrow> TFDTransport \<Rightarrow> 'w \<Rightarrow> 'w option" where
  "TFDTransport_write sys buf t w = (if \<not> fd_isOpen t then Some w else fd_write_loop sys (fdt_fd t) buf w)"

text \<open>A blocking descriptor: each write takes some of the bytes.\<close>

locale fd_kernel =
  fixes sys :: "'w fd_sys" and taken :: "'w \<Rightarrow> byte list" and good :: "'w \<Rightarrow> bool"
  assumes write_some: "good w \<Longrightarrow> buf \<noteq> [] \<Longrightarrow>
    \<exists>k w'. sys_fd_write sys fd buf w = (int k, w') \<and> 0 < k \<and> k \<le> length buf \<and> good w' \<and> taken w' = taken w @ take k buf"
begin

lemma fd_write_all: "good w \<Longrightarrow> \<exists>w'. fd_write_loop sys fd buf w = Some w' \<and> good w' \<and> taken w' = taken w @ buf"
proof (induction "length buf" arbitrary: buf w rule: less_induct)
  case less
  show ?case
  proof (cases "buf = []")
    case True
    with less.prems show ?thesis by (subst fd_write_loop.simps) simp
  next
    case False
    from write_some [OF less.prems False] obtain k w1 where k: "sys_fd_write sys fd buf w = (int k, w1)" "0 < k" "k \<le> length buf"
      "good w1" "taken w1 = taken w @ take k buf" by blast
    have "length (drop k buf) < length buf" using k(2,3) by simp
    from less.hyps [OF this k(4)] k(5) obtain w' where
      "fd_write_loop sys fd (drop k buf) w1 = Some w'" "good w'" "taken w' = taken w @ buf" by auto
    with False k show ?thesis by (subst fd_write_loop.simps) simp
  qed
qed

end

text \<open>A pipe that takes at most 4096 bytes at a time.\<close>

definition pipe_sys :: "byte list fd_sys" where
  "pipe_sys =
     \<lparr>sys_fd_read = (\<lambda>_ n w. (Inl (take (unat n) w), drop (unat n) w)),
      sys_fd_write = (\<lambda>_ bs w. (int (min 4096 (length bs)), w @ take 4096 bs)),
      sys_fd_close = (\<lambda>_ w. (0, w))\<rparr>"

interpretation pipe: fd_kernel pipe_sys "\<lambda>w. w" "\<lambda>_. True"
proof (unfold_locales, goal_cases)
  case (1 w buf fd)
  then show ?case by (intro exI [of _ "min 4096 (length buf)"]) (simp add: pipe_sys_def min_def)
qed

lemma descriptor_write_all:
  assumes "fd_kernel sys taken good" and "good w" and "fd_isOpen t"
  shows "\<exists>w'. TFDTransport_write sys buf t w = Some w' \<and> taken w' = taken w @ buf"
  using fd_kernel.fd_write_all [OF assms(1,2)] assms(3) by (auto simp: TFDTransport_write_def)

text \<open>A read that is interrupted is tried again five times, a write not once.\<close>

lemma interrupted_read:
  assumes "\<And>w. sys_fd_read sys fd len w = (Inr True, w)"
  shows "fd_read_loop sys fd len 0 w = None"
  by (simp add: fd_read_loop.simps assms maxRetries_def numeral_eq_Suc)

end
