(* ===== verification/Thrift_Laws.thy ===== *)
theory Thrift_Laws
  imports Thrift_Compact
begin

unbundle bit_operations_syntax

text \<open>
  What the compact protocol promises: integers, strings, field headers and list headers
  are read back as they were written, an integer takes at most the bytes of the buffer
  it is put together in, and skipping ends.
\<close>

section \<open>Zigzag\<close>

lemma zigzag_inverse:
  fixes w :: "'a::len word"
  defines "z \<equiv> push_bit 1 w XOR signed_drop_bit (LENGTH('a) - 1) w"
  shows "drop_bit 1 z XOR (- (z AND 1)) = w"
proof -
  have s: "bit (signed_drop_bit (LENGTH('a) - 1) w) i \<longleftrightarrow> bit w (LENGTH('a) - 1)" if "i < LENGTH('a)" for i
    using that by (cases "i = 0") (auto simp: bit_simps)
  have "bit z 0 \<longleftrightarrow> bit w (LENGTH('a) - 1)"
    using s [of 0] unfolding z_def bit_xor_iff bit_push_bit_iff by simp
  then have "z AND 1 = of_bool (bit w (LENGTH('a) - 1))"
    by (simp only: and_one_eq mod_2_eq_odd bit_0)
  then have "- (z AND 1) = (if bit w (LENGTH('a) - 1) then - 1 else 0)" by simp
  then have m: "bit (- (z AND 1)) i \<longleftrightarrow> bit w (LENGTH('a) - 1)" if "i < LENGTH('a)" for i using that by simp
  show ?thesis
  proof (rule bit_word_eqI)
    fix i assume i: "i < LENGTH('a)"
    show "bit (drop_bit 1 z XOR - (z AND 1)) i = bit w i"
    proof (cases "Suc i < LENGTH('a)")
      case True
      have "bit z (Suc i) \<longleftrightarrow> bit w i \<noteq> bit w (LENGTH('a) - 1)"
        using True s [OF True] unfolding z_def bit_xor_iff bit_push_bit_iff by simp
      then show ?thesis using m [OF i] by (auto simp: bit_xor_iff bit_drop_bit_eq)
    next
      case False
      then have "i = LENGTH('a) - 1" "\<not> bit z (Suc i)" using i bit_imp_le_length [of z "Suc i"] by auto
      then show ?thesis using m [OF i] by (auto simp: bit_xor_iff bit_drop_bit_eq)
    qed
  qed
qed

abbreviation signed_range :: "nat \<Rightarrow> int \<Rightarrow> bool" where
  "signed_range n v \<equiv> - (2 ^ (n - 1)) \<le> v \<and> v < 2 ^ (n - 1)"

lemma zigzag_32: "signed_range 32 i \<Longrightarrow> zigzagToI32 (i32ToZigzag i) = i"
proof -
  assume i: "signed_range 32 i"
  have "LENGTH(32) - 1 = 31" by simp
  from zigzag_inverse [of "word_of_int i :: u32", unfolded this] i show ?thesis
    unfolding zigzagToI32_def i32ToZigzag_def Let_def by (simp only:) (simp add: signed_of_int signed_take_bit_int_eq_self)
qed

lemma zigzag_64: "signed_range 64 i \<Longrightarrow> zigzagToI64 (i64ToZigzag i) = i"
proof -
  assume i: "signed_range 64 i"
  have "LENGTH(64) - 1 = 63" by simp
  from zigzag_inverse [of "word_of_int i :: u64", unfolded this] i show ?thesis
    unfolding zigzagToI64_def i64ToZigzag_def Let_def by (simp only:) (simp add: signed_of_int signed_take_bit_int_eq_self)
qed

section \<open>Varints\<close>

lemma low_bits: "(0x7F :: 'a::len word) = mask 7"
  by (simp add: mask_eq_exp_minus_1)

lemma bit_0x7F: "bit (0x7F :: 'a::len word) i \<longleftrightarrow> i < 7 \<and> i < LENGTH('a)"
  unfolding low_bits by (auto simp: bit_simps)

lemma bit_0x80: "bit (0x80 :: 'a::len word) i \<longleftrightarrow> i = 7 \<and> i < LENGTH('a)"
proof -
  have "(0x80 :: 'a::len word) = 2 ^ 7" by simp
  then show ?thesis by (simp only: bit_exp_iff) auto
qed

lemma unat_drop_bit_7: "unat (drop_bit 7 n) = unat n div 128" for n :: "'a::len word"
  unfolding unat_drop_bit_eq [of 7 n] drop_bit_eq_div [of 7 "unat n"] by simp

lemma drop_bit_small: "drop_bit 7 n = 0 \<longleftrightarrow> unat n < 128" for n :: "'a::len word"
  unfolding unat_eq_0 [symmetric] unat_drop_bit_7 by (simp add: div_eq_0_iff)

lemma no_bits: "x = 0 \<longleftrightarrow> (\<forall>i. \<not> bit x i)" for x :: "'a::len word"
  by (auto intro: bit_word_eqI)

lemma last_byte: "n AND NOT 0x7F = 0 \<longleftrightarrow> unat n < 128" for n :: "'a::len word"
proof -
  have "bit (n AND NOT 0x7F) i = (7 \<le> i \<and> bit (drop_bit 7 n) (i - 7))" for i
    using bit_imp_le_length [of n i] unfolding bit_and_iff bit_not_iff bit_0x7F by (auto simp: bit_drop_bit_eq)
  then have "n AND NOT 0x7F = 0 \<longleftrightarrow> (\<forall>i\<ge>7. \<not> bit (drop_bit 7 n) (i - 7))"
    by (simp only: no_bits) blast
  also have "\<dots> \<longleftrightarrow> drop_bit 7 n = 0"
    unfolding no_bits by (metis add_diff_cancel_right' le_add2)
  finally show ?thesis by (simp only: drop_bit_small)
qed

lemma varint_unfold:
  "varint n = (if unat n < 128 then [ucast n] else ucast ((n AND 0x7F) OR 0x80) # varint (drop_bit 7 n))"
  for n :: "'a::len word"
  by (subst varint.simps) (simp only: last_byte)

lemma varint_induct:
  assumes "\<And>n. (\<not> unat n < 128 \<Longrightarrow> P (drop_bit 7 n)) \<Longrightarrow> P n"
  shows "P (n :: 'a::len word)"
  by (induction n rule: varint.induct) (metis assms last_byte)

text \<open>The buffer of \<open>writeVarint32\<close> has 5 bytes and that of \<open>writeVarint64\<close> 10.\<close>

lemma varint_length: "0 < k \<Longrightarrow> unat n < 2 ^ (7 * k) \<Longrightarrow> length (varint n) \<le> k" for n :: "'a::len word"
proof (induction n arbitrary: k rule: varint_induct)
  case (1 n)
  show ?case
  proof (cases "unat n < 128")
    case True
    with 1(2) show ?thesis by (simp add: varint_unfold [of n])
  next
    case False
    then have "1 < k" using 1(2, 3) by (cases "k = 1") auto
    then obtain m where k: "k = Suc m" "0 < m" by (cases k) auto
    have "unat (drop_bit 7 n) < 2 ^ (7 * m)" using 1(3) unfolding unat_drop_bit_7 k
      by (simp add: power_add less_mult_imp_div_less)
    with 1(1) [of m] False k show ?thesis by (simp add: varint_unfold [of n])
  qed
qed

lemma varint_nonempty [simp]: "varint n \<noteq> []"
  by (simp add: varint_unfold [of n])

lemma continued_byte:
  fixes n :: "'a::len word"
  assumes "8 \<le> LENGTH('a)"
  shows "(ucast ((n AND 0x7F) OR 0x80) :: byte) AND 0x80 \<noteq> 0"
    and "(ucast ((ucast ((n AND 0x7F) OR 0x80) :: byte) AND 0x7f) :: u64) = ucast (n AND 0x7F)"
proof -
  have "bit ((ucast ((n AND 0x7F) OR 0x80) :: byte) AND 0x80) 7"
    unfolding bit_and_iff bit_0x80 bit_ucast_iff bit_or_iff using assms by simp
  then show "(ucast ((n AND 0x7F) OR 0x80) :: byte) AND 0x80 \<noteq> 0" by (metis bit_0_eq bot_apply bot_bool_def)
  show "(ucast ((ucast ((n AND 0x7F) OR 0x80) :: byte) AND 0x7f) :: u64) = ucast (n AND 0x7F)"
    by (rule bit_word_eqI, unfold bit_and_iff bit_ucast_iff bit_or_iff bit_0x80 bit_0x7F) (use assms in auto)
qed

lemma small_bits: "unat n < 128 \<Longrightarrow> bit n i \<Longrightarrow> i < 7" for n :: "'a::len word"
proof (rule ccontr)
  assume "unat n < 128" "bit n i" "\<not> i < 7"
  then have "bit (drop_bit 7 n) (i - 7)" by (simp only: bit_drop_bit_eq) simp
  moreover have "drop_bit 7 n = 0" using \<open>unat n < 128\<close> by (simp only: drop_bit_small)
  ultimately show False by simp
qed

lemma last_byte_read:
  fixes n :: "'a::len word"
  assumes "unat n < 128"
  shows "(ucast n :: byte) AND 0x80 = 0" and "(ucast ((ucast n :: byte) AND 0x7f) :: u64) = ucast n"
proof -
  show "(ucast n :: byte) AND 0x80 = 0"
    by (rule bit_word_eqI, unfold bit_and_iff bit_ucast_iff bit_0x80) (use small_bits [OF assms] in auto)
  show "(ucast ((ucast n :: byte) AND 0x7f) :: u64) = ucast n"
    unfolding bit_eq_iff bit_and_iff bit_ucast_iff bit_0x7F using small_bits [OF assms] by fastforce
qed

lemma split_bits:
  "push_bit (7 * j) (ucast (n AND 0x7F) :: u64) OR push_bit (7 * Suc j) (ucast (drop_bit 7 n)) = push_bit (7 * j) (ucast n)"
  for n :: "'a::len word"
proof (rule bit_word_eqI)
  fix i assume "i < LENGTH(64)"
  show "bit (push_bit (7 * j) (ucast (n AND 0x7F) :: u64) OR push_bit (7 * Suc j) (ucast (drop_bit 7 n))) i =
      bit (push_bit (7 * j) (ucast n :: u64)) i"
    unfolding bit_or_iff bit_push_bit_iff bit_ucast_iff bit_and_iff bit_0x7F bit_drop_bit_eq comp_def
    using bit_imp_le_length [of n "i - 7 * j"] \<open>i < LENGTH(64)\<close> by (cases "i < 7 * j + 7") auto
qed

lemma read_varint_varint:
  fixes n :: "'a::len word"
  assumes "8 \<le> LENGTH('a)"
  shows "unat n < 2 ^ (64 - 7 * j) \<Longrightarrow> j \<le> 9 \<Longrightarrow>
    read_varint j val (varint n @ rest) = Some (val OR push_bit (7 * j) (ucast n), rest)"
proof (induction n arbitrary: j val rule: varint_induct)
  case (1 n)
  show ?case
  proof (cases "unat n < 128")
    case True
    then show ?thesis using last_byte_read [OF True] by (simp add: varint_unfold [of n] Let_def)
  next
    case False
    have "64 - 7 * j > 7" using False 1(2) power_increasing [of "64 - 7 * j" 7 "2 :: nat"] by (cases "64 - 7 * j \<le> 7") auto
    then have j: "j \<le> 8" by simp
    define m where "m = 57 - 7 * j"
    have m: "64 - 7 * j = m + 7" "64 - 7 * Suc j = m" using \<open>64 - 7 * j > 7\<close> by (simp_all add: m_def)
    have "unat (drop_bit 7 n) < 2 ^ (64 - 7 * Suc j)"
      using 1(2) unfolding unat_drop_bit_7 m by (simp add: power_add less_mult_imp_div_less)
    from 1(1) [OF False this] j have "read_varint (Suc j) v (varint (drop_bit 7 n) @ rest) =
        Some (v OR push_bit (7 * Suc j) (ucast (drop_bit 7 n)), rest)" for v
      by simp
    then show ?thesis
      using False j continued_byte [OF assms, of n] split_bits [of j n]
      by (simp only: varint_unfold [of n] if_False append_Cons read_varint.simps Let_def) (simp add: or.assoc)
  qed
qed


lemma unat_bound: "unat n < 2 ^ LENGTH('a)" for n :: "'a::len word"
  by (rule unsigned_less)

lemma unat_zero: "unat n = 0 \<longleftrightarrow> n = 0" for n :: "'a::len word"
  by (simp add: unsigned_eq_0_iff)

lemma ucast_ucast_32: "(ucast (ucast n :: u64) :: u32) = n"
  by (rule bit_word_eqI) (simp add: bit_ucast_iff)

lemma readVarint64_varint: "r_in r = varint n @ rest \<Longrightarrow> readVarint64 r = Some (n, r\<lparr>r_in := rest\<rparr>)"
  using read_varint_varint [of n 0 0 rest] unat_bound [of n] by (simp add: readVarint64_def)

lemma readVarint32_varint: "r_in r = varint n @ rest \<Longrightarrow> readVarint32 r = Some (n, r\<lparr>r_in := rest\<rparr>)"
proof -
  assume r: "r_in r = varint n @ rest"
  have "unat n < 2 ^ 64" using unat_bound [of n] by simp
  with r show ?thesis using read_varint_varint [of n 0 0 rest]
    by (simp add: readVarint32_def readVarint64_def ucast_ucast_32)
qed

lemma readI16_zigzag:
  "signed_range 16 i \<Longrightarrow> r_in r = varint (i32ToZigzag i) @ rest \<Longrightarrow> readI16 r = Some (i, r\<lparr>r_in := rest\<rparr>)"
  by (simp add: readI16_def readVarint32_varint zigzag_32 signed_of_int signed_take_bit_int_eq_self)

lemma readI32_zigzag:
  "signed_range 32 i \<Longrightarrow> r_in r = varint (i32ToZigzag i) @ rest \<Longrightarrow> readI32 r = Some (i, r\<lparr>r_in := rest\<rparr>)"
  by (simp add: readI32_def readVarint32_varint zigzag_32)

lemma readI64_zigzag:
  "signed_range 64 i \<Longrightarrow> r_in r = varint (i64ToZigzag i) @ rest \<Longrightarrow> readI64 r = Some (i, r\<lparr>r_in := rest\<rparr>)"
  by (simp add: readI64_def readVarint64_varint zigzag_64)

section \<open>Strings\<close>

definition enc_binary :: "byte list \<Rightarrow> byte list" where
  "enc_binary str = varint (of_nat (length str) :: u32) @ str"

lemma varint_length_32: "length (varint (n :: u32)) \<le> 5"
  by (rule varint_length) (use unat_bound [of n] in simp_all)

lemma varint_length_64: "length (varint (n :: u64)) \<le> 10"
  by (rule varint_length) (use unat_bound [of n] in simp_all)

lemma writeBinary_bytes:
  "length str < 2 ^ 31 \<Longrightarrow> writeBinary str w = Some (w\<lparr>w_out := w_out w @ enc_binary str\<rparr>)"
  using varint_length_32 [of "of_nat (length str)"]
  by (simp add: writeBinary_def enc_binary_def Let_def writeVarint32_def writeBytes_def)

lemma sint_of_nat_small: "n < 2 ^ 31 \<Longrightarrow> sint (of_nat n :: u32) = int n"
  by (simp add: signed_of_nat signed_take_bit_int_eq_self)

lemma unat_small: "n < 2 ^ 31 \<Longrightarrow> unat (of_nat n :: u32) = n"
  by (simp add: unsigned_of_nat take_bit_nat_eq_self)

lemma readBinary_bytes:
  "length str < 2 ^ 31 \<Longrightarrow> r_in r = enc_binary str @ rest \<Longrightarrow> readBinary r = Some (str, r\<lparr>r_in := rest\<rparr>)"
proof -
  assume n: "length str < 2 ^ 31" and r: "r_in r = enc_binary str @ rest"
  define ssize where "ssize = (of_nat (length str) :: u32)"
  have s: "\<not> sint ssize < 0" "unat ssize = length str"
    using sint_of_nat_small [OF n] unat_small [OF n] by (simp_all add: ssize_def)
  have "readVarint32 r = Some (ssize, r\<lparr>r_in := str @ rest\<rparr>)"
    using r by (simp add: readVarint32_varint enc_binary_def ssize_def)
  moreover have "ssize = 0 \<longleftrightarrow> str = []" using s(2) unat_zero [of ssize] by simp
  ultimately show ?thesis using s by (simp add: readBinary_def readAll_def)
qed

section \<open>Field headers\<close>

lemma bit_0x0F: "bit (0x0F :: byte) i \<longleftrightarrow> i < 4"
proof -
  have "(0x0F :: byte) = mask 4" by (simp add: mask_eq_exp_minus_1)
  then show ?thesis by (simp only: bit_mask_iff) auto
qed

lemma bit_0xF0: "bit (0xF0 :: byte) i \<longleftrightarrow> 4 \<le> i \<and> i < 8"
proof -
  have "(0xF0 :: byte) = NOT 0x0F" by simp
  then show ?thesis by (simp only: bit_not_iff bit_0x0F) auto
qed

lemma nibble_bits: "unat c < 16 \<Longrightarrow> bit c i \<Longrightarrow> i < 4" for c :: byte
proof (rule ccontr)
  assume c: "unat c < 16" "bit c i" "\<not> i < 4"
  have "unat (drop_bit 4 c) = 0" unfolding unat_drop_bit_eq [of 4 c] drop_bit_eq_div [of 4 "unat c"] using c(1) by simp
  moreover have "bit (drop_bit 4 c) (i - 4)" using c(2, 3) by (simp only: bit_drop_bit_eq) simp
  ultimately show False by (simp add: unat_zero)
qed

lemma nibble_low: "unat c < 16 \<Longrightarrow> (push_bit 4 d OR c) AND 0x0f = c" for c d :: byte
  by (rule bit_word_eqI, unfold bit_and_iff bit_or_iff bit_push_bit_iff bit_0x0F) (use nibble_bits [of c] in auto)

lemma nibble_high: "unat c < 16 \<Longrightarrow> unat d < 16 \<Longrightarrow> drop_bit 4 ((push_bit 4 d OR c) AND 0xf0) = d" for c d :: byte
  by (rule bit_word_eqI, unfold bit_and_iff bit_or_iff bit_push_bit_iff bit_drop_bit_eq comp_def bit_0xF0)
    (use nibble_bits [of c] nibble_bits [of d] in auto)

lemma nibble_alone: "unat c < 16 \<Longrightarrow> c AND 0x0f = c \<and> drop_bit 4 (c AND 0xf0) = 0" for c :: byte
  using nibble_low [of c 0] nibble_high [of c 0] by simp

lemma compact_type_nibble: "unat (getCompactType t) < 16" "getTType (getCompactType t) = Some t"
  by (cases t; simp add: getTType_def CT_BOOLEAN_TRUE_def CT_BOOLEAN_FALSE_def)+

lemma compact_type_plain:
  "t \<noteq> T_STOP \<Longrightarrow> t \<noteq> T_BOOL \<Longrightarrow>
    getCompactType t \<noteq> 0 \<and> getCompactType t \<noteq> CT_BOOLEAN_TRUE \<and> getCompactType t \<noteq> CT_BOOLEAN_FALSE"
  by (cases t) (simp_all add: CT_BOOLEAN_TRUE_def CT_BOOLEAN_FALSE_def)

text \<open>The header of a field whose predecessor in the structure had the id \<open>prev\<close>.\<close>

definition enc_header :: "int \<Rightarrow> int \<Rightarrow> byte \<Rightarrow> byte list" where
  "enc_header prev fid ct =
     (if prev < fid \<and> fid - prev \<le> 15 then [push_bit 4 (word_of_int (fid - prev)) OR ct]
      else ct # varint (i32ToZigzag fid))"

lemma enc_header_nonempty [simp]: "enc_header prev fid ct \<noteq> []"
  by (simp add: enc_header_def)

lemma writeFieldBeginInternal_bytes:
  "writeFieldBeginInternal t fid ov w =
     w\<lparr>w_lastFieldId := fid,
       w_out := w_out w @ enc_header (w_lastFieldId w) fid (case ov of None \<Rightarrow> getCompactType t | Some ct \<Rightarrow> ct)\<rparr>"
  by (simp add: writeFieldBeginInternal_def Let_def enc_header_def writeByte_def writeBytes_def writeI16_def writeVarint32_def)

text \<open>What the reader makes of the type in a header: a boolean field carries its value there.\<close>

definition header_bool :: "byte \<Rightarrow> cp_reader \<Rightarrow> cp_reader" where
  "header_bool ct r =
     (if ct = CT_BOOLEAN_TRUE \<or> ct = CT_BOOLEAN_FALSE then r\<lparr>r_boolValue := Some (ct = CT_BOOLEAN_TRUE)\<rparr> else r)"

lemma readFieldBegin_bytes:
  assumes "getTType ct = Some t" "unat ct < 16" "ct \<noteq> 0" "signed_range 16 fid"
    and r: "r_in r = enc_header (r_lastFieldId r) fid ct @ rest"
  shows "readFieldBegin r = Some ((t, fid), header_bool ct (r\<lparr>r_in := rest, r_lastFieldId := fid\<rparr>))"
proof (cases "r_lastFieldId r < fid \<and> fid - r_lastFieldId r \<le> 15")
  case True
  define d where "d = (word_of_int (fid - r_lastFieldId r) :: byte)"
  have u: "uint d = fid - r_lastFieldId r" using True unfolding d_def unsigned_of_int by (simp add: take_bit_int_eq_self)
  then have "unat d < 16" "d \<noteq> 0" using True by (auto simp: unat_eq_nat_uint)
  moreover have "sint (word_of_int (r_lastFieldId r + uint d) :: u16) = fid"
    using assms(4) u by (simp add: signed_of_int signed_take_bit_int_eq_self)
  moreover have "r_in r = (push_bit 4 d OR ct) # rest" using r True by (simp add: enc_header_def d_def)
  ultimately show ?thesis using assms(1-3) nibble_low [of ct d] nibble_high [of ct d]
    unfolding readFieldBegin_def readByte_def by (simp del: of_int_add add: header_bool_def)
next
  case False
  then have "r_in r = ct # varint (i32ToZigzag fid) @ rest" using r unfolding enc_header_def by (simp only: if_False append_Cons)
  then show ?thesis using assms(1-4) nibble_alone [of ct] readI16_zigzag [of fid "r\<lparr>r_in := varint (i32ToZigzag fid) @ rest\<rparr>" rest]
    unfolding readFieldBegin_def readByte_def by (simp add: header_bool_def)
qed

section \<open>List headers\<close>

definition enc_list_header :: "ttype \<Rightarrow> nat \<Rightarrow> byte list" where
  "enc_list_header t n =
     (if n \<le> 14 then [push_bit 4 (of_nat n) OR getCompactType t] else (0xf0 OR getCompactType t) # varint (of_nat n :: u32))"

lemma writeListBegin_bytes:
  "n < 2 ^ 31 \<Longrightarrow> writeListBegin t (of_nat n) w = w\<lparr>w_out := w_out w @ enc_list_header t n\<rparr>"
  by (simp add: writeListBegin_def writeCollectionBegin_def sint_of_nat_small enc_list_header_def writeByte_def writeBytes_def
      writeVarint32_def)

lemma nibble_shift: "unat c < 16 \<Longrightarrow> unat d < 16 \<Longrightarrow> drop_bit 4 (push_bit 4 d OR c) AND 0x0f = d" for c d :: byte
  by (rule bit_word_eqI, unfold bit_and_iff bit_or_iff bit_push_bit_iff bit_drop_bit_eq comp_def bit_0x0F)
    (use nibble_bits [of c] nibble_bits [of d] in auto)

lemma readListBegin_bytes:
  assumes n: "n < 2 ^ 31" and r: "r_in r = enc_list_header t n @ rest"
  shows "readListBegin r = Some ((t, n), r\<lparr>r_in := rest\<rparr>)"
proof (cases "n \<le> 14")
  case True
  define d where "d = (of_nat n :: byte)"
  have u: "unat d = n" using True by (simp add: d_def unsigned_of_nat take_bit_nat_eq_self)
  have "(ucast d :: u32) = of_nat n" using u by (metis of_nat_unat)
  moreover have "d \<noteq> 15" using True u by auto
  moreover have "r_in r = (push_bit 4 d OR getCompactType t) # rest" using r True by (simp add: enc_list_header_def d_def)
  ultimately show ?thesis
    using compact_type_nibble [of t] u True nibble_low [of "getCompactType t" d] nibble_shift [of "getCompactType t" d]
      sint_of_nat_small [OF n] unat_small [OF n]
    unfolding readListBegin_def readByte_def by simp
next
  case False
  have f: "(0xf0 :: byte) = push_bit 4 15" by simp
  have "r_in r = (push_bit 4 15 OR getCompactType t) # varint (of_nat n :: u32) @ rest"
    using r False unfolding enc_list_header_def f by simp
  then show ?thesis
    using compact_type_nibble [of t] nibble_low [of "getCompactType t" 15] nibble_shift [of "getCompactType t" 15]
      readVarint32_varint [of "r\<lparr>r_in := varint (of_nat n :: u32) @ rest\<rparr>" "of_nat n" rest] sint_of_nat_small [OF n] unat_small [OF n]
    unfolding readListBegin_def readByte_def by simp
qed

section \<open>Skipping ends\<close>

abbreviation r_len :: "cp_reader \<Rightarrow> nat" where
  "r_len r \<equiv> length (r_in r)"

lemma read_varint_consumes: "read_varint j val bs = Some (v, bs') \<Longrightarrow> length bs' < length bs"
  by (induction j val bs rule: read_varint.induct) (auto simp: Let_def less_SucI split: if_splits)

lemma readByte_consumes: "readByte r = Some (b, r') \<Longrightarrow> r_len r' < r_len r"
  by (auto simp: readByte_def split: list.splits)

lemma readVarint64_consumes: "readVarint64 r = Some (v, r') \<Longrightarrow> r_len r' < r_len r"
  by (auto simp: readVarint64_def dest: read_varint_consumes split: Option.bind_splits)

lemma readVarint32_consumes: "readVarint32 r = Some (v, r') \<Longrightarrow> r_len r' < r_len r"
  by (auto simp: readVarint32_def dest: readVarint64_consumes split: Option.bind_splits)

lemma readI_consumes:
  "readI16 r = Some (v, r') \<Longrightarrow> r_len r' < r_len r"
  "readI32 r = Some (v, r') \<Longrightarrow> r_len r' < r_len r"
  "readI64 r = Some (v, r') \<Longrightarrow> r_len r' < r_len r"
  by (auto simp: readI16_def readI32_def readI64_def dest: readVarint32_consumes readVarint64_consumes split: Option.bind_splits)

lemma readAll_consumes: "readAll n r = Some (bs, r') \<Longrightarrow> r_len r' \<le> r_len r"
  by (auto simp: readAll_def split: if_splits)

lemma readBool_consumes: "readBool r = Some (b, r') \<Longrightarrow> r_len r' \<le> r_len r"
  by (auto simp: readBool_def dest: readByte_consumes split: option.splits Option.bind_splits)

lemma readDouble_consumes: "readDouble r = Some (b, r') \<Longrightarrow> r_len r' \<le> r_len r"
  by (auto simp: readDouble_def dest: readAll_consumes split: Option.bind_splits)

lemma readBinary_consumes: "readBinary r = Some (bs, r') \<Longrightarrow> r_len r' < r_len r"
  by (auto simp: readBinary_def dest!: readVarint32_consumes readAll_consumes split: Option.bind_splits if_splits)

lemma readFieldBegin_consumes: "readFieldBegin r = Some (x, r') \<Longrightarrow> r_len r' < r_len r"
  by (auto simp: readFieldBegin_def Let_def dest!: readByte_consumes readI_consumes split: Option.bind_splits if_splits)

lemma readListBegin_consumes: "readListBegin r = Some (x, r') \<Longrightarrow> r_len r' < r_len r"
  by (auto simp: readListBegin_def Let_def dest!: readByte_consumes readVarint32_consumes split: Option.bind_splits if_splits)

lemma readMapBegin_consumes: "readMapBegin r = Some (x, r') \<Longrightarrow> r_len r' < r_len r"
  by (auto simp: readMapBegin_def Let_def dest!: readByte_consumes readVarint32_consumes split: Option.bind_splits if_splits)

lemma readStructEnd_len: "readStructEnd r = Some r' \<Longrightarrow> r_len r' = r_len r"
  by (auto simp: readStructEnd_def split: list.splits)

text \<open>Skipping from \<open>n\<close> bytes comes to an end and leaves no more than \<open>n\<close>.\<close>

definition skips :: "nat \<Rightarrow> skip_result \<Rightarrow> bool" where
  "skips n x = (case x of Done r \<Rightarrow> r_len r \<le> n | Bad \<Rightarrow> True | NoFuel \<Rightarrow> False)"

lemma skips_then: "skips n x \<Longrightarrow> (\<And>r. x = Done r \<Longrightarrow> r_len r \<le> n \<Longrightarrow> skips n (f r)) \<Longrightarrow> skips n (skip_then x f)"
  by (cases x) (auto simp: skips_def)

lemma skips_done_if: "(\<And>r. x = Some r \<Longrightarrow> r_len r \<le> n) \<Longrightarrow> skips n (done_if x)"
  by (cases x) (auto simp: skips_def done_if_def)

lemma skips_le: "skips n x \<Longrightarrow> n \<le> m \<Longrightarrow> skips m x"
  by (cases x) (auto simp: skips_def)

lemmas read_consumes = readByte_consumes readI_consumes readBool_consumes readDouble_consumes readBinary_consumes

lemma skip_ends:
  "r_len r < k \<Longrightarrow> skips (r_len r) (skip_value k t r)"
  "r_len r < k \<Longrightarrow> skips (r_len r) (skip_fields k r)"
  "r_len r < k \<Longrightarrow> skips (r_len r) (skip_elems k t n r)"
  "r_len r < k \<Longrightarrow> skips (r_len r) (skip_pairs k kt vt n r)"
proof (induction k t r and k r and k t n r and k kt vt n r
    rule: skip_value_skip_fields_skip_elems_skip_pairs.induct)
  case (1 k t r)
  note ih = 1(1-4) and len = 1(5)
  have plain: "skips (r_len r) (done_if (map_option snd x))"
    if "\<And>v r'. x = Some (v, r') \<Longrightarrow> r_len r' \<le> r_len r" for x :: "('v \<times> cp_reader) option"
    using that by (auto intro!: skips_done_if)
  have lists: "skips (r_len r) (case (k, readListBegin r) of
      (0, _) \<Rightarrow> NoFuel | (_, None) \<Rightarrow> Bad | (Suc k, Some ((et, n), r)) \<Rightarrow> skip_elems k et n r)" if "t = T_SET \<or> t = T_LIST"
    using that ih(3, 4) len
    by (fastforce simp: skips_def [of _ Bad] dest: readListBegin_consumes elim: skips_le split: nat.splits option.splits)
  have maps: "skips (r_len r) (case (k, readMapBegin r) of
      (0, _) \<Rightarrow> NoFuel | (_, None) \<Rightarrow> Bad | (Suc k, Some ((kt, vt, n), r)) \<Rightarrow> skip_pairs k kt vt n r)" if "t = T_MAP"
    using that ih(2) len
    by (fastforce simp: skips_def [of _ Bad] dest: readMapBegin_consumes elim: skips_le split: nat.splits option.splits)
  have fields: "skips (r_len r) (skip_fields k (readStructBegin r))" if "t = T_STRUCT"
    using ih(1) [OF that] len by (simp add: readStructBegin_def)
  show ?case
    using lists maps fields
    by (cases t)
      (auto simp: skip_value.simps [of k _ r] skips_def [of _ "Done r"] intro!: plain dest!: read_consumes)
next
  case (2 k r)
  show ?case
  proof (cases k)
    case (Suc j)
    show ?thesis
    proof (cases "readFieldBegin r")
      case None
      then show ?thesis using Suc by (simp add: skip_fields.simps [of "Suc j" r] skips_def)
    next
      case (Some x)
      obtain t i r' where x: "x = ((t, i), r')" by (metis surj_pair)
      have l: "r_len r' < r_len r" using readFieldBegin_consumes Some x by blast
      have "skips (r_len r') (if t = T_STOP then done_if (readStructEnd r') else skip_then (skip_value j t r') (skip_fields j))"
      proof (cases "t = T_STOP")
        case False
        have v: "skips (r_len r') (skip_value j t r')" using 2(1, 3) Suc Some x False l by simp
        moreover have "skips (r_len r') (skip_fields j ra)" if "skip_value j t r' = Done ra" "r_len ra \<le> r_len r'" for ra
          using 2(2, 3) Suc Some x False l that by (fastforce elim: skips_le)
        ultimately show ?thesis using False by (auto intro: skips_then)
      qed (auto intro!: skips_done_if dest: readStructEnd_len)
      from skips_le [OF this less_imp_le [OF l]] show ?thesis using Suc Some x by (simp add: skip_fields.simps [of "Suc j" r])
    qed
  qed (use 2 in simp)
next
  case (3 k t n r)
  show ?case
  proof (cases n)
    case (Suc m)
    have "skips (r_len r) (skip_elems k t m ra)" if "skip_value k t r = Done ra" "r_len ra \<le> r_len r" for ra
      using 3(2) [OF Suc that(1)] 3(3) that(2) by (auto elim: skips_le)
    then show ?thesis using 3(1) [OF Suc 3(3)] Suc by (auto simp: skip_elems.simps [of k t "Suc m" r] intro: skips_then)
  qed (simp add: skip_elems.simps [of k t 0 r] skips_def)
next
  case (4 k kt vt n r)
  show ?case
  proof (cases n)
    case (Suc m)
    have "skips (r_len r) (skip_then (skip_value k vt ra) (skip_pairs k kt vt m))"
      if a: "skip_value k kt r = Done ra" "r_len ra \<le> r_len r" for ra
    proof (rule skips_then)
      show "skips (r_len r) (skip_value k vt ra)" using 4(2) [OF Suc a(1)] 4(4) a(2) by (auto elim: skips_le)
      show "skips (r_len r) (skip_pairs k kt vt m rb)" if "skip_value k vt ra = Done rb" "r_len rb \<le> r_len r" for rb
        using 4(3) [OF Suc a(1) that(1)] 4(4) that(2) by (auto elim: skips_le)
    qed
    then show ?thesis using 4(1) [OF Suc 4(4)] Suc by (auto simp: skip_pairs.simps [of k kt vt "Suc m" r] intro: skips_then)
  qed (simp add: skip_pairs.simps [of k kt vt 0 r] skips_def)
qed

section \<open>Message headers\<close>

lemma message_type_byte:
  "unat t < 8 \<Longrightarrow> (signed_drop_bit TYPE_SHIFT_AMOUNT ((VERSION_N AND VERSION_MASK) OR (push_bit TYPE_SHIFT_AMOUNT t AND TYPE_MASK)) AND TYPE_BITS = t
    \<and> ((VERSION_N AND VERSION_MASK) OR (push_bit TYPE_SHIFT_AMOUNT t AND TYPE_MASK)) AND VERSION_MASK = VERSION_N)"
proof -
  assume "unat t < 8"
  then have "t \<in> set (map of_nat [0..<8])" by (auto simp: image_iff intro!: bexI [of _ "unat t"])
  moreover have "list_all (\<lambda>t. signed_drop_bit TYPE_SHIFT_AMOUNT ((VERSION_N AND VERSION_MASK) OR (push_bit TYPE_SHIFT_AMOUNT t AND TYPE_MASK)) AND TYPE_BITS = t
      \<and> ((VERSION_N AND VERSION_MASK) OR (push_bit TYPE_SHIFT_AMOUNT t AND TYPE_MASK)) AND VERSION_MASK = VERSION_N) (map of_nat [0..<8])"
    by code_simp
  ultimately show ?thesis by (auto simp: list_all_iff)
qed

text \<open>The header of a message is read as it was written.\<close>

lemma message_header_roundtrip:
  assumes "length name < 2 ^ 31" "unat t < 8" "writeMessageBegin name t seqid writer_new = Some w"
  shows "readMessageBegin (reader_new (w_out w @ rest)) = Some ((name, t, seqid), reader_new rest)"
proof -
  let ?b = "(VERSION_N AND VERSION_MASK) OR (push_bit TYPE_SHIFT_AMOUNT t AND TYPE_MASK)"
  have w: "w_out w = [PROTOCOL_ID, ?b] @ varint seqid @ enc_binary name"
    using assms(1, 3) by (simp add: writeMessageBegin_def writeBinary_bytes writeByte_def writeVarint32_def writeBytes_def writer_new_def)
      (auto simp: writer_new_def)
  have "readVarint32 (reader_new (varint seqid @ enc_binary name @ rest)) = Some (seqid, reader_new (enc_binary name @ rest))"
    by (subst readVarint32_varint [of _ seqid "enc_binary name @ rest"]) (simp_all add: reader_new_def)
  moreover have "readBinary (reader_new (enc_binary name @ rest)) = Some (name, reader_new rest)"
    using readBinary_bytes [OF assms(1), of "reader_new (enc_binary name @ rest)" rest] by (simp add: reader_new_def)
  ultimately show ?thesis
    using message_type_byte [OF assms(2)] unfolding w readMessageBegin_def readByte_def by (simp add: reader_new_def)
qed

end
