(* ===== verification/Thrift_Framed.thy ===== *)
theory Thrift_Framed
  imports Thrift_Transport Thrift_Laws
begin

text \<open>
  Correctness of the framed transport of Thrift and of the buffered one in use: what is written to
  one framed transport and flushed, message by message, is what another one reads from the same
  underlying transport.
\<close>

definition frame_bytes :: "byte list \<Rightarrow> byte list" where
  "frame_bytes p = be_bytes (of_nat (length p)) @ p"

lemma length_be_bytes [simp]: "length (be_bytes w) = 4"
  by (simp add: be_bytes_def)

lemma be_word_be_bytes [simp]: "be_word (be_bytes w) = w"
  by (simp add: be_word_def be_bytes_def)

section \<open>Writing frames\<close>

definition f_pending :: "'s TFramedTransport \<Rightarrow> byte list" where
  "f_pending f = drop 4 (take (f_wBase f) (f_wBuf f))"

definition f_sink_ok :: "'s TFramedTransport \<Rightarrow> bool" where
  "f_sink_ok f \<longleftrightarrow> 4 \<le> f_wBase f \<and> f_wBase f \<le> f_wBound f \<and> f_wBound f = unat (f_wBufSize f) \<and>
     length (f_wBuf f) = f_wBound f \<and> 4 < f_wBound f \<and> f_wBase f \<le> 0x7fffffff"

definition f_room :: "'s TFramedTransport \<Rightarrow> nat" where
  "f_room f = 0x7fffffff - f_wBase f"

lemma length_f_pending: "f_sink_ok f \<Longrightarrow> length (f_pending f) = f_wBase f - 4"
  by (simp add: f_sink_ok_def f_pending_def)

lemma double_until_ends:
  assumes "unat need \<le> 2 ^ 31"
  shows "\<exists>k. double_until need n = Some k \<and> need \<le> k \<and> n \<le> k"
proof (induction "unat need - unat n" arbitrary: n rule: less_induct)
  case less
  show ?case
  proof (cases "need \<le> n")
    case True
    then show ?thesis by (subst double_until.simps) simp
  next
    case False
    then have short: "unat n < unat need" by (simp add: word_le_nat_alt)
    let ?m = "if 0 < n then n * 2 else 1 :: u32"
    have "unat ?m = (if 0 < n then 2 * unat n else 1)"
      using short assms by (simp add: unat_mult_lem [THEN iffD1] unat_word_ariths)
    then have up: "unat n < unat ?m" by (auto simp: word_less_nat_alt)
    with less [of ?m] short obtain k where "double_until need ?m = Some k" "need \<le> k" "?m \<le> k" by fastforce
    with False up show ?thesis by (subst double_until.simps) (auto simp: word_le_nat_alt)
  qed
qed

lemma vec_write_fits: "off + length bs \<le> length v \<Longrightarrow> vec_write off bs v = Some (take off v @ bs @ drop (off + length bs) v)"
  by (simp add: vec_write_def)

lemma framed_write_append:
  assumes "f_sink_ok f" and "length bs \<le> f_room f"
  shows "\<exists>f'. Framed_write bs f = Some f' \<and> f_sink_ok f' \<and> f_pending f' = f_pending f @ bs \<and> f_room f' = f_room f - length bs \<and>
    f_transport f' = f_transport f"
proof (cases "f_wBase f + length bs \<le> f_wBound f")
  case True
  with assms show ?thesis
    by (auto simp: Framed_write_def f_sink_ok_def f_pending_def f_room_def vec_write_fits)
next
  case False
  let ?w = "f_wBase f"
  have i: "4 \<le> ?w" "?w \<le> length (f_wBuf f)" "?w + length bs \<le> 0x7fffffff" "4 < unat (f_wBufSize f)"
    using assms by (auto simp: f_sink_ok_def f_room_def)
  have u: "unat (of_nat ?w :: u32) = ?w" "unat (of_nat (length bs) :: u32) = length bs"
    using i(3) by (auto intro!: u32_unat_of_nat)
  have sum: "unat (of_nat (length bs) + of_nat ?w :: u32) = ?w + length bs"
    using u i(3) by (simp add: unat_add_lem [THEN iffD1])
  have guard: "\<not> (of_nat (length bs) + of_nat ?w < (of_nat ?w :: u32) \<or> 0x7fffffff < of_nat (length bs) + (of_nat ?w :: u32))"
    unfolding word_less_nat_alt sum u(1) using i(3) by simp
  have "unat (of_nat (length bs) + of_nat ?w :: u32) \<le> 2 ^ 31" unfolding sum using i(3) by simp
  from double_until_ends [OF this, of "f_wBufSize f"] obtain k where
    k: "double_until (of_nat (length bs) + of_nat ?w) (f_wBufSize f) = Some k" "?w + length bs \<le> unat k" "4 < unat k"
    unfolding word_le_nat_alt sum using i(4) by auto
  let ?v = "take ?w (f_wBuf f) @ replicate (unat k - ?w) 0"
  have "vec_write 0 (take ?w (f_wBuf f)) (replicate (unat k) 0) = Some ?v"
    using i(2) k(2) by (simp add: vec_write_def min_def)
  moreover have "vec_write ?w bs ?v = Some (take ?w (f_wBuf f) @ bs @ replicate (unat k - (?w + length bs)) 0)"
    using i(2) k(2) by (simp add: vec_write_def min_def)
  moreover have "mem_read 0 ?w (f_wBuf f) = Some (take ?w (f_wBuf f))" using i(2) by (simp add: mem_read_def)
  ultimately have "Framed_write bs f = Some (f\<lparr>f_wBuf := take ?w (f_wBuf f) @ bs @ replicate (unat k - (?w + length bs)) 0,
      f_wBufSize := k, f_wBound := unat k, f_wBase := ?w + length bs\<rparr>)"
    unfolding Framed_write_def if_not_P [OF False] Framed_writeSlow_def Let_def if_not_P [OF guard] k(1) u(1) by simp
  then show ?thesis using i k by (simp add: f_sink_ok_def f_pending_def f_room_def min_def)
qed

interpretation framed: byte_sink Framed_write f_pending f_room f_sink_ok
  using framed_write_append by unfold_locales blast

lemma framed_new: "\<exists>f. TFramedTransport_new t = Some f \<and> f_sink_ok f \<and> f_pending f = [] \<and> f_transport f = t \<and> f_wBase f = 4 \<and>
    f_rBuf f = [] \<and> f_rBufSize f = 0 \<and> f_rBase f = 0 \<and> f_rBound f = 0"
  by (simp add: TFramedTransport_new_def TFramedTransport_sized_def Framed_write_def vec_write_def f_sink_ok_def f_pending_def
      DEFAULT_BUFFER_SIZE_def)

lemma reclaim_ok:
  assumes "f_sink_ok f" and "f_wBase f = 4"
  shows "f_sink_ok (reclaim (f\<lparr>f_transport := t\<rparr>)) \<and> f_pending (reclaim (f\<lparr>f_transport := t\<rparr>)) = [] \<and>
    f_wBase (reclaim (f\<lparr>f_transport := t\<rparr>)) = 4 \<and> f_transport (reclaim (f\<lparr>f_transport := t\<rparr>)) = t"
  using assms by (simp add: reclaim_def f_sink_ok_def f_pending_def DEFAULT_BUFFER_SIZE_def resize_def min_def)

context transport_sink
begin

lemma framed_flush:
  assumes "f_sink_ok f" and "invar (f_transport f)" and "f_wBase f \<le> room (f_transport f)"
  shows "\<exists>f'. Framed_flush T f = Some f' \<and> f_sink_ok f' \<and> f_pending f' = [] \<and> f_wBase f' = 4 \<and> invar (f_transport f') \<and>
    stored (f_transport f') = stored (f_transport f) @ (if f_pending f = [] then [] else frame_bytes (f_pending f)) \<and>
    room (f_transport f) - f_wBase f \<le> room (f_transport f')"
proof -
  let ?w = "f_wBase f" and ?sz = "of_nat (f_wBase f) - 4 :: u32"
  have i: "4 \<le> ?w" "?w \<le> length (f_wBuf f)" "?w \<le> 0x7fffffff" "4 < f_wBufSize f" "length (f_wBuf f) = unat (f_wBufSize f)"
    using assms(1) by (auto simp: f_sink_ok_def word_less_nat_alt)
  have sz: "?sz = of_nat (length (f_pending f))" using i(1) by (simp add: length_f_pending [OF assms(1)])
  have usz: "unat ?sz = ?w - 4" unfolding sz length_f_pending [OF assms(1)] using i(3) by (intro u32_unat_of_nat) simp
  have pos: "0 < sint ?sz \<longleftrightarrow> f_pending f \<noteq> []"
  proof -
    have "sint ?sz = int (?w - 4)"
      unfolding sz length_f_pending [OF assms(1)] using i(3) by (intro sint_of_nat_small) simp
    then show ?thesis using length_f_pending [OF assms(1)] by (auto simp flip: length_greater_0_conv)
  qed
  define v where "v = be_bytes ?sz @ drop 4 (f_wBuf f)"
  have v: "vec_write 0 (be_bytes ?sz) (f_wBuf f) = Some v" using i(1,2) by (simp add: vec_write_def v_def)
  have tot: "unat (4 + ?sz) = ?w" using usz i by simp
  have rd: "mem_read 0 ?w v = Some (be_bytes ?sz @ f_pending f)"
    using i(1,2) by (simp add: mem_read_def v_def f_pending_def drop_take)
  have lv: "length v = unat (f_wBufSize f)" using i by (simp add: v_def)
  show ?thesis
  proof (cases "f_pending f = []")
    case True
    then have w4: "?w = 4" using length_f_pending [OF assms(1)] i(1) by simp
    have "f_sink_ok (f\<lparr>f_wBuf := v\<rparr>)" using assms(1) lv by (simp add: f_sink_ok_def)
    from reclaim_ok [OF this] flush_law [OF assms(2)] w4 True pos i(4) v show ?thesis
      by (auto simp: Framed_flush_def Let_def)
  next
    case False
    have "length (be_bytes ?sz @ f_pending f) = ?w" using length_f_pending [OF assms(1)] i(1) by simp
    with wr_append [OF assms(2), of "be_bytes ?sz @ f_pending f"] assms(3) obtain t where
      t: "t_write T (be_bytes ?sz @ f_pending f) (f_transport f) = Some t" "invar t"
      "stored t = stored (f_transport f) @ be_bytes ?sz @ f_pending f" "room t = room (f_transport f) - ?w" by auto
    let ?g = "f\<lparr>f_wBuf := v, f_wBase := 4, f_transport := t\<rparr>"
    have "f_sink_ok ?g" using assms(1) lv by (simp add: f_sink_ok_def)
    note g = reclaim_ok [OF this]
    from flush_law [OF t(2)] obtain t' where t': "t_flush T t = Some t'" "invar t'" "stored t' = stored t" "room t' = room t" by blast
    have "Framed_flush T f = Some (reclaim (?g\<lparr>f_transport := t'\<rparr>))"
      using i(4) v pos False tot rd t(1) t'(1) by (simp add: Framed_flush_def Let_def)
    with g [of t'] t t' False show ?thesis unfolding frame_bytes_def sz [symmetric] by simp
  qed
qed

end


section \<open>Reading frames\<close>

function deframe :: "byte list \<Rightarrow> byte list" where
  "deframe bs =
     (if length bs < 4 then []
      else let n = unat (be_word (take 4 bs)) in take n (drop 4 bs) @ deframe (drop (4 + n) bs))"
  by auto
termination by (relation "measure length") auto

declare deframe.simps [simp del]

lemma deframe_Nil [simp]: "deframe [] = []"
  by (subst deframe.simps) simp

definition frame_ok :: "byte list \<Rightarrow> bool" where
  "frame_ok p \<longleftrightarrow> p \<noteq> [] \<and> length p < 2 ^ 31"

lemma length_frame_bytes: "length (frame_bytes p) = 4 + length p"
  by (simp add: frame_bytes_def)

lemma deframe_frame: "length p < 2 ^ 31 \<Longrightarrow> deframe (frame_bytes p @ bs) = p @ deframe bs"
  by (subst deframe.simps) (simp add: frame_bytes_def unat_small Let_def)

lemma deframe_frames: "list_all frame_ok ps \<Longrightarrow> deframe (concat (map frame_bytes ps)) = concat ps"
proof (induction ps)
  case Nil
  then show ?case by simp
next
  case (Cons p ps)
  then show ?case by (simp add: deframe_frame frame_ok_def)
qed

definition well_framed :: "byte list \<Rightarrow> bool" where
  "well_framed bs \<longleftrightarrow> (\<exists>ps. list_all frame_ok ps \<and> bs = concat (map frame_bytes ps))"

lemma well_framed_cases:
  assumes "well_framed bs"
  obtains "bs = []" | p rest where "frame_ok p" "bs = frame_bytes p @ rest" "well_framed rest"
proof -
  from assms obtain ps where ps: "list_all frame_ok ps" "bs = concat (map frame_bytes ps)" by (auto simp: well_framed_def)
  show thesis
  proof (cases ps)
    case Nil
    with ps show ?thesis using that(1) by simp
  next
    case (Cons p qs)
    with ps have "frame_ok p" "bs = frame_bytes p @ concat (map frame_bytes qs)" "well_framed (concat (map frame_bytes qs))"
      by (auto simp: well_framed_def)
    then show ?thesis by (rule that(2))
  qed
qed

definition f_rest :: "'s TFramedTransport \<Rightarrow> byte list" where
  "f_rest f = take (f_rBound f - f_rBase f) (drop (f_rBase f) (f_rBuf f))"

definition f_avail :: "('s \<Rightarrow> byte list) \<Rightarrow> 's TFramedTransport \<Rightarrow> byte list" where
  "f_avail avail f = f_rest f @ deframe (avail (f_transport f))"

definition f_source_ok :: "('s \<Rightarrow> byte list) \<Rightarrow> ('s \<Rightarrow> bool) \<Rightarrow> 's TFramedTransport \<Rightarrow> bool" where
  "f_source_ok avail invar f \<longleftrightarrow> invar (f_transport f) \<and> well_framed (avail (f_transport f)) \<and> f_rBase f \<le> f_rBound f \<and>
     f_rBound f \<le> length (f_rBuf f) \<and> length (f_rBuf f) = unat (f_rBufSize f) \<and> unat (f_rBufSize f) < 2 ^ 31"

lemma length_f_rest: "f_source_ok avail invar f \<Longrightarrow> length (f_rest f) = f_rBound f - f_rBase f"
  by (auto simp: f_source_ok_def f_rest_def min_def)

lemma framed_take:
  assumes "f_source_ok avail invar f" and "n \<le> length (f_rest f)"
  shows "mem_read (f_rBase f) n (f_rBuf f) = Some (take n (f_rest f))" and
    "f_source_ok avail invar (f\<lparr>f_rBase := f_rBase f + n\<rparr>)" and "f_rest (f\<lparr>f_rBase := f_rBase f + n\<rparr>) = drop n (f_rest f)"
  using assms length_f_rest [OF assms(1)]
  by (auto simp: mem_read_def f_rest_def f_source_ok_def drop_take add.commute)

context transport_source
begin

lemma readFrame_eof:
  assumes "f_source_ok avail invar f" and "avail (f_transport f) = []"
  shows "\<exists>f'. readFrame T f = Some (False, f') \<and> f_source_ok avail invar f' \<and> f_rest f' = f_rest f \<and> avail (f_transport f') = []"
proof -
  have i: "invar (f_transport f)" using assms(1) by (simp add: f_source_ok_def)
  from readAll_short [OF i, of 4 "[]"] assms show ?thesis
    by (auto simp: readFrame_def f_source_ok_def f_rest_def Let_def)
qed

lemma readFrame_frame:
  assumes "f_source_ok avail invar f" and "frame_ok p" and "avail (f_transport f) = frame_bytes p @ rest" and "well_framed rest"
  shows "\<exists>f'. readFrame T f = Some (True, f') \<and> f_source_ok avail invar f' \<and> f_rest f' = p \<and> avail (f_transport f') = rest \<and>
    f_rBase f' = 0"
proof -
  have i: "invar (f_transport f)" "length (f_rBuf f) = unat (f_rBufSize f)" "unat (f_rBufSize f) < 2 ^ 31"
    using assms(1) by (auto simp: f_source_ok_def)
  have p: "p \<noteq> []" "length p < 2 ^ 31" using assms(2) by (auto simp: frame_ok_def)
  define sz :: u32 where "sz = of_nat (length p)"
  have sz: "unat sz = length p" "sint sz = int (length p)" unfolding sz_def using p(2) by (auto intro: unat_small sint_of_nat_small)
  have rs: "sint (f_rBufSize f) = int (unat (f_rBufSize f))" using sint_of_nat_small [OF i(3)] by simp
  have cmp: "sint (f_rBufSize f) < sint sz \<longleftrightarrow> unat (f_rBufSize f) < length p" unfolding rs sz(2) by (simp only: of_nat_less_iff)
  have fb: "frame_bytes p = be_bytes sz @ p" by (simp add: frame_bytes_def sz_def)
  from readAll_enough [OF i(1), of 4 "[]"] assms(3) obtain t where
    t: "readAll_loop (t_read T) 4 [] (f_transport f) = Some (4, be_bytes sz, t)" "invar t" "avail t = p @ rest" by (auto simp: fb)
  from readAll_law [OF t(2), of sz] t(3) sz(1) obtain t' where
    t': "t_readAll T sz t = Some (length p, p, t')" "invar t'" "avail t' = rest" by auto
  let ?f = "f\<lparr>f_transport := t\<rparr>"
  define g where "g = (if sint (f_rBufSize ?f) < sint sz then ?f\<lparr>f_rBuf := resize (unat sz) (f_rBuf ?f), f_rBufSize := sz\<rparr> else ?f)"
  have g: "length (f_rBuf g) = unat (f_rBufSize g)" "length p \<le> length (f_rBuf g)" "unat (f_rBufSize g) < 2 ^ 31" "f_transport g = t"
    using i sz(1) p(2) by (auto simp: g_def cmp resize_def min_def)
  define v where "v = p @ drop (length p) (f_rBuf g)"
  have v: "vec_write 0 p (f_rBuf g) = Some v" using g(2) by (simp add: vec_write_def v_def)
  have lv: "length v = length (f_rBuf g)" using g(2) by (simp add: v_def)
  let ?r = "g\<lparr>f_transport := t', f_rBuf := v, f_rBase := 0, f_rBound := unat sz\<rparr>"
  have "readFrame T f = Some (True, ?r)"
    unfolding readFrame_def t(1) using sz t'(1) v
    by (cases "sint (f_rBufSize f) < int (length p)") (simp_all add: g_def Let_def)
  moreover have "f_source_ok avail invar ?r" using t' assms(4) g sz(1) lv by (simp add: f_source_ok_def)
  moreover have "f_rest ?r = p" using sz(1) by (simp add: f_rest_def v_def)
  ultimately show ?thesis using t'(3) by auto
qed

lemma framed_read_prefix:
  assumes "f_source_ok avail invar f"
  shows "\<exists>bs f'. Framed_read T n f = Some (bs, f') \<and> f_source_ok avail invar f' \<and> f_avail avail f = bs @ f_avail avail f' \<and>
    length bs \<le> unat n \<and> (bs = [] \<longrightarrow> n = 0 \<or> f_avail avail f = [])"
proof -
  note l = length_f_rest [OF assms]
  have o: "f_rBase f \<le> f_rBound f" "f_rBound f < 2 ^ 31" using assms by (auto simp: f_source_ok_def)
  show ?thesis
  proof (cases "f_rBase f + unat n \<le> f_rBound f")
    case True
    with o l have "unat n \<le> length (f_rest f)" by simp
    note tk = framed_take [OF assms this]
    have "n = 0" if "take (unat n) (f_rest f) = []"
    proof -
      from that \<open>unat n \<le> length (f_rest f)\<close> have "unat n = 0" by auto
      then show ?thesis by (simp add: unat_eq_0)
    qed
    with tk True show ?thesis by (simp add: Framed_read_def f_avail_def)
  next
    case False
    define held :: u32 where "held = of_nat (f_rBound f - f_rBase f)"
    have held: "unat held = length (f_rest f)" unfolding held_def l using o by (intro u32_unat_of_nat) simp
    have lt: "held < n" using held l False o by (simp add: word_less_nat_alt)
    have slow: "Framed_read T n f = Framed_readSlow T n f" using False by (simp add: Framed_read_def)
    show ?thesis
    proof (cases "f_rest f = []")
      case False
      have "f_source_ok avail invar (f\<lparr>f_rBase := 0, f_rBound := 0\<rparr>)" "f_rest (f\<lparr>f_rBase := 0, f_rBound := 0\<rparr>) = []"
        using assms by (auto simp: f_source_ok_def f_rest_def)
      moreover have "0 < held" using held False by (simp add: word_less_nat_alt)
      moreover have "length (f_rest f) < unat n" using lt held by (simp add: word_less_nat_alt)
      moreover have "mem_read (f_rBase f) (unat held) (f_rBuf f) = Some (f_rest f)" using framed_take(1) [OF assms, of "unat held"] held by simp
      ultimately show ?thesis using lt False
        by (simp add: slow Framed_readSlow_def held_def [symmetric] Let_def f_avail_def del: of_nat_diff)
    next
      case True
      then have h0: "held = 0" using held by (simp add: unat_eq_0)
      have wf: "well_framed (avail (f_transport f))" using assms by (simp add: f_source_ok_def)
      then show ?thesis
      proof (cases rule: well_framed_cases)
        case 1
        from readFrame_eof [OF assms 1] lt h0 True 1 show ?thesis
          by (auto simp: slow Framed_readSlow_def held_def [symmetric] Let_def f_avail_def simp del: of_nat_diff)
      next
        case (2 p rest)
        from readFrame_frame [OF assms 2] obtain g where
          g: "readFrame T f = Some (True, g)" "f_source_ok avail invar g" "f_rest g = p" "avail (f_transport g) = rest" "f_rBase g = 0" by blast
        have p: "p \<noteq> []" "length p < 2 ^ 31" using 2(1) by (auto simp: frame_ok_def)
        have gb: "f_rBound g = length p" using length_f_rest [OF g(2)] g(3,5) by simp
        define give where "give = min n (of_nat (length p))"
        have give: "unat give = min (unat n) (length p)" unfolding give_def using unat_small [OF p(2)] by (simp add: min_def word_le_nat_alt)
        note tk = framed_take [OF g(2), of "unat give"]
        define g' where "g' = g\<lparr>f_rBase := f_rBase g + unat give\<rparr>"
        have r: "Framed_read T n f = Some (take (unat give) p, g')"
          using lt h0 g(1,3,5) tk(1) give gb
          by (simp add: slow Framed_readSlow_def held_def [symmetric] Let_def give_def g'_def del: of_nat_diff)
        have a: "f_avail avail f = p @ deframe rest" using True 2(2) p(2) by (simp add: f_avail_def deframe_frame)
        have a': "f_avail avail g' = drop (unat give) p @ deframe rest"
          using tk(3) g(3,4) give by (simp add: f_avail_def g'_def)
        have n: "n = 0" if "take (unat give) p = []" using that p(1) give by (auto simp: min_def unat_eq_0 split: if_splits)
        have ok: "f_source_ok avail invar g'" using tk(2) g(3) give by (simp add: g'_def)
        have "f_avail avail f = take (unat give) p @ f_avail avail g'" unfolding a a' by simp
        moreover have "length (take (unat give) p) \<le> unat n" using give by simp
        ultimately show ?thesis using r ok n by blast
      qed
    qed
  qed
qed

end

sublocale transport_source \<subseteq> framed: byte_source "Framed_read T" "f_avail avail" "f_source_ok avail invar"
  by unfold_locales (rule framed_read_prefix)

context transport_source
begin

lemma framed_readAll:
  assumes "f_source_ok avail invar f" and "unat n \<le> length (f_avail avail f)"
  shows "\<exists>f'. Framed_readAll T n f = Some (unat n, take (unat n) (f_avail avail f), f') \<and> f_source_ok avail invar f' \<and>
    f_avail avail f' = drop (unat n) (f_avail avail f)"
proof (cases "f_rBase f + unat n \<le> f_rBound f")
  case True
  then have "unat n \<le> length (f_rest f)" using length_f_rest [OF assms(1)] by simp
  from framed_take [OF assms(1) this] True this show ?thesis by (simp add: Framed_readAll_def f_avail_def)
next
  case False
  then show ?thesis using framed.readAll_enough [OF assms(1), of "unat n" "[]"] assms(2) u32_unat_bound [of n]
    by (simp add: Framed_readAll_def)
qed

end


text \<open>Borrowing and consuming, the fast path of the protocol, takes the same bytes as reading.\<close>

lemma framed_borrow_consume:
  assumes "f_source_ok avail invar f" and "Framed_borrow len f = Some (p, n)"
  shows "mem_read p (unat len) (f_rBuf f) = Some (take (unat len) (f_avail avail f))" and
    "\<exists>f'. Framed_consume len f = Some f' \<and> f_source_ok avail invar f' \<and> f_avail avail f' = drop (unat len) (f_avail avail f)"
proof -
  have i: "int (unat len) \<le> int (f_rBound f) - int (f_rBase f)" "p = f_rBase f"
    using assms(2) by (auto simp: Framed_borrow_def split: if_splits)
  have "unat len \<le> length (f_rest f)" unfolding length_f_rest [OF assms(1)] using i(1) by linarith
  note t = framed_take [OF assms(1) this] and this
  then show "mem_read p (unat len) (f_rBuf f) = Some (take (unat len) (f_avail avail f))" by (simp add: i(2) f_avail_def)
  from t \<open>unat len \<le> length (f_rest f)\<close> show "\<exists>f'. Framed_consume len f = Some f' \<and> f_source_ok avail invar f' \<and>
      f_avail avail f' = drop (unat len) (f_avail avail f)"
    unfolding Framed_consume_def if_P [OF i(1)] by (simp add: f_avail_def)
qed

section \<open>From one framed transport to another\<close>

fun write_chunks :: "byte list list \<Rightarrow> 's TFramedTransport \<Rightarrow> 's TFramedTransport option" where
  "write_chunks [] f = Some f"
| "write_chunks (bs # cs) f = do { f \<leftarrow> Framed_write bs f; write_chunks cs f }"

fun send_messages :: "'s ttransport \<Rightarrow> byte list list list \<Rightarrow> 's TFramedTransport \<Rightarrow> 's TFramedTransport option" where
  "send_messages T [] f = Some f"
| "send_messages T (cs # ms) f = do { f \<leftarrow> write_chunks cs f; f \<leftarrow> Framed_flush T f; send_messages T ms f }"

fun read_pieces :: "'s ttransport \<Rightarrow> u32 list \<Rightarrow> 's TFramedTransport \<Rightarrow> (byte list list \<times> 's TFramedTransport) option" where
  "read_pieces T [] f = Some ([], f)"
| "read_pieces T (n # ns) f =
     do { (_, bs, f) \<leftarrow> Framed_readAll T n f; (bss, f) \<leftarrow> read_pieces T ns f; Some (bs # bss, f) }"

lemma write_chunks_ok:
  assumes "f_sink_ok f" and "length (concat cs) \<le> f_room f"
  shows "\<exists>f'. write_chunks cs f = Some f' \<and> f_sink_ok f' \<and> f_pending f' = f_pending f @ concat cs \<and>
    f_room f' = f_room f - length (concat cs) \<and> f_transport f' = f_transport f"
  using assms
proof (induction cs arbitrary: f)
  case Nil
  then show ?case by simp
next
  case (Cons bs cs)
  then have "length bs \<le> f_room f" by simp
  from framed_write_append [OF Cons.prems(1) this] obtain g where g: "Framed_write bs f = Some g" "f_sink_ok g"
    "f_pending g = f_pending f @ bs" "f_room g = f_room f - length bs" "f_transport g = f_transport f" by blast
  from Cons.IH [OF g(2)] g Cons.prems(2) show ?case by auto
qed

definition message_frame :: "byte list list \<Rightarrow> byte list" where
  "message_frame cs = (if concat cs = [] then [] else frame_bytes (concat cs))"

definition message_size :: "byte list list \<Rightarrow> nat" where
  "message_size cs = 4 + length (concat cs)"

context transport_sink
begin

lemma send_messages_ok:
  assumes "f_sink_ok f" and "f_wBase f = 4" and "f_pending f = []" and "invar (f_transport f)"
    and "(\<Sum>cs\<leftarrow>ms. message_size cs) \<le> 0x7fffffff" and "(\<Sum>cs\<leftarrow>ms. message_size cs) \<le> room (f_transport f)"
  shows "\<exists>f'. send_messages T ms f = Some f' \<and> invar (f_transport f') \<and>
    stored (f_transport f') = stored (f_transport f) @ concat (map message_frame ms)"
  using assms
proof (induction ms arbitrary: f)
  case Nil
  then show ?case by simp
next
  case (Cons cs ms)
  have sz: "4 + length (concat cs) + (\<Sum>cs\<leftarrow>ms. message_size cs) \<le> 0x7fffffff"
    "4 + length (concat cs) + (\<Sum>cs\<leftarrow>ms. message_size cs) \<le> room (f_transport f)"
    using Cons.prems(5,6) by (simp_all only: list.map sum_list.Cons message_size_def)
  then have "length (concat cs) \<le> f_room f" using Cons.prems(2) by (simp add: f_room_def)
  from write_chunks_ok [OF Cons.prems(1) this] Cons.prems(3) obtain g where
    g: "write_chunks cs f = Some g" "f_sink_ok g" "f_pending g = concat cs" "f_transport g = f_transport f" by auto
  have w: "f_wBase g = 4 + length (concat cs)" using length_f_pending [OF g(2)] g(2,3) by (auto simp: f_sink_ok_def)
  have "f_wBase g \<le> room (f_transport g)" unfolding w g(4) using sz(2) by linarith
  from framed_flush [OF g(2) _ this] g(4) Cons.prems(4) obtain h where
    h: "Framed_flush T g = Some h" "f_sink_ok h" "f_pending h = []" "f_wBase h = 4" "invar (f_transport h)"
    "stored (f_transport h) = stored (f_transport f) @ (if concat cs = [] then [] else frame_bytes (concat cs))"
    "room (f_transport g) - f_wBase g \<le> room (f_transport h)" unfolding g(3) by auto
  have "(\<Sum>cs\<leftarrow>ms. message_size cs) \<le> room (f_transport h)" using h(7) w g(4) sz(2) by simp
  from Cons.IH [OF h(2,4,3,5) _ this] sz(1) obtain f' where f': "send_messages T ms h = Some f'" "invar (f_transport f')"
    "stored (f_transport f') = stored (f_transport h) @ concat (map message_frame ms)" by auto
  have "send_messages T (cs # ms) f = Some f'" using g(1) h(1) f'(1) by simp
  moreover have "stored (f_transport f') = stored (f_transport f) @ concat (map message_frame (cs # ms))"
    unfolding f'(3) h(6) by (simp only: message_frame_def list.map concat.simps append_assoc)
  ultimately show ?case using f'(2) by blast
qed

end

context transport_source
begin

lemma read_pieces_ok:
  assumes "f_source_ok avail invar f" and "f_avail avail f = concat ps" and "list_all (\<lambda>p. length p < 2 ^ 32) ps"
  shows "\<exists>f'. read_pieces T (map (of_nat \<circ> length) ps) f = Some (ps, f')"
  using assms
proof (induction ps arbitrary: f)
  case Nil
  then show ?case by simp
next
  case (Cons p ps)
  have n: "unat (of_nat (length p) :: u32) = length p" using Cons.prems(3) by (intro u32_unat_of_nat) simp
  have "unat (of_nat (length p) :: u32) \<le> length (f_avail avail f)" unfolding n using Cons.prems(2) by simp
  from framed_readAll [OF Cons.prems(1) this] obtain g where g: "Framed_readAll T (of_nat (length p)) f = Some (length p, p, g)"
    "f_source_ok avail invar g" "f_avail avail g = concat ps" unfolding n Cons.prems(2) by auto
  from Cons.IH [OF g(2,3)] Cons.prems(3) g(1) show ?case by auto
qed

end

lemma message_frames:
  assumes "(\<Sum>cs\<leftarrow>ms. message_size cs) \<le> 0x7fffffff"
  shows "\<exists>ps. concat (map message_frame ms) = concat (map frame_bytes ps) \<and> list_all frame_ok ps \<and> concat ps = concat (map concat ms)"
  using assms
proof (induction ms)
  case Nil
  show ?case by (intro exI [of _ "[]"]) simp
next
  case (Cons cs ms)
  have sz: "4 + length (concat cs) + (\<Sum>cs\<leftarrow>ms. message_size cs) \<le> 0x7fffffff"
    using Cons.prems by (simp only: list.map sum_list.Cons message_size_def)
  with Cons.IH obtain ps where ps: "concat (map message_frame ms) = concat (map frame_bytes ps)" "list_all frame_ok ps"
    "concat ps = concat (map concat ms)" by auto
  show ?case
  proof (cases "concat cs = []")
    case True
    then have "message_frame cs = []" by (simp add: message_frame_def)
    with ps True show ?thesis by (intro exI [of _ ps]) simp
  next
    case False
    then have "message_frame cs = frame_bytes (concat cs)" "frame_ok (concat cs)" using sz by (auto simp: message_frame_def frame_ok_def)
    with ps show ?thesis by (intro exI [of _ "concat cs # ps"]) simp
  qed
qed

text \<open>C16. Framing: messages that are written piece by piece to a framed transport over a new memory buffer, each ended by
  \<open>flush\<close>, are read back one by one, each whole, through another framed transport on the same buffer; an
  empty message takes no bytes.\<close>

theorem framed_roundtrip:
  assumes "(\<Sum>cs\<leftarrow>ms. message_size cs) \<le> 0x7fffffff"
  shows "\<exists>b0 f0 f r0 r. TMemoryBuffer_new = Some b0 \<and> TFramedTransport_new b0 = Some f0 \<and>
    send_messages memory_transport ms f0 = Some f \<and> unread (f_transport f) = concat (map message_frame ms) \<and>
    TFramedTransport_new (f_transport f) = Some r0 \<and>
    read_pieces memory_transport (map (of_nat \<circ> length) (map concat ms)) r0 = Some (map concat ms, r)"
proof -
  from new_owned obtain b0 where b0: "TMemoryBuffer_new = Some b0" "TMemoryBuffer_owned b0" "unread b0 = []" "memory_room b0 = 2 ^ 31" by blast
  from framed_new [of b0] obtain f0 where f0: "TFramedTransport_new b0 = Some f0" "f_sink_ok f0" "f_pending f0 = []" "f_transport f0 = b0"
    "f_wBase f0 = 4" by blast
  have "TMemoryBuffer_owned (f_transport f0)" "(\<Sum>cs\<leftarrow>ms. message_size cs) \<le> memory_room (f_transport f0)"
    unfolding f0(4) b0(4) using b0(2) assms by simp_all
  from memory_out.send_messages_ok [OF f0(2,5,3) this(1) assms this(2), unfolded f0(4) b0(3) append_Nil] obtain f where
    f: "send_messages memory_transport ms f0 = Some f" "TMemoryBuffer_owned (f_transport f)"
    "unread (f_transport f) = concat (map message_frame ms)" by blast
  from message_frames [OF assms] obtain ps where ps: "concat (map message_frame ms) = concat (map frame_bytes ps)"
    "list_all frame_ok ps" "concat ps = concat (map concat ms)" by blast
  from framed_new [of "f_transport f"] obtain r0 where r0: "TFramedTransport_new (f_transport f) = Some r0" "f_transport r0 = f_transport f"
    "f_rBuf r0 = []" "f_rBufSize r0 = 0" "f_rBase r0 = 0" "f_rBound r0 = 0" by blast
  have wf: "well_framed (unread (f_transport r0))" unfolding r0(2) f(3) ps(1) well_framed_def using ps(2) by blast
  have ok: "f_source_ok unread TMemoryBuffer_ok r0"
    using f(2) r0 wf by (simp add: f_source_ok_def TMemoryBuffer_owned_def)
  have av: "f_avail unread r0 = concat (map concat ms)"
    unfolding f_avail_def r0(2) f(3) ps(1) deframe_frames [OF ps(2)] ps(3) using r0(5,6) by (simp add: f_rest_def)
  have "length (concat cs) < 2 ^ 32" if "cs \<in> set ms" for cs
  proof -
    have "message_size cs \<le> (\<Sum>cs\<leftarrow>ms. message_size cs)" using that by (intro member_le_sum_list) auto
    then show ?thesis using assms by (simp add: message_size_def)
  qed
  then have "list_all (\<lambda>p. length p < 2 ^ 32) (map concat ms)" by (auto simp: list_all_iff)
  from memory_in.read_pieces_ok [OF ok av this] b0(1) f0(1) f(1,3) r0(1) show ?thesis by blast
qed

theorem framed_roundtrip_witness:
  "\<exists>b0 f0 f r0 r. TMemoryBuffer_new = Some b0 \<and> TFramedTransport_new b0 = Some f0 \<and>
    send_messages memory_transport [[[1, 2], [3]], [], [[7]]] f0 = Some f \<and>
    unread (f_transport f) = [0, 0, 0, 3, 1, 2, 3, 0, 0, 0, 1, 7] \<and>
    TFramedTransport_new (f_transport f) = Some r0 \<and> read_pieces memory_transport [3, 0, 1] r0 = Some ([[1, 2, 3], [], [7]], r)"
proof -
  have "(\<Sum>cs\<leftarrow>[[[1, 2], [3]], [], [[7]]]. message_size cs) \<le> 0x7fffffff" by (simp add: message_size_def)
  from framed_roundtrip [OF this] show ?thesis by (simp add: message_frame_def frame_bytes_def be_bytes_def le_bytes_4)
qed


section \<open>A frame that is cut off\<close>

text \<open>
  When the stream ends inside a frame, \<open>readAll\<close> returns 0; nobody looks at it, and the reader gets the bytes that
  came, filled up with what the buffer holds (zeros, when it was just enlarged).
\<close>

lemma truncated_frame:
  assumes "TMemoryBuffer_ok b" and "unread b = be_bytes sz @ p" and "length p < unat sz" and "unat sz < 2 ^ 31"
    and "TFramedTransport_new b = Some r0"
  shows "\<exists>r. Framed_read memory_transport sz r0 = Some (p @ replicate (unat sz - length p) 0, r)"
proof -
  have r0: "f_transport r0 = b" "f_rBuf r0 = []" "f_rBufSize r0 = 0" "f_rBase r0 = 0" "f_rBound r0 = 0"
    using framed_new [of b] assms(5) by auto
  have rd: "t_read memory_transport = TMemoryBuffer_read" "t_readAll memory_transport = TMemoryBuffer_readAll"
    by (simp_all add: memory_transport_def)
  from memory_source.readAll_enough [OF assms(1), of 4 "[]"] assms(2) obtain t where
    t: "readAll_loop TMemoryBuffer_read 4 [] b = Some (4, be_bytes sz, t)" "TMemoryBuffer_ok t" "unread t = p" by auto
  from readAll_queue [OF t(2), of sz] t(3) assms(3) obtain t' where t': "TMemoryBuffer_readAll sz t = Some (0, p, t')" by auto
  have s: "sint sz = int (unat sz)" using sint_of_nat_small [OF assms(4)] by simp
  have pos: "0 < sint sz" unfolding s using assms(3) by linarith
  have "vec_write 0 p (replicate (unat sz) 0) = Some (p @ replicate (unat sz - length p) 0)"
    using assms(3) by (simp add: vec_write_def)
  then have fr: "readFrame memory_transport r0 = Some (True, r0\<lparr>f_rBufSize := sz, f_transport := t', f_rBuf := p @ replicate (unat sz - length p) 0,
      f_rBase := 0, f_rBound := unat sz\<rparr>)"
    unfolding readFrame_def rd r0(1) t(1) using r0 pos t' by (simp add: resize_def)
  have "0 < unat sz" using assms(3) by simp
  then have sz0: "sz \<noteq> 0" by auto
  have "mem_read 0 (unat sz) (p @ replicate (unat sz - length p) 0) = Some (p @ replicate (unat sz - length p) 0)"
    using assms(3) by (simp add: mem_read_def)
  moreover have slow: "\<not> f_rBase r0 + unat sz \<le> f_rBound r0" unfolding r0 using \<open>0 < unat sz\<close> by linarith
  ultimately show ?thesis unfolding Framed_read_def if_not_P [OF slow] using r0 fr sz0
    by (simp add: Framed_readSlow_def word_neq_0_conv)
qed

section \<open>From one buffered transport to another\<close>

fun buffered_chunks :: "'s ttransport \<Rightarrow> byte list list \<Rightarrow> 's TBufferedTransport \<Rightarrow> 's TBufferedTransport option" where
  "buffered_chunks T [] b = Buffered_flush T b"
| "buffered_chunks T (bs # cs) b = do { b \<leftarrow> Buffered_write T bs b; buffered_chunks T cs b }"

fun buffered_pieces :: "'s ttransport \<Rightarrow> u32 list \<Rightarrow> 's TBufferedTransport \<Rightarrow> (byte list list \<times> 's TBufferedTransport) option" where
  "buffered_pieces T [] b = Some ([], b)"
| "buffered_pieces T (n # ns) b =
     do { (_, bs, b) \<leftarrow> Buffered_readAll T n b; (bss, b) \<leftarrow> buffered_pieces T ns b; Some (bs # bss, b) }"

context transport_sink
begin

lemma buffered_chunks_ok:
  assumes "b_sink_ok room invar b" and "length (concat cs) \<le> b_room room b"
  shows "\<exists>b'. buffered_chunks T cs b = Some b' \<and> invar (b_transport b') \<and> stored (b_transport b') = b_stored stored b @ concat cs"
  using assms
proof (induction cs arbitrary: b)
  case Nil
  with buffered_flush_stored [OF Nil.prems(1)] show ?case by (auto simp: b_sink_ok_def)
next
  case (Cons bs cs)
  then have "length bs \<le> b_room room b" by simp
  from buffered_write_append [OF Cons.prems(1) this] obtain c where c: "Buffered_write T bs b = Some c" "b_sink_ok room invar c"
    "b_stored stored c = b_stored stored b @ bs" "b_room room c = b_room room b - length bs" by blast
  from Cons.IH [OF c(2)] c Cons.prems(2) show ?case by auto
qed

end

context transport_source
begin

lemma buffered_readAll_ok:
  assumes "b_source_ok invar b" and "unat n \<le> length (b_avail avail b)"
  shows "\<exists>b'. Buffered_readAll T n b = Some (unat n, take (unat n) (b_avail avail b), b') \<and> b_source_ok invar b' \<and>
    b_avail avail b' = drop (unat n) (b_avail avail b)"
proof (cases "b_rBase b + unat n \<le> b_rBound b")
  case True
  from assms(1) obtain xs where xs: "b_rest b = Some xs" by (auto simp: b_source_ok_def)
  then have l: "length xs = b_rBound b - b_rBase b" using mem_init_length by (auto simp: b_rest_def)
  with True have n: "unat n \<le> length xs" by simp
  from buffered_advance [OF assms(1) xs n] mem_init_take [OF xs [unfolded b_rest_def], of "unat n"] True n l xs
  show ?thesis by (simp add: Buffered_readAll_def b_avail_def)
next
  case False
  then show ?thesis using buffered.readAll_enough [OF assms(1), of "unat n" "[]"] assms(2) u32_unat_bound [of n]
    by (simp add: Buffered_readAll_def)
qed

lemma buffered_pieces_ok:
  assumes "b_source_ok invar b" and "b_avail avail b = concat ps" and "list_all (\<lambda>p. length p < 2 ^ 32) ps"
  shows "\<exists>b'. buffered_pieces T (map (of_nat \<circ> length) ps) b = Some (ps, b')"
  using assms
proof (induction ps arbitrary: b)
  case Nil
  then show ?case by simp
next
  case (Cons p ps)
  have n: "unat (of_nat (length p) :: u32) = length p" using Cons.prems(3) by (intro u32_unat_of_nat) simp
  have "unat (of_nat (length p) :: u32) \<le> length (b_avail avail b)" unfolding n using Cons.prems(2) by simp
  from buffered_readAll_ok [OF Cons.prems(1) this] obtain c where c: "Buffered_readAll T (of_nat (length p)) b = Some (length p, p, c)"
    "b_source_ok invar c" "b_avail avail c = concat ps" unfolding n Cons.prems(2) by auto
  from Cons.IH [OF c(2,3)] Cons.prems(3) c(1) show ?case by auto
qed

end

lemma buffered_new_sink:
  assumes "TMemoryBuffer_owned t"
  shows "b_sink_ok memory_room TMemoryBuffer_owned (TBufferedTransport_new t)"
    "b_stored unread (TBufferedTransport_new t) = unread t" "b_room memory_room (TBufferedTransport_new t) = memory_room t"
  using assms by (simp_all add: b_sink_ok_def b_stored_def b_room_def b_pending_def TBufferedTransport_new_def
      TBufferedTransport_sized_def DEFAULT_BUFFER_SIZE_def mem_init_0)

lemma buffered_new_source:
  assumes "TMemoryBuffer_ok t"
  shows "b_source_ok TMemoryBuffer_ok (TBufferedTransport_new t)" "b_avail unread (TBufferedTransport_new t) = unread t"
  using assms by (simp_all add: b_source_ok_def b_avail_def b_rest_def TBufferedTransport_new_def
      TBufferedTransport_sized_def DEFAULT_BUFFER_SIZE_def mem_init_0)

text \<open>C17. The buffered transport keeps order and loses nothing: what is written to it in pieces of any size and flushed is in
  the memory buffer below, whole and in order, and another buffered transport reads it in pieces of any other size.\<close>

theorem buffered_roundtrip:
  assumes "length (concat cs) \<le> 2 ^ 31" and "concat ps = concat cs"
  shows "\<exists>b0 b b'. TMemoryBuffer_new = Some b0 \<and>
    buffered_chunks memory_transport cs (TBufferedTransport_new b0) = Some b \<and> unread (b_transport b) = concat cs \<and>
    buffered_pieces memory_transport (map (of_nat \<circ> length) ps) (TBufferedTransport_new (b_transport b)) = Some (ps, b')"
proof -
  from new_owned obtain b0 where b0: "TMemoryBuffer_new = Some b0" "TMemoryBuffer_owned b0" "unread b0 = []" "memory_room b0 = 2 ^ 31" by blast
  note new = buffered_new_sink [OF b0(2), unfolded b0(3,4)]
  from memory_out.buffered_chunks_ok [OF new(1), of cs, unfolded new(2,3)] assms(1) obtain b where
    b: "buffered_chunks memory_transport cs (TBufferedTransport_new b0) = Some b" "TMemoryBuffer_owned (b_transport b)"
    "unread (b_transport b) = concat cs" by auto
  have ok: "TMemoryBuffer_ok (b_transport b)" using b(2) by (simp add: TMemoryBuffer_owned_def)
  have "length p \<le> 2 ^ 31" if "p \<in> set ps" for p
  proof -
    have "length p \<le> length (concat ps)" using that unfolding length_concat by (intro member_le_sum_list) auto
    then show ?thesis using assms by simp
  qed
  then have "list_all (\<lambda>p. length p < 2 ^ 32) ps" by (fastforce simp: list_all_iff)
  from memory_in.buffered_pieces_ok [OF buffered_new_source(1) [OF ok] _ this] buffered_new_source(2) [OF ok] b assms(2) b0(1)
  show ?thesis by auto
qed

theorem buffered_roundtrip_witness:
  "\<exists>b0 b b'. TMemoryBuffer_new = Some b0 \<and>
    buffered_chunks memory_transport [replicate 500 1, replicate 30 2] (TBufferedTransport_new b0) = Some b \<and>
    unread (b_transport b) = replicate 500 1 @ replicate 30 2 \<and>
    buffered_pieces memory_transport [0, 500, 30] (TBufferedTransport_new (b_transport b)) = Some ([[], replicate 500 1, replicate 30 2], b')"
  using buffered_roundtrip [of "[replicate 500 1, replicate 30 2]" "[[], replicate 500 1, replicate 30 2]"] by simp

end
