(* ===== verification/Address_Types.thy ===== *)
theory Address_Types
  imports Packet
begin

text \<open>
  Socket addresses (src/turnserver/network/address_types.h, address_types.inl,
  address_types.cpp), the address structs of address_utility.h and the address
  helpers of network_utility.cpp.

  \<open>SocketAddress4\<close> keeps address and port in network order, \<open>NewSockAddress4\<close> in
  host order, \<open>SocketAddress6\<close> keeps the port in network order;
  \<open>GeneralSocketAddress\<close> is a union of the last two and a path, tagged with its
  version.  An integer in network order is the value a little-endian host reads
  from the four or two bytes.  The operating system (\<open>getaddrinfo\<close>,
  \<open>getifaddrs\<close>), \<open>inet_ntop\<close>, \<open>std::hash\<close> and the hash functions that
  city_hash.h only declares are arguments of the definitions that use them.
\<close>

section \<open>Byte order and the system's address structs\<close>

definition htonl :: "u32 \<Rightarrow> u32" where
  "htonl w = le_word (rev (le_bytes 4 w))"

definition htons :: "u16 \<Rightarrow> u16" where
  "htons w = le_word (rev (le_bytes 2 w))"

abbreviation ntohl :: "u32 \<Rightarrow> u32" where
  "ntohl \<equiv> htonl"

abbreviation ntohs :: "u16 \<Rightarrow> u16" where
  "ntohs \<equiv> htons"

definition AF_UNIX :: u16 where "AF_UNIX = 1"
definition AF_INET :: u16 where "AF_INET = 2"
definition AF_INET6 :: u16 where "AF_INET6 = 10"

record sockaddr_in =
  sin_family :: u16
  sin_port :: u16
  sin_addr :: u32

text \<open>The four words \<open>s6_addr32\<close> of an \<open>in6_addr\<close>.\<close>

type_synonym in6_addr = "u32 \<times> u32 \<times> u32 \<times> u32"

record sockaddr_in6 =
  sin6_family :: u16
  sin6_port :: u16
  sin6_flowinfo :: u32
  sin6_addr :: in6_addr
  sin6_scope_id :: u32

text \<open>\<open>sun_path\<close> is an array of 108 characters.\<close>

record sockaddr_un =
  sun_family :: u16
  sun_path :: "byte list"

text \<open>The contents of a \<open>sockaddr_storage\<close>, by the struct that was stored in it.\<close>

datatype sockaddr_storage =
  SS_in sockaddr_in | SS_in6 sockaddr_in6 | SS_un sockaddr_un | SS_other u16

fun ss_family :: "sockaddr_storage \<Rightarrow> u16" where
  "ss_family (SS_in a) = sin_family a"
| "ss_family (SS_in6 a) = sin6_family a"
| "ss_family (SS_un a) = sun_family a"
| "ss_family (SS_other f) = f"

text \<open>A C string: the characters before the first NUL, which must be there.\<close>

definition c_string :: "byte list \<Rightarrow> byte list option" where
  "c_string cs = (if 0 \<in> set cs then Some (takeWhile (\<lambda>c. c \<noteq> 0) cs) else None)"

text \<open>\<open>snprintf\<close> into a zeroed array of \<open>len\<close> characters, with room for \<open>n\<close>: at most \<open>n - 1\<close> characters.\<close>

definition snprintf_zeroed :: "nat \<Rightarrow> nat \<Rightarrow> byte list \<Rightarrow> byte list" where
  "snprintf_zeroed len n s = (let t = take (n - 1) s in t @ replicate (len - length t) 0)"

section \<open>Unix socket addresses\<close>

type_synonym SocketAddressUnix = "byte list"

definition SocketAddressUnix_codec :: "SocketAddressUnix codec" where
  "SocketAddressUnix_codec = NEW_DECLARE_PACKABLE_1 string_codec"

definition SocketAddressUnix_cmp :: "SocketAddressUnix cmp" where
  "SocketAddressUnix_cmp = NEW_DECLARE_STRUCT_1 prim_cmp"

definition SocketAddressUnix_of_un :: "sockaddr_un \<Rightarrow> SocketAddressUnix option" where
  "SocketAddressUnix_of_un a = c_string (sun_path a)"

definition SocketAddressUnix_gt :: "SocketAddressUnix \<Rightarrow> SocketAddressUnix \<Rightarrow> bool" where
  "SocketAddressUnix_gt a b \<longleftrightarrow> a > b"

text \<open>\<open>path.c_str()\<close> ends at the first NUL of the path; the array has 108 characters.\<close>

definition SocketAddressUnix_to_un :: "SocketAddressUnix \<Rightarrow> sockaddr_un" where
  "SocketAddressUnix_to_un path =
     \<lparr>sun_family = AF_UNIX,
      sun_path = snprintf_zeroed 108 (108 - 1) (takeWhile (\<lambda>c. c \<noteq> 0) path)\<rparr>"

section \<open>IPv4 addresses in network order\<close>

type_synonym SocketAddress4 = "u32 \<times> u16"

definition SocketAddress4_codec :: "SocketAddress4 codec" where
  "SocketAddress4_codec = NEW_DECLARE_PACKABLE_2 u32_codec u16_codec"

definition SocketAddress4_cmp :: "SocketAddress4 cmp" where
  "SocketAddress4_cmp = NEW_DECLARE_STRUCT_2 prim_cmp prim_cmp"

definition SocketAddress4_of_in :: "sockaddr_in \<Rightarrow> SocketAddress4" where
  "SocketAddress4_of_in a = (sin_addr a, sin_port a)"

definition SocketAddress4_to_in :: "SocketAddress4 \<Rightarrow> sockaddr_in" where
  "SocketAddress4_to_in a = \<lparr>sin_family = AF_INET, sin_port = snd a, sin_addr = fst a\<rparr>"

definition SocketAddress4_Ip :: "SocketAddress4 \<Rightarrow> u32" where
  "SocketAddress4_Ip a = ntohl (fst a)"

definition SocketAddress4_Port :: "SocketAddress4 \<Rightarrow> u16" where
  "SocketAddress4_Port a = ntohs (snd a)"

definition SocketAddress4_gt :: "SocketAddress4 \<Rightarrow> SocketAddress4 \<Rightarrow> bool" where
  "SocketAddress4_gt a b \<longleftrightarrow> fst a > fst b \<or> (fst a = fst b \<and> snd a > snd b)"

text \<open>The union of the hasher: \<open>ip\<close>, \<open>port\<close> and \<open>zero\<close> as one little-endian integer.\<close>

definition SocketAddress4_repr :: "SocketAddress4 \<Rightarrow> u64" where
  "SocketAddress4_repr a = le_word (le_bytes 4 (fst a) @ le_bytes 2 (snd a) @ le_bytes 2 (0 :: u16))"

definition SocketAddress4Hasher :: "(u64 \<Rightarrow> u64) \<Rightarrow> SocketAddress4 \<Rightarrow> u64" where
  "SocketAddress4Hasher hasher a = hasher (SocketAddress4_repr a)"

definition AddressPair4_codec :: "(SocketAddress4 \<times> SocketAddress4) codec" where
  "AddressPair4_codec = NEW_DECLARE_PACKABLE_2 SocketAddress4_codec SocketAddress4_codec"

definition AddressPair4_cmp :: "(SocketAddress4 \<times> SocketAddress4) cmp" where
  "AddressPair4_cmp = NEW_DECLARE_STRUCT_2 SocketAddress4_cmp SocketAddress4_cmp"

section \<open>IPv4 addresses in host order\<close>

record NewSockAddress4 =
  na_ip :: u32
  na_port :: u16

definition NewSockAddress4_new :: "u32 \<Rightarrow> u16 \<Rightarrow> NewSockAddress4" where
  "NewSockAddress4_new ip port = \<lparr>na_ip = ip, na_port = port\<rparr>"

definition NewSockAddress4_of_old :: "SocketAddress4 \<Rightarrow> NewSockAddress4" where
  "NewSockAddress4_of_old a = \<lparr>na_ip = SocketAddress4_Ip a, na_port = SocketAddress4_Port a\<rparr>"

definition NewSockAddress4_of_in :: "sockaddr_in \<Rightarrow> NewSockAddress4" where
  "NewSockAddress4_of_in a = \<lparr>na_ip = ntohl (sin_addr a), na_port = ntohs (sin_port a)\<rparr>"

definition NewSockAddress4_to_in :: "NewSockAddress4 \<Rightarrow> sockaddr_in" where
  "NewSockAddress4_to_in a =
     \<lparr>sin_family = AF_INET, sin_port = htons (na_port a), sin_addr = htonl (na_ip a)\<rparr>"

definition SetIp :: "u32 \<Rightarrow> NewSockAddress4 \<Rightarrow> NewSockAddress4" where
  "SetIp ip a = a\<lparr>na_ip := ip\<rparr>"

definition SetPort :: "u16 \<Rightarrow> NewSockAddress4 \<Rightarrow> NewSockAddress4" where
  "SetPort port a = a\<lparr>na_port := port\<rparr>"

definition NewSockAddress4_SerializeTo :: "NewSockAddress4 \<Rightarrow> packer \<Rightarrow> packer option" where
  "NewSockAddress4_SerializeTo a p =
     do { p \<leftarrow> push u32_codec (htonl (na_ip a)) p; push u16_codec (htons (na_port a)) p }"

definition NewSockAddress4_SerializeFrom ::
  "NewSockAddress4 \<Rightarrow> unpacker \<Rightarrow> (NewSockAddress4 \<times> unpacker) option" where
  "NewSockAddress4_SerializeFrom a u =
     do { (ip, u) \<leftarrow> pop u32_codec 0 u; (port, u) \<leftarrow> pop u16_codec 0 u;
          Some (a\<lparr>na_ip := ntohl ip, na_port := ntohs port\<rparr>, u) }"

definition NewSockAddress4_codec :: "NewSockAddress4 codec" where
  "NewSockAddress4_codec =
     \<lparr>push = NewSockAddress4_SerializeTo, pop = NewSockAddress4_SerializeFrom,
      dflt = NewSockAddress4_new 0 0\<rparr>"

definition NewSockAddress4_cmp :: "NewSockAddress4 cmp" where
  "NewSockAddress4_cmp =
     \<lparr>cmp_lt = (\<lambda>a b. na_ip a < na_ip b \<or> (na_ip a = na_ip b \<and> na_port a < na_port b)),
      cmp_eq = (\<lambda>a b. na_ip a = na_ip b \<and> na_port a = na_port b)\<rparr>"

definition NewSockAddress4_gt :: "NewSockAddress4 \<Rightarrow> NewSockAddress4 \<Rightarrow> bool" where
  "NewSockAddress4_gt a b \<longleftrightarrow> na_ip a > na_ip b \<or> (na_ip a = na_ip b \<and> na_port a > na_port b)"

definition Address4Pair_codec :: "(NewSockAddress4 \<times> NewSockAddress4) codec" where
  "Address4Pair_codec = NEW_DECLARE_PACKABLE_2 NewSockAddress4_codec NewSockAddress4_codec"

definition NewSockAddress4_repr :: "NewSockAddress4 \<Rightarrow> u64" where
  "NewSockAddress4_repr a = le_word (le_bytes 4 (na_ip a) @ le_bytes 4 (ucast (na_port a) :: u32))"

definition NewSockAddress4Hasher :: "(u64 \<Rightarrow> u64) \<Rightarrow> NewSockAddress4 \<Rightarrow> u64" where
  "NewSockAddress4Hasher hasher a = hasher (NewSockAddress4_repr a)"

fun ToOldAddresses :: "NewSockAddress4 list \<Rightarrow> SocketAddress4 list" where
  "ToOldAddresses [] = []"
| "ToOldAddresses (addr # old) = (htonl (na_ip addr), htons (na_port addr)) # ToOldAddresses old"

section \<open>Textual form of IPv4 addresses\<close>

fun decimal :: "nat \<Rightarrow> byte list" where
  "decimal n = (if n < 10 then [of_nat (48 + n)] else decimal (n div 10) @ [of_nat (48 + n mod 10)])"

declare decimal.simps [simp del]

text \<open>\<open>inet_ntoa\<close>: the four bytes of the address in memory, in decimal, separated by dots.\<close>

definition inet_ntoa :: "u32 \<Rightarrow> byte list" where
  "inet_ntoa a =
     (let d = (\<lambda>i. decimal (unat (le_bytes 4 a ! i))) in d 0 @ 46 # d 1 @ 46 # d 2 @ 46 # d 3)"

text \<open>\<open>snprintf\<close> into an array of 32 characters.\<close>

definition SockAddr4ToString :: "sockaddr_in \<Rightarrow> byte list" where
  "SockAddr4ToString a = take 31 (inet_ntoa (sin_addr a) @ 58 # decimal (unat (ntohs (sin_port a))))"

definition SocketAddress4_ToDebugString :: "SocketAddress4 \<Rightarrow> byte list" where
  "SocketAddress4_ToDebugString a = SockAddr4ToString (SocketAddress4_to_in a)"

definition NewSockAddress4_ToDebugString :: "NewSockAddress4 \<Rightarrow> byte list" where
  "NewSockAddress4_ToDebugString a = SockAddr4ToString (NewSockAddress4_to_in a)"

section \<open>IPv6 addresses\<close>

definition in6addr_any :: in6_addr where
  "in6addr_any = (0, 0, 0, 0)"

text \<open>\<open>::1\<close>, the last word in network order.\<close>

definition in6addr_loopback :: in6_addr where
  "in6addr_loopback = (0, 0, 0, htonl 1)"

text \<open>The two 64-bit integers that overlay the address.\<close>

definition in6_u64 :: "in6_addr \<Rightarrow> u64 \<times> u64" where
  "in6_u64 a = (case a of (w0, w1, w2, w3) \<Rightarrow>
     (le_word (le_bytes 4 w0 @ le_bytes 4 w1), le_word (le_bytes 4 w2 @ le_bytes 4 w3)))"

definition In6AddrLessThan :: "in6_addr \<Rightarrow> in6_addr \<Rightarrow> bool" where
  "In6AddrLessThan a b =
     (let left = in6_u64 a; right = in6_u64 b
      in fst left < fst right \<or> (fst left = fst right \<and> snd left < snd right))"

definition In6AddrEqualTo :: "in6_addr \<Rightarrow> in6_addr \<Rightarrow> bool" where
  "In6AddrEqualTo a b =
     (let left = in6_u64 a; right = in6_u64 b in fst left = fst right \<and> snd left = snd right)"

text \<open>The operators of \<open>struct Ipv6\<close>, which has the address as its only member.\<close>

definition Ipv6_cmp :: "in6_addr cmp" where
  "Ipv6_cmp = \<lparr>cmp_lt = In6AddrLessThan, cmp_eq = In6AddrEqualTo\<rparr>"

definition Ipv6_IsGlobal :: "in6_addr \<Rightarrow> bool" where
  "Ipv6_IsGlobal ip6 \<longleftrightarrow> (fst ip6 AND htonl 0x70000000) = htonl 0x20000000"

definition Ipv6_IsLoopBack :: "in6_addr \<Rightarrow> bool" where
  "Ipv6_IsLoopBack ip6 \<longleftrightarrow> In6AddrEqualTo ip6 in6addr_loopback"

record SocketAddress6 =
  a6_ip :: in6_addr
  a6_scope_id :: u32
  a6_port :: u16

definition SocketAddress6_new :: SocketAddress6 where
  "SocketAddress6_new = \<lparr>a6_ip = in6addr_loopback, a6_scope_id = 0, a6_port = 0\<rparr>"

definition SocketAddress6_of_ip :: "in6_addr \<Rightarrow> u16 \<Rightarrow> u32 \<Rightarrow> SocketAddress6" where
  "SocketAddress6_of_ip a prt local_scope_id = \<lparr>a6_ip = a, a6_scope_id = local_scope_id, a6_port = prt\<rparr>"

definition SocketAddress6_of_in6 :: "sockaddr_in6 \<Rightarrow> SocketAddress6" where
  "SocketAddress6_of_in6 a =
     \<lparr>a6_ip = sin6_addr a, a6_scope_id = sin6_scope_id a, a6_port = sin6_port a\<rparr>"

definition SocketAddress6_to_in6 :: "SocketAddress6 \<Rightarrow> sockaddr_in6" where
  "SocketAddress6_to_in6 a =
     \<lparr>sin6_family = AF_INET6, sin6_port = a6_port a, sin6_flowinfo = 0, sin6_addr = a6_ip a,
      sin6_scope_id = a6_scope_id a\<rparr>"

definition SocketAddress6_Any :: SocketAddress6 where
  "SocketAddress6_Any = SocketAddress6_of_ip in6addr_any 0 0"

definition SocketAddress6_Loopback :: SocketAddress6 where
  "SocketAddress6_Loopback = SocketAddress6_of_ip in6addr_loopback 0 0"

definition SocketAddress6_cmp :: "SocketAddress6 cmp" where
  "SocketAddress6_cmp =
     \<lparr>cmp_lt = (\<lambda>l r. In6AddrLessThan (a6_ip l) (a6_ip r) \<or>
        (In6AddrEqualTo (a6_ip l) (a6_ip r) \<and> a6_port l < a6_port r) \<or>
        (In6AddrEqualTo (a6_ip l) (a6_ip r) \<and> a6_port l = a6_port r \<and>
         a6_scope_id l < a6_scope_id r)),
      cmp_eq = (\<lambda>l r. In6AddrEqualTo (a6_ip l) (a6_ip r) \<and> a6_port l = a6_port r \<and>
        a6_scope_id l = a6_scope_id r)\<rparr>"

definition in6_addr_codec :: "in6_addr codec" where
  "in6_addr_codec =
     \<lparr>push = (\<lambda>(w0, w1, w2, w3) p.
        do { p \<leftarrow> PushUint32 w0 p; p \<leftarrow> PushUint32 w1 p; p \<leftarrow> PushUint32 w2 p; PushUint32 w3 p }),
      pop = (\<lambda>_ u.
        do { (w0, u) \<leftarrow> PopUint32 u; (w1, u) \<leftarrow> PopUint32 u; (w2, u) \<leftarrow> PopUint32 u;
             (w3, u) \<leftarrow> PopUint32 u; Some ((w0, w1, w2, w3), u) }),
      dflt = (0, 0, 0, 0)\<rparr>"

definition SocketAddress6_codec :: "SocketAddress6 codec" where
  "SocketAddress6_codec =
     \<lparr>push = (\<lambda>x p.
        do { p \<leftarrow> push in6_addr_codec (a6_ip x) p; p \<leftarrow> push u32_codec (a6_scope_id x) p;
             push u16_codec (a6_port x) p }),
      pop = (\<lambda>x u.
        do { (ip6, u) \<leftarrow> pop in6_addr_codec (a6_ip x) u; (scope, u) \<leftarrow> pop u32_codec (a6_scope_id x) u;
             (port, u) \<leftarrow> pop u16_codec (a6_port x) u;
             Some (x\<lparr>a6_ip := ip6, a6_scope_id := scope, a6_port := port\<rparr>, u) }),
      dflt = SocketAddress6_new\<rparr>"

text \<open>The textual form; \<open>inet_ntop\<close> is an argument.  The array has 128 characters.\<close>

definition SocketAddress6_ToDebugString :: "(in6_addr \<Rightarrow> byte list) \<Rightarrow> SocketAddress6 \<Rightarrow> byte list" where
  "SocketAddress6_ToDebugString inet_ntop a =
     (let buf = 91 # take 126 (inet_ntop (a6_ip a)); len = length buf
      in buf @ take (127 - len) ([93, 58] @ decimal (unat (ntohs (a6_port a)))))"

section \<open>Addresses of any kind\<close>

text \<open>
  The tag \<open>version_\<close> and the member of the union that is alive always change
  together, so the class is a datatype with a constructor for each version.
\<close>

datatype GeneralSocketAddress =
  kIp4 NewSockAddress4 | kIp6 SocketAddress6 | kUnix SocketAddressUnix

fun GetSocketAddressType :: "GeneralSocketAddress \<Rightarrow> u16" where
  "GetSocketAddressType (kIp4 _) = 0"
| "GetSocketAddressType (kIp6 _) = 1"
| "GetSocketAddressType (kUnix _) = 2"

definition GeneralSocketAddress_new :: GeneralSocketAddress where
  "GeneralSocketAddress_new = kIp4 (NewSockAddress4_new 0 0)"

definition GeneralSocketAddress_of_old :: "SocketAddress4 \<Rightarrow> GeneralSocketAddress" where
  "GeneralSocketAddress_of_old a = kIp4 (NewSockAddress4_new (SocketAddress4_Ip a) (SocketAddress4_Port a))"

text \<open>The constructor asserts that the family is one of three and reads the storage as that struct.\<close>

definition GeneralSocketAddress_of_storage :: "sockaddr_storage \<Rightarrow> GeneralSocketAddress option" where
  "GeneralSocketAddress_of_storage a =
     (if ss_family a = AF_INET
      then (case a of SS_in rhs \<Rightarrow> Some (kIp4 (NewSockAddress4_of_in rhs)) | _ \<Rightarrow> None)
      else if ss_family a = AF_INET6
      then (case a of SS_in6 rhs \<Rightarrow> Some (kIp6 (SocketAddress6_of_in6 rhs)) | _ \<Rightarrow> None)
      else if ss_family a = AF_UNIX
      then (case a of SS_un rhs \<Rightarrow> map_option kUnix (SocketAddressUnix_of_un rhs) | _ \<Rightarrow> None)
      else None)"

fun GeneralSocketAddress_to_storage :: "GeneralSocketAddress \<Rightarrow> sockaddr_storage" where
  "GeneralSocketAddress_to_storage (kIp4 a) = SS_in (NewSockAddress4_to_in a)"
| "GeneralSocketAddress_to_storage (kIp6 a) = SS_in6 (SocketAddress6_to_in6 a)"
| "GeneralSocketAddress_to_storage (kUnix a) = SS_un (SocketAddressUnix_to_un a)"

text \<open>The conversions to a member type assert the version.\<close>

fun to_NewSockAddress4 :: "GeneralSocketAddress \<Rightarrow> NewSockAddress4 option" where
  "to_NewSockAddress4 (kIp4 a) = Some a"
| "to_NewSockAddress4 _ = None"

fun to_SocketAddress4 :: "GeneralSocketAddress \<Rightarrow> SocketAddress4 option" where
  "to_SocketAddress4 (kIp4 a) = Some (htonl (na_ip a), htons (na_port a))"
| "to_SocketAddress4 _ = None"

fun to_SocketAddress6 :: "GeneralSocketAddress \<Rightarrow> SocketAddress6 option" where
  "to_SocketAddress6 (kIp6 a) = Some a"
| "to_SocketAddress6 _ = None"

fun to_SocketAddressUnix :: "GeneralSocketAddress \<Rightarrow> SocketAddressUnix option" where
  "to_SocketAddressUnix (kUnix a) = Some a"
| "to_SocketAddressUnix _ = None"

fun GetPort :: "GeneralSocketAddress \<Rightarrow> u16" where
  "GetPort (kIp4 a) = na_port a"
| "GetPort (kIp6 a) = ntohs (a6_port a)"
| "GetPort (kUnix _) = 0"

fun GeneralSocketAddress_ToDebugString :: "(in6_addr \<Rightarrow> byte list) \<Rightarrow> GeneralSocketAddress \<Rightarrow> byte list" where
  "GeneralSocketAddress_ToDebugString inet_ntop (kIp4 a) = NewSockAddress4_ToDebugString a"
| "GeneralSocketAddress_ToDebugString inet_ntop (kIp6 a) = SocketAddress6_ToDebugString inet_ntop a"
| "GeneralSocketAddress_ToDebugString inet_ntop (kUnix a) = a"

fun GeneralSocketAddress_eq :: "GeneralSocketAddress \<Rightarrow> GeneralSocketAddress \<Rightarrow> bool" where
  "GeneralSocketAddress_eq (kIp4 a) b = (case b of kIp4 b' \<Rightarrow> cmp_eq NewSockAddress4_cmp a b' | _ \<Rightarrow> False)"
| "GeneralSocketAddress_eq (kIp6 a) b = (case b of kIp6 b' \<Rightarrow> cmp_eq SocketAddress6_cmp a b' | _ \<Rightarrow> False)"
| "GeneralSocketAddress_eq (kUnix a) b = (case b of kUnix b' \<Rightarrow> cmp_eq SocketAddressUnix_cmp a b' | _ \<Rightarrow> False)"

definition LessThan :: "GeneralSocketAddress \<Rightarrow> GeneralSocketAddress \<Rightarrow> bool" where
  "LessThan a b =
     (if GetSocketAddressType a < GetSocketAddressType b then True
      else if GetSocketAddressType a > GetSocketAddressType b then False
      else case (a, b) of
        (kIp4 x, kIp4 y) \<Rightarrow> cmp_lt NewSockAddress4_cmp x y
      | (kIp6 x, kIp6 y) \<Rightarrow> cmp_lt SocketAddress6_cmp x y
      | (kUnix x, kUnix y) \<Rightarrow> cmp_lt SocketAddressUnix_cmp x y
      | _ \<Rightarrow> False)"

definition GeneralSocketAddress_cmp :: "GeneralSocketAddress cmp" where
  "GeneralSocketAddress_cmp = \<lparr>cmp_lt = LessThan, cmp_eq = GeneralSocketAddress_eq\<rparr>"

fun GeneralSocketAddress_SerializeTo :: "GeneralSocketAddress \<Rightarrow> packer \<Rightarrow> packer option" where
  "GeneralSocketAddress_SerializeTo (kIp4 a) p =
     do { p \<leftarrow> push u16_codec 0 p; push NewSockAddress4_codec a p }"
| "GeneralSocketAddress_SerializeTo (kIp6 a) p =
     do { p \<leftarrow> push u16_codec 1 p; push SocketAddress6_codec a p }"
| "GeneralSocketAddress_SerializeTo (kUnix a) p =
     do { p \<leftarrow> push u16_codec 2 p; push SocketAddressUnix_codec a p }"

definition GeneralSocketAddress_SerializeFrom ::
  "GeneralSocketAddress \<Rightarrow> unpacker \<Rightarrow> (GeneralSocketAddress \<times> unpacker) option" where
  "GeneralSocketAddress_SerializeFrom a u =
     do { (ver, u) \<leftarrow> pop u16_codec 0 u;
          if ver = 0 then map_option (apfst kIp4) (pop NewSockAddress4_codec (dflt NewSockAddress4_codec) u)
          else if ver = 1 then map_option (apfst kIp6) (pop SocketAddress6_codec (dflt SocketAddress6_codec) u)
          else if ver = 2
          then map_option (apfst kUnix) (pop SocketAddressUnix_codec (dflt SocketAddressUnix_codec) u)
          else None }"

definition GeneralSocketAddress_codec :: "GeneralSocketAddress codec" where
  "GeneralSocketAddress_codec =
     \<lparr>push = GeneralSocketAddress_SerializeTo, pop = GeneralSocketAddress_SerializeFrom,
      dflt = GeneralSocketAddress_new\<rparr>"

text \<open>
  The hash: \<open>std::hash\<close> on integers and strings and \<open>CityHash64\<close> are arguments.
  The 22 bytes of an IPv6 address are those of its members, without the padding.
\<close>

definition SocketAddress6_image :: "SocketAddress6 \<Rightarrow> byte list" where
  "SocketAddress6_image a = (case a6_ip a of (w0, w1, w2, w3) \<Rightarrow>
     le_bytes 4 w0 @ le_bytes 4 w1 @ le_bytes 4 w2 @ le_bytes 4 w3 @
     le_bytes 4 (a6_scope_id a) @ le_bytes 2 (a6_port a))"

fun GetHash :: "(u64 \<Rightarrow> u64) \<Rightarrow> (byte list \<Rightarrow> u64) \<Rightarrow> (byte list \<Rightarrow> u64) \<Rightarrow> GeneralSocketAddress \<Rightarrow> u64" where
  "GetHash hash_int CityHash64 hash_string (kIp4 a) =
     hash_int (push_bit 16 (ucast (na_ip a)) + ucast (na_port a))"
| "GetHash hash_int CityHash64 hash_string (kIp6 a) = CityHash64 (SocketAddress6_image a)"
| "GetHash hash_int CityHash64 hash_string (kUnix a) = hash_string a"

section \<open>Address structs of address_utility.h\<close>

definition OldIspServiceAddress_codec :: "(byte list \<times> u32 \<times> u16) codec" where
  "OldIspServiceAddress_codec = NEW_DECLARE_PACKABLE_3 string_codec u32_codec u16_codec"

definition OldAddressInfo_codec :: "(byte list \<times> u16) codec" where
  "OldAddressInfo_codec = NEW_DECLARE_PACKABLE_2 string_codec u16_codec"

section \<open>Local and public addresses\<close>

definition ip_begin :: "u32 list" where
  "ip_begin = [0x0a000000, 0x7f000000, 0xac100000, 0xa9fe0000, 0xc0a80000, 0x64400000]"

definition ip_end :: "u32 list" where
  "ip_end = [0x0affffff, 0x7fffffff, 0xac1fffff, 0xa9feffff, 0xc0a8ffff, 0x647fffff]"

text \<open>The loop over the two arrays.\<close>

fun in_some_range :: "u32 \<Rightarrow> (u32 \<times> u32) list \<Rightarrow> bool" where
  "in_some_range ip [] = False"
| "in_some_range ip ((b, e) # rs) = (if ip \<ge> b \<and> ip \<le> e then True else in_some_range ip rs)"

definition IsPublicIp :: "u32 \<Rightarrow> bool" where
  "IsPublicIp ip \<longleftrightarrow> \<not> in_some_range ip (zip ip_begin ip_end)"

text \<open>\<open>getaddrinfo\<close> returns an error or the list of results.\<close>

definition ResolveHost :: "(byte list \<Rightarrow> sockaddr_in list option) \<Rightarrow> byte list \<Rightarrow> u32 list" where
  "ResolveHost getaddrinfo host =
     (case getaddrinfo host of None \<Rightarrow> [] | Some result \<Rightarrow> map (\<lambda>p. ntohl (sin_addr p)) result)"

definition INADDR_LOOPBACK :: u32 where
  "INADDR_LOOPBACK = 0x7f000001"

text \<open>
  \<open>getifaddrs\<close> fails or gives a list of interfaces, each with an address or
  none.  The addresses are collected in an \<open>unordered_set\<close>; the order in which it
  is iterated over is the argument \<open>iter\<close>.
\<close>

fun collect_ip4 :: "sockaddr_storage option list \<Rightarrow> u32 list" where
  "collect_ip4 [] = []"
| "collect_ip4 (Some (SS_in p) # r) =
     (if sin_family p = AF_INET \<and> ntohl (sin_addr p) \<noteq> INADDR_LOOPBACK
      then ntohl (sin_addr p) # collect_ip4 r else collect_ip4 r)"
| "collect_ip4 (_ # r) = collect_ip4 r"

definition LocalAddresses ::
  "(u32 set \<Rightarrow> u32 list) \<Rightarrow> sockaddr_storage option list option \<Rightarrow> u32 list" where
  "LocalAddresses iter getifaddrs =
     (case getifaddrs of None \<Rightarrow> [] | Some if_address \<Rightarrow> iter (set (collect_ip4 if_address)))"

definition LocalPublicAddresses ::
  "(u32 set \<Rightarrow> u32 list) \<Rightarrow> sockaddr_storage option list option \<Rightarrow> u32 list" where
  "LocalPublicAddresses iter getifaddrs = filter IsPublicIp (LocalAddresses iter getifaddrs)"

fun collect_ip6 :: "sockaddr_storage option list \<Rightarrow> SocketAddress6 list" where
  "collect_ip6 [] = []"
| "collect_ip6 (Some (SS_in6 p) # r) =
     (if sin6_family p = AF_INET6 \<and> \<not> Ipv6_IsLoopBack (sin6_addr p)
      then SocketAddress6_of_in6 p # collect_ip6 r else collect_ip6 r)"
| "collect_ip6 (_ # r) = collect_ip6 r"

definition LocalIpv6Addresses :: "sockaddr_storage option list option \<Rightarrow> SocketAddress6 list" where
  "LocalIpv6Addresses getifaddrs =
     (case getifaddrs of None \<Rightarrow> [] | Some if_address \<Rightarrow> collect_ip6 if_address)"

definition LocalPublicIpv6Addresses :: "sockaddr_storage option list option \<Rightarrow> SocketAddress6 list" where
  "LocalPublicIpv6Addresses getifaddrs =
     filter (\<lambda>addr. Ipv6_IsGlobal (a6_ip addr)) (LocalIpv6Addresses getifaddrs)"

section \<open>Byte order\<close>

lemma htonl_htonl [simp]: "htonl (htonl w) = w"
  using le_bytes_le_word [of "rev (le_bytes 4 w)", where 'a = 32] by (simp add: htonl_def)

lemma htons_htons [simp]: "htons (htons w) = w"
  using le_bytes_le_word [of "rev (le_bytes 2 w)", where 'a = 16] by (simp add: htons_def)

lemma htonl_eq_iff [simp]: "htonl a = htonl b \<longleftrightarrow> a = b"
  by (metis htonl_htonl)

lemma htons_eq_iff [simp]: "htons a = htons b \<longleftrightarrow> a = b"
  by (metis htons_htons)

lemma le_bytes_eq_iff:
  "LENGTH('a) \<le> 8 * n \<Longrightarrow> le_bytes n (a :: 'a::len word) = le_bytes n b \<longleftrightarrow> a = b"
  by (metis le_word_le_bytes_full)

lemma le_word_eq_iff:
  "length xs = length ys \<Longrightarrow> 8 * length xs \<le> LENGTH('a) \<Longrightarrow>
   (le_word xs :: 'a::len word) = le_word ys \<longleftrightarrow> xs = ys"
  by (metis le_bytes_le_word)

lemmas bytes_inj = le_bytes_eq_iff le_word_eq_iff

section \<open>Order of the addresses\<close>

lemma order_inj:
  assumes o: "cpp_order ops" and inj: "\<And>a b. f a = f b \<longleftrightarrow> a = b"
    and lt: "\<And>a b. cmp_lt ops' a b \<longleftrightarrow> cmp_lt ops (f a) (f b)"
    and eq: "\<And>a b. cmp_eq ops' a b \<longleftrightarrow> cmp_eq ops (f a) (f b)"
  shows "cpp_order ops'"
proof -
  have "cmp_lt ops (f a) (f b) \<or> cmp_lt ops (f b) (f a)" if "a \<noteq> b" for a b
    using cpp_order.total [OF o, of "f a" "f b"] that inj by simp
  then show ?thesis
    by unfold_locales (auto simp: lt eq inj cpp_order.eq_iff [OF o] cpp_order.irrefl [OF o]
        intro: cpp_order.trans [OF o])
qed

interpretation unix: cpp_order SocketAddressUnix_cmp
  unfolding SocketAddressUnix_cmp_def STRUCT_lex by (rule order_prim)

interpretation addr4: cpp_order SocketAddress4_cmp
  unfolding SocketAddress4_cmp_def STRUCT_lex by (intro order_lex order_prim)

interpretation pair4: cpp_order AddressPair4_cmp
  unfolding AddressPair4_cmp_def STRUCT_lex by (intro order_lex addr4.cpp_order_axioms)

lemma na_eq_iff: "(na_ip a, na_port a) = (na_ip b, na_port b) \<longleftrightarrow> a = (b :: NewSockAddress4)"
  by (cases a; cases b) auto

interpretation newaddr4: cpp_order NewSockAddress4_cmp
  by (rule order_inj [OF order_lex [OF order_prim order_prim], of "\<lambda>a. (na_ip a, na_port a)"])
    (auto simp: NewSockAddress4_cmp_def lex_cmp_def prim_cmp_def)

lemma in6_u64_inj: "in6_u64 a = in6_u64 b \<longleftrightarrow> a = b"
  by (cases a; cases b) (simp add: in6_u64_def bytes_inj)

interpretation ip6: cpp_order Ipv6_cmp
  by (rule order_inj [OF order_lex [OF order_prim order_prim], of in6_u64])
    (auto simp: Ipv6_cmp_def in6_u64_inj In6AddrLessThan_def In6AddrEqualTo_def lex_cmp_def prim_cmp_def Let_def
      split: prod.splits)

lemma In6AddrEqualTo_iff [simp]: "In6AddrEqualTo a b \<longleftrightarrow> a = b"
  using ip6.eq_iff by (simp add: Ipv6_cmp_def)

interpretation addr6: cpp_order SocketAddress6_cmp
proof (rule order_inj [OF order_lex [OF ip6.cpp_order_axioms order_lex [OF order_prim order_prim]],
      of "\<lambda>a. (a6_ip a, a6_port a, a6_scope_id a)"])
  show "(a6_ip a, a6_port a, a6_scope_id a) = (a6_ip b, a6_port b, a6_scope_id b) \<longleftrightarrow> a = b"
    for a b :: SocketAddress6 by (cases a; cases b) auto
qed (auto simp: SocketAddress6_cmp_def Ipv6_cmp_def lex_cmp_def prim_cmp_def)

interpretation general: cpp_order GeneralSocketAddress_cmp
proof
  fix a b d :: GeneralSocketAddress
  show "cmp_eq GeneralSocketAddress_cmp a b \<longleftrightarrow> a = b"
    by (cases a; cases b) (simp_all add: GeneralSocketAddress_cmp_def newaddr4.eq_iff addr6.eq_iff unix.eq_iff)
  show "\<not> cmp_lt GeneralSocketAddress_cmp a a"
    by (cases a) (simp_all add: GeneralSocketAddress_cmp_def LessThan_def newaddr4.irrefl addr6.irrefl unix.irrefl)
  show "cmp_lt GeneralSocketAddress_cmp a b \<Longrightarrow> cmp_lt GeneralSocketAddress_cmp b d \<Longrightarrow>
      cmp_lt GeneralSocketAddress_cmp a d"
    by (cases a; cases b; cases d) (auto simp: GeneralSocketAddress_cmp_def LessThan_def
        intro: newaddr4.trans addr6.trans unix.trans)
  show "a \<noteq> b \<Longrightarrow> cmp_lt GeneralSocketAddress_cmp a b \<or> cmp_lt GeneralSocketAddress_cmp b a"
    using newaddr4.total addr6.total unix.total
    by (cases a; cases b) (auto simp: GeneralSocketAddress_cmp_def LessThan_def)
qed

section \<open>Wire format of the addresses\<close>

lemma wire_iso:
  assumes c: "wire_codec c e v" and push: "\<And>x p. push c' x p = push c (f x) p"
    and pop: "\<And>u. pop c' (dflt c') u = map_option (apfst g) (pop c (dflt c) u)"
    and inv: "\<And>x. g (f x) = x"
  shows "wire_codec c' (\<lambda>x. e (f x)) (\<lambda>x. v (f x))"
  by unfold_locales (use wire_codec.push_holds [OF c] wire_codec.pop_at [OF c] push pop inv in auto)

fun SocketAddress4_bytes :: "SocketAddress4 \<Rightarrow> byte list" where
  "SocketAddress4_bytes (ip, port) = le_bytes 4 ip @ le_bytes 2 port"

definition NewSockAddress4_bytes :: "NewSockAddress4 \<Rightarrow> byte list" where
  "NewSockAddress4_bytes a = le_bytes 4 (htonl (na_ip a)) @ le_bytes 2 (htons (na_port a))"

fun GeneralSocketAddress_bytes :: "GeneralSocketAddress \<Rightarrow> byte list" where
  "GeneralSocketAddress_bytes (kIp4 a) = le_bytes 2 (0 :: u16) @ NewSockAddress4_bytes a"
| "GeneralSocketAddress_bytes (kIp6 a) = le_bytes 2 (1 :: u16) @ SocketAddress6_image a"
| "GeneralSocketAddress_bytes (kUnix a) = le_bytes 2 (2 :: u16) @ str_bytes a"

fun GeneralSocketAddress_ok :: "GeneralSocketAddress \<Rightarrow> bool" where
  "GeneralSocketAddress_ok (kUnix a) \<longleftrightarrow> short a"
| "GeneralSocketAddress_ok _ \<longleftrightarrow> True"

interpretation SocketAddress4: wire_codec SocketAddress4_codec SocketAddress4_bytes any
  unfolding SocketAddress4_codec_def
  by (rule wire_cong, (rule wire_codecs)+, auto simp: valid_pair_def)

interpretation SocketAddressUnix: wire_codec SocketAddressUnix_codec str_bytes short
  unfolding SocketAddressUnix_codec_def by (rule wire_codecs)+

interpretation NewSockAddress4: wire_codec NewSockAddress4_codec NewSockAddress4_bytes any
  by (rule wire_cong, rule wire_iso [OF wire_pair [OF wire_u32 wire_u16],
        where f = "\<lambda>a. (htonl (na_ip a), htons (na_port a))"
          and g = "\<lambda>(ip, port). \<lparr>na_ip = ntohl ip, na_port = ntohs port\<rparr>"])
    (auto simp: NewSockAddress4_codec_def pair_codec_def NewSockAddress4_SerializeTo_def
      NewSockAddress4_SerializeFrom_def NewSockAddress4_new_def NewSockAddress4_bytes_def
      u32_codec_def u16_codec_def valid_pair_def split: bind_split)

lemma in6_addr_codec_eq: "in6_addr_codec = NEW_DECLARE_PACKABLE_4 u32_codec u32_codec u32_codec u32_codec"
  by (simp add: in6_addr_codec_def NEW_DECLARE_PACKABLE_4_def NEW_DECLARE_SIMPLE_STRUCT_4_def
      u32_codec_def split_def)

interpretation in6_addr: wire_codec in6_addr_codec
  "enc_pair (le_bytes 4) (enc_pair (le_bytes 4) (enc_pair (le_bytes 4) (le_bytes 4)))" any
  unfolding in6_addr_codec_eq by (rule wire_cong, (rule wire_codecs)+, auto simp: valid_pair_def)

interpretation SocketAddress6: wire_codec SocketAddress6_codec SocketAddress6_image any
  by (rule wire_cong, rule wire_iso [OF wire_pair [OF in6_addr.wire_codec_axioms wire_pair [OF wire_u32 wire_u16]],
        where f = "\<lambda>a. (a6_ip a, a6_scope_id a, a6_port a)"
          and g = "\<lambda>(ip, scope, port). \<lparr>a6_ip = ip, a6_scope_id = scope, a6_port = port\<rparr>"])
    (auto simp: SocketAddress6_codec_def pair_codec_def SocketAddress6_new_def SocketAddress6_image_def
      in6_addr_codec_def u32_codec_def u16_codec_def valid_pair_def split: bind_split prod.splits)

lemma wire_tag:
  assumes c: "wire_codec c e v" and push: "\<And>p. push c' x p = do { p \<leftarrow> PushUint16 tag p; push c y p }"
    and valid: "v y" and h: "holds p bs" "fits (length bs + length (le_bytes 2 tag @ e y))"
  shows "\<exists>p'. push c' x p = Some p' \<and> holds p' (bs @ le_bytes 2 tag @ e y)"
proof -
  obtain q where q: "PushUint16 tag p = Some q" "holds q (bs @ le_bytes 2 tag)"
    using wire_codec.push_holds [OF wire_u16 h(1), of tag] h(2) by (auto simp: u16_codec_def)
  then show ?thesis
    using wire_codec.push_holds [OF c q(2) valid] h(2) push by (simp add: add.assoc)
qed

interpretation GeneralSocketAddress: wire_codec GeneralSocketAddress_codec GeneralSocketAddress_bytes
  GeneralSocketAddress_ok
proof
  fix p bs x
  assume h: "holds p bs" "GeneralSocketAddress_ok x" "fits (length bs + length (GeneralSocketAddress_bytes x))"
  show "\<exists>p'. push GeneralSocketAddress_codec x p = Some p' \<and> holds p' (bs @ GeneralSocketAddress_bytes x)"
    using h wire_tag [OF NewSockAddress4.wire_codec_axioms, of GeneralSocketAddress_codec x]
      wire_tag [OF SocketAddress6.wire_codec_axioms, of GeneralSocketAddress_codec x]
      wire_tag [OF SocketAddressUnix.wire_codec_axioms, of GeneralSocketAddress_codec x]
    by (cases x) (auto simp: GeneralSocketAddress_codec_def u16_codec_def)
next
  fix x u rest
  assume a: "GeneralSocketAddress_ok x" "at u (GeneralSocketAddress_bytes x @ rest)"
  obtain tag body where b: "GeneralSocketAddress_bytes x = le_bytes 2 (tag :: u16) @ body"
    and tag: "tag = GetSocketAddressType x" by (cases x) simp_all
  have ver: "pop u16_codec 0 u = Some (tag, skip 2 u)"
    using wire_codec.pop_at [OF wire_u16, where x = tag and u = u and rest = "body @ rest"] a(2) b by (simp add: u16_codec_def)
  have "at (skip 2 u) (body @ rest)"
    using a(2) b by (intro at_skip [of u "le_bytes 2 tag"]) simp_all
  then show "pop GeneralSocketAddress_codec (dflt GeneralSocketAddress_codec) u =
      Some (x, skip (length (GeneralSocketAddress_bytes x)) u)"
    using a(1) b ver tag NewSockAddress4.pop_at SocketAddress6.pop_at SocketAddressUnix.pop_at
    by (cases x) (auto simp: GeneralSocketAddress_codec_def GeneralSocketAddress_SerializeFrom_def)
qed

section \<open>Properties\<close>

text \<open>The comparison operators of every address type (paths, IPv4 in both byte orders and
  pairs of them, IPv6, addresses of any kind) are a strict total order and its
  equality, so addresses can be keys of ordered containers.\<close>

theorem address_orders:
  "cpp_order SocketAddressUnix_cmp \<and> cpp_order SocketAddress4_cmp \<and> cpp_order AddressPair4_cmp \<and>
   cpp_order NewSockAddress4_cmp \<and> cpp_order Ipv6_cmp \<and> cpp_order SocketAddress6_cmp \<and>
   cpp_order GeneralSocketAddress_cmp"
  by (intro conjI unix.cpp_order_axioms addr4.cpp_order_axioms pair4.cpp_order_axioms
      newaddr4.cpp_order_axioms ip6.cpp_order_axioms addr6.cpp_order_axioms general.cpp_order_axioms)

text \<open>An address of any kind is delivered by its stream operators: the tag, then the
  member in network order; paths have less than \<open>2 ^ 23\<close> characters and fit the packet.\<close>

theorem general_address_delivered:
  assumes "GeneralSocketAddress_ok a" and "fits (length (GeneralSocketAddress_bytes a))"
  shows "delivers GeneralSocketAddress_codec GeneralSocketAddress_bytes a"
  using assms by (rule GeneralSocketAddress.delivery)

theorem general_address_delivered_witness:
  "delivers GeneralSocketAddress_codec GeneralSocketAddress_bytes (kUnix [47, 116])"
  using general_address_delivered [of "kUnix [47, 116]"] by (simp add: str_bytes_def var_bytes_def)

lemma c_string_zeroed:
  assumes "0 \<notin> set t" and "n \<le> len" and "0 < n"
  shows "c_string (snprintf_zeroed len n t) = Some (take (n - 1) t)"
proof -
  have "\<forall>c \<in> set (take (n - 1) t). c \<noteq> 0" using assms(1) by (metis in_set_takeD)
  then have "takeWhile (\<lambda>c. c \<noteq> 0) (take (n - 1) t @ replicate k 0) = take (n - 1) t" for k
    by (cases k) (simp_all add: takeWhile_append2)
  with assms show ?thesis by (auto simp: c_string_def snprintf_zeroed_def Let_def)
qed

text \<open>Converting an address to the system's struct and back gives the same address; only a
  path is cut, at its first NUL and after 106 of the 107 characters the struct has room for.\<close>

theorem storage_roundtrip:
  "GeneralSocketAddress_of_storage (GeneralSocketAddress_to_storage a) =
     Some (case a of kUnix path \<Rightarrow> kUnix (take 106 (takeWhile (\<lambda>c. c \<noteq> 0) path)) | _ \<Rightarrow> a)"
proof (cases a)
  case (kUnix path)
  have "0 \<notin> set (takeWhile (\<lambda>c. c \<noteq> 0) path)" by (auto dest: set_takeWhileD)
  from c_string_zeroed [OF this, of 107 108] show ?thesis
    by (simp add: kUnix GeneralSocketAddress_of_storage_def AF_INET_def AF_INET6_def AF_UNIX_def
        SocketAddressUnix_to_un_def SocketAddressUnix_of_un_def)
qed (simp_all add: GeneralSocketAddress_of_storage_def AF_INET_def AF_INET6_def
    NewSockAddress4_to_in_def NewSockAddress4_of_in_def SocketAddress6_to_in6_def SocketAddress6_of_in6_def)

text \<open>The two byte orders of an IPv4 address carry the same information: converting between
  \<open>SocketAddress4\<close>, \<open>NewSockAddress4\<close> and \<open>sockaddr_in\<close> in either direction loses nothing, and
  \<open>ToOldAddresses\<close> is undone by the converting constructor.\<close>

theorem address4_conversions:
  "SocketAddress4_of_in (SocketAddress4_to_in a) = a \<and>
   NewSockAddress4_of_in (NewSockAddress4_to_in b) = b \<and>
   NewSockAddress4_of_in (SocketAddress4_to_in a) = NewSockAddress4_of_old a \<and>
   SocketAddress4_of_in (NewSockAddress4_to_in (NewSockAddress4_of_old a)) = a \<and>
   map NewSockAddress4_of_old (ToOldAddresses bs) = bs"
  by (induction bs) (simp_all add: SocketAddress4_of_in_def SocketAddress4_to_in_def NewSockAddress4_of_in_def
      NewSockAddress4_to_in_def NewSockAddress4_of_old_def SocketAddress4_Ip_def SocketAddress4_Port_def)

lemma hash4_inj:
  assumes "push_bit 16 (ucast (i :: u32)) + ucast (p :: u16) = (push_bit 16 (ucast j) + ucast q :: u64)"
  shows "i = j \<and> p = q"
proof -
  have n: "unat (push_bit 16 (ucast i) + ucast p :: u64) = unat i * 65536 + unat p" for i :: u32 and p :: u16
  proof -
    have "unat i < 4294967296" "unat p < 65536" using unsigned_less [of i] unsigned_less [of p] by simp_all
    moreover have u: "unat (ucast i :: u64) = unat i" "unat (ucast p :: u64) = unat p"
      by (simp_all add: unat_ucast_up)
    moreover have "unat (push_bit 16 (ucast i) :: u64) = unat i * 65536"
      using unat_mult_lem [of "ucast i :: u64" 65536] u calculation by (simp add: push_bit_eq_mult)
    ultimately show ?thesis by (simp add: unat_add_lem [THEN iffD1])
  qed
  have "unat p < 65536" "unat q < 65536" using unsigned_less [of p] unsigned_less [of q] by simp_all
  moreover have "unat i * 65536 + unat p = unat j * 65536 + unat q" using n [of i p] n [of j q] assms by metis
  moreover from calculation have "unat i = unat j" by linarith
  ultimately have "unat i = unat j" "unat p = unat q" by linarith+
  then show ?thesis by (simp add: word_unat_eq_iff)
qed

text \<open>What the hashers feed to the hash function determines the address: equal hash inputs
  come from equal addresses, so no two addresses are identified before hashing.\<close>

theorem hash_inputs_injective:
  "(SocketAddress4_repr a = SocketAddress4_repr a' \<longleftrightarrow> a = a') \<and>
   (NewSockAddress4_repr b = NewSockAddress4_repr b' \<longleftrightarrow> b = b') \<and>
   (SocketAddress6_image d = SocketAddress6_image d' \<longleftrightarrow> d = d') \<and>
   (GetHash id city str (kIp4 b) = GetHash id city str (kIp4 b') \<longleftrightarrow> b = b')"
proof (intro conjI)
  show "SocketAddress4_repr a = SocketAddress4_repr a' \<longleftrightarrow> a = a'"
    by (cases a; cases a') (simp add: SocketAddress4_repr_def bytes_inj)
  show "NewSockAddress4_repr b = NewSockAddress4_repr b' \<longleftrightarrow> b = b'"
    using ucast_up_eq_iff [of "na_port b" "na_port b'", where 'b = 32]
    by (cases b; cases b') (simp add: NewSockAddress4_repr_def bytes_inj)
  show "SocketAddress6_image d = SocketAddress6_image d' \<longleftrightarrow> d = d'"
    by (cases d; cases d') (auto simp: SocketAddress6_image_def bytes_inj split: prod.splits)
  show "GetHash id city str (kIp4 b) = GetHash id city str (kIp4 b') \<longleftrightarrow> b = b'"
    using hash4_inj [of "na_ip b" "na_port b"] by (cases b; cases b') auto
qed

lemma octet_range:
  fixes n a b c :: nat
  assumes n: "n = 16777216 * a + 65536 * b + c" "b < 256" "c < 65536" and "hi \<le> 255"
  shows "16777216 * x + 65536 * lo \<le> n \<and> n \<le> 16777216 * x + 65536 * hi + 65535 \<longleftrightarrow>
    a = x \<and> lo \<le> b \<and> b \<le> hi"
proof
  assume r: "16777216 * x + 65536 * lo \<le> n \<and> n \<le> 16777216 * x + 65536 * hi + 65535"
  then have a: "a = x" using assms by linarith
  moreover have "lo \<le> b" "b \<le> hi" using r n unfolding a by linarith+
  ultimately show "a = x \<and> lo \<le> b \<and> b \<le> hi" by simp
qed (use assms in auto)

text \<open>\<open>IsPublicIp\<close> rejects exactly the loopback, private, link-local and shared blocks:
  10/8, 127/8, 172.16/12, 169.254/16, 192.168/16 and 100.64/10, by the first two octets.\<close>

theorem IsPublicIp_blocks:
  "IsPublicIp ip \<longleftrightarrow>
     (let a = unat ip div 2 ^ 24; b = unat ip div 2 ^ 16 mod 2 ^ 8
      in \<not> (a = 10 \<or> a = 127 \<or> (a = 172 \<and> 16 \<le> b \<and> b \<le> 31) \<or> (a = 169 \<and> b = 254) \<or>
            (a = 192 \<and> b = 168) \<or> (a = 100 \<and> 64 \<le> b \<and> b \<le> 127)))"
proof -
  define n a b c where "n = unat ip" and "a = n div 16777216"
    and "b = n div 65536 mod 256" and "c = n mod 65536"
  have n: "n = 16777216 * a + 65536 * b + c" "b < 256" "c < 65536"
  proof -
    have "n div 65536 * 65536 + n mod 65536 = n" "n div 65536 div 256 * 256 + n div 65536 mod 256 = n div 65536"
      by (rule div_mult_mod_eq)+
    moreover have "n div 65536 div 256 = n div 16777216" by (simp add: div_mult2_eq [symmetric])
    ultimately show "n = 16777216 * a + 65536 * b + c" unfolding a_def b_def c_def by linarith
  qed (simp_all add: b_def c_def)
  have pub: "IsPublicIp ip \<longleftrightarrow> \<not> (0x0a000000 \<le> n \<and> n \<le> 0x0affffff \<or> 0x7f000000 \<le> n \<and> n \<le> 0x7fffffff \<or>
      0xac100000 \<le> n \<and> n \<le> 0xac1fffff \<or> 0xa9fe0000 \<le> n \<and> n \<le> 0xa9feffff \<or>
      0xc0a80000 \<le> n \<and> n \<le> 0xc0a8ffff \<or> 0x64400000 \<le> n \<and> n \<le> 0x647fffff)"
    by (simp add: IsPublicIp_def ip_begin_def ip_end_def word_le_nat_alt n_def)
  have b1: "0x0a000000 \<le> n \<and> n \<le> 0x0affffff \<longleftrightarrow> a = 10"
    using octet_range [OF n, of 255 10 0] n(2) by auto
  have b2: "0x7f000000 \<le> n \<and> n \<le> 0x7fffffff \<longleftrightarrow> a = 127"
    using octet_range [OF n, of 255 127 0] n(2) by auto
  have b3: "0xac100000 \<le> n \<and> n \<le> 0xac1fffff \<longleftrightarrow> a = 172 \<and> 16 \<le> b \<and> b \<le> 31"
    using octet_range [OF n, of 31 172 16] n(2) by auto
  have b4: "0xa9fe0000 \<le> n \<and> n \<le> 0xa9feffff \<longleftrightarrow> a = 169 \<and> b = 254"
    using octet_range [OF n, of 254 169 254] n(2) by auto
  have b5: "0xc0a80000 \<le> n \<and> n \<le> 0xc0a8ffff \<longleftrightarrow> a = 192 \<and> b = 168"
    using octet_range [OF n, of 168 192 168] n(2) by auto
  have b6: "0x64400000 \<le> n \<and> n \<le> 0x647fffff \<longleftrightarrow> a = 100 \<and> 64 \<le> b \<and> b \<le> 127"
    using octet_range [OF n, of 127 100 64] n(2) by auto
  have "unat ip div 2 ^ 24 = a" "unat ip div 2 ^ 16 mod 2 ^ 8 = b" by (simp_all add: n_def a_def b_def)
  then show ?thesis unfolding Let_def pub b1 b2 b3 b4 b5 b6 by simp
qed

text \<open>A local address is reported as public only when it is an interface address that is not
  the loopback address and lies in none of the excluded blocks, and every such address is
  reported; whatever the order of the intermediate set.\<close>

theorem LocalPublicAddresses_exact:
  assumes "\<And>A. finite A \<Longrightarrow> set (iter A) = A"
  shows "set (LocalPublicAddresses iter (Some ifs)) =
     {ntohl (sin_addr p) | p. Some (SS_in p) \<in> set ifs \<and> sin_family p = AF_INET \<and>
        ntohl (sin_addr p) \<noteq> INADDR_LOOPBACK \<and> IsPublicIp (ntohl (sin_addr p))}"
proof -
  have "set (collect_ip4 ifs) = {ntohl (sin_addr p) | p. Some (SS_in p) \<in> set ifs \<and>
      sin_family p = AF_INET \<and> ntohl (sin_addr p) \<noteq> INADDR_LOOPBACK}"
    by (induction ifs rule: collect_ip4.induct) auto
  with assms show ?thesis by (auto simp: LocalPublicAddresses_def LocalAddresses_def)
qed

theorem LocalPublicAddresses_exact_witness:
  "set (LocalPublicAddresses sorted_list_of_set
     (Some [Some (SS_in \<lparr>sin_family = AF_INET, sin_port = 0, sin_addr = htonl 0x08080808\<rparr>), None,
            Some (SS_in \<lparr>sin_family = AF_INET, sin_port = 0, sin_addr = htonl 0x0a000001\<rparr>)])) = {0x08080808}"
proof -
  have pub: "IsPublicIp 0x08080808" "\<not> IsPublicIp 0x0a000001"
    by (simp_all add: IsPublicIp_def ip_begin_def ip_end_def)
  have "(0x08080808 :: u32) \<noteq> INADDR_LOOPBACK" by (simp add: INADDR_LOOPBACK_def)
  with pub show ?thesis
    by (subst LocalPublicAddresses_exact)
      (auto intro!: exI [of _ "\<lparr>sin_family = AF_INET, sin_port = 0, sin_addr = htonl 0x08080808\<rparr>"])
qed

text \<open>The first word of the addresses \<open>3000::\<close> and \<open>a000::\<close>: the first is global unicast
  (\<open>2000::/3\<close>) but not recognised, the second is not but is taken for global, because the
  mask of \<open>IsGlobal\<close> covers bits 30 to 28 instead of 31 to 29.\<close>

theorem IsGlobal_mask:
  "\<not> Ipv6_IsGlobal (htonl 0x30000000, 0, 0, 0) \<and> Ipv6_IsGlobal (htonl 0xa0000000, 0, 0, 0)"
  by code_simp

end
