(* ===== verification/Tcp_Connection.thy ===== *)
theory Tcp_Connection
  imports Address_Types "HOL-Library.Sublist"
begin

text \<open>
  \<open>TcpConnection\<close> (src/turnserver/network/tcp_connection.h, tcp_connection.cpp):
  a connection over a libevent \<open>bufferevent\<close> that cuts the received byte stream
  into packets and hands them to a callback, and that is destroyed only after
  the callback has returned.

  libevent and the socket calls are arguments of the model, collected in the
  record \<open>tcp_env\<close>; what the code relies on is the locale \<open>bufferevent\<close>.  The
  callback (\<open>TcpConnectionCallback\<close>) is an argument too: it maps the state of the
  client to a new one and to the calls it makes on the connection.  The member
  \<open>destroyed\<close> records that the object has been deleted; a call on a deleted
  object has no result.  Logging is not modelled, nor is \<open>LogMode\<close>, which only
  controls it.  The file defines \<open>try\<close> as \<open>if(true)\<close> and \<open>catch(...)\<close> as \<open>if(false)\<close>,
  so its handler is dead code.
\<close>

section \<open>The environment\<close>

text \<open>
  \<open>bev_length\<close>: \<open>evbuffer_get_length\<close> on the input of the bufferevent;
  \<open>bev_copyout n\<close>: \<open>evbuffer_copyout\<close> of \<open>n\<close> bytes; \<open>bev_read n\<close>: \<open>bufferevent_read\<close>,
  with \<open>None\<close> for the result \<open>(size_t)-1\<close>; \<open>bev_socket_new\<close>: \<open>bufferevent_socket_new\<close>
  with \<open>bufferevent_setcb\<close> and \<open>bufferevent_enable\<close>; \<open>getpeername\<close> and
  \<open>getsockname\<close> by the descriptor, \<open>None\<close> on an error.
\<close>

record 'b tcp_env =
  bev_length :: "'b \<Rightarrow> nat"
  bev_copyout :: "nat \<Rightarrow> 'b \<Rightarrow> byte list"
  bev_read :: "nat \<Rightarrow> 'b \<Rightarrow> byte list option \<times> 'b"
  bev_write :: "byte list \<Rightarrow> 'b \<Rightarrow> 'b"
  bev_flush :: "'b \<Rightarrow> 'b"
  bev_getfd :: "'b \<Rightarrow> int"
  bev_setfd :: "int \<Rightarrow> 'b \<Rightarrow> 'b"
  bev_socket_new :: "int \<Rightarrow> 'b"
  getpeername :: "int \<Rightarrow> sockaddr_in option"
  getsockname :: "int \<Rightarrow> sockaddr_in option"

definition BEV_EVENT_READING :: u32 where "BEV_EVENT_READING = 0x01"
definition BEV_EVENT_WRITING :: u32 where "BEV_EVENT_WRITING = 0x02"
definition BEV_EVENT_EOF :: u32 where "BEV_EVENT_EOF = 0x10"
definition BEV_EVENT_ERROR :: u32 where "BEV_EVENT_ERROR = 0x20"
definition BEV_EVENT_TIMEOUT :: u32 where "BEV_EVENT_TIMEOUT = 0x40"
definition BEV_EVENT_CONNECTED :: u32 where "BEV_EVENT_CONNECTED = 0x80"

section \<open>The connection\<close>

text \<open>\<open>callback\<close> tells whether \<open>callback_\<close> is set.\<close>

record 'b tcp_conn =
  is_in_processing :: bool
  bev :: "'b option"
  callback :: bool
  remote :: SocketAddress4
  local :: SocketAddress4
  destroyed :: bool

definition IsClosed :: "'b tcp_conn \<Rightarrow> bool" where
  "IsClosed conn \<longleftrightarrow> bev conn = None"

definition FillSocketAddress :: "'b tcp_env \<Rightarrow> int \<Rightarrow> 'b tcp_conn \<Rightarrow> 'b tcp_conn" where
  "FillSocketAddress env s conn =
     (let conn = (case getpeername env s of
            Some a \<Rightarrow> conn\<lparr>remote := SocketAddress4_of_in a\<rparr> | None \<Rightarrow> conn)
      in case getsockname env s of
            Some a \<Rightarrow> conn\<lparr>local := SocketAddress4_of_in a\<rparr> | None \<Rightarrow> conn)"

definition SetSocketFd :: "'b tcp_env \<Rightarrow> int \<Rightarrow> 'b tcp_conn \<Rightarrow> 'b tcp_conn option" where
  "SetSocketFd env fd conn =
     (if bev conn = None
      then Some (FillSocketAddress env fd (conn\<lparr>bev := Some (bev_socket_new env fd)\<rparr>)) else None)"

definition blank_conn :: "'b tcp_conn" where
  "blank_conn = \<lparr>is_in_processing = False, bev = None, callback = False,
     remote = dflt SocketAddress4_codec, local = dflt SocketAddress4_codec, destroyed = False\<rparr>"

definition TcpConnection_Create_fd :: "'b tcp_env \<Rightarrow> int \<Rightarrow> 'b tcp_conn option" where
  "TcpConnection_Create_fd env fd = (if fd \<noteq> -1 then SetSocketFd env fd blank_conn else Some blank_conn)"

text \<open>The constructor from a bufferevent asserts that it is not null.\<close>

definition TcpConnection_Create_bev :: "'b tcp_env \<Rightarrow> 'b option \<Rightarrow> 'b tcp_conn option" where
  "TcpConnection_Create_bev env b =
     (case b of None \<Rightarrow> None
      | Some b' \<Rightarrow> Some (FillSocketAddress env (bev_getfd env b') (blank_conn\<lparr>bev := Some b'\<rparr>)))"

definition GetRemoteAddress :: "'b tcp_conn \<Rightarrow> sockaddr_in" where
  "GetRemoteAddress conn = SocketAddress4_to_in (remote conn)"

definition GetLocalAddress :: "'b tcp_conn \<Rightarrow> sockaddr_in" where
  "GetLocalAddress conn = SocketAddress4_to_in (local conn)"

definition RegisterCallback :: "bool \<Rightarrow> 'b tcp_conn \<Rightarrow> 'b tcp_conn" where
  "RegisterCallback cb conn = conn\<lparr>callback := cb\<rparr>"

definition Close :: "'b tcp_conn \<Rightarrow> 'b tcp_conn" where
  "Close conn = conn\<lparr>bev := None\<rparr>"

text \<open>\<open>delete this\<close>: the destructor closes the connection.\<close>

definition Destroy :: "'b tcp_conn \<Rightarrow> 'b tcp_conn" where
  "Destroy conn = (Close conn)\<lparr>destroyed := True\<rparr>"

definition CloseAndDestroy :: "'b tcp_conn \<Rightarrow> 'b tcp_conn" where
  "CloseAndDestroy conn =
     (let conn = Close conn in if \<not> is_in_processing conn then Destroy conn else conn)"

text \<open>\<open>pack\<close> is the virtual method \<open>Pack\<close> of the packet.\<close>

definition SendPacket :: "'b tcp_env \<Rightarrow> (packer \<Rightarrow> packer option) \<Rightarrow> 'b tcp_conn \<Rightarrow> 'b tcp_conn option" where
  "SendPacket env pack conn =
     (case bev conn of None \<Rightarrow> Some conn
      | Some b \<Rightarrow>
        do { pk \<leftarrow> pack (Packer_new kDefaultSize); data \<leftarrow> Packer_Data pk;
             Some (conn\<lparr>bev := Some (bev_write env data b)\<rparr>) })"

definition SendRawData :: "'b tcp_env \<Rightarrow> byte list \<Rightarrow> 'b tcp_conn \<Rightarrow> 'b tcp_conn" where
  "SendRawData env buff conn =
     (case bev conn of None \<Rightarrow> conn | Some b \<Rightarrow> conn\<lparr>bev := Some (bev_write env buff b)\<rparr>)"

definition Flush :: "'b tcp_env \<Rightarrow> 'b tcp_conn \<Rightarrow> 'b tcp_conn" where
  "Flush env conn = (case bev conn of None \<Rightarrow> conn | Some b \<Rightarrow> conn\<lparr>bev := Some (bev_flush env b)\<rparr>)"

definition Detach :: "'b tcp_env \<Rightarrow> 'b tcp_conn \<Rightarrow> int \<times> 'b tcp_conn" where
  "Detach env conn =
     (case bev conn of None \<Rightarrow> (-1, conn)
      | Some b \<Rightarrow> (bev_getfd env b, conn\<lparr>bev := Some (bev_setfd env (-1) b)\<rparr>))"

definition EnableTcpNoDelay :: "'b tcp_env \<Rightarrow> 'b tcp_conn \<Rightarrow> bool" where
  "EnableTcpNoDelay env conn =
     (case bev conn of None \<Rightarrow> False | Some b \<Rightarrow> if bev_getfd env b < 0 then False else True)"

section \<open>Callbacks\<close>

text \<open>The calls a callback makes on the connection it is given.\<close>

datatype conn_action =
  ActSendPacket "packer \<Rightarrow> packer option" | ActSendRawData "byte list" | ActFlush
| ActRegisterCallback bool | ActCloseAndDestroy

fun perform :: "'b tcp_env \<Rightarrow> conn_action \<Rightarrow> 'b tcp_conn \<Rightarrow> 'b tcp_conn option" where
  "perform env act conn =
     (if destroyed conn then None
      else case act of
        ActSendPacket pack \<Rightarrow> SendPacket env pack conn
      | ActSendRawData buff \<Rightarrow> Some (SendRawData env buff conn)
      | ActFlush \<Rightarrow> Some (Flush env conn)
      | ActRegisterCallback cb \<Rightarrow> Some (RegisterCallback cb conn)
      | ActCloseAndDestroy \<Rightarrow> Some (CloseAndDestroy conn))"

fun perform_all :: "'b tcp_env \<Rightarrow> conn_action list \<Rightarrow> 'b tcp_conn \<Rightarrow> 'b tcp_conn option" where
  "perform_all env [] conn = Some conn"
| "perform_all env (act # acts) conn = do { conn \<leftarrow> perform env act conn; perform_all env acts conn }"

record 's conn_callback =
  OnError :: "u32 \<Rightarrow> 's \<Rightarrow> ('s \<times> conn_action list) option"
  OnPacketReceived :: "unpacker \<Rightarrow> u16 \<Rightarrow> u16 \<Rightarrow> 's \<Rightarrow> ('s \<times> conn_action list) option"

definition call_OnError ::
  "'b tcp_env \<Rightarrow> 's conn_callback \<Rightarrow> u32 \<Rightarrow> 'b tcp_conn \<Rightarrow> 's \<Rightarrow> ('b tcp_conn \<times> 's) option" where
  "call_OnError env cb events conn s =
     (if callback conn
      then do { (s, acts) \<leftarrow> OnError cb events s; conn \<leftarrow> perform_all env acts conn; Some (conn, s) }
      else Some (conn, s))"

definition call_OnPacketReceived ::
  "'b tcp_env \<Rightarrow> 's conn_callback \<Rightarrow> unpacker \<Rightarrow> u16 \<Rightarrow> u16 \<Rightarrow> 'b tcp_conn \<Rightarrow> 's \<Rightarrow>
   ('b tcp_conn \<times> 's) option" where
  "call_OnPacketReceived env cb p server_type uri conn s =
     (if callback conn
      then do { (s, acts) \<leftarrow> OnPacketReceived cb p server_type uri s;
                conn \<leftarrow> perform_all env acts conn; Some (conn, s) }
      else Some (conn, s))"

section \<open>Receiving\<close>

definition kMinPacketLen :: u32 where
  "kMinPacketLen = 6"

text \<open>The length field at the front of the input, two or three bytes.\<close>

definition peek_length :: "'b tcp_env \<Rightarrow> 'b \<Rightarrow> u32" where
  "peek_length env b =
     (let lower = le_word (bev_copyout env 2 b) :: u16
      in if lower \<ge> 0x8000
         then let value = (le_word (bev_copyout env 4 b) :: u32) AND 0xFFFFFF
              in ucast (lower AND 0x7FFF) + push_bit 15 (drop_bit 16 value)
         else ucast lower)"

text \<open>
  The part of the loop body that opens a received packet: the buffer has
  \<open>packet_length\<close> bytes, zero where nothing was read.
\<close>

definition open_packet :: "byte list \<Rightarrow> u32 \<Rightarrow> (unpacker \<times> u16 \<times> u16) option" where
  "open_packet data packet_length =
     (let buffer = take (unat packet_length) (data @ replicate (unat packet_length - length data) 0)
      in do { p \<leftarrow> Unpacker_new buffer packet_length False;
              (server_type, p) \<leftarrow> PopUint16 p;
              (uri, p) \<leftarrow> PopUint16 p;
              p \<leftarrow> Rewind p;
              Some (p, server_type, uri) })"

partial_function (option) OnDataReady_loop ::
  "'b tcp_env \<Rightarrow> 's conn_callback \<Rightarrow> 'b tcp_conn \<Rightarrow> 's \<Rightarrow> ('b tcp_conn \<times> 's) option" where
  "OnDataReady_loop env cb conn s =
     (case bev conn of None \<Rightarrow> Some (conn, s)
      | Some b \<Rightarrow>
        if bev_length env b < unat kMinPacketLen then Some (conn, s)
        else if peek_length env b < kMinPacketLen
        then call_OnError env cb (BEV_EVENT_ERROR OR BEV_EVENT_READING) conn s
        else if bev_length env b < unat (peek_length env b) then Some (conn, s)
        else case bev_read env (unat (peek_length env b)) b of
          (None, b') \<Rightarrow> Some (conn\<lparr>bev := Some b'\<rparr>, s)
        | (Some data, b') \<Rightarrow>
            Option.bind (open_packet data (peek_length env b)) (\<lambda>(p, server_type, uri).
            Option.bind (call_OnPacketReceived env cb p server_type uri (conn\<lparr>bev := Some b'\<rparr>) s)
              (\<lambda>(conn, s). OnDataReady_loop env cb conn s)))"

text \<open>\<open>bufferevent_get_input\<close> needs a bufferevent.\<close>

definition OnDataReady ::
  "'b tcp_env \<Rightarrow> 's conn_callback \<Rightarrow> 'b tcp_conn \<Rightarrow> 's \<Rightarrow> ('b tcp_conn \<times> 's) option" where
  "OnDataReady env cb conn s =
     (if IsClosed conn then None
      else do { (conn, s) \<leftarrow> OnDataReady_loop env cb (conn\<lparr>is_in_processing := True\<rparr>) s;
                let conn = conn\<lparr>is_in_processing := False\<rparr>;
                Some (if IsClosed conn then Destroy conn else conn, s) })"

definition OnEvent ::
  "'b tcp_env \<Rightarrow> 's conn_callback \<Rightarrow> u32 \<Rightarrow> 'b tcp_conn \<Rightarrow> 's \<Rightarrow> ('b tcp_conn \<times> 's) option" where
  "OnEvent env cb events conn s =
     (if IsClosed conn then None
      else if events AND (BEV_EVENT_ERROR OR BEV_EVENT_EOF) \<noteq> 0
      then call_OnError env cb events conn s
      else Some (conn, s))"

section \<open>Frames\<close>

definition packet_ok :: "byte list \<Rightarrow> bool" where
  "packet_ok body \<longleftrightarrow> 4 \<le> length body \<and> fits (length body)"

text \<open>What a receiver is given for a frame: the unpacker behind the length, the server type and the uri.\<close>

definition frame_unpacker :: "byte list \<Rightarrow> unpacker" where
  "frame_unpacker body =
     \<lparr>up_buffer = frame body, up_length = of_nat (length (frame body)),
      up_position = of_nat (length (frame body) - length body)\<rparr>"

definition body_server_type :: "byte list \<Rightarrow> u16" where
  "body_server_type body = le_word (take 2 body)"

definition body_uri :: "byte list \<Rightarrow> u16" where
  "body_uri body = le_word (take 2 (drop 2 body))"

definition peek :: "byte list \<Rightarrow> u32" where
  "peek xs =
     (let lower = le_word (take 2 xs) :: u16
      in if lower \<ge> 0x8000
         then ucast (lower AND 0x7FFF) +
           push_bit 15 (drop_bit 16 ((le_word (take 4 xs) :: u32) AND 0xFFFFFF))
         else ucast lower)"

lemma le_word_append:
  "(le_word (xs @ ys) :: 'a::len word) = le_word xs OR push_bit (8 * length xs) (le_word ys)"
  by (induction xs) (simp_all add: push_bit_or or.assoc push_bit_push_bit)

lemma peek_third_byte:
  "drop_bit 16 ((le_word (le_bytes 2 (lo :: u16) @ [hi, x]) :: u32) AND 0xFFFFFF) = ucast hi"
proof -
  define A where "A = (le_word (le_bytes 2 lo) :: u32)"
  have A: "\<not> bit A (16 + n)" for n
    using bit_le_word_bound [of "le_bytes 2 lo" "16 + n", where 'a = 32] by (auto simp: A_def)
  have hi: "bit hi n \<Longrightarrow> n < 16 \<and> n < 8" for n using bit_imp_le_length [of hi n] by simp
  have m: "(0xFFFFFF :: u32) = mask 24" by (simp add: mask_eq_exp_minus_1)
  show ?thesis
    unfolding le_word_append A_def [symmetric] m
    by (rule bit_word_eqI) (use A in \<open>auto simp: bit_simps dest: hi\<close>)
qed

lemma peek_var:
  assumes "4 \<le> length (var_bytes v @ xs)"
  shows "peek (var_bytes v @ xs) = take_bit 23 v"
proof (cases "v < 0x8000")
  case True
  then have "unat v < 32768" by (simp add: word_less_nat_alt)
  then have "ucast (ucast v :: u16) = v" "\<not> 0x8000 \<le> (ucast v :: u16)" "take_bit 23 v = v"
    by (simp_all add: word_le_nat_alt unsigned_ucast_eq word_unat_eq_iff take_bit_nat_eq_self
        unsigned_take_bit_eq)
  with True show ?thesis by (simp add: peek_def var_bytes_def Let_def)
next
  case False
  then obtain x ys where xs: "xs = x # ys" using assms by (cases xs) (auto simp: var_bytes_def)
  let ?lo = "ucast ((v AND 0x7FFF) OR 0x8000) :: u16" and ?hi = "ucast (drop_bit 15 v) :: byte"
  have "take 4 (var_bytes v @ xs) = le_bytes 2 ?lo @ [?hi, x]" "take 2 (var_bytes v @ xs) = le_bytes 2 ?lo"
    using False by (simp_all add: var_bytes_def xs)
  then show ?thesis
    using var_lower_bits [of v] var_recombine [of v] peek_third_byte [of ?lo ?hi x]
    by (simp add: peek_def not_less add.commute)
qed

lemma packet_length:
  assumes "packet_ok body"
  shows "6 \<le> length (frame body)" "length (frame body) < 8388608"
    "unat (of_nat (length (frame body)) :: u32) = length (frame body)"
  using assms length_frame [of body] by (auto simp: packet_ok_def u32_unat_of_nat)

lemma peek_frame:
  assumes "packet_ok body" and "take 4 xs = take 4 (frame body)"
  shows "peek xs = of_nat (length (frame body))"
proof -
  let ?v = "of_nat (length (frame body)) :: u32"
  have "peek xs = peek (frame body)"
  proof -
    have "take 2 (take 4 xs) = take 2 (take 4 (frame body))" using assms(2) by simp
    then have "take 2 xs = take 2 (frame body)" by simp
    with assms(2) show ?thesis by (simp add: peek_def Let_def)
  qed
  also have "\<dots> = peek (var_bytes ?v @ body)"
    using frame_eq [of body] assms(1) by (simp add: packet_ok_def)
  also have "\<dots> = take_bit 23 ?v" using assms(1) by (intro peek_var) (simp add: packet_ok_def)
  also have "\<dots> = ?v" using packet_length [OF assms(1)] by (intro take_bit_23) simp
  finally show ?thesis .
qed

lemma frame_unpacker_start:
  assumes "packet_ok body"
  shows "PopVariableUint32 \<lparr>up_buffer = frame body, up_length = of_nat (length (frame body)), up_position = 0\<rparr>
    = Some (of_nat (length (frame body)), frame_unpacker body)" (is "PopVariableUint32 ?u = _")
    and "at (frame_unpacker body) body"
proof -
  let ?v = "of_nat (length (frame body)) :: u32"
  have f: "frame body = var_bytes ?v @ body" using frame_eq assms by (simp add: packet_ok_def)
  then have l: "length (var_bytes ?v) = length (frame body) - length body" by (metis add_diff_cancel_right' length_append)
  have u: "at ?u (var_bytes ?v @ body)" using f packet_length [OF assms] by (simp add: at_def)
  have s: "skip (length (var_bytes ?v)) ?u = frame_unpacker body"
    by (simp add: skip_def frame_unpacker_def l)
  show "PopVariableUint32 ?u = Some (?v, frame_unpacker body)"
    using PopVariableUint32_at_small [OF u] packet_length [OF assms] by (simp add: s)
  show "at (frame_unpacker body) body" unfolding s [symmetric] using u by (rule at_skip) simp
qed

lemma split_header:
  assumes "4 \<le> length body"
  obtains st ur rest where "body = st @ ur @ rest" and "length st = 2" and "length ur = 2"
proof -
  obtain a b c d rest where "body = [a, b] @ [c, d] @ rest"
    using assms by (auto simp: eval_nat_numeral Suc_le_length_iff)
  then show ?thesis by (rule that) simp_all
qed

lemma open_frame:
  assumes "packet_ok body"
  shows "open_packet (frame body) (of_nat (length (frame body))) =
    Some (frame_unpacker body, body_server_type body, body_uri body)"
proof -
  have "4 \<le> length body" using assms by (simp add: packet_ok_def)
  then obtain st ur rest where body: "body = st @ ur @ rest" and l: "length st = 2" "length ur = 2"
    by (rule split_header)
  let ?u = "frame_unpacker body"
  have b: "le_bytes 2 (le_word xs :: u16) = xs" if "length xs = 2" for xs
    using le_bytes_le_word [of xs, where 'a = 16] that by simp
  have u: "at ?u (le_bytes 2 (le_word st :: u16) @ (ur @ rest))"
    using frame_unpacker_start(2) [OF assms] b [OF l(1)] body by simp
  then have p1: "PopUint16 ?u = Some (le_word st, skip 2 ?u)" by (rule Pop_fixed_at)
  have "at (skip 2 ?u) (le_bytes 2 (le_word ur :: u16) @ rest)"
    using at_skip [OF u] b [OF l(2)] by simp
  then have p2: "PopUint16 (skip 2 ?u) = Some (le_word ur, skip 4 ?u)" by (simp add: Pop_fixed_at)
  have "(skip 4 ?u)\<lparr>up_position := 0\<rparr> =
      \<lparr>up_buffer = frame body, up_length = of_nat (length (frame body)), up_position = 0\<rparr>"
    by (simp add: skip_def frame_unpacker_def)
  then have "Rewind (skip 4 ?u) = Some ?u" using frame_unpacker_start(1) [OF assms] by (simp add: Rewind_def)
  moreover have "body_server_type body = le_word st" "body_uri body = le_word ur"
    using body l by (simp_all add: body_server_type_def body_uri_def)
  ultimately show ?thesis
    using p1 p2 frame_unpacker_start(1) [OF assms] packet_length [OF assms]
    by (simp add: open_packet_def Unpacker_new_def)
qed

section \<open>Delivery to a callback that keeps the connection open\<close>

text \<open>The calls that neither close the connection nor change the callback, and what they write.\<close>

fun quiet_act :: "conn_action \<Rightarrow> bool" where
  "quiet_act (ActSendPacket pack) =
     (case pack (Packer_new kDefaultSize) of None \<Rightarrow> False | Some pk \<Rightarrow> Packer_Data pk \<noteq> None)"
| "quiet_act (ActSendRawData _) = True"
| "quiet_act ActFlush = True"
| "quiet_act _ = False"

fun act_bytes :: "conn_action \<Rightarrow> byte list" where
  "act_bytes (ActSendPacket pack) =
     (case pack (Packer_new kDefaultSize) of None \<Rightarrow> []
      | Some pk \<Rightarrow> (case Packer_Data pk of None \<Rightarrow> [] | Some data \<Rightarrow> data))"
| "act_bytes (ActSendRawData data) = data"
| "act_bytes _ = []"

text \<open>
  The specification of receiving: the callback is called once for each packet
  body, in order; the result is its final state and what it sent.
\<close>

fun deliveries :: "'s conn_callback \<Rightarrow> byte list list \<Rightarrow> 's \<Rightarrow> ('s \<times> byte list) option" where
  "deliveries cb [] s = Some (s, [])"
| "deliveries cb (body # bodies) s =
     do { (s, acts) \<leftarrow> OnPacketReceived cb (frame_unpacker body) (body_server_type body) (body_uri body) s;
          if list_all quiet_act acts
          then do { (s, out) \<leftarrow> deliveries cb bodies s; Some (s, concat (map act_bytes acts) @ out) }
          else None }"

text \<open>Chunks of the stream arrive one after the other; each one triggers the read callback.\<close>

fun feed ::
  "'b tcp_env \<Rightarrow> 's conn_callback \<Rightarrow> (byte list \<Rightarrow> 'b \<Rightarrow> 'b) \<Rightarrow> byte list list \<Rightarrow> 'b tcp_conn \<Rightarrow> 's \<Rightarrow>
   ('b tcp_conn \<times> 's) option" where
  "feed env cb arrive [] conn s = Some (conn, s)"
| "feed env cb arrive (chunk # chunks) conn s =
     (case bev conn of None \<Rightarrow> Some (conn, s)
      | Some b \<Rightarrow>
        do { (conn, s) \<leftarrow> OnDataReady env cb (conn\<lparr>bev := Some (arrive chunk b)\<rparr>) s;
             feed env cb arrive chunks conn s })"

lemma deliveries_append:
  "deliveries cb (xs @ ys) s =
     do { (s, o1) \<leftarrow> deliveries cb xs s; (s, o2) \<leftarrow> deliveries cb ys s; Some (s, o1 @ o2) }"
  by (induction xs arbitrary: s) (auto split: bind_split prod.splits)

text \<open>The bytes at the front of the input are an incomplete frame of the next packet.\<close>

definition partial_frame :: "byte list \<Rightarrow> byte list list \<Rightarrow> bool" where
  "partial_frame pre todo \<longleftrightarrow>
     (case todo of [] \<Rightarrow> pre = [] | body # _ \<Rightarrow> strict_prefix pre (frame body))"

lemma split_stream:
  assumes "concat (map frame bodies) = data @ rest"
  obtains sent todo pre where "bodies = sent @ todo" and "data = concat (map frame sent) @ pre"
    and "partial_frame pre todo"
  using assms
proof (induction bodies arbitrary: data thesis)
  case Nil
  show ?case by (rule Nil.prems(1) [of "[]" "[]" "[]"]) (use Nil.prems(2) in \<open>auto simp: partial_frame_def\<close>)
next
  case (Cons body bodies)
  show ?case
  proof (cases "strict_prefix data (frame body)")
    case True
    show ?thesis by (rule Cons.prems(1) [of "[]" "body # bodies" data]) (auto simp: partial_frame_def True)
  next
    case False
    have "frame body @ concat (map frame bodies) = data @ rest" using Cons.prems(2) by simp
    then obtain us where "frame body = data @ us \<or> data = frame body @ us"
      unfolding append_eq_append_conv2 by metis
    with False obtain d where d: "data = frame body @ d"
      by (cases us) (auto simp: strict_prefix_def prefix_def)
    then have "concat (map frame bodies) = d @ rest" using Cons.prems(2) by simp
    then obtain sent todo pre where "bodies = sent @ todo" "d = concat (map frame sent) @ pre" "partial_frame pre todo"
      by (rule Cons.IH [rotated]) metis
    then show ?thesis using d by (intro Cons.prems(1) [of "body # sent" todo pre]) simp_all
  qed
qed

section \<open>What the code relies on of libevent\<close>

text \<open>
  The input of a bufferevent is a queue of bytes and what is written to it is
  appended to its output; \<open>arrive\<close> is the arrival of bytes from the network.
\<close>

locale bufferevent =
  fixes env :: "'b tcp_env" and input :: "'b \<Rightarrow> byte list" and sent_bytes :: "'b \<Rightarrow> byte list"
    and arrive :: "byte list \<Rightarrow> 'b \<Rightarrow> 'b"
  assumes length_law: "bev_length env b = length (input b)"
    and copyout_law: "bev_copyout env n b = take n (input b)"
    and read_law: "n \<le> length (input b) \<Longrightarrow>
      \<exists>b'. bev_read env n b = (Some (take n (input b)), b') \<and> input b' = drop n (input b) \<and> sent_bytes b' = sent_bytes b"
    and write_law: "input (bev_write env bs b) = input b" "sent_bytes (bev_write env bs b) = sent_bytes b @ bs"
    and flush_law: "input (bev_flush env b) = input b" "sent_bytes (bev_flush env b) = sent_bytes b"
    and arrive_law: "input (arrive bs b) = input b @ bs" "sent_bytes (arrive bs b) = sent_bytes b"
begin

lemma peek_length_peek: "peek_length env b = peek (input b)"
  by (simp add: peek_length_def peek_def copyout_law Let_def)

lemma perform_quiet:
  assumes "quiet_act act" and "bev conn = Some b" and "\<not> destroyed conn"
  shows "\<exists>b'. perform env act conn = Some (conn\<lparr>bev := Some b'\<rparr>) \<and> input b' = input b
    \<and> sent_bytes b' = sent_bytes b @ act_bytes act"
  using assms by (cases act)
    (auto simp: SendPacket_def SendRawData_def Flush_def write_law flush_law split: option.splits)

lemma perform_all_quiet:
  "list_all quiet_act acts \<Longrightarrow> bev conn = Some b \<Longrightarrow> \<not> destroyed conn \<Longrightarrow>
   \<exists>b'. perform_all env acts conn = Some (conn\<lparr>bev := Some b'\<rparr>) \<and> input b' = input b
     \<and> sent_bytes b' = sent_bytes b @ concat (map act_bytes acts)"
proof (induction acts arbitrary: conn b)
  case Nil
  then show ?case by (intro exI [of _ b]) simp
next
  case (Cons act acts)
  obtain b1 where b1: "perform env act conn = Some (conn\<lparr>bev := Some b1\<rparr>)" "input b1 = input b"
      "sent_bytes b1 = sent_bytes b @ act_bytes act"
    using perform_quiet [of act conn b] Cons.prems by auto
  with Cons.IH [of "conn\<lparr>bev := Some b1\<rparr>" b1] Cons.prems show ?case by auto
qed

lemma loop_partial:
  assumes "partial_frame (input b) todo" and "list_all packet_ok todo" and "bev conn = Some b"
  shows "OnDataReady_loop env cb conn s = Some (conn, s)"
proof (cases "length (input b) < 6")
  case True
  then show ?thesis
    using assms(3) by (subst OnDataReady_loop.simps) (simp add: length_law kMinPacketLen_def)
next
  case False
  then obtain body where body: "strict_prefix (input b) (frame body)" "packet_ok body"
    using assms(1,2) by (cases todo) (auto simp: partial_frame_def)
  then obtain r where r: "frame body = input b @ r" "r \<noteq> []" by (auto simp: strict_prefix_def prefix_def)
  have "peek (input b) = of_nat (length (frame body))"
    using body(2) by (rule peek_frame) (use False r in simp)
  then have "unat (peek_length env b) = length (frame body)" "\<not> peek_length env b < kMinPacketLen"
    using packet_length [OF body(2)] by (simp_all add: peek_length_peek kMinPacketLen_def word_less_nat_alt)
  then show ?thesis
    using assms(3) False r
    by (subst OnDataReady_loop.simps) (simp add: length_law kMinPacketLen_def)
qed

lemma loop_frame:
  assumes "input b = frame body @ rest" and "packet_ok body" and "bev conn = Some b"
  obtains b' where "input b' = rest" and "sent_bytes b' = sent_bytes b"
    and "OnDataReady_loop env cb conn s =
      do { (conn, s) \<leftarrow> call_OnPacketReceived env cb (frame_unpacker body) (body_server_type body)
             (body_uri body) (conn\<lparr>bev := Some b'\<rparr>) s;
           OnDataReady_loop env cb conn s }"
proof -
  let ?n = "length (frame body)"
  have "peek (input b) = of_nat ?n" using assms(2) by (rule peek_frame) (use assms packet_length [OF assms(2)] in simp)
  then have p: "peek_length env b = of_nat ?n" by (simp add: peek_length_peek)
  note l = packet_length [OF assms(2)]
  obtain b' where b': "bev_read env ?n b = (Some (frame body), b')" "input b' = rest" "sent_bytes b' = sent_bytes b"
    using read_law [of ?n b] assms(1) by auto
  show ?thesis
  proof (rule that [OF b'(2,3)])
    show "OnDataReady_loop env cb conn s =
      do { (conn, s) \<leftarrow> call_OnPacketReceived env cb (frame_unpacker body) (body_server_type body)
             (body_uri body) (conn\<lparr>bev := Some b'\<rparr>) s;
           OnDataReady_loop env cb conn s }"
      using assms(1,3) l b'(1) open_frame [OF assms(2)]
      by (subst OnDataReady_loop.simps)
        (simp add: p length_law kMinPacketLen_def word_less_nat_alt)
  qed
qed

text \<open>One run of the loop delivers all complete frames of the input, in order, and leaves the rest.\<close>

lemma loop_stream:
  assumes "input b = concat (map frame sent) @ pre" and "partial_frame pre todo"
    and "list_all packet_ok (sent @ todo)" and "bev conn = Some b" and "callback conn" and "\<not> destroyed conn"
    and "deliveries cb sent s = Some (s', out)"
  shows "\<exists>b'. OnDataReady_loop env cb conn s = Some (conn\<lparr>bev := Some b'\<rparr>, s') \<and> input b' = pre
    \<and> sent_bytes b' = sent_bytes b @ out"
  using assms
proof (induction sent arbitrary: b conn s out)
  case Nil
  then show ?case using loop_partial [of b todo conn cb s] by (intro exI [of _ b]) simp
next
  case (Cons body sent)
  from Cons.prems(7) obtain s1 acts o2 where
    s1: "OnPacketReceived cb (frame_unpacker body) (body_server_type body) (body_uri body) s = Some (s1, acts)"
    and q: "list_all quiet_act acts" and o2: "deliveries cb sent s1 = Some (s', o2)"
    and out: "out = concat (map act_bytes acts) @ o2"
    by (auto split: bind_splits if_splits)
  obtain b1 where b1: "input b1 = concat (map frame sent) @ pre" "sent_bytes b1 = sent_bytes b"
    and loop: "OnDataReady_loop env cb conn s =
      do { (conn, s) \<leftarrow> call_OnPacketReceived env cb (frame_unpacker body) (body_server_type body)
             (body_uri body) (conn\<lparr>bev := Some b1\<rparr>) s;
           OnDataReady_loop env cb conn s }"
    using loop_frame [of b body "concat (map frame sent) @ pre" conn cb s] Cons.prems by auto
  obtain b2 where b2: "perform_all env acts (conn\<lparr>bev := Some b1\<rparr>) = Some (conn\<lparr>bev := Some b2\<rparr>)"
      "input b2 = input b1" "sent_bytes b2 = sent_bytes b1 @ concat (map act_bytes acts)"
    using perform_all_quiet [OF q, of "conn\<lparr>bev := Some b1\<rparr>" b1] Cons.prems by auto
  have "OnDataReady_loop env cb conn s = OnDataReady_loop env cb (conn\<lparr>bev := Some b2\<rparr>) s1"
    using Cons.prems(5) s1 b2(1) by (simp add: loop call_OnPacketReceived_def)
  with Cons.IH [of b2 "conn\<lparr>bev := Some b2\<rparr>" s1 o2] b1 b2 o2 out Cons.prems show ?case by auto
qed

lemma feed_stream:
  assumes "input b = pre" and "pre @ concat chunks = concat (map frame bodies)" and "partial_frame pre bodies"
    and "list_all packet_ok bodies" and "bev conn = Some b" and "callback conn"
    and "\<not> destroyed conn" and "\<not> is_in_processing conn" and "deliveries cb bodies s = Some (s', out)"
  shows "\<exists>b'. feed env cb arrive chunks conn s = Some (conn\<lparr>bev := Some b'\<rparr>, s') \<and> input b' = []
    \<and> sent_bytes b' = sent_bytes b @ out"
  using assms
proof (induction chunks arbitrary: b pre bodies conn s out)
  case Nil
  then have "bodies = [] \<and> pre = []"
    by (cases bodies) (auto simp: partial_frame_def strict_prefix_def prefix_def)
  with Nil show ?case by (intro exI [of _ b]) simp
next
  case (Cons chunk chunks)
  have "concat (map frame bodies) = (pre @ chunk) @ concat chunks" using Cons.prems(2) by simp
  then obtain sent todo pre' where bodies: "bodies = sent @ todo"
    and pre': "pre @ chunk = concat (map frame sent) @ pre'" "partial_frame pre' todo"
    by (rule split_stream)
  obtain s1 o1 o2 where d: "deliveries cb sent s = Some (s1, o1)" "deliveries cb todo s1 = Some (s', o2)" "out = o1 @ o2"
    using Cons.prems(9) by (auto simp: bodies deliveries_append split: bind_splits)
  let ?conn = "conn\<lparr>bev := Some (arrive chunk b), is_in_processing := True\<rparr>"
  obtain b1 where b1: "OnDataReady_loop env cb ?conn s = Some (?conn\<lparr>bev := Some b1\<rparr>, s1)" "input b1 = pre'"
      "sent_bytes b1 = sent_bytes b @ o1"
    using loop_stream [of "arrive chunk b" sent pre' todo ?conn cb s s1 o1] Cons.prems pre' d(1) bodies
    by (auto simp: arrive_law)
  have "?conn\<lparr>bev := Some b1, is_in_processing := False\<rparr> = conn\<lparr>bev := Some b1\<rparr>"
    using Cons.prems(8) by (cases conn) simp
  then have step: "OnDataReady env cb (conn\<lparr>bev := Some (arrive chunk b)\<rparr>) s = Some (conn\<lparr>bev := Some b1\<rparr>, s1)"
    using b1(1) by (simp add: OnDataReady_def IsClosed_def)
  have "(pre @ chunk) @ concat chunks = concat (map frame sent) @ concat (map frame todo)"
    using Cons.prems(2) bodies by simp
  then have rest: "pre' @ concat chunks = concat (map frame todo)" unfolding pre'(1) by simp
  have "\<exists>b'. feed env cb arrive chunks (conn\<lparr>bev := Some b1\<rparr>) s1 = Some (conn\<lparr>bev := Some b1\<rparr>\<lparr>bev := Some b'\<rparr>, s')
      \<and> input b' = [] \<and> sent_bytes b' = sent_bytes b1 @ o2"
    by (rule Cons.IH [OF b1(2) rest pre'(2)]) (use Cons.prems(4-8) d(2) bodies in simp_all)
  then obtain b' where "feed env cb arrive chunks (conn\<lparr>bev := Some b1\<rparr>) s1 = Some (conn\<lparr>bev := Some b'\<rparr>, s')"
      "input b' = []" "sent_bytes b' = sent_bytes b1 @ o2" by auto
  with step show ?case using Cons.prems(5) b1(3) d(3) by (intro exI [of _ b']) simp
qed

end

text \<open>A bufferevent as a pair of byte queues, what has arrived and what has been written.\<close>

definition queue_env :: "(byte list \<times> byte list) tcp_env" where
  "queue_env =
     \<lparr>bev_length = (\<lambda>b. length (fst b)), bev_copyout = (\<lambda>n b. take n (fst b)),
      bev_read = (\<lambda>n b. (Some (take n (fst b)), (drop n (fst b), snd b))),
      bev_write = (\<lambda>bs b. (fst b, snd b @ bs)), bev_flush = (\<lambda>b. b),
      bev_getfd = (\<lambda>_. 3), bev_setfd = (\<lambda>_ b. b), bev_socket_new = (\<lambda>_. ([], [])),
      getpeername = (\<lambda>_. None), getsockname = (\<lambda>_. None)\<rparr>"

definition queue_arrive :: "byte list \<Rightarrow> byte list \<times> byte list \<Rightarrow> byte list \<times> byte list" where
  "queue_arrive bs b = (fst b @ bs, snd b)"

interpretation queue: bufferevent queue_env fst snd queue_arrive
  by unfold_locales (simp_all add: queue_env_def queue_arrive_def)

text \<open>A connection with a callback and the given bufferevent.\<close>

definition open_conn :: "'b \<Rightarrow> 'b tcp_conn" where
  "open_conn b = RegisterCallback True (blank_conn\<lparr>bev := Some b\<rparr>)"

text \<open>A callback that records the server type and the uri of what it receives and answers nothing.\<close>

definition recorder :: "(u16 \<times> u16) list conn_callback" where
  "recorder = \<lparr>OnError = (\<lambda>_ s. Some (s, [])), OnPacketReceived = (\<lambda>_ st uri s. Some (s @ [(st, uri)], []))\<rparr>"

lemma open_conn_sel [simp]:
  "bev (open_conn b) = Some b" "callback (open_conn b)" "\<not> destroyed (open_conn b)"
  "\<not> is_in_processing (open_conn b)"
  by (simp_all add: open_conn_def RegisterCallback_def blank_conn_def)

section \<open>Properties\<close>

lemma feed_all:
  assumes "bufferevent env input sent_bytes arrive"
    and "concat chunks = concat (map frame bodies)" and "list_all packet_ok bodies"
    and "bev conn = Some b" and "input b = []" and "callback conn"
    and "\<not> destroyed conn" and "\<not> is_in_processing conn" and "deliveries cb bodies s = Some (s', out)"
  shows "\<exists>b'. feed env cb arrive chunks conn s = Some (conn\<lparr>bev := Some b'\<rparr>, s') \<and> input b' = []
    \<and> sent_bytes b' = sent_bytes b @ out"
proof -
  have "partial_frame [] bodies"
    using assms(3) packet_length by (cases bodies) (fastforce simp: partial_frame_def strict_prefix_def)+
  then show ?thesis
    using assms by (intro bufferevent.feed_stream [OF assms(1), where bodies = bodies]) simp_all
qed

text \<open>C2. Stream reassembly.  However the network cuts a stream of framed packets into chunks, a
  connection hands the callback every packet exactly once, in order, with its server type, its uri
  and an unpacker at the start of its body; the callback's answers are written in order, nothing
  is left in the input and the connection stays open.\<close>

theorem stream_reassembly:
  assumes "bufferevent env input sent_bytes arrive"
    and "concat chunks = concat (map frame bodies)" and "list_all packet_ok bodies"
    and "bev conn = Some b" and "input b = []" and "callback conn"
    and "\<not> destroyed conn" and "\<not> is_in_processing conn" and "deliveries cb bodies s = Some (s', out)"
  shows "\<exists>b'. feed env cb arrive chunks conn s = Some (conn\<lparr>bev := Some b'\<rparr>, s') \<and> input b' = []
    \<and> sent_bytes b' = sent_bytes b @ out"
  using assms by (rule feed_all)

theorem stream_reassembly_witness:
  "\<exists>b'. feed queue_env recorder queue_arrive [[6, 0, 17], [0, 0xEB], [3, 7, 0, 17, 0, 0xEC, 3, 9]]
     (open_conn ([], [])) [] =
     Some (open_conn ([], [])\<lparr>bev := Some b'\<rparr>, [(17, 1003), (17, 1004)]) \<and> fst b' = [] \<and> snd b' = []"
proof -
  let ?bodies = "[[17, 0, 0xEB, 3], [17, 0, 0xEC, 3, 9]] :: byte list list"
  have "frame [17, 0, 0xEB, 3] = [6, 0, 17, 0, 0xEB, 3]" "frame [17, 0, 0xEC, 3, 9] = [7, 0, 17, 0, 0xEC, 3, 9]"
    by (simp_all add: frame_def var_bytes_def le_bytes_2)
  moreover have "deliveries recorder ?bodies [] = Some ([(17, 1003), (17, 1004)], [])"
    by (simp add: recorder_def body_server_type_def body_uri_def)
  ultimately show ?thesis
    using stream_reassembly [OF queue.bufferevent_axioms,
      of "[[6, 0, 17], [0, 0xEB], [3, 7, 0, 17, 0, 0xEC, 3, 9]]" ?bodies "open_conn ([], [])" "([], [])" recorder "[]"]
    by (simp add: packet_ok_def del: feed.simps)
qed

text \<open>The receive loop and the unpacker agree on the length field: what the loop peeks from the
  first bytes of the input is the value \<open>PopVariableUint32\<close> reads from the same bytes.\<close>

theorem peek_equals_pop:
  assumes "4 \<le> length xs"
  shows "map_option fst (PopVariableUint32 \<lparr>up_buffer = xs, up_length = len, up_position = 0\<rparr>) = Some (peek xs)"
proof -
  obtain a b c d r where xs: "xs = [a, b] @ [c, d] @ r"
    using assms by (auto simp: eval_nat_numeral Suc_le_length_iff)
  have "le_bytes (length [a, b]) (le_word [a, b] :: u16) = [a, b]" by (rule le_bytes_le_word) simp
  moreover have "length [a, b] = 2" by simp
  ultimately have lo: "le_bytes 2 (le_word [a, b] :: u16) = [a, b]" by (simp only:)
  show ?thesis
    using peek_third_byte [of "le_word [a, b]" c d] unfolding lo
    by (auto simp: xs PopVariableUint32_def peek_def mem_read_def Let_def not_less add.commute)
qed

theorem peek_equals_pop_witness:
  "map_option fst (PopVariableUint32 \<lparr>up_buffer = [5, 0x80, 2, 0], up_length = 4, up_position = 0\<rparr>) = Some 65541"
proof -
  have "peek [5, 0x80, 2, 0] = 65541" by (simp add: peek_def)
  then show ?thesis using peek_equals_pop [of "[5, 0x80, 2, 0]" 4] by simp
qed

text \<open>While the connection is processing, no call of the callback deletes it.\<close>

definition processing :: "'b tcp_conn \<Rightarrow> bool" where
  "processing conn \<longleftrightarrow> is_in_processing conn \<and> \<not> destroyed conn"

lemma perform_processing:
  "perform env act conn = Some conn' \<Longrightarrow> processing conn \<Longrightarrow> processing conn'"
  by (cases act) (auto simp: processing_def SendPacket_def SendRawData_def Flush_def RegisterCallback_def
      CloseAndDestroy_def Close_def Let_def split: option.splits bind_splits if_splits)

lemma perform_all_processing:
  "perform_all env acts conn = Some conn' \<Longrightarrow> processing conn \<Longrightarrow> processing conn'"
proof (induction acts arbitrary: conn)
  case (Cons act acts)
  then show ?case
    by (auto simp del: perform.simps split: bind_splits intro: perform_processing)
qed simp

lemma call_processing:
  "call_OnError env cb ev conn s = Some (conn', s') \<Longrightarrow> processing conn \<Longrightarrow> processing conn'"
  "call_OnPacketReceived env cb p st uri conn s = Some (conn', s') \<Longrightarrow> processing conn \<Longrightarrow> processing conn'"
  by (auto simp: call_OnError_def call_OnPacketReceived_def split: bind_splits if_splits
      dest: perform_all_processing)

lemma processing_bev [simp]: "processing (conn\<lparr>bev := b\<rparr>) = processing conn"
  by (simp add: processing_def)

lemma loop_processing:
  assumes "OnDataReady_loop env cb conn s = Some r"
  shows "processing conn \<longrightarrow> processing (fst r)"
  using assms
proof (induction rule: OnDataReady_loop.raw_induct [rotated, consumes 1])
  case (1 loop env cb conn s r)
  show ?case
  proof
    assume p: "processing conn"
    have step: "processing (fst r)"
      if "call_OnPacketReceived env cb q st uri (conn\<lparr>bev := b\<rparr>) s = Some (conn', s')"
        and "loop env cb conn' s' = Some r" for q st uri b conn' s'
      using 1(1) [OF that(2)] call_processing(2) [OF that(1)] p by simp
    have err: "processing (fst r)" if "call_OnError env cb ev conn s = Some r" for ev
      using call_processing(1) [of env cb ev conn s "fst r" "snd r"] that p by simp
    from 1(2) p step err show "processing (fst r)"
      by (auto split: option.splits if_splits bind_splits prod.splits)
  qed
qed


text \<open>A callback that closes the connection on the first packet.\<close>

definition closer :: "nat conn_callback" where
  "closer = \<lparr>OnError = (\<lambda>_ s. Some (s, [ActCloseAndDestroy])),
             OnPacketReceived = (\<lambda>_ _ _ s. Some (Suc s, [ActSendRawData [1], ActCloseAndDestroy, ActFlush]))\<rparr>"


text \<open>C37. A length field below the minimum is a protocol error: the callback's \<open>OnError\<close> is called
  once with \<open>BEV_EVENT_ERROR | BEV_EVENT_READING\<close> and nothing of the input is consumed.\<close>

theorem bad_length_reported:
  assumes "bufferevent env input sent_bytes arrive" and "bev conn = Some b" and "callback conn"
    and "\<not> is_in_processing conn" and "6 \<le> length (input b)" and "peek (input b) < 6"
    and "OnError cb 0x21 s = Some (s', [])"
  shows "OnDataReady env cb conn s = Some (conn, s')"
proof -
  have "OnDataReady_loop env cb (conn\<lparr>is_in_processing := True\<rparr>) s = Some (conn\<lparr>is_in_processing := True\<rparr>, s')"
    using assms
    by (subst OnDataReady_loop.simps)
      (simp add: bufferevent.length_law [OF assms(1)] bufferevent.peek_length_peek [OF assms(1)]
        kMinPacketLen_def call_OnError_def BEV_EVENT_ERROR_def BEV_EVENT_READING_def)
  moreover have "conn\<lparr>is_in_processing := False\<rparr> = conn" using assms(4) by (cases conn) simp
  ultimately show ?thesis using assms(2) by (simp add: OnDataReady_def IsClosed_def)
qed

theorem bad_length_reported_witness:
  "OnDataReady queue_env recorder (open_conn ([5, 0, 1, 2, 3, 4], [])) [] = Some (open_conn ([5, 0, 1, 2, 3, 4], []), [])"
  by (rule bad_length_reported [OF queue.bufferevent_axioms, of _ "([5, 0, 1, 2, 3, 4], [])"])
    (simp_all add: peek_def recorder_def)

text \<open>C38. A frame of six bytes whose length is written in the three-byte form passes the check against
  \<open>kMinPacketLen\<close>, but its body has three bytes only: reading server type and uri runs past the
  buffer, whatever the callback.\<close>

theorem three_byte_header_overread:
  assumes "bufferevent env input sent_bytes arrive" and "bev conn = Some b" and "input b = [6, 0x80, 0, x, y, z]"
  shows "peek (input b) = 6 \<and> OnDataReady env cb conn s = None"
proof -
  have p: "peek (input b) = 6"
    using peek_third_byte [of "0x8006" 0 x] by (simp add: assms(3) peek_def le_bytes_2)
  obtain b' where b': "bev_read env 6 b = (Some [6, 0x80, 0, x, y, z], b')"
    using bufferevent.read_law [OF assms(1), of 6 b] assms(3) by auto
  have "open_packet [6, 0x80, 0, x, y, z] 6 = None"
    by (simp add: open_packet_def Unpacker_new_def PopVariableUint32_def PopUint16_def Pop_bytes_def
        mem_read_def skip_def Let_def split: bind_split)
  then have "OnDataReady_loop env cb (conn\<lparr>is_in_processing := True\<rparr>) s = None"
    using assms b' p
    by (subst OnDataReady_loop.simps)
      (simp add: bufferevent.length_law [OF assms(1)] bufferevent.peek_length_peek [OF assms(1)] kMinPacketLen_def)
  with p assms(2) show ?thesis by (simp add: OnDataReady_def IsClosed_def)
qed

theorem three_byte_header_overread_witness:
  "OnDataReady queue_env recorder (open_conn ([6, 0x80, 0, 1, 2, 3], [])) [] = None"
  using three_byte_header_overread [OF queue.bufferevent_axioms, where conn = "open_conn ([6, 0x80, 0, 1, 2, 3], [])"
      and b = "([6, 0x80, 0, 1, 2, 3], [])" and x = 1 and y = 2 and z = 3
      and cb = recorder and s = "[]"] by simp

end
