(* ===== verification/Tcp_Server.thy ===== *)
theory Tcp_Server
  imports Tcp_Connection
begin

text \<open>
  \<open>TcpServer\<close> (src/turnserver/network/tcp_server.h, tcp_server.cpp): a listening socket that hands accepted
  connections to its callback.  The calls to the system and to libevent's listener are the record
  \<open>server_sys\<close>; what is relied on is the locale \<open>server_kernel\<close>.
\<close>

section \<open>The system\<close>

datatype sockopt = SO_KEEPALIVE | SO_REUSEPORT | MPTCP_ENABLED

text \<open>The result of a call is negative when it fails; \<open>evconnlistener_new\<close> gives no listener then.\<close>

record ('l, 'w) server_sys =
  sys_socket :: "'w \<Rightarrow> int \<times> 'w"
  sys_nonblocking :: "int \<Rightarrow> 'w \<Rightarrow> int \<times> 'w"
  sys_setsockopt :: "int \<Rightarrow> sockopt \<Rightarrow> int \<Rightarrow> 'w \<Rightarrow> int \<times> 'w"
  sys_reuseable :: "int \<Rightarrow> 'w \<Rightarrow> int \<times> 'w"
  sys_bind :: "int \<Rightarrow> sockaddr_in \<Rightarrow> 'w \<Rightarrow> int \<times> 'w"
  sys_getsockname :: "int \<Rightarrow> 'w \<Rightarrow> sockaddr_in option"
  sys_close :: "int \<Rightarrow> 'w \<Rightarrow> 'w"
  evconnlistener_new :: "int \<Rightarrow> int \<Rightarrow> 'w \<Rightarrow> 'l option \<times> 'w"
  evconnlistener_free :: "'l \<Rightarrow> 'w \<Rightarrow> 'w"

section \<open>The server\<close>

record 'l TcpServer =
  server_fd :: int
  listener :: "'l option"
  server_callback :: bool

text \<open>Without a socket the constructor ends the program (\<open>None\<close>); a socket that blocks is only reported.\<close>

definition TcpServer_new :: "('l, 'w) server_sys \<Rightarrow> bool \<Rightarrow> 'w \<Rightarrow> ('l TcpServer \<times> 'w) option" where
  "TcpServer_new sys cb w =
     (let (fd, w) = sys_socket sys w
      in if fd = -1 then None
         else let (_, w) = sys_nonblocking sys fd w
              in Some (\<lparr>server_fd = fd, listener = None, server_callback = cb\<rparr>, w))"

definition TcpServer_destroy :: "('l, 'w) server_sys \<Rightarrow> 'l TcpServer \<Rightarrow> 'w \<Rightarrow> 'w" where
  "TcpServer_destroy sys s w =
     (let w = (case listener s of Some l \<Rightarrow> evconnlistener_free sys l w | None \<Rightarrow> w)
      in sys_close sys (server_fd s) w)"

definition BindAndListen :: "('l, 'w) server_sys \<Rightarrow> u16 \<Rightarrow> u32 \<Rightarrow> int \<Rightarrow> 'l TcpServer \<Rightarrow> 'w \<Rightarrow> 'l option \<times> 'w" where
  "BindAndListen sys port local_address backlog s w =
     (let fd = server_fd s;
          sin = \<lparr>sin_family = AF_INET, sin_port = htons port, sin_addr = htonl local_address\<rparr>;
          (r, w) = sys_setsockopt sys fd SO_KEEPALIVE 1 w
      in if r < 0 then (None, w)
         else let (r, w) = sys_reuseable sys fd w
              in if r < 0 then (None, w)
                 else let (r, w) = sys_bind sys fd sin w
                      in if r < 0 then (None, w) else evconnlistener_new sys fd backlog w)"

definition ListenOn :: "('l, 'w) server_sys \<Rightarrow> u16 \<Rightarrow> u32 \<Rightarrow> int \<Rightarrow> 'l TcpServer \<Rightarrow> 'w \<Rightarrow> bool \<times> 'l TcpServer \<times> 'w" where
  "ListenOn sys port local_address backlog s w =
     (if listener s \<noteq> None then (False, s, w)
      else let (l, w) = BindAndListen sys port local_address backlog s w
           in (l \<noteq> None, s\<lparr>listener := l\<rparr>, w))"

definition TcpServer_RegisterCallback :: "bool \<Rightarrow> 'l TcpServer \<Rightarrow> 'l TcpServer" where
  "TcpServer_RegisterCallback cb s = s\<lparr>server_callback := cb\<rparr>"

text \<open>
  \<open>AcceptCallback\<close>: the two assertions, and then the connection for the callback of the server; without a callback
  nobody takes the descriptor.
\<close>

definition AcceptConnection :: "'b tcp_env \<Rightarrow> 'l \<Rightarrow> int \<Rightarrow> int \<Rightarrow> 'l TcpServer \<Rightarrow> 'b tcp_conn option option" where
  "AcceptConnection env l fd addr_len s =
     (if Some l \<noteq> listener s \<or> addr_len \<noteq> 16 then None
      else if \<not> server_callback s then Some None
      else do { c \<leftarrow> TcpConnection_Create_fd env fd; Some (Some c) })"

definition TcpServer_EnableMptcp :: "('l, 'w) server_sys \<Rightarrow> bool \<Rightarrow> 'l TcpServer \<Rightarrow> 'w \<Rightarrow> bool \<times> 'w" where
  "TcpServer_EnableMptcp sys enable s w =
     (if listener s \<noteq> None then (False, w)
      else let (r, w) = sys_setsockopt sys (server_fd s) MPTCP_ENABLED (if enable then 1 else 0) w in (r \<noteq> -1, w))"

definition EnableReusePort :: "('l, 'w) server_sys \<Rightarrow> 'l TcpServer \<Rightarrow> 'w \<Rightarrow> bool \<times> 'w" where
  "EnableReusePort sys s w =
     (if listener s \<noteq> None then (False, w)
      else let (r, w) = sys_setsockopt sys (server_fd s) SO_REUSEPORT 1 w in (r \<noteq> -1, w))"

definition GetListenPort :: "('l, 'w) server_sys \<Rightarrow> 'l TcpServer \<Rightarrow> 'w \<Rightarrow> u16" where
  "GetListenPort sys s w = (case sys_getsockname sys (server_fd s) w of None \<Rightarrow> 0 | Some a \<Rightarrow> ntohs (sin_port a))"

section \<open>Programs on a server\<close>

datatype server_op = OpListen u16 u32 int | OpMptcp bool | OpReusePort | OpCallback bool

fun server_step :: "('l, 'w) server_sys \<Rightarrow> server_op \<Rightarrow> 'l TcpServer \<times> 'w \<Rightarrow> bool \<times> 'l TcpServer \<times> 'w" where
  "server_step sys (OpListen port a n) (s, w) = ListenOn sys port a n s w"
| "server_step sys (OpMptcp e) (s, w) = (let (r, w) = TcpServer_EnableMptcp sys e s w in (r, s, w))"
| "server_step sys OpReusePort (s, w) = (let (r, w) = EnableReusePort sys s w in (r, s, w))"
| "server_step sys (OpCallback cb) (s, w) = (True, TcpServer_RegisterCallback cb s, w)"

fun server_run :: "('l, 'w) server_sys \<Rightarrow> server_op list \<Rightarrow> 'l TcpServer \<times> 'w \<Rightarrow> bool list \<times> 'l TcpServer \<times> 'w" where
  "server_run sys [] sw = ([], sw)"
| "server_run sys (op # ops) sw =
     (let (r, sw) = server_step sys op sw; (rs, sw) = server_run sys ops sw in (r # rs, sw))"

text \<open>A server that listens refuses every change of its socket and touches nothing.\<close>

lemma listening_refuses:
  assumes "listener s \<noteq> None" and "\<forall>op \<in> set ops. \<forall>cb. op \<noteq> OpCallback cb"
  shows "server_run sys ops (s, w) = (map (\<lambda>_. False) ops, s, w)"
  using assms(2)
proof (induction ops)
  case Nil
  then show ?case by simp
next
  case (Cons op ops)
  have "server_step sys op (s, w) = (False, s, w)"
    using assms(1) Cons.prems by (cases op) (auto simp: ListenOn_def TcpServer_EnableMptcp_def EnableReusePort_def)
  with Cons show ?case by simp
qed

text \<open>
  The descriptors that were closed, in order.  A listener that is made with \<open>LEV_OPT_CLOSE_ON_FREE\<close> closes its
  descriptor when it is freed.
\<close>

locale server_kernel =
  fixes sys :: "('l, 'w) server_sys" and closes :: "'w \<Rightarrow> int list" and fd_of :: "'l \<Rightarrow> int"
  assumes close_law: "closes (sys_close sys fd w) = closes w @ [fd]"
    and free_law: "closes (evconnlistener_free sys l w) = closes w @ [fd_of l]"
    and new_law: "evconnlistener_new sys fd n w = (ol, w') \<Longrightarrow> closes w' = closes w \<and> (\<forall>x. ol = Some x \<longrightarrow> fd_of x = fd)"
    and quiet_laws: "sys_socket sys w = (r, w') \<Longrightarrow> closes w' = closes w"
      "sys_nonblocking sys fd w = (r, w') \<Longrightarrow> closes w' = closes w"
      "sys_setsockopt sys fd opt n w = (r, w') \<Longrightarrow> closes w' = closes w"
      "sys_reuseable sys fd w = (r, w') \<Longrightarrow> closes w' = closes w"
      "sys_bind sys fd a w = (r, w') \<Longrightarrow> closes w' = closes w"
begin

definition server_ok :: "int list \<Rightarrow> 'l TcpServer \<times> 'w \<Rightarrow> bool" where
  "server_ok cs sw \<longleftrightarrow> closes (snd sw) = cs \<and> (\<forall>l. listener (fst sw) = Some l \<longrightarrow> fd_of l = server_fd (fst sw))"

lemma new_ok: "TcpServer_new sys cb w = Some (s, w') \<Longrightarrow> server_ok (closes w) (s, w') \<and> listener s = None"
  by (auto simp: TcpServer_new_def server_ok_def Let_def quiet_laws split: prod.splits if_splits)

lemma BindAndListen_ok:
  "BindAndListen sys port a n s w = (l, w') \<Longrightarrow> closes w' = closes w \<and> (\<forall>x. l = Some x \<longrightarrow> fd_of x = server_fd s)"
  by (auto simp: BindAndListen_def Let_def quiet_laws new_law split: prod.splits if_splits dest: new_law)

lemma step_ok:
  assumes "server_ok cs (s, w)" and "server_step sys op (s, w) = (r, s', w')"
  shows "server_ok cs (s', w') \<and> server_fd s' = server_fd s"
proof (cases op)
  case (OpListen port a n)
  obtain l v where b: "BindAndListen sys port a n s w = (l, v)" by fastforce
  with assms OpListen BindAndListen_ok [OF b] show ?thesis
    by (auto simp: server_ok_def ListenOn_def split: if_splits)
qed (use assms in \<open>auto simp: server_ok_def TcpServer_EnableMptcp_def EnableReusePort_def TcpServer_RegisterCallback_def Let_def
  quiet_laws split: if_splits prod.splits\<close>)

lemma run_ok:
  "server_ok cs (s, w) \<Longrightarrow> server_run sys ops (s, w) = (rs, s', w') \<Longrightarrow> server_ok cs (s', w') \<and> server_fd s' = server_fd s"
proof (induction ops arbitrary: s w rs s' w')
  case Nil
  then show ?case by simp
next
  case (Cons op ops)
  obtain r s1 w1 where st: "server_step sys op (s, w) = (r, s1, w1)" by (cases "server_step sys op (s, w)") auto
  obtain rs1 s2 w2 where rn: "server_run sys ops (s1, w1) = (rs1, s2, w2)" by (cases "server_run sys ops (s1, w1)") auto
  from Cons.IH [OF _ rn] step_ok [OF Cons.prems(1) st] Cons.prems(2) st rn show ?case by auto
qed

lemma destroy_closes:
  assumes "TcpServer_new sys cb w = Some (s, w1)" and "server_run sys ops (s, w1) = (rs, s', w')"
  shows "closes (TcpServer_destroy sys s' w') =
    closes w @ (if listener s' = None then [server_fd s] else [server_fd s, server_fd s])"
  using run_ok [OF conjunct1 [OF new_ok [OF assms(1)]] assms(2)]
  by (auto simp: TcpServer_destroy_def server_ok_def close_law free_law split: option.split)

end

text \<open>A kernel with a table of bound addresses, on which binding the same port twice fails.\<close>

record kernel =
  next_fd :: int
  bound :: "(int \<times> sockaddr_in) list"
  closed :: "int list"

definition kernel_sys :: "(int, kernel) server_sys" where
  "kernel_sys =
     \<lparr>sys_socket = (\<lambda>k. (next_fd k, k\<lparr>next_fd := next_fd k + 1\<rparr>)),
      sys_nonblocking = (\<lambda>_ k. (0, k)),
      sys_setsockopt = (\<lambda>_ opt _ k. (if opt = MPTCP_ENABLED then -1 else 0, k)),
      sys_reuseable = (\<lambda>_ k. (0, k)),
      sys_bind = (\<lambda>fd a k. if sin_port a \<in> set (map (sin_port \<circ> snd) (bound k)) then (-1, k)
                          else (0, k\<lparr>bound := (fd, a) # bound k\<rparr>)),
      sys_getsockname = (\<lambda>fd k. map_of (bound k) fd),
      sys_close = (\<lambda>fd k. k\<lparr>closed := closed k @ [fd]\<rparr>),
      evconnlistener_new = (\<lambda>fd _ k. (Some fd, k)),
      evconnlistener_free = (\<lambda>l k. k\<lparr>closed := closed k @ [l]\<rparr>)\<rparr>"

interpretation kernel: server_kernel kernel_sys closed "\<lambda>l. l"
  by unfold_locales (auto simp: kernel_sys_def split: if_splits)

text \<open>The destructor closes the socket of a server that never listened once, and the socket of a listening server
  twice, whatever was called before: the listener was made to close it, and \<open>~TcpServer\<close> closes it again.\<close>

theorem server_socket_closed:
  assumes "server_kernel sys closes fd_of"
    and "TcpServer_new sys cb w = Some (s, w1)" and "server_run sys ops (s, w1) = (rs, s', w')"
  shows "closes (TcpServer_destroy sys s' w') =
    closes w @ (if listener s' = None then [server_fd s] else [server_fd s, server_fd s])"
  by (rule server_kernel.destroy_closes [OF assms])

theorem server_socket_closed_witness:
  "\<exists>s w1 s' w'. TcpServer_new kernel_sys True \<lparr>next_fd = 5, bound = [], closed = []\<rparr> = Some (s, w1) \<and>
     server_run kernel_sys [OpReusePort, OpListen 3002 0 (-1), OpListen 3003 0 (-1)] (s, w1) = ([True, True, False], s', w') \<and>
     GetListenPort kernel_sys s' w' = 3002 \<and> closed (TcpServer_destroy kernel_sys s' w') = [5, 5]"
proof -
  obtain s w1 where n: "TcpServer_new kernel_sys True \<lparr>next_fd = 5, bound = [], closed = []\<rparr> = Some (s, w1)" and
    s: "server_fd s = 5" "listener s = None" "bound w1 = []"
    by (simp add: TcpServer_new_def kernel_sys_def)
  obtain s' w' where r: "server_run kernel_sys [OpReusePort, OpListen 3002 0 (-1), OpListen 3003 0 (-1)] (s, w1) =
      ([True, True, False], s', w')" and l: "listener s' \<noteq> None" and p: "GetListenPort kernel_sys s' w' = 3002"
    using s by (simp add: kernel_sys_def ListenOn_def BindAndListen_def EnableReusePort_def GetListenPort_def)
  from server_socket_closed [OF kernel.server_kernel_axioms n r] l s n r p show ?thesis by auto
qed

end
