(* ===== verification/Report_Item.thy ===== *)
theory Report_Item
  imports Thrift_Laws
begin

text \<open>
  The classes of the reports (src/turnserver/thrift/gen-cpp/report_item_types.cpp).  Every class has
  the same \<open>read\<close> and \<open>write\<close> up to its fields: \<open>write\<close> puts out, in the order of the code,
  the fields that are set and the required ones, and \<open>read\<close> chooses by the id of the field among
  the cases of its \<open>switch\<close>.  A class is the list of its fields in the order \<open>write\<close> has them, with the
  id that \<open>write\<close> gives to the field and the id under which \<open>read\<close> expects it; \<open>write_value\<close> and
  \<open>read_value\<close> are the two functions.  A field that is not set (\<open>__isset\<close>) is \<open>None\<close>.
\<close>

section \<open>Values and classes\<close>

datatype tschema = SBool | SI16 | SI32 | SI64 | SString | SList tschema | SStruct "tfield list"
  and tfield = Field (f_name: string) (f_write_id: int) (f_read_id: int) (f_required: bool) (f_schema: tschema)

datatype tvalue = VBool bool | VI16 int | VI32 int | VI64 int | VString "byte list" | VList "tvalue list"
  | VStruct "tvalue option list"

definition optional :: "string \<Rightarrow> int \<Rightarrow> int \<Rightarrow> tschema \<Rightarrow> tfield" where
  "optional name wid rid s = Field name wid rid False s"

definition required :: "string \<Rightarrow> int \<Rightarrow> int \<Rightarrow> tschema \<Rightarrow> tfield" where
  "required name wid rid s = Field name wid rid True s"

fun ttype_of :: "tschema \<Rightarrow> ttype" where
  "ttype_of SBool = T_BOOL"
| "ttype_of SI16 = T_I16"
| "ttype_of SI32 = T_I32"
| "ttype_of SI64 = T_I64"
| "ttype_of SString = T_STRING"
| "ttype_of (SList s) = T_LIST"
| "ttype_of (SStruct fs) = T_STRUCT"

text \<open>A new object: a required field has the value of its initialiser, no other field is set.\<close>

fun default_value :: "tschema \<Rightarrow> tvalue" and default_fields :: "tfield list \<Rightarrow> tvalue option list" where
  "default_value SBool = VBool False"
| "default_value SI16 = VI16 0"
| "default_value SI32 = VI32 0"
| "default_value SI64 = VI64 0"
| "default_value SString = VString []"
| "default_value (SList s) = VList []"
| "default_value (SStruct fs) = VStruct (default_fields fs)"
| "default_fields [] = []"
| "default_fields (Field name wid rid req s # fs) = (if req then Some (default_value s) else None) # default_fields fs"

section \<open>Writing\<close>

text \<open>
  The nesting of the classes is four deep, so that the limit of 64 in \<open>incrementRecursionDepth\<close> is
  not met and is left out.
\<close>

fun write_value :: "tschema \<Rightarrow> tvalue \<Rightarrow> cp_writer \<Rightarrow> cp_writer option"
  and write_elems :: "tschema \<Rightarrow> tvalue list \<Rightarrow> cp_writer \<Rightarrow> cp_writer option"
  and write_fields :: "tfield list \<Rightarrow> tvalue option list \<Rightarrow> cp_writer \<Rightarrow> cp_writer option" where
  "write_value SBool (VBool b) w = Some (writeBool b w)"
| "write_value SI16 (VI16 i) w = Some (writeI16 i w)"
| "write_value SI32 (VI32 i) w = Some (writeI32 i w)"
| "write_value SI64 (VI64 i) w = Some (writeI64 i w)"
| "write_value SString (VString str) w = writeBinary str w"
| "write_value (SList s) (VList vs) w = write_elems s vs (writeListBegin (ttype_of s) (of_nat (length vs)) w)"
| "write_value (SStruct fs) (VStruct vs) w =
     do { w \<leftarrow> write_fields fs vs (writeStructBegin w); writeStructEnd (writeFieldStop w) }"
| "write_value _ _ w = None"
| "write_elems s [] w = Some w"
| "write_elems s (v # vs) w = do { w \<leftarrow> write_value s v w; write_elems s vs w }"
| "write_fields [] [] w = Some w"
| "write_fields (f # fs) (None # vs) w = write_fields fs vs w"
| "write_fields (Field name wid rid req s # fs) (Some v # vs) w =
     do { w \<leftarrow> write_value s v (writeFieldBegin (ttype_of s) wid w); write_fields fs vs w }"
| "write_fields _ _ w = None"

section \<open>Reading\<close>

text \<open>\<open>Out\<close> is the end of the model's fuel, \<open>Fail\<close> an error of the protocol.\<close>

datatype 'a got = Got 'a cp_reader | Fail | Out

definition got :: "('b \<Rightarrow> 'a) \<Rightarrow> ('b \<times> cp_reader) option \<Rightarrow> 'a got" where
  "got f x = (case x of None \<Rightarrow> Fail | Some (v, r) \<Rightarrow> Got (f v) r)"

fun got_then :: "'a got \<Rightarrow> ('a \<Rightarrow> cp_reader \<Rightarrow> 'b got) \<Rightarrow> 'b got" where
  "got_then (Got v r) f = f v r"
| "got_then Fail f = Fail"
| "got_then Out f = Out"

fun skipped :: "skip_result \<Rightarrow> (cp_reader \<Rightarrow> 'b got) \<Rightarrow> 'b got" where
  "skipped (Done r) f = f r"
| "skipped Bad f = Fail"
| "skipped NoFuel f = Out"

lemma got_then_cong [fundef_cong]:
  "x = x' \<Longrightarrow> (\<And>v r. x' = Got v r \<Longrightarrow> f v r = f' v r) \<Longrightarrow> got_then x f = got_then x' f'"
  by (cases x) auto

lemma skipped_cong [fundef_cong]:
  "x = x' \<Longrightarrow> (\<And>r. x' = Done r \<Longrightarrow> f r = f' r) \<Longrightarrow> skipped x f = skipped x' f'"
  by (cases x) auto

text \<open>The \<open>switch\<close> over the id: the position of the field and its class.\<close>

fun field_case :: "int \<Rightarrow> tfield list \<Rightarrow> (nat \<times> tschema) option" where
  "field_case fid [] = None"
| "field_case fid (Field name wid rid req s # fs) =
     (if fid = rid then Some (0, s) else map_option (\<lambda>(i, s). (Suc i, s)) (field_case fid fs))"

definition members :: "tfield list \<Rightarrow> tvalue option \<Rightarrow> tvalue option list" where
  "members fs cur = (case cur of Some (VStruct vs) \<Rightarrow> vs | _ \<Rightarrow> default_fields fs)"

text \<open>
  \<open>cur\<close> is the member that is read into: an object keeps the fields that the input does not have, a list is
  cleared first.
\<close>

function read_value :: "nat \<Rightarrow> tschema \<Rightarrow> tvalue option \<Rightarrow> cp_reader \<Rightarrow> tvalue got"
  and read_elems :: "nat \<Rightarrow> tschema \<Rightarrow> nat \<Rightarrow> cp_reader \<Rightarrow> tvalue list got"
  and read_fields :: "nat \<Rightarrow> tfield list \<Rightarrow> tvalue option list \<Rightarrow> cp_reader \<Rightarrow> tvalue option list got" where
  "read_value k s cur r =
     (case s of
        SBool \<Rightarrow> got VBool (readBool r)
      | SI16 \<Rightarrow> got VI16 (readI16 r)
      | SI32 \<Rightarrow> got VI32 (readI32 r)
      | SI64 \<Rightarrow> got VI64 (readI64 r)
      | SString \<Rightarrow> got VString (readBinary r)
      | SList s \<Rightarrow>
          (case readListBegin r of None \<Rightarrow> Fail
           | Some ((_, n), r) \<Rightarrow> got_then (read_elems k s n r) (\<lambda>vs. Got (VList vs)))
      | SStruct fs \<Rightarrow>
          got_then (read_fields k fs (members fs cur) (readStructBegin r))
            (\<lambda>vs r. got (\<lambda>_. VStruct vs) (map_option (Pair ()) (readStructEnd r))))"
| "read_elems k s n r =
     (case n of 0 \<Rightarrow> Got [] r
      | Suc n \<Rightarrow> got_then (read_value k s None r) (\<lambda>v r. got_then (read_elems k s n r) (\<lambda>vs. Got (v # vs))))"
| "read_fields k fs vs r =
     (case (k, readFieldBegin r) of
        (0, _) \<Rightarrow> Out | (_, None) \<Rightarrow> Fail
      | (Suc k, Some ((t, fid), r)) \<Rightarrow>
          if t = T_STOP then Got vs r
          else case field_case fid fs of
                 Some (i, s) \<Rightarrow>
                   if t = ttype_of s
                   then got_then (read_value k s (vs ! i) r) (\<lambda>v. read_fields k fs (vs[i := Some v]))
                   else skipped (skip_value k t r) (read_fields k fs vs)
               | None \<Rightarrow> skipped (skip_value k t r) (read_fields k fs vs))"
  by pat_completeness auto
termination
  by (relation "inv_image (less_than <*lex*> less_than <*lex*> less_than)
      (\<lambda>x. case x of Inl (k, s, cur, r) \<Rightarrow> (k, size s, 0) | Inr (Inl (k, s, n, r)) \<Rightarrow> (k, size s, Suc n)
        | Inr (Inr (k, fs, vs, r)) \<Rightarrow> (k, 0, 0))")
    auto

declare read_value.simps [simp del] read_elems.simps [simp del] read_fields.simps [simp del]

section \<open>Setters\<close>

fun field_index :: "string \<Rightarrow> tfield list \<Rightarrow> nat option" where
  "field_index name [] = None"
| "field_index name (f # fs) = (if f_name f = name then Some 0 else map_option Suc (field_index name fs))"

text \<open>\<open>__set_name\<close>: the member gets the value and counts as set.\<close>

fun set_field :: "string \<Rightarrow> tvalue \<Rightarrow> tschema \<Rightarrow> tvalue \<Rightarrow> tvalue" where
  "set_field name v (SStruct fs) (VStruct vs) =
     (case field_index name fs of Some i \<Rightarrow> VStruct (vs[i := Some v]) | None \<Rightarrow> VStruct vs)"
| "set_field name v _ x = x"

section \<open>The classes\<close>

definition EncryptedItem :: tschema where
  "EncryptedItem = SStruct
    [optional ''encType'' 1 1 SI32,
     optional ''key1'' 2 2 SString,
     optional ''key2'' 3 3 SString,
     optional ''key3'' 4 4 SString,
     optional ''key4'' 5 5 SString,
     optional ''payload'' 10 10 SString]"

definition VosdkHeader :: tschema where
  "VosdkHeader = SStruct
    [optional ''sid'' 1 1 SString,
     optional ''cname'' 2 2 SString,
     optional ''cid'' 3 3 SI64,
     optional ''lts'' 4 4 SI64,
     optional ''ip'' 5 5 SString,
     optional ''uid'' 6 6 SI64,
     optional ''success'' 7 7 SBool,
     optional ''elapse'' 8 8 SI64,
     optional ''peer'' 9 9 SI64]"

definition VosdkCounterItem :: tschema where
  "VosdkCounterItem = SStruct
    [optional ''name'' 1 1 SString,
     optional ''lts'' 2 2 SI64,
     optional ''value'' 3 3 SI32,
     optional ''id'' 4 4 SI32,
     optional ''tagErrorCode'' 5 5 SI32]"

definition VosdkCounter :: tschema where
  "VosdkCounter = SStruct
    [optional ''header'' 1 1 VosdkHeader,
     optional ''items'' 2 2 (SList VosdkCounterItem)]"

definition VosdkSession :: tschema where
  "VosdkSession = SStruct
    [optional ''header'' 1 1 VosdkHeader,
     optional ''vk'' 5 5 SString,
     optional ''ver'' 6 6 SString,
     optional ''net1'' 7 7 SI32,
     optional ''net2'' 8 8 SI32,
     optional ''localIp'' 9 9 SString,
     optional ''ssid'' 10 10 SString,
     optional ''bssid'' 11 11 SString,
     optional ''siglevel'' 12 12 SI32,
     optional ''rssi'' 13 13 SI32,
     optional ''os1'' 14 14 SI32,
     optional ''did'' 15 15 SString,
     optional ''pnq'' 16 16 SI32,
     optional ''lost'' 17 17 SI32,
     optional ''info'' 18 18 SString,
     optional ''lsid'' 19 19 SString,
     optional ''channelMode'' 20 20 SI32,
     optional ''cheVer'' 21 21 SString,
     optional ''sdkBuildNumber'' 22 22 SI32,
     optional ''cheBuildNumber'' 23 23 SI32,
     optional ''fsid'' 24 24 SString,
     optional ''channelProfile'' 25 25 SI32,
     optional ''netSubType'' 26 26 SI32,
     optional ''clientType'' 27 27 SI32,
     optional ''appCategory'' 28 28 SI32,
     optional ''clientRole'' 29 29 SI32,
     optional ''installId'' 30 30 SString]"

definition VosdkVocs :: tschema where
  "VosdkVocs = SStruct
    [optional ''header'' 1 1 VosdkHeader,
     optional ''ec'' 5 5 SI32,
     optional ''sc'' 6 6 SI32,
     optional ''serverIp'' 7 7 SString,
     optional ''firstSuccess'' 8 8 SBool,
     optional ''responseTime'' 9 9 SI32,
     optional ''serverIpList'' 10 10 (SList SString),
     optional ''ssid'' 11 11 SString,
     optional ''bssid'' 12 12 SString,
     optional ''localWanIp'' 13 13 SString,
     optional ''ispName'' 14 14 SString,
     optional ''minorIsp'' 15 15 SBool]"

definition VosdkVos :: tschema where
  "VosdkVos = SStruct
    [optional ''header'' 1 1 VosdkHeader,
     optional ''ec'' 5 5 SI32,
     optional ''sc'' 6 6 SI32,
     optional ''serverIp'' 7 7 SString,
     optional ''vosList'' 8 8 (SList SString),
     optional ''firstSuccess'' 9 9 SBool,
     optional ''channelCount'' 10 10 SI32,
     optional ''responseTime'' 11 11 SI32]"

definition VosdkWebQuit :: tschema where
  "VosdkWebQuit = SStruct
    [optional ''header'' 1 1 VosdkHeader,
     optional ''ec'' 2 2 SI32]"

definition WrtcBrowser2Gateway :: tschema where
  "WrtcBrowser2Gateway = SStruct
    [optional ''vid'' 1 1 SI32,
     optional ''cid'' 2 2 SI64,
     optional ''uid'' 3 3 SI64,
     optional ''vos_id'' 4 4 SI32,
     optional ''source_ip'' 5 5 SI32,
     optional ''source_port'' 6 6 SI16,
     optional ''dest_ip'' 7 7 SI32,
     optional ''dest_port'' 8 8 SI16,
     optional ''delay'' 9 9 SI16,
     optional ''jitter100'' 10 10 SI16,
     optional ''jitter95'' 11 11 SI16,
     optional ''jitter90'' 12 12 SI16,
     optional ''lost_ratio'' 13 13 SI16,
     optional ''lost_ratio2'' 14 14 SI16,
     optional ''lost_ratio3'' 15 15 SI16,
     optional ''lts'' 16 16 SI64,
     optional ''sid'' 17 17 SString]"

definition WrtcBrowser2Browser :: tschema where
  "WrtcBrowser2Browser = SStruct
    [optional ''vid'' 1 1 SI32,
     optional ''cid'' 2 2 SI64,
     optional ''uid'' 3 3 SI64,
     optional ''vos_id'' 4 4 SI32,
     optional ''source_ip'' 5 5 SI32,
     optional ''source_port'' 6 6 SI16,
     optional ''dest_ip'' 7 7 SI32,
     optional ''dest_port'' 8 8 SI16,
     optional ''delay'' 9 9 SI16,
     optional ''jitter100'' 10 10 SI16,
     optional ''jitter95'' 11 11 SI16,
     optional ''jitter90'' 12 12 SI16,
     optional ''lost_ratio'' 13 13 SI16,
     optional ''lost_ratio2'' 14 14 SI16,
     optional ''lost_ratio3'' 15 15 SI16,
     optional ''lts'' 16 16 SI64,
     optional ''sid'' 17 17 SString,
     optional ''peer_uid'' 18 18 SI32]"

definition WrtcProfile :: tschema where
  "WrtcProfile = SStruct
    [optional ''header'' 1 1 VosdkHeader,
     optional ''framerate'' 2 2 SI16,
     optional ''bitrate'' 3 3 SI32,
     optional ''width'' 4 4 SI32,
     optional ''height'' 5 5 SI32]"

definition WrtcPubStream :: tschema where
  "WrtcPubStream = SStruct
    [optional ''header'' 1 1 VosdkHeader,
     optional ''audio'' 2 2 SBool,
     optional ''video'' 3 3 SBool]"

definition WrtcUnpubStream :: tschema where
  "WrtcUnpubStream = SStruct
    [optional ''header'' 1 1 VosdkHeader]"

definition WrtcSubStream :: tschema where
  "WrtcSubStream = SStruct
    [optional ''header'' 1 1 VosdkHeader,
     optional ''peerUid'' 2 2 SI64]"

definition WrtcUnsubStream :: tschema where
  "WrtcUnsubStream = SStruct
    [optional ''header'' 1 1 VosdkHeader,
     optional ''peerUid'' 2 2 SI64]"

definition WrtcEventsSequenceItem :: tschema where
  "WrtcEventsSequenceItem = SStruct
    [required ''n'' 1 1 SString,
     required ''succ'' 2 2 SBool,
     optional ''lts'' 3 3 SI64,
     optional ''elps'' 4 4 SI32,
     optional ''ec'' 5 5 SString,
     optional ''addl_s1'' 6 6 SString,
     optional ''addl_s2'' 7 7 SString,
     optional ''addl_i1'' 8 8 SI64,
     optional ''addl_i2'' 9 9 SI64,
     optional ''addl_i3'' 10 10 SI32,
     optional ''addl_i4'' 11 11 SI32]"

definition WrtcEventsSequence :: tschema where
  "WrtcEventsSequence = SStruct
    [required ''succ'' 1 1 SBool,
     optional ''lts'' 2 2 SI64,
     optional ''elps'' 3 3 SI32,
     required ''events'' 4 4 (SList WrtcEventsSequenceItem),
     optional ''appid'' 5 5 SString,
     optional ''ver'' 6 6 SString,
     optional ''brwsr'' 7 7 SString,
     optional ''prev_e'' 8 8 WrtcEventsSequenceItem]"

definition WrtcReceiverReport :: tschema where
  "WrtcReceiverReport = SStruct
    [optional ''header'' 1 1 VosdkHeader,
     optional ''sourceSsrc'' 2 2 SI64,
     optional ''fractionLost'' 3 3 SI64,
     optional ''cumulativeLost'' 4 4 SI64,
     optional ''highestSeqNumber'' 5 5 SI64,
     optional ''jitter'' 6 6 SI64,
     optional ''lsr'' 7 7 SI64,
     optional ''dlsr'' 8 8 SI64,
     optional ''vid'' 9 9 SI64]"

definition WrtcGateway2Browser :: tschema where
  "WrtcGateway2Browser = SStruct
    [optional ''sid'' 1 1 SString,
     optional ''vid'' 2 2 SI32,
     optional ''cid'' 3 3 SI64,
     optional ''uid'' 4 4 SI64,
     optional ''spkUid'' 5 5 SI64,
     optional ''delay'' 6 6 SI16,
     optional ''jitter'' 7 7 SI16,
     optional ''lost'' 8 8 SI16]"

definition WrtcStreamControl :: tschema where
  "WrtcStreamControl = SStruct
    [optional ''header'' 1 1 VosdkHeader,
     optional ''operation'' 2 2 SString,
     optional ''streamUid'' 3 3 SI64]"

definition WrtcConnectProxyTurnWorker :: tschema where
  "WrtcConnectProxyTurnWorker = SStruct
    [optional ''header'' 1 1 VosdkHeader,
     optional ''clientAddr'' 2 2 SString,
     optional ''userCount'' 3 3 SI64,
     optional ''ingress'' 3 4 SI64,
     optional ''egress'' 3 5 SI64,
     optional ''extend'' 2 6 SString]"

definition ReportItem :: tschema where
  "ReportItem = SStruct
    [required ''uri'' 1 1 SI32,
     optional ''encryptedItem'' 900 900 EncryptedItem,
     optional ''vosdkCounter'' 1000 1000 VosdkCounter,
     optional ''vosdkSession'' 1001 1001 VosdkSession,
     optional ''vosdkVocs'' 1002 1002 VosdkVocs,
     optional ''vosdkVos'' 1003 1003 VosdkVos,
     optional ''vosdkWebQuit'' 1029 1029 VosdkWebQuit,
     optional ''wrtcBrowser2Gateway'' 2001 2001 WrtcBrowser2Gateway,
     optional ''wrtcBrowser2GatewayVideo'' 2021 2021 WrtcBrowser2Gateway,
     optional ''wrtcBrowser2BrowserAudio'' 2022 2022 WrtcBrowser2Browser,
     optional ''wrtcBrowser2BrowserVideo'' 2023 2023 WrtcBrowser2Browser,
     optional ''wrtcProfile'' 2002 2002 WrtcProfile,
     optional ''wrtcPubStream'' 2003 2003 WrtcPubStream,
     optional ''wrtcUnpubStream'' 2004 2004 WrtcUnpubStream,
     optional ''wrtcSubStream'' 2005 2005 WrtcSubStream,
     optional ''wrtcUnsubStream'' 2006 2006 WrtcUnsubStream,
     optional ''wrtcEventsSequence'' 2008 2008 WrtcEventsSequence,
     optional ''wrtcReceiverReport'' 2009 2009 WrtcReceiverReport,
     optional ''wrtcGateway2Browser'' 2010 2010 WrtcGateway2Browser,
     optional ''wrtcStreamControl'' 2011 2011 WrtcStreamControl,
     optional ''wrtcConnectProxyTurnWorker'' 2026 2026 WrtcConnectProxyTurnWorker]"

end
