(* ===== verification/Report_Laws.thy ===== *)
theory Report_Laws
  imports Report_Item
begin

text \<open>
  What the classes of the reports promise.  \<open>enc_value\<close> is the format on the wire as a function of the
  value; \<open>write_value\<close> puts out exactly these bytes.  \<open>read_back\<close> says what a reader of the
  same class makes of a value that was written: the value itself when every field is
  written under the id under which it is read.  Reading ends on every input, and what it gives is of the class that was asked for.
\<close>

section \<open>Types of values\<close>

fun has_type :: "tschema \<Rightarrow> tvalue \<Rightarrow> bool"
  and elems_typed :: "tschema \<Rightarrow> tvalue list \<Rightarrow> bool"
  and fields_typed :: "tfield list \<Rightarrow> tvalue option list \<Rightarrow> bool" where
  "has_type SBool (VBool b) = True"
| "has_type SI16 (VI16 i) = signed_range 16 i"
| "has_type SI32 (VI32 i) = signed_range 32 i"
| "has_type SI64 (VI64 i) = signed_range 64 i"
| "has_type SString (VString str) = (length str < 2 ^ 31)"
| "has_type (SList s) (VList vs) = (length vs < 2 ^ 31 \<and> elems_typed s vs)"
| "has_type (SStruct fs) (VStruct vs) = fields_typed fs vs"
| "has_type _ _ = False"
| "elems_typed s [] = True"
| "elems_typed s (v # vs) = (has_type s v \<and> elems_typed s vs)"
| "fields_typed [] [] = True"
| "fields_typed (f # fs) (None # vs) = (\<not> f_required f \<and> fields_typed fs vs)"
| "fields_typed (Field name wid rid req s # fs) (Some v # vs) = (has_type s v \<and> fields_typed fs vs)"
| "fields_typed _ _ = False"

lemma elems_typed_all: "elems_typed s vs \<longleftrightarrow> (\<forall>v\<in>set vs. has_type s v)"
  by (induction vs) auto

lemma fields_typed_all:
  "fields_typed fs vs \<longleftrightarrow>
     list_all2 (\<lambda>f x. case x of None \<Rightarrow> \<not> f_required f | Some v \<Rightarrow> has_type (f_schema f) v) fs vs"
proof (induction fs arbitrary: vs)
  case Nil
  then show ?case by (cases vs) auto
next
  case (Cons f fs)
  then show ?case by (cases f; cases vs; cases "hd vs") auto
qed

lemma default_typed:
  "has_type s (default_value s)" "fields_typed fs (default_fields fs)"
  by (induction s and fs rule: default_value_default_fields.induct) auto

section \<open>The format\<close>

fun enc_value :: "tschema \<Rightarrow> tvalue \<Rightarrow> byte list"
  and enc_elems :: "tschema \<Rightarrow> tvalue list \<Rightarrow> byte list"
  and enc_fields :: "int \<Rightarrow> tfield list \<Rightarrow> tvalue option list \<Rightarrow> byte list" where
  "enc_value SBool (VBool b) = [if b then CT_BOOLEAN_TRUE else CT_BOOLEAN_FALSE]"
| "enc_value SI16 (VI16 i) = varint (i32ToZigzag i)"
| "enc_value SI32 (VI32 i) = varint (i32ToZigzag i)"
| "enc_value SI64 (VI64 i) = varint (i64ToZigzag i)"
| "enc_value SString (VString str) = enc_binary str"
| "enc_value (SList s) (VList vs) = enc_list_header (ttype_of s) (length vs) @ enc_elems s vs"
| "enc_value (SStruct fs) (VStruct vs) = enc_fields 0 fs vs @ [0]"
| "enc_value _ _ = []"
| "enc_elems s [] = []"
| "enc_elems s (v # vs) = enc_value s v @ enc_elems s vs"
| "enc_fields prev (f # fs) (None # vs) = enc_fields prev fs vs"
| "enc_fields prev (Field name wid rid req s # fs) (Some v # vs) =
     (if s = SBool then enc_header prev wid (hd (enc_value s v))
      else enc_header prev wid (getCompactType (ttype_of s)) @ enc_value s v) @ enc_fields wid fs vs"
| "enc_fields prev _ _ = []"

text \<open>The id that the next field header is relative to.\<close>

fun last_id :: "int \<Rightarrow> tfield list \<Rightarrow> tvalue option list \<Rightarrow> int" where
  "last_id prev (f # fs) (None # vs) = last_id prev fs vs"
| "last_id prev (f # fs) (Some v # vs) = last_id (f_write_id f) fs vs"
| "last_id prev _ _ = prev"

lemma has_type_bool: "has_type SBool v \<longleftrightarrow> (\<exists>b. v = VBool b)"
  by (cases v) auto

lemma writeFieldBegin_bytes:
  "t \<noteq> T_BOOL \<Longrightarrow>
    writeFieldBegin t fid w =
      w\<lparr>w_lastFieldId := fid, w_out := w_out w @ enc_header (w_lastFieldId w) fid (getCompactType t)\<rparr>"
  by (simp add: writeFieldBegin_def writeFieldBeginInternal_bytes)

lemma bool_field_bytes:
  "w_booleanField w = None \<Longrightarrow>
    writeBool b (writeFieldBegin T_BOOL fid w) =
      w\<lparr>w_lastFieldId := fid,
        w_out := w_out w @ enc_header (w_lastFieldId w) fid (if b then CT_BOOLEAN_TRUE else CT_BOOLEAN_FALSE)\<rparr>"
  by (simp add: writeFieldBegin_def writeBool_def Let_def writeFieldBeginInternal_bytes)

lemma ttype_of_bool: "ttype_of s = T_BOOL \<longleftrightarrow> s = SBool"
  by (cases s) auto

lemma write_value_bytes:
  "has_type s v \<Longrightarrow> w_booleanField w = None \<Longrightarrow>
    write_value s v w = Some (w\<lparr>w_out := w_out w @ enc_value s v\<rparr>)"
  "elems_typed s vs \<Longrightarrow> w_booleanField w = None \<Longrightarrow>
    write_elems s vs w = Some (w\<lparr>w_out := w_out w @ enc_elems s vs\<rparr>)"
  "fields_typed fs us \<Longrightarrow> w_booleanField w = None \<Longrightarrow>
    write_fields fs us w =
      Some (w\<lparr>w_lastFieldId := last_id (w_lastFieldId w) fs us, w_out := w_out w @ enc_fields (w_lastFieldId w) fs us\<rparr>)"
proof (induction s v w and s vs w and fs us w rule: write_value_write_elems_write_fields.induct)
  case (13 name wid rid req s fs v vs w)
  let ?enc = "if s = SBool then enc_header (w_lastFieldId w) wid (hd (enc_value s v))
      else enc_header (w_lastFieldId w) wid (getCompactType (ttype_of s)) @ enc_value s v"
  have "write_value s v (writeFieldBegin (ttype_of s) wid w) = Some (w\<lparr>w_lastFieldId := wid, w_out := w_out w @ ?enc\<rparr>)"
  proof (cases "s = SBool")
    case True
    then show ?thesis using 13(3, 4) by (auto simp: has_type_bool bool_field_bytes)
  next
    case False
    then show ?thesis using 13(1, 3, 4) by (simp add: writeFieldBegin_bytes ttype_of_bool)
  qed
  with 13(2) [OF this] 13(3, 4) show ?case by simp
qed (auto simp: writeBool_def Let_def writeByte_def writeBytes_def writeI16_def writeI32_def writeI64_def writeVarint32_def
    writeVarint64_def writeBinary_bytes writeListBegin_bytes writeStructBegin_def writeStructEnd_def writeFieldStop_def)

section \<open>Reading ends\<close>

definition ends :: "nat \<Rightarrow> 'a got \<Rightarrow> bool" where
  "ends n x = (case x of Got v r \<Rightarrow> r_len r \<le> n | Fail \<Rightarrow> True | Out \<Rightarrow> False)"

lemma ends_then: "ends n x \<Longrightarrow> (\<And>v r. x = Got v r \<Longrightarrow> r_len r \<le> n \<Longrightarrow> ends n (f v r)) \<Longrightarrow> ends n (got_then x f)"
  by (cases x) (auto simp: ends_def)

lemma ends_skipped: "skips n x \<Longrightarrow> (\<And>r. x = Done r \<Longrightarrow> r_len r \<le> n \<Longrightarrow> ends n (f r)) \<Longrightarrow> ends n (skipped x f)"
  by (cases x) (auto simp: ends_def skips_def)

lemma ends_got: "(\<And>v r. x = Some (v, r) \<Longrightarrow> r_len r \<le> n) \<Longrightarrow> ends n (got f x)"
  by (cases x) (auto simp: ends_def got_def)

lemma ends_le: "ends n x \<Longrightarrow> n \<le> m \<Longrightarrow> ends m x"
  by (cases x) (auto simp: ends_def)

lemma ends_simps [simp]: "ends n (Got v r) \<longleftrightarrow> r_len r \<le> n" "ends n Fail" "\<not> ends n Out"
  by (simp_all add: ends_def)

lemma read_ends:
  "r_len r < k \<Longrightarrow> ends (r_len r) (read_value k s cur r)"
  "r_len r < k \<Longrightarrow> ends (r_len r) (read_elems k s n r)"
  "r_len r < k \<Longrightarrow> ends (r_len r) (read_fields k fs vs r)"
proof (induction k s cur r and k s n r and k fs vs r rule: read_value_read_elems_read_fields.induct)
  case (1 k s cur r)
  note ih = 1(1, 2) and len = 1(3)
  have plain: "ends (r_len r) (got f x)"
    if "\<And>v r'. x = Some (v, r') \<Longrightarrow> r_len r' \<le> r_len r" for x :: "('v \<times> cp_reader) option" and f :: "'v \<Rightarrow> tvalue"
    using that by (auto intro!: ends_got)
  show ?case
  proof (cases s)
    case (SList e)
    show ?thesis
    proof (cases "readListBegin r")
      case (Some x)
      obtain t n r' where x: "x = ((t, n), r')" by (metis surj_pair)
      then have l: "r_len r' < r_len r" using Some readListBegin_consumes by blast
      then have "ends (r_len r) (read_elems k e n r')" 
        using ih(1) [OF SList Some] len x by (intro ends_le [OF _ less_imp_le [OF l]]) simp
      then show ?thesis using SList Some x by (auto simp: read_value.simps [of k "SList e"] intro!: ends_then)
    qed (simp add: SList read_value.simps [of k "SList e"])
  next
    case (SStruct fs)
    have "ends (r_len r) (read_fields k fs (members fs cur) (readStructBegin r))"
      using ih(2) [OF SStruct] len by (simp add: readStructBegin_def)
    then show ?thesis using SStruct
      by (auto simp: read_value.simps [of k "SStruct fs"] intro!: ends_then ends_got dest: readStructEnd_len)
  qed (auto simp: read_value.simps [of k _ cur r] intro!: plain dest!: read_consumes)
next
  case (2 k s n r)
  show ?case
  proof (cases n)
    case (Suc m)
    have "ends (r_len r) (read_elems k s m ra)" if "read_value k s None r = Got v ra" "r_len ra \<le> r_len r" for v ra
      using 2(2) [OF Suc that(1)] 2(3) that(2) by (auto elim: ends_le)
    then show ?thesis using 2(1) [OF Suc 2(3)] Suc
      by (auto simp: read_elems.simps [of k s "Suc m" r] intro!: ends_then)
  qed (simp add: read_elems.simps [of k s 0 r])
next
  case (3 k fs vs r)
  show ?case
  proof (cases k)
    case (Suc j)
    show ?thesis
    proof (cases "readFieldBegin r")
      case (Some x)
      obtain t i r' where x: "x = ((t, i), r')" by (metis surj_pair)
      have l: "r_len r' < r_len r" using readFieldBegin_consumes Some x by blast
      have sk: "skips (r_len r') (skip_value j t r')" using skip_ends(1) [of r' j t] l 3(5) Suc by simp
      have skip: "ends (r_len r') (skipped (skip_value j t r') (read_fields j fs vs))"
        if "\<And>ra. skip_value j t r' = Done ra \<Longrightarrow> r_len ra < j \<Longrightarrow> ends (r_len ra) (read_fields j fs vs ra)"
        using that l 3(5) Suc by (intro ends_skipped [OF sk]) (auto elim!: ends_le)
      have "ends (r_len r') (read_fields k fs vs r)"
      proof (cases "t = T_STOP \<or> field_case i fs = None")
        case True
        have "ends (r_len r') (skipped (skip_value j t r') (read_fields j fs vs))" if "t \<noteq> T_STOP"
          by (rule skip) (use 3(1) Suc Some x True that in simp)
        with True show ?thesis using Suc Some x by (auto simp: read_fields.simps [of "Suc j"])
      next
        case False
        then obtain p s where p: "field_case i fs = Some (p, s)" by auto
        show ?thesis
        proof (cases "t = ttype_of s")
          case True
          have "ends (r_len r') (read_value j s (vs ! p) r')" using 3(2, 5) Suc Some x False p True l by simp
          moreover have "ends (r_len r') (read_fields j fs (vs[p := Some v]) ra)"
            if "read_value j s (vs ! p) r' = Got v ra" "r_len ra \<le> r_len r'" for v ra
          proof -
            have "ends (r_len ra) (read_fields j fs (vs[p := Some v]) ra)"
              using 3(3, 5) Suc Some x False p True l that by simp
            then show ?thesis using that(2) by (rule ends_le)
          qed
          ultimately have "ends (r_len r') (got_then (read_value j s (vs ! p) r') (\<lambda>v. read_fields j fs (vs[p := Some v])))"
            by (rule ends_then)
          then show ?thesis using Suc Some x False p True by (simp add: read_fields.simps [of "Suc j"])
        next
          case ne: False
          have "ends (r_len r') (skipped (skip_value j t r') (read_fields j fs vs))"
            by (rule skip) (use 3(4) Suc Some x False p ne in simp)
          then show ?thesis using Suc Some x False p ne by (simp add: read_fields.simps [of "Suc j"])
        qed
      qed
      from ends_le [OF this less_imp_le [OF l]] show ?thesis .
    qed (simp add: Suc read_fields.simps [of "Suc j"])
  qed (use 3 in simp)
qed

section \<open>What is read is well typed\<close>

lemma sint_range: "signed_range LENGTH('a) (sint (w :: 'a::len word))"
  using sint_range_size [of w] by (simp add: word_size)

lemma readI_range:
  "readI16 r = Some (i, r') \<Longrightarrow> signed_range 16 i"
  "readI32 r = Some (i, r') \<Longrightarrow> signed_range 32 i"
  "readI64 r = Some (i, r') \<Longrightarrow> signed_range 64 i"
proof -
  show "signed_range 16 i" if "readI16 r = Some (i, r')"
    using that sint_range [where 'a = 16] by (auto simp: readI16_def split: Option.bind_splits)
  show "signed_range 32 i" if "readI32 r = Some (i, r')"
    using that sint_range [where 'a = 32] unfolding readI32_def zigzagToI32_def by (auto split: Option.bind_splits)
  show "signed_range 64 i" if "readI64 r = Some (i, r')"
    using that sint_range [where 'a = 64] unfolding readI64_def zigzagToI64_def by (auto split: Option.bind_splits)
qed

lemma sint_nonneg_unat: "\<not> sint (n :: u32) < 0 \<Longrightarrow> unat n < 2 ^ 31"
proof -
  assume "\<not> sint n < 0"
  then have "uint n = sint n" using sint_range [of n] by (simp add: uint_sint take_bit_int_eq_self)
  then show ?thesis using sint_range [of n] by (simp add: unat_eq_nat_uint, arith)
qed

lemma readBinary_length: "readBinary r = Some (bs, r') \<Longrightarrow> length bs < 2 ^ 31"
  by (auto simp: readBinary_def readAll_def intro!: sint_nonneg_unat [simplified] split: Option.bind_splits if_splits)

lemma readListBegin_size: "readListBegin r = Some ((t, n), r') \<Longrightarrow> n < 2 ^ 31"
  by (auto simp: readListBegin_def Let_def simp del: not_less intro!: sint_nonneg_unat [simplified] split: Option.bind_splits if_splits)

lemma got_eq: "got f x = Got v r \<longleftrightarrow> (\<exists>u. x = Some (u, r) \<and> v = f u)"
  by (auto simp: got_def split: option.splits)

lemma got_then_eq: "got_then x f = Got v r \<longleftrightarrow> (\<exists>u r'. x = Got u r' \<and> f u r' = Got v r)"
  by (cases x) auto

lemma skipped_eq: "skipped x f = Got v r \<longleftrightarrow> (\<exists>r'. x = Done r' \<and> f r' = Got v r)"
  by (cases x) auto

lemma field_case_schema: "field_case i fs = Some (p, s) \<Longrightarrow> p < length fs \<and> f_schema (fs ! p) = s"
  by (induction i fs arbitrary: p rule: field_case.induct) (auto split: if_splits)

lemma fields_typed_nth: "fields_typed fs vs \<Longrightarrow> p < length fs \<Longrightarrow> vs ! p = Some v \<Longrightarrow> has_type (f_schema (fs ! p)) v"
  by (auto simp: fields_typed_all list_all2_conv_all_nth)

lemma fields_typed_update:
  "fields_typed fs vs \<Longrightarrow> p < length fs \<Longrightarrow> has_type (f_schema (fs ! p)) v \<Longrightarrow> fields_typed fs (vs[p := Some v])"
  by (auto simp: fields_typed_all list_all2_conv_all_nth nth_list_update)

lemma members_typed: "(\<And>c. cur = Some c \<Longrightarrow> has_type (SStruct fs) c) \<Longrightarrow> fields_typed fs (members fs cur)"
  by (auto simp: members_def default_typed split: option.splits tvalue.splits)

lemma read_typed:
  "read_value k s cur r = Got v r' \<Longrightarrow> (\<And>c. cur = Some c \<Longrightarrow> has_type s c) \<Longrightarrow> has_type s v"
  "read_elems k s n r = Got us r' \<Longrightarrow> length us = n \<and> elems_typed s us"
  "read_fields k fs vs r = Got ws r' \<Longrightarrow> fields_typed fs vs \<Longrightarrow> fields_typed fs ws"
proof (induction k s cur r and k s n r and k fs vs r arbitrary: v r' and us r' and ws r'
    rule: read_value_read_elems_read_fields.induct)
  case (1 k s cur r)
  show ?case
  proof (cases s)
    case (SList e)
    then obtain t n q us where q: "readListBegin r = Some ((t, n), q)" "read_elems k e n q = Got us r'" "v = VList us"
      using 1(3) by (auto simp: read_value.simps [of k _ cur r] got_then_eq split: option.splits)
    then show ?thesis using 1(1) [OF SList q(1) refl refl q(2)] SList readListBegin_size by auto
  next
    case (SStruct fs)
    then obtain us q where q: "read_fields k fs (members fs cur) (readStructBegin r) = Got us q" "v = VStruct us"
      using 1(3) by (auto simp: read_value.simps [of k _ cur r] got_then_eq got_eq)
    then show ?thesis using 1(2) [OF SStruct q(1)] 1(4) SStruct members_typed by auto
  qed (use 1(3) in \<open>auto simp: read_value.simps [of k _ cur r] got_eq dest: readI_range readBinary_length\<close>)
next
  case (2 k s n r)
  show ?case
  proof (cases n)
    case (Suc m)
    then obtain x q xs where q: "read_value k s None r = Got x q" "read_elems k s m q = Got xs r'" "us = x # xs"
      using 2(3) by (auto simp: read_elems.simps [of k s _ r] got_then_eq)
    then show ?thesis using 2(1) [OF Suc q(1)] 2(2) [OF Suc q(1, 2)] Suc by simp
  qed (use 2(3) in \<open>simp add: read_elems.simps [of k s _ r]\<close>)
next
  case (3 k fs vs r)
  obtain j t i q where q: "k = Suc j" "readFieldBegin r = Some ((t, i), q)"
    using 3(5) by (auto simp: read_fields.simps [of _ fs vs r] split: nat.splits option.splits)
  consider "t = T_STOP" "ws = vs"
    | p s x q' where "t \<noteq> T_STOP" "field_case i fs = Some (p, s)" "t = ttype_of s" "read_value j s (vs ! p) q = Got x q'"
        "read_fields j fs (vs[p := Some x]) q' = Got ws r'"
    | p s q' where "t \<noteq> T_STOP" "field_case i fs = Some (p, s)" "t \<noteq> ttype_of s" "skip_value j t q = Done q'"
        "read_fields j fs vs q' = Got ws r'"
    | q' where "t \<noteq> T_STOP" "field_case i fs = None" "skip_value j t q = Done q'" "read_fields j fs vs q' = Got ws r'"
    using 3(5) q by (auto simp: read_fields.simps [of _ fs vs r] got_then_eq skipped_eq split: if_splits option.splits)
  then show ?case
  proof cases
    case (2 p s x q')
    have "has_type s x"
      using "3.IH"(2) [OF _ q(1) _ _ _ 2(1, 2) refl 2(3, 4)] q(2) fields_typed_nth [OF 3(6)] field_case_schema [OF 2(2)] by auto
    then show ?thesis using "3.IH"(3) [OF _ q(1) _ _ _ 2(1, 2) refl 2(3-5)] q(2) field_case_schema [OF 2(2)] fields_typed_update [OF 3(6)]
      by auto
  qed (use 3 q in auto)
qed

end
