(* ===== verification/Report_Roundtrip.thy ===== *)
theory Report_Roundtrip
  imports Report_Laws
begin

text \<open>
  Writing a report and reading it back.  \<open>read_back\<close> is the value that the reader gets; the written fields land one after
  the other where the \<open>switch\<close> over their ids puts them.
\<close>

section \<open>What the reader gets\<close>

definition untouched :: "tschema \<Rightarrow> tvalue option \<Rightarrow> bool" where
  "untouched s cur = (case s of SStruct fs \<Rightarrow> cur = None \<or> cur = Some (default_value s) | _ \<Rightarrow> True)"

fun read_back :: "tschema \<Rightarrow> tvalue \<Rightarrow> tvalue option"
  and read_back_all :: "tschema \<Rightarrow> tvalue list \<Rightarrow> tvalue list option"
  and lands :: "tfield list \<Rightarrow> tvalue option list \<Rightarrow> tfield list \<Rightarrow> tvalue option list \<Rightarrow> tvalue option list option" where
  "read_back (SList s) (VList vs) = map_option VList (read_back_all s vs)"
| "read_back (SStruct fs) (VStruct vs) = map_option VStruct (lands fs (default_fields fs) fs vs)"
| "read_back s v = Some v"
| "read_back_all s [] = Some []"
| "read_back_all s (v # vs) = do { v \<leftarrow> read_back s v; vs \<leftarrow> read_back_all s vs; Some (v # vs) }"
| "lands fs cur (f # gs) (None # vs) = lands fs cur gs vs"
| "lands fs cur (Field name wid rid req s # gs) (Some v # vs) =
     do { (i, s') \<leftarrow> field_case wid fs;
          v \<leftarrow> read_back s v;
          if s' = s \<and> untouched s (cur ! i) \<and> signed_range 16 wid then lands fs (cur[i := Some v]) gs vs else None }"
| "lands fs cur _ _ = Some cur"

lemma readStructEnd_begin:
  "readStructEnd (readStructBegin r\<lparr>r_in := a, r_lastFieldId := b\<rparr>) = Some (r\<lparr>r_in := a\<rparr>)"
  by (simp add: readStructEnd_def readStructBegin_def)

lemma members_untouched: "untouched (SStruct fs) cur \<Longrightarrow> members fs cur = default_fields fs"
  by (auto simp: untouched_def members_def split: option.splits)

lemma readFieldBegin_stop:
  "r_in r = 0 # rest \<Longrightarrow> readFieldBegin r = Some ((T_STOP, 0), r\<lparr>r_in := rest\<rparr>)"
  by (simp add: readFieldBegin_def readByte_def)

lemma bool_types:
  "getTType CT_BOOLEAN_TRUE = Some T_BOOL" "getTType CT_BOOLEAN_FALSE = Some T_BOOL"
  "unat CT_BOOLEAN_TRUE < 16" "unat CT_BOOLEAN_FALSE < 16" "CT_BOOLEAN_TRUE \<noteq> 0" "CT_BOOLEAN_FALSE \<noteq> 0"
  "CT_BOOLEAN_FALSE \<noteq> CT_BOOLEAN_TRUE"
  by (simp_all add: getTType_def CT_BOOLEAN_TRUE_def CT_BOOLEAN_FALSE_def)

lemma ttype_of_plain: "ttype_of s \<noteq> T_STOP"
  by (cases s) auto

text \<open>One field: its header and its value, the two being one for a boolean.\<close>

definition enc_field :: "int \<Rightarrow> int \<Rightarrow> tschema \<Rightarrow> tvalue \<Rightarrow> byte list" where
  "enc_field prev wid s v =
     (if s = SBool then enc_header prev wid (hd (enc_value s v))
      else enc_header prev wid (getCompactType (ttype_of s)) @ enc_value s v)"

lemma read_field_bytes:
  assumes "has_type s v" "signed_range 16 wid" "r_boolValue r = None"
    and r: "r_in r = enc_field (r_lastFieldId r) wid s v @ rest"
    and field: "field_case wid fs = Some (i, s)" and k: "k = Suc j"
    and nested: "\<And>r rest. r_boolValue r = None \<Longrightarrow> r_in r = enc_value s v @ rest \<Longrightarrow>
      read_value j s (vs ! i) r = Got v' (r\<lparr>r_in := rest\<rparr>)"
    and bool: "s = SBool \<Longrightarrow> v' = v"
  shows "read_fields k fs vs r = read_fields j fs (vs[i := Some v']) (r\<lparr>r_in := rest, r_lastFieldId := wid\<rparr>)"
proof (cases "s = SBool")
  case True
  then obtain b where b: "v = VBool b" using assms(1) by (auto simp: has_type_bool)
  let ?ct = "if b then CT_BOOLEAN_TRUE else CT_BOOLEAN_FALSE"
  have "r_in r = enc_header (r_lastFieldId r) wid ?ct @ rest" using r True b by (simp add: enc_field_def)
  then have "readFieldBegin r = Some ((T_BOOL, wid), header_bool ?ct (r\<lparr>r_in := rest, r_lastFieldId := wid\<rparr>))"
    using assms(2) by (intro readFieldBegin_bytes) (simp_all add: bool_types)
  moreover have "read_value j SBool cur (header_bool ?ct q) = Got (VBool b) q" if "r_boolValue q = None" for cur q
    using that bool_types(7) by (simp add: read_value.simps [of j SBool] readBool_def header_bool_def got_def)
  ultimately show ?thesis using True b bool k field assms(3) by (simp add: read_fields.simps [of "Suc j" fs vs r])
next
  case False
  let ?ct = "getCompactType (ttype_of s)"
  have ct: "?ct \<noteq> 0" "header_bool ?ct q = q" for q
    using compact_type_plain [OF ttype_of_plain [of s]] False by (auto simp: ttype_of_bool header_bool_def)
  have "r_in r = enc_header (r_lastFieldId r) wid ?ct @ enc_value s v @ rest" using r False by (simp add: enc_field_def)
  then have "readFieldBegin r = Some ((ttype_of s, wid), header_bool ?ct (r\<lparr>r_in := enc_value s v @ rest, r_lastFieldId := wid\<rparr>))"
    using assms(2) ct by (intro readFieldBegin_bytes) (simp_all add: compact_type_nibble)
  moreover have "read_value j s (vs ! i) (r\<lparr>r_in := enc_value s v @ rest, r_lastFieldId := wid\<rparr>) =
      Got v' (r\<lparr>r_in := rest, r_lastFieldId := wid\<rparr>)"
    using nested [of "r\<lparr>r_in := enc_value s v @ rest, r_lastFieldId := wid\<rparr>" rest] assms(3) by simp
  ultimately show ?thesis using k field ct ttype_of_plain [of s]
    by (simp add: read_fields.simps [of "Suc j" fs vs r])
qed

lemma enc_fields_step:
  "enc_fields prev (Field name wid rid req s # fs) (Some v # vs) = enc_field prev wid s v @ enc_fields wid fs vs"
  by (simp add: enc_field_def)

lemma enc_field_length:
  assumes "has_type s v"
  shows "length (enc_value s v) \<le> length (enc_field prev wid s v)" "0 < length (enc_field prev wid s v)"
proof -
  have "0 < length (enc_header prev wid ct)" for ct using enc_header_nonempty [of prev wid ct] by auto
  then have "Suc 0 \<le> length (enc_header prev wid ct)" for ct by (simp add: Suc_le_eq)
  then show "length (enc_value s v) \<le> length (enc_field prev wid s v)"
    using assms by (cases "s = SBool") (auto simp: enc_field_def has_type_bool)
qed (simp add: enc_field_def)

lemma read_prim:
  assumes "has_type s v" "\<And>e. s \<noteq> SList e" "\<And>fs. s \<noteq> SStruct fs" "r_boolValue r = None" "r_in r = enc_value s v @ rest"
  shows "read_value k s cur r = Got v (r\<lparr>r_in := rest\<rparr>)"
  using assms
  by (cases s; cases v)
    (auto simp: read_value.simps [of k _ cur r] got_def readBool_def readByte_def bool_types
      readI16_zigzag readI32_zigzag readI64_zigzag readBinary_bytes)

lemma read_prim_value:
  assumes "has_type s v" "\<And>us. v \<noteq> VList us" "\<And>us. v \<noteq> VStruct us" "r_boolValue r = None" "r_in r = enc_value s v @ rest"
  shows "read_value k s cur r = Got v (r\<lparr>r_in := rest\<rparr>)"
proof (rule read_prim [OF assms(1) _ _ assms(4, 5)])
  show "s \<noteq> SList e" for e using assms(1, 2) by (cases v) auto
  show "s \<noteq> SStruct fs" for fs using assms(1, 3) by (cases v) auto
qed

lemma read_stop: "0 < k \<Longrightarrow> r_in r = 0 # rest \<Longrightarrow> read_fields k fs vs r = Got vs (r\<lparr>r_in := rest\<rparr>)"
  by (cases k) (simp_all add: read_fields.simps [of _ fs vs r] readFieldBegin_stop)

lemma read_enc:
  "has_type s v \<Longrightarrow> read_back s v = Some v' \<Longrightarrow> untouched s cur \<Longrightarrow> length (enc_value s v) < k \<Longrightarrow> r_boolValue r = None \<Longrightarrow>
    r_in r = enc_value s v @ rest \<Longrightarrow> read_value k s cur r = Got v' (r\<lparr>r_in := rest\<rparr>)"
  "elems_typed s us \<Longrightarrow> read_back_all s us = Some us' \<Longrightarrow> length (enc_elems s us) < k \<Longrightarrow> r_boolValue r = None \<Longrightarrow>
    r_in r = enc_elems s us @ rest \<Longrightarrow> read_elems k s (length us) r = Got us' (r\<lparr>r_in := rest\<rparr>)"
  "fields_typed gs ws \<Longrightarrow> lands fs vs gs ws = Some vs' \<Longrightarrow> length (enc_fields (r_lastFieldId r) gs ws) + 1 < k \<Longrightarrow>
    r_boolValue r = None \<Longrightarrow> r_in r = enc_fields (r_lastFieldId r) gs ws @ 0 # rest \<Longrightarrow>
    read_fields k fs vs r = Got vs' (r\<lparr>r_in := rest, r_lastFieldId := last_id (r_lastFieldId r) gs ws\<rparr>)"
proof (induction s v and s us and fs vs gs ws arbitrary: v' cur k r rest and us' k r rest and vs' k r rest
    rule: read_back_read_back_all_lands.induct)
  case (1 s vs)
  obtain us where us: "read_back_all s vs = Some us" "v' = VList us" using 1(3) by auto
  have len: "length (enc_elems s vs) < k" "length vs < 2 ^ 31" "elems_typed s vs" using 1(2, 5) by simp_all
  have "readListBegin r = Some ((ttype_of s, length vs), r\<lparr>r_in := enc_elems s vs @ rest\<rparr>)"
    using readListBegin_bytes [OF len(2), of r "ttype_of s" "enc_elems s vs @ rest"] 1(7) by simp
  moreover have "read_elems k s (length vs) (r\<lparr>r_in := enc_elems s vs @ rest\<rparr>) = Got us (r\<lparr>r_in := rest\<rparr>)"
    using 1(1) [OF len(3) us(1) len(1), of "r\<lparr>r_in := enc_elems s vs @ rest\<rparr>" rest] 1(6) by simp
  ultimately show ?case using us by (simp add: read_value.simps [of k "SList s"])
next
  case (2 fs vs)
  obtain us where us: "lands fs (default_fields fs) fs vs = Some us" "v' = VStruct us" using 2(3) by auto
  let ?q = "readStructBegin r"
  have q: "r_boolValue ?q = None" "r_in ?q = enc_fields 0 fs vs @ 0 # rest" "r_lastFieldId ?q = 0"
    using 2(6, 7) by (simp_all add: readStructBegin_def)
  have "read_fields k fs (default_fields fs) ?q = Got us (?q\<lparr>r_in := rest, r_lastFieldId := last_id 0 fs vs\<rparr>)"
    using 2(1) [OF _ us(1), of ?q k rest] 2(2, 5) q by simp
  then show ?case using us members_untouched [OF 2(4)]
    by (simp add: read_value.simps [of k "SStruct fs"] readStructEnd_begin got_def)
next
  case (5 s v vs)
  obtain u us where us: "read_back s v = Some u" "read_back_all s vs = Some us" "us' = u # us"
    using 5(4) by (auto split: Option.bind_splits)
  have "read_value k s None r = Got u (r\<lparr>r_in := enc_elems s vs @ rest\<rparr>)"
    using 5(1) [OF _ us(1), of None k r "enc_elems s vs @ rest"] 5(3, 5-7) by (simp add: untouched_def split: tschema.splits)
  moreover have "read_elems k s (length vs) (r\<lparr>r_in := enc_elems s vs @ rest\<rparr>) = Got us (r\<lparr>r_in := rest\<rparr>)"
    using 5(2) [OF us(1) _ us(2), of k "r\<lparr>r_in := enc_elems s vs @ rest\<rparr>" rest] 5(3, 5-7) by simp
  ultimately show ?case using us(3) by (simp add: read_elems.simps [of k s "Suc (length vs)" r])
next
  case (7 fs cur name wid rid req s gs v vs)
  obtain i u where i: "field_case wid fs = Some (i, s)" "read_back s v = Some u" "untouched s (cur ! i)" "signed_range 16 wid"
    "lands fs (cur[i := Some u]) gs vs = Some vs'"
    using "7.prems"(2) by (auto split: Option.bind_splits if_splits)
  obtain j where k: "k = Suc j" using "7.prems"(3) by (cases k) auto
  have t: "has_type s v" "fields_typed gs vs" using "7.prems"(1) by simp_all
  have enc: "enc_fields (r_lastFieldId r) (Field name wid rid req s # gs) (Some v # vs) =
      enc_field (r_lastFieldId r) wid s v @ enc_fields wid gs vs" by (rule enc_fields_step)
  have len: "length (enc_value s v) < j" "length (enc_fields wid gs vs) + 1 < j"
    using "7.prems"(3) enc_field_length [OF t(1), of "r_lastFieldId r" wid] unfolding enc k length_append by linarith+
  let ?q = "r\<lparr>r_in := enc_fields wid gs vs @ 0 # rest, r_lastFieldId := wid\<rparr>"
  have "read_fields k fs cur r = read_fields j fs (cur[i := Some u]) ?q"
  proof (rule read_field_bytes [OF t(1) i(4) "7.prems"(4) _ i(1) k])
    show "r_in r = enc_field (r_lastFieldId r) wid s v @ enc_fields wid gs vs @ 0 # rest"
      using "7.prems"(5) unfolding enc by simp
    show "read_value j s (cur ! i) q = Got u (q\<lparr>r_in := rest'\<rparr>)"
      if "r_boolValue q = None" "r_in q = enc_value s v @ rest'" for q rest'
      using "7.IH"(1) [OF i(1) refl t(1) i(2, 3) len(1) that] .
    show "u = v" if "s = SBool" using i(2) that by simp
  qed
  also have "\<dots> = Got vs' (r\<lparr>r_in := rest, r_lastFieldId := last_id wid gs vs\<rparr>)"
    using "7.IH"(2) [OF i(1) refl i(2) _ t(2) i(5), of ?q j rest] i(3, 4) len(2) "7.prems"(4) by simp
  finally show ?case by simp
qed (auto simp: read_prim read_prim_value read_stop read_elems.simps [of _ _ 0])

section \<open>Classes whose ids agree\<close>

fun ids_agree :: "tschema \<Rightarrow> bool" and fields_agree :: "tfield list \<Rightarrow> bool" where
  "ids_agree (SList s) = ids_agree s"
| "ids_agree (SStruct fs) = (distinct (map f_read_id fs) \<and> fields_agree fs)"
| "ids_agree s = True"
| "fields_agree [] = True"
| "fields_agree (Field name wid rid req s # fs) = (wid = rid \<and> signed_range 16 wid \<and> ids_agree s \<and> fields_agree fs)"

text \<open>The same for the fields that an object has set.\<close>

fun clean :: "tschema \<Rightarrow> tvalue \<Rightarrow> bool"
  and clean_elems :: "tschema \<Rightarrow> tvalue list \<Rightarrow> bool"
  and clean_fields :: "tfield list \<Rightarrow> tvalue option list \<Rightarrow> bool" where
  "clean (SList s) (VList vs) = clean_elems s vs"
| "clean (SStruct fs) (VStruct vs) = (distinct (map f_read_id fs) \<and> clean_fields fs vs)"
| "clean s v = True"
| "clean_elems s [] = True"
| "clean_elems s (v # vs) = (clean s v \<and> clean_elems s vs)"
| "clean_fields (f # fs) (None # vs) = clean_fields fs vs"
| "clean_fields (Field name wid rid req s # fs) (Some v # vs) =
     (wid = rid \<and> signed_range 16 wid \<and> clean s v \<and> clean_fields fs vs)"
| "clean_fields _ _ = True"

lemma field_case_append:
  "fid \<notin> set (map f_read_id pre) \<Longrightarrow>
    field_case fid (pre @ Field name wid fid req s # fs) = Some (length pre, s)"
proof (induction pre)
  case (Cons f pre)
  then show ?case by (cases f) auto
qed simp

lemma untouched_default: "untouched s (if req then Some (default_value s) else None)"
  by (simp add: untouched_def split: tschema.splits)

lemma read_back_clean:
  "has_type s v \<Longrightarrow> clean s v \<Longrightarrow> read_back s v = Some v"
  "elems_typed s us \<Longrightarrow> clean_elems s us \<Longrightarrow> read_back_all s us = Some us"
  "fields_typed gs ws \<Longrightarrow> clean_fields gs ws \<Longrightarrow> fs = pre @ gs \<Longrightarrow> distinct (map f_read_id fs) \<Longrightarrow> length done = length pre \<Longrightarrow>
    lands fs (done @ default_fields gs) gs ws = Some (done @ ws)"
proof (induction s v and s us and gs ws arbitrary: and and fs pre "done" rule: has_type_elems_typed_fields_typed.induct)
  case (7 fs vs)
  then show ?case using 7(1) [of fs "[]" "[]"] by simp
next
  case (12 f gs vs)
  then show ?case using "12.IH" [of fs "pre @ [f]" "done @ [None]"] by (cases f) simp
next
  case (13 name wid rid req s gs v vs)
  have "field_case wid fs = Some (length pre, s)" "signed_range 16 wid" "read_back s v = Some v"
    using "13.prems" "13.IH"(1) field_case_append [of wid pre name wid req s gs] by auto
  moreover have "lands fs ((done @ [Some v]) @ default_fields gs) gs vs = Some ((done @ [Some v]) @ vs)"
    using "13.prems" by (intro "13.IH"(2) [where pre = "pre @ [Field name wid rid req s]"]) simp_all
  ultimately show ?case using "13.prems"(5) untouched_default [of s req]
    by (simp add: nth_append list_update_append)
qed auto

lemma agree_clean:
  "ids_agree s \<Longrightarrow> has_type s v \<Longrightarrow> clean s v"
  "ids_agree s \<Longrightarrow> elems_typed s us \<Longrightarrow> clean_elems s us"
  "fields_agree gs \<Longrightarrow> fields_typed gs ws \<Longrightarrow> clean_fields gs ws"
proof (induction s v and s us and gs ws rule: has_type_elems_typed_fields_typed.induct)
  case (12 f gs vs)
  then show ?case by (cases f) simp
qed auto

lemma classes_agree:
  "ids_agree EncryptedItem" "ids_agree VosdkHeader" "ids_agree VosdkCounterItem" "ids_agree VosdkCounter"
  "ids_agree VosdkSession" "ids_agree VosdkVocs" "ids_agree VosdkVos" "ids_agree VosdkWebQuit"
  "ids_agree WrtcBrowser2Gateway" "ids_agree WrtcBrowser2Browser" "ids_agree WrtcProfile" "ids_agree WrtcPubStream"
  "ids_agree WrtcUnpubStream" "ids_agree WrtcSubStream" "ids_agree WrtcUnsubStream" "ids_agree WrtcEventsSequenceItem"
  "ids_agree WrtcEventsSequence" "ids_agree WrtcReceiverReport" "ids_agree WrtcGateway2Browser" "ids_agree WrtcStreamControl"
  "\<not> ids_agree WrtcConnectProxyTurnWorker"
  by code_simp+

section \<open>Reports as bytes\<close>

text \<open>An object written into a new memory buffer, and read from one.\<close>

definition serialize :: "tschema \<Rightarrow> tvalue \<Rightarrow> byte list option" where
  "serialize s v = map_option w_out (write_value s v writer_new)"

definition deserialize :: "tschema \<Rightarrow> byte list \<Rightarrow> tvalue got" where
  "deserialize s bs = read_value (Suc (length bs)) s None (reader_new bs)"

fun get_field :: "string \<Rightarrow> tschema \<Rightarrow> tvalue \<Rightarrow> tvalue option" where
  "get_field name (SStruct fs) (VStruct vs) = (case field_index name fs of Some i \<Rightarrow> vs ! i | None \<Rightarrow> None)"
| "get_field name s v = None"

lemma untouched_None: "untouched s None"
  by (simp add: untouched_def split: tschema.splits)

lemma serialize_bytes: "has_type s v \<Longrightarrow> serialize s v = Some (enc_value s v)"
  by (simp add: serialize_def write_value_bytes writer_new_def)

lemma deserialize_enc:
  "has_type s v \<Longrightarrow> read_back s v = Some v' \<Longrightarrow> deserialize s (enc_value s v) = Got v' (reader_new [])"
  using read_enc(1) [of s v v' None "Suc (length (enc_value s v))" "reader_new (enc_value s v)" "[]"] untouched_None [of s]
  by (simp add: deserialize_def reader_new_def)

lemma serialize_deserialize:
  "has_type s v \<Longrightarrow> read_back s v = Some v' \<Longrightarrow>
    \<exists>bs. serialize s v = Some bs \<and> deserialize s bs = Got v' (reader_new [])"
  using serialize_bytes deserialize_enc by blast

definition report_fields :: "tfield list" where
  "report_fields = (case ReportItem of SStruct fs \<Rightarrow> fs | _ \<Rightarrow> [])"

lemma ReportItem_fields: "ReportItem = SStruct report_fields"
  by (simp add: report_fields_def ReportItem_def)

lemma report_fields_split:
  "report_fields = butlast report_fields @ [optional ''wrtcConnectProxyTurnWorker'' 2026 2026 WrtcConnectProxyTurnWorker]"
  "length report_fields = 21" "fields_agree (butlast report_fields)" "distinct (map f_read_id report_fields)"
  "field_index ''wrtcConnectProxyTurnWorker'' report_fields = Some 20"
  by code_simp+

lemma clean_fields_append:
  "fields_agree fs \<Longrightarrow> fields_typed (fs @ [f]) vs \<Longrightarrow> last vs = None \<Longrightarrow> clean_fields (fs @ [f]) vs"
proof (induction fs arbitrary: vs)
  case Nil
  then show ?case by (cases vs; cases "hd vs"; cases "tl vs") (auto simp: fields_typed_all)
next
  case (Cons g fs)
  obtain v us where vs: "vs = v # us" using Cons.prems(2) by (cases vs) (auto simp: fields_typed_all)
  then have "us \<noteq> []" using Cons.prems(2) by (auto simp: fields_typed_all)
  then show ?case using Cons vs agree_clean(1) by (cases g; cases v) auto
qed

lemma report_roundtrip_bytes:
  assumes "has_type ReportItem v" "get_field ''wrtcConnectProxyTurnWorker'' ReportItem v = None"
  shows "deserialize ReportItem (enc_value ReportItem v) = Got v (reader_new [])"
proof -
  obtain vs where v: "v = VStruct vs" "fields_typed report_fields vs"
    using assms(1) unfolding ReportItem_fields by (cases v) auto
  then have "length vs = 21" using report_fields_split(2) by (auto simp: fields_typed_all list_all2_lengthD)
  then have "last vs = None"
    using assms(2) unfolding v ReportItem_fields by (cases "vs = []") (simp_all add: last_conv_nth report_fields_split(5))
  then have "clean_fields report_fields vs"
    using v(2) clean_fields_append [OF report_fields_split(3)] report_fields_split(1) by metis
  then show ?thesis
    using assms(1) read_back_clean(1) [OF assms(1)] report_fields_split(4) unfolding v ReportItem_fields
    by (intro deserialize_enc) simp_all
qed

text \<open>C10. 
  C1. A report that is written and read again is the same report: every class of the reports, with any of its
  fields set, nested as they are, lists and all, comes back as it was.  The one class that does not is
  \<open>WrtcConnectProxyTurnWorker\<close> (\<open>connect_report_garbled\<close>).
\<close>

theorem report_roundtrip:
  assumes "has_type ReportItem v" "get_field ''wrtcConnectProxyTurnWorker'' ReportItem v = None"
  shows "\<exists>bs. serialize ReportItem v = Some bs \<and> deserialize ReportItem bs = Got v (reader_new [])"
  using serialize_bytes [OF assms(1)] report_roundtrip_bytes [OF assms] by blast

definition sample_report :: tvalue where
  "sample_report = VStruct [Some (VI32 1029), None, None, None, None, None,
     Some (VStruct [Some (VStruct [Some (VString [104, 105]), None, Some (VI64 (- 5)), None, None, None, Some (VBool True), None, None]),
       Some (VI32 0)]),
     None, None, None, None, None, None, None, None, None, None, None, None, None, None]"

lemma sample_report_typed:
  "has_type ReportItem sample_report" "get_field ''wrtcConnectProxyTurnWorker'' ReportItem sample_report = None"
proof -
  show "has_type ReportItem sample_report"
    by (simp add: sample_report_def ReportItem_def optional_def required_def VosdkWebQuit_def VosdkHeader_def)
  show "get_field ''wrtcConnectProxyTurnWorker'' ReportItem sample_report = None"
    unfolding ReportItem_fields by (simp add: sample_report_def report_fields_split(5))
qed

theorem report_roundtrip_witness:
  "\<exists>bs. serialize ReportItem sample_report = Some bs \<and> deserialize ReportItem bs = Got sample_report (reader_new [])"
  by (rule report_roundtrip [OF sample_report_typed])

text \<open>
  \<open>WrtcConnectProxyTurnWorker::write\<close> puts out the number of users, the incoming and the outgoing traffic under one id (3), and
  the address of the client and the extension under another (2), while \<open>read\<close> expects them under ids of their own.
\<close>

lemma connect_report_garbled:
  assumes "has_type VosdkHeader h" "length a < 2 ^ 31" "signed_range 64 u" "signed_range 64 i" "signed_range 64 e"
    "length x < 2 ^ 31"
  shows "\<exists>bs. serialize WrtcConnectProxyTurnWorker
        (VStruct [Some h, Some (VString a), Some (VI64 u), Some (VI64 i), Some (VI64 e), Some (VString x)]) = Some bs
      \<and> deserialize WrtcConnectProxyTurnWorker bs =
          Got (VStruct [Some h, Some (VString x), Some (VI64 e), None, None, None]) (reader_new [])"
proof (rule serialize_deserialize)
  have "read_back VosdkHeader h = Some h"
    using read_back_clean(1) [OF assms(1) agree_clean(1) [OF classes_agree(2) assms(1)]] .
  then show "read_back WrtcConnectProxyTurnWorker
      (VStruct [Some h, Some (VString a), Some (VI64 u), Some (VI64 i), Some (VI64 e), Some (VString x)]) =
    Some (VStruct [Some h, Some (VString x), Some (VI64 e), None, None, None])"
    by (simp add: WrtcConnectProxyTurnWorker_def optional_def untouched_None) (simp add: untouched_def)
qed (use assms in \<open>simp add: WrtcConnectProxyTurnWorker_def optional_def\<close>)


lemma read_varint_ten: "j < 10 \<Longrightarrow> read_varint j val bs = Some (v, rest) \<Longrightarrow> length bs + j \<le> length rest + 10"
  by (induction j val bs rule: read_varint.induct) (auto simp: Let_def split: if_splits)

text \<open>
  C4. The varints fit the buffers of \<open>writeVarint32\<close> and \<open>writeVarint64\<close>, 5 and 10 bytes, and the loop of the
  reader takes at most ten bytes.
\<close>

theorem varint_bounds:
  "length (varint (n :: u32)) \<le> 5 \<and> length (varint (m :: u64)) \<le> 10
   \<and> (case read_varint 0 0 bs of None \<Rightarrow> True | Some (v, rest) \<Rightarrow> length bs \<le> length rest + 10)"
  using varint_length_32 varint_length_64 read_varint_ten [of 0 0 bs] by (simp split: option.splits prod.splits)

end
