(* ===== verification/Worker_Socket.thy ===== *)
theory Worker_Socket
  imports Protocols Address_Types "HOL-Library.Multiset"
begin

text \<open>
  \<open>WorkerTCPSocket\<close> (src/turnserver/turnserver_main.cc): the socket of the worker and of
  the edge connections.  Its base class \<open>AsyncTCPSocketBase\<close>, \<open>rtc::Thread\<close>, the clock
  and the TURN server belong to WebRTC and are not part of the repository.  They
  are the operations of the record \<open>rtc_env\<close> on a state of the outside world of any
  type; what the code relies on of them are the assumptions of the locales
  \<open>async_tcp\<close> and \<open>rtc_thread\<close>.
\<close>

section \<open>The environment\<close>

text \<open>A socket is named by its address in memory; \<open>rtc::SocketAddress\<close> is an IP in host order and a port.\<close>

type_synonym sock = nat
type_synonym rtc_addr = "u32 \<times> u16"

datatype tcp_state = STATE_CLOSED | STATE_BINDING | STATE_BOUND | STATE_CONNECTING | STATE_CONNECTED

datatype message_id = MSG_WORKER_ONTIMER | MSG_BANDWIDTH_GET | MSG_ELBS_ONTIMER | MSG_ARGUS_ONTIMER | MSG_LOG_ONTIMER

text \<open>The handlers that are connected to the signals of a socket.\<close>

datatype slots = WorkerSlots | ElbsSlots | ArgusSlots

record 'w rtc_env =
  CreateAsyncSocket :: "'w \<Rightarrow> sock \<times> 'w"
  ConnectSocket :: "sock \<Rightarrow> rtc_addr \<Rightarrow> rtc_addr \<Rightarrow> 'w \<Rightarrow> bool \<times> 'w"
  ConnectSignals :: "slots \<Rightarrow> sock \<Rightarrow> 'w \<Rightarrow> 'w"
  GetState :: "sock \<Rightarrow> 'w \<Rightarrow> tcp_state"
  GetLocalAddress :: "sock \<Rightarrow> 'w \<Rightarrow> rtc_addr"
  GetRemoteAddress :: "sock \<Rightarrow> 'w \<Rightarrow> rtc_addr"
  Connect_again :: "sock \<Rightarrow> rtc_addr \<Rightarrow> 'w \<Rightarrow> int \<times> 'w"
  CloseSocket :: "sock \<Rightarrow> 'w \<Rightarrow> 'w"
  IsOutBufferEmpty :: "sock \<Rightarrow> 'w \<Rightarrow> bool"
  AppendToOutBuffer :: "sock \<Rightarrow> byte list \<Rightarrow> 'w \<Rightarrow> 'w"
  FlushOutBuffer :: "sock \<Rightarrow> 'w \<Rightarrow> int \<times> 'w"
  ClearOutBuffer :: "sock \<Rightarrow> 'w \<Rightarrow> 'w"
  SetError :: "sock \<Rightarrow> int \<Rightarrow> 'w \<Rightarrow> 'w"
  SignalSentPacket :: "sock \<Rightarrow> 'w \<Rightarrow> 'w"
  PostDelayed :: "nat \<Rightarrow> message_id \<Rightarrow> 'w \<Rightarrow> 'w"
  ClearMessages :: "message_id \<Rightarrow> 'w \<Rightarrow> 'w"
  Dispatch :: "message_id \<Rightarrow> 'w \<Rightarrow> 'w"
  StopThread :: "'w \<Rightarrow> 'w"
  TimeMillis :: "'w \<Rightarrow> int"
  gethostbyname :: "byte list \<Rightarrow> 'w \<Rightarrow> u32 list option"
  getAllocationCount :: "'w \<Rightarrow> int"
  getSendBandWidth :: "'w \<Rightarrow> int"
  getRecvBandWidth :: "'w \<Rightarrow> int"

section \<open>The socket\<close>

definition WorkerConstants_kMaxPacketSize :: nat where
  "WorkerConstants_kMaxPacketSize = 64 * 1024"

definition EMSGSIZE :: int where
  "EMSGSIZE = 90"

definition WorkerTCPSocket_Create :: "'w rtc_env \<Rightarrow> rtc_addr \<Rightarrow> rtc_addr \<Rightarrow> 'w \<Rightarrow> sock option \<times> 'w" where
  "WorkerTCPSocket_Create env bind_address remote_address w =
     (let (tcp_client, w) = CreateAsyncSocket env w;
          (connected, w) = ConnectSocket env tcp_client bind_address remote_address w
      in (if connected then Some tcp_client else None, w))"

definition WorkerTCPSocket_Send :: "'w rtc_env \<Rightarrow> sock \<Rightarrow> byte list \<Rightarrow> 'w \<Rightarrow> int \<times> 'w" where
  "WorkerTCPSocket_Send env s pv w =
     (if WorkerConstants_kMaxPacketSize < length pv then (-1, SetError env s EMSGSIZE w)
      else if \<not> IsOutBufferEmpty env s w then (int (length pv), w)
      else let (res, w) = FlushOutBuffer env s (AppendToOutBuffer env s pv w)
           in if res \<le> 0 then (res, ClearOutBuffer env s w)
              else (int (length pv), SignalSentPacket env s w))"

text \<open>
  All bytes that were read are handed to the handler at once, with their number
  cut to 16 bits, and nothing is kept: the socket does not reassemble messages.
\<close>

definition ProcessInput :: "(byte list \<Rightarrow> u16 \<Rightarrow> 'a) \<Rightarrow> byte list \<Rightarrow> 'a \<times> byte list" where
  "ProcessInput read_packet data = (read_packet data (of_nat (length data)), [])"

definition ReConnect :: "'w rtc_env \<Rightarrow> sock \<Rightarrow> 'w \<Rightarrow> bool \<times> 'w" where
  "ReConnect env s w =
     (let (r, w) = Connect_again env s (GetRemoteAddress env s w) w in (\<not> r < 0, w))"

definition resolve_host :: "'w rtc_env \<Rightarrow> byte list \<Rightarrow> 'w \<Rightarrow> u32 list" where
  "resolve_host env host w = (case gethostbyname env host w of None \<Rightarrow> [] | Some ips \<Rightarrow> ips)"

section \<open>What the code relies on\<close>

text \<open>
  The out buffer of a socket and the bytes it has handed to the network so far.
  \<open>FlushOutBuffer\<close> hands over a part from the front of the buffer, and returns its
  length, or a number that is not positive when it hands over nothing.
\<close>

locale async_tcp =
  fixes env :: "'w rtc_env" and outbuf wire :: "sock \<Rightarrow> 'w \<Rightarrow> byte list"
  assumes out_empty: "IsOutBufferEmpty env s w \<longleftrightarrow> outbuf s w = []"
    and append_out: "outbuf t (AppendToOutBuffer env s bs w) = (if t = s then outbuf s w @ bs else outbuf t w)"
    and append_wire: "wire t (AppendToOutBuffer env s bs w) = wire t w"
    and flush: "FlushOutBuffer env s w = (r, w') \<Longrightarrow> \<exists>k \<le> length (outbuf s w). k = nat r \<and>
      outbuf s w' = drop k (outbuf s w) \<and> wire s w' = wire s w @ take k (outbuf s w)"
    and flush_other: "t \<noteq> s \<Longrightarrow> outbuf t (snd (FlushOutBuffer env s w)) = outbuf t w \<and>
      wire t (snd (FlushOutBuffer env s w)) = wire t w"
    and clear_out: "outbuf t (ClearOutBuffer env s w) = (if t = s then [] else outbuf t w)"
    and clear_wire: "wire t (ClearOutBuffer env s w) = wire t w"
    and error_out: "outbuf t (SetError env s e w) = outbuf t w"
    and error_wire: "wire t (SetError env s e w) = wire t w"
    and signal_out: "outbuf t (SignalSentPacket env s w) = outbuf t w"
    and signal_wire: "wire t (SignalSentPacket env s w) = wire t w"

text \<open>
  What happens on a socket: a message is given to \<open>Send\<close>, or the network takes bytes
  again and the base class flushes the buffer.
\<close>

datatype traffic = SendMessage "byte list" | WriteReady

text \<open>Whether \<open>Send\<close> takes a message over, which it tells by \<open>SignalSentPacket\<close>.\<close>

definition taken :: "'w rtc_env \<Rightarrow> sock \<Rightarrow> byte list \<Rightarrow> 'w \<Rightarrow> bool" where
  "taken env s pv w \<longleftrightarrow> length pv \<le> WorkerConstants_kMaxPacketSize \<and> IsOutBufferEmpty env s w \<and>
     0 < fst (FlushOutBuffer env s (AppendToOutBuffer env s pv w))"

fun run_traffic :: "'w rtc_env \<Rightarrow> sock \<Rightarrow> traffic list \<Rightarrow> 'w \<Rightarrow> byte list list \<times> 'w" where
  "run_traffic env s [] w = ([], w)"
| "run_traffic env s (SendMessage pv # es) w =
     (let (ms, w') = run_traffic env s es (snd (WorkerTCPSocket_Send env s pv w))
      in (if taken env s pv w then pv # ms else ms, w'))"
| "run_traffic env s (WriteReady # es) w = run_traffic env s es (snd (FlushOutBuffer env s w))"

context async_tcp
begin

lemmas buffer_laws = out_empty append_out append_wire clear_out clear_wire error_out error_wire signal_out signal_wire

lemma flush_cases:
  obtains k where "k \<le> length (outbuf s w)" and "k = nat (fst (FlushOutBuffer env s w))"
    and "outbuf s (snd (FlushOutBuffer env s w)) = drop k (outbuf s w)"
    and "wire s (snd (FlushOutBuffer env s w)) = wire s w @ take k (outbuf s w)"
  using flush [of s w "fst (FlushOutBuffer env s w)" "snd (FlushOutBuffer env s w)"] by auto

lemma flush_total:
  "wire s (snd (FlushOutBuffer env s w)) @ outbuf s (snd (FlushOutBuffer env s w)) = wire s w @ outbuf s w"
  by (rule flush_cases [of s w]) simp

lemma flush_suffix: "\<exists>k. outbuf s (snd (FlushOutBuffer env s w)) = drop k (outbuf s w)"
  by (rule flush_cases [of s w]) blast

text \<open>A message is taken over as a whole or leaves no trace.\<close>

lemma Send_taken:
  assumes "taken env s pv w"
  shows "fst (WorkerTCPSocket_Send env s pv w) = int (length pv)"
    and "wire s (snd (WorkerTCPSocket_Send env s pv w)) @ outbuf s (snd (WorkerTCPSocket_Send env s pv w)) = wire s w @ pv"
    and "\<exists>k > 0. outbuf s (snd (WorkerTCPSocket_Send env s pv w)) = drop k pv"
proof -
  let ?w = "AppendToOutBuffer env s pv w"
  have e: "outbuf s w = []" using assms by (simp add: taken_def out_empty)
  have f: "WorkerTCPSocket_Send env s pv w = (int (length pv), SignalSentPacket env s (snd (FlushOutBuffer env s ?w)))"
    and p: "0 < fst (FlushOutBuffer env s ?w)"
    using assms by (simp_all add: taken_def WorkerTCPSocket_Send_def split_def Let_def)
  show "fst (WorkerTCPSocket_Send env s pv w) = int (length pv)"
    "wire s (snd (WorkerTCPSocket_Send env s pv w)) @ outbuf s (snd (WorkerTCPSocket_Send env s pv w)) = wire s w @ pv"
    using flush_total [of s ?w] by (simp_all add: f e buffer_laws)
  obtain k where "k = nat (fst (FlushOutBuffer env s ?w))" "outbuf s (snd (FlushOutBuffer env s ?w)) = drop k (outbuf s ?w)"
    by (rule flush_cases)
  then show "\<exists>k > 0. outbuf s (snd (WorkerTCPSocket_Send env s pv w)) = drop k pv"
    using p by (intro exI [of _ k]) (simp add: f e buffer_laws)
qed

lemma Send_not_taken:
  assumes "\<not> taken env s pv w"
  shows "wire s (snd (WorkerTCPSocket_Send env s pv w)) = wire s w \<and> outbuf s (snd (WorkerTCPSocket_Send env s pv w)) = outbuf s w"
proof (cases "WorkerConstants_kMaxPacketSize < length pv \<or> outbuf s w \<noteq> []")
  case True
  then show ?thesis by (auto simp: WorkerTCPSocket_Send_def buffer_laws)
next
  case False
  let ?w = "AppendToOutBuffer env s pv w"
  have r: "fst (FlushOutBuffer env s ?w) \<le> 0" using assms False by (auto simp: taken_def out_empty)
  obtain k where "k = nat (fst (FlushOutBuffer env s ?w))" "wire s (snd (FlushOutBuffer env s ?w)) = wire s ?w @ take k (outbuf s ?w)"
    by (rule flush_cases)
  then show ?thesis using r False by (simp add: WorkerTCPSocket_Send_def split_def Let_def buffer_laws)
qed

lemma Send_other: "t \<noteq> s \<Longrightarrow> wire t (snd (WorkerTCPSocket_Send env s pv w)) = wire t w"
  using flush_other [of t s "AppendToOutBuffer env s pv w"]
  by (simp add: WorkerTCPSocket_Send_def split_def Let_def buffer_laws)

lemma run_traffic_messages:
  "run_traffic env s es w = (ms, w') \<Longrightarrow>
   wire s w' @ outbuf s w' = wire s w @ outbuf s w @ concat ms \<and> (\<exists>k. outbuf s w' = drop k (last (outbuf s w # ms)))"
proof (induction es arbitrary: w ms)
  case Nil
  then show ?case by (auto intro: exI [of _ 0])
next
  case (Cons e es)
  show ?case
  proof (cases e)
    case WriteReady
    let ?w = "snd (FlushOutBuffer env s w)"
    have r: "run_traffic env s es ?w = (ms, w')" using Cons.prems WriteReady by simp
    note ih = Cons.IH [OF r]
    obtain k where "outbuf s ?w = drop k (outbuf s w)" using flush_suffix by blast
    then have "\<exists>k. outbuf s w' = drop k (last (outbuf s w # ms))" using ih by (cases ms) auto
    moreover have "wire s w' @ outbuf s w' = (wire s ?w @ outbuf s ?w) @ concat ms" using ih by simp
    ultimately show ?thesis unfolding flush_total by simp
  next
    case (SendMessage pv)
    let ?w = "snd (WorkerTCPSocket_Send env s pv w)"
    obtain ms' where r: "run_traffic env s es ?w = (ms', w')" and ms: "ms = (if taken env s pv w then pv # ms' else ms')"
      using Cons.prems SendMessage by (auto split: prod.splits)
    note ih = Cons.IH [OF r]
    show ?thesis
    proof (cases "taken env s pv w")
      case True
      have "outbuf s w = []" using True by (simp add: taken_def out_empty)
      moreover obtain k where "outbuf s ?w = drop k pv" using Send_taken(3) [OF True] by blast
      then have "\<exists>k. outbuf s w' = drop k (last (pv # ms'))" using ih by (cases ms') auto
      moreover have "wire s w' @ outbuf s w' = (wire s ?w @ outbuf s ?w) @ concat ms'" using ih by simp
      ultimately show ?thesis using Send_taken(2) [OF True] True by (simp add: ms)
    next
      case False
      then show ?thesis using ih by (simp add: ms Send_not_taken [OF False])
    qed
  qed
qed

end

text \<open>
  The message queue of the thread, and the handlers that are connected to the signals of
  the sockets: \<open>PostDelayed\<close> adds a message, \<open>Clear\<close> removes all of its kind, the thread
  takes a message out when it calls the handler (\<open>Dispatch\<close>), \<open>connect\<close> connects handlers, and
  no other operation changes either.
\<close>

definition keeps :: "('w \<Rightarrow> 'a) \<Rightarrow> ('w \<Rightarrow> 'w) \<Rightarrow> bool" where
  "keeps obs f \<longleftrightarrow> (\<forall>w. obs (f w) = obs w)"

locale rtc_thread = async_tcp env outbuf wire for env :: "'w rtc_env" and outbuf wire +
  fixes pending :: "'w \<Rightarrow> message_id multiset" and wired :: "'w \<Rightarrow> (slots \<times> sock) set"
  assumes post: "pending (PostDelayed env d m w) = add_mset m (pending w)"
    and clear: "pending (ClearMessages env m w) = filter_mset (\<lambda>x. x \<noteq> m) (pending w)"
    and dispatch: "pending (Dispatch env m w) = pending w - {#m#}"
    and connect: "wired (ConnectSignals env sl s w) = insert (sl, s) (wired w)"
    and post_bytes: "keeps (\<lambda>w. (outbuf s w, wire s w)) (PostDelayed env d m)"
    and clear_bytes: "keeps (\<lambda>w. (outbuf s w, wire s w)) (ClearMessages env m)"
    and post_wired: "keeps wired (PostDelayed env d m)"
    and clear_wired: "keeps wired (ClearMessages env m)"
    and dispatch_wired: "keeps wired (Dispatch env m)"
    and connect_pending: "keeps pending (ConnectSignals env sl s)"
    and quiet_create: "keeps (\<lambda>w. (pending w, wired w)) (\<lambda>w. snd (CreateAsyncSocket env w))"
    and quiet_connect: "keeps (\<lambda>w. (pending w, wired w)) (\<lambda>w. snd (ConnectSocket env s a b w))"
    and quiet_again: "keeps (\<lambda>w. (pending w, wired w)) (\<lambda>w. snd (Connect_again env s a w))"
    and quiet_close: "keeps (\<lambda>w. (pending w, wired w)) (CloseSocket env s)"
    and quiet_append: "keeps (\<lambda>w. (pending w, wired w)) (AppendToOutBuffer env s bs)"
    and quiet_flush: "keeps (\<lambda>w. (pending w, wired w)) (\<lambda>w. snd (FlushOutBuffer env s w))"
    and quiet_clear: "keeps (\<lambda>w. (pending w, wired w)) (ClearOutBuffer env s)"
    and quiet_error: "keeps (\<lambda>w. (pending w, wired w)) (SetError env s e)"
    and quiet_signal: "keeps (\<lambda>w. (pending w, wired w)) (SignalSentPacket env s)"
begin

lemmas thread_laws = post clear dispatch connect
  post_wired [unfolded keeps_def, rule_format] clear_wired [unfolded keeps_def, rule_format]
  dispatch_wired [unfolded keeps_def, rule_format] connect_pending [unfolded keeps_def, rule_format]

lemmas timer_bytes =
  post_bytes [unfolded keeps_def prod.inject, rule_format, THEN conjunct1]
  post_bytes [unfolded keeps_def prod.inject, rule_format, THEN conjunct2]
  clear_bytes [unfolded keeps_def prod.inject, rule_format, THEN conjunct1]
  clear_bytes [unfolded keeps_def prod.inject, rule_format, THEN conjunct2]

lemmas quiet_laws =
  quiet_create [unfolded keeps_def prod.inject, rule_format, THEN conjunct1]
  quiet_create [unfolded keeps_def prod.inject, rule_format, THEN conjunct2]
  quiet_connect [unfolded keeps_def prod.inject, rule_format, THEN conjunct1]
  quiet_connect [unfolded keeps_def prod.inject, rule_format, THEN conjunct2]
  quiet_again [unfolded keeps_def prod.inject, rule_format, THEN conjunct1]
  quiet_again [unfolded keeps_def prod.inject, rule_format, THEN conjunct2]
  quiet_close [unfolded keeps_def prod.inject, rule_format, THEN conjunct1]
  quiet_close [unfolded keeps_def prod.inject, rule_format, THEN conjunct2]
  quiet_append [unfolded keeps_def prod.inject, rule_format, THEN conjunct1]
  quiet_append [unfolded keeps_def prod.inject, rule_format, THEN conjunct2]
  quiet_flush [unfolded keeps_def prod.inject, rule_format, THEN conjunct1]
  quiet_flush [unfolded keeps_def prod.inject, rule_format, THEN conjunct2]
  quiet_clear [unfolded keeps_def prod.inject, rule_format, THEN conjunct1]
  quiet_clear [unfolded keeps_def prod.inject, rule_format, THEN conjunct2]
  quiet_error [unfolded keeps_def prod.inject, rule_format, THEN conjunct1]
  quiet_error [unfolded keeps_def prod.inject, rule_format, THEN conjunct2]
  quiet_signal [unfolded keeps_def prod.inject, rule_format, THEN conjunct1]
  quiet_signal [unfolded keeps_def prod.inject, rule_format, THEN conjunct2]

lemma Send_quiet:
  "pending (snd (WorkerTCPSocket_Send env s pv w)) = pending w"
  "wired (snd (WorkerTCPSocket_Send env s pv w)) = wired w"
  by (simp_all add: WorkerTCPSocket_Send_def split_def Let_def quiet_laws)

lemma Create_quiet:
  "pending (snd (WorkerTCPSocket_Create env a b w)) = pending w"
  "wired (snd (WorkerTCPSocket_Create env a b w)) = wired w"
  by (simp_all add: WorkerTCPSocket_Create_def split_def Let_def quiet_laws)

lemma ReConnect_quiet: "pending (snd (ReConnect env s w)) = pending w" "wired (snd (ReConnect env s w)) = wired w"
  by (simp_all add: ReConnect_def split_def Let_def quiet_laws)

end

section \<open>A world of sockets\<close>

text \<open>
  An environment that has these laws: sockets with an out buffer and a limit on the
  bytes the network takes at once, a clock, and the queue of messages.
\<close>

record world_sock =
  ws_state :: tcp_state
  ws_local :: rtc_addr
  ws_remote :: rtc_addr
  ws_out :: "byte list"
  ws_wire :: "byte list"
  ws_limit :: nat

record world =
  clock :: int
  next_sock :: sock
  sockets :: "sock \<Rightarrow> world_sock"
  queue :: "message_id multiset"
  handlers :: "(slots \<times> sock) set"
  reachable :: bool

definition on_socket :: "sock \<Rightarrow> (world_sock \<Rightarrow> world_sock) \<Rightarrow> world \<Rightarrow> world" where
  "on_socket s f w = w\<lparr>sockets := (sockets w)(s := f (sockets w s))\<rparr>"

definition world_flush :: "sock \<Rightarrow> world \<Rightarrow> int \<times> world" where
  "world_flush s w =
     (let out = ws_out (sockets w s); k = min (ws_limit (sockets w s)) (length out)
      in (if k = 0 then -1 else int k,
          on_socket s (\<lambda>p. p\<lparr>ws_out := drop k out, ws_wire := ws_wire p @ take k out\<rparr>) w))"

definition world_env :: "world rtc_env" where
  "world_env =
     \<lparr>CreateAsyncSocket = (\<lambda>w. (next_sock w, w\<lparr>next_sock := next_sock w + 1\<rparr>)),
      ConnectSocket = (\<lambda>s a b w. (reachable w, on_socket s (\<lambda>p. p\<lparr>ws_state := STATE_CONNECTING, ws_local := a, ws_remote := b\<rparr>) w)),
      ConnectSignals = (\<lambda>sl s w. w\<lparr>handlers := insert (sl, s) (handlers w)\<rparr>),
      GetState = (\<lambda>s w. ws_state (sockets w s)),
      GetLocalAddress = (\<lambda>s w. ws_local (sockets w s)),
      GetRemoteAddress = (\<lambda>s w. ws_remote (sockets w s)),
      Connect_again = (\<lambda>s a w. (if reachable w then 0 else -1, w)),
      CloseSocket = (\<lambda>s. on_socket s (\<lambda>p. p\<lparr>ws_state := STATE_CLOSED\<rparr>)),
      IsOutBufferEmpty = (\<lambda>s w. ws_out (sockets w s) = []),
      AppendToOutBuffer = (\<lambda>s bs. on_socket s (\<lambda>p. p\<lparr>ws_out := ws_out p @ bs\<rparr>)),
      FlushOutBuffer = world_flush,
      ClearOutBuffer = (\<lambda>s. on_socket s (\<lambda>p. p\<lparr>ws_out := []\<rparr>)),
      SetError = (\<lambda>s e w. w),
      SignalSentPacket = (\<lambda>s w. w),
      PostDelayed = (\<lambda>d m w. w\<lparr>queue := add_mset m (queue w)\<rparr>),
      ClearMessages = (\<lambda>m w. w\<lparr>queue := filter_mset (\<lambda>x. x \<noteq> m) (queue w)\<rparr>),
      Dispatch = (\<lambda>m w. w\<lparr>queue := queue w - {#m#}\<rparr>),
      StopThread = (\<lambda>w. w),
      TimeMillis = clock,
      gethostbyname = (\<lambda>h w. if reachable w then Some [0x0100007f] else None),
      getAllocationCount = (\<lambda>w. 4), getSendBandWidth = (\<lambda>w. 10), getRecvBandWidth = (\<lambda>w. 20)\<rparr>"

lemma on_socket_simps [simp]:
  "sockets (on_socket s f w) t = (if t = s then f (sockets w s) else sockets w t)"
  "queue (on_socket s f w) = queue w" "handlers (on_socket s f w) = handlers w" "clock (on_socket s f w) = clock w"
  "next_sock (on_socket s f w) = next_sock w" "reachable (on_socket s f w) = reachable w"
  by (simp_all add: on_socket_def)

abbreviation "world_out \<equiv> \<lambda>s w. ws_out (sockets w s)"
abbreviation "world_wire \<equiv> \<lambda>s w. ws_wire (sockets w s)"

interpretation world: rtc_thread world_env world_out world_wire queue handlers
proof (unfold_locales, goal_cases)
  case (4 s w r w')
  then show ?case
    by (intro exI [of _ "min (ws_limit (sockets w s)) (length (ws_out (sockets w s)))"])
      (auto simp: world_env_def world_flush_def Let_def split: if_splits)
qed (auto simp: world_env_def world_flush_def Let_def keeps_def)

definition idle_world :: world where
  "idle_world = \<lparr>clock = 1500000000000, next_sock = 1,
     sockets = (\<lambda>s. \<lparr>ws_state = STATE_CONNECTED, ws_local = (0x7f000001, 4000), ws_remote = (0x7f000001, 3002),
        ws_out = [], ws_wire = [], ws_limit = 65536\<rparr>),
     queue = {#}, handlers = {}, reachable = True\<rparr>"

section \<open>Messages on the wire\<close>

text \<open>C6. However the calls of \<open>Send\<close> and the flushes of a socket follow each other, the bytes that went out and
  those still in the buffer are whole messages one after the other: those that \<open>Send\<close> took over, in order.
  What is in the buffer is the rest of the last of them.\<close>

theorem whole_messages_sent:
  assumes "async_tcp env outbuf wire" and "outbuf s w = []" and "run_traffic env s es w = (ms, w')"
  shows "wire s w' @ outbuf s w' = wire s w @ concat ms \<and> (outbuf s w' = [] \<or> (\<exists>k. outbuf s w' = drop k (last ms)))"
  using async_tcp.run_traffic_messages [OF assms(1,3)] assms(2) by (cases ms) auto

theorem whole_messages_sent_witness:
  "\<exists>w'. run_traffic world_env 1 [SendMessage [1, 2, 3], SendMessage [4], WriteReady, SendMessage [5]]
       (on_socket 1 (\<lambda>p. p\<lparr>ws_limit := 2\<rparr>) idle_world) = ([[1, 2, 3], [5]], w') \<and>
     world_wire 1 w' @ world_out 1 w' = [] @ concat [[1, 2, 3], [5]] \<and>
     (world_out 1 w' = [] \<or> (\<exists>k. world_out 1 w' = drop k (last [[1, 2, 3], [5]])))"
proof -
  let ?w = "on_socket 1 (\<lambda>p. p\<lparr>ws_limit := 2\<rparr>) idle_world"
  let ?es = "[SendMessage [1, 2, 3], SendMessage [4], WriteReady, SendMessage [5]]"
  have m: "fst (run_traffic world_env 1 ?es ?w) = [[1, 2, 3], [5]]"
    by (simp add: world_env_def world_flush_def idle_world_def on_socket_def taken_def WorkerTCPSocket_Send_def
        WorkerConstants_kMaxPacketSize_def split_def Let_def)
  then have r: "run_traffic world_env 1 ?es ?w = ([[1, 2, 3], [5]], snd (run_traffic world_env 1 ?es ?w))"
    by (simp add: prod_eq_iff)
  have "world_out 1 ?w = []" by (simp add: idle_world_def)
  from whole_messages_sent [OF world.async_tcp_axioms this r] r show ?thesis by (auto simp: idle_world_def)
qed

end
