(* ===== verification/CJson_Objects.thy ===== *)
theory CJson_Objects
  imports CJson
begin

text \<open>
  The functions of src/turnserver/new_elbs/cJSON.cc that build and change items:
  lookup by index and by name, insertion, removal and replacement, the
  constructors, \<open>cJSON_Duplicate\<close> and \<open>cJSON_Minify\<close>.  The items form a tree, so an
  item that is added to another one belongs to it alone; references
  (\<open>create_reference\<close>, \<open>cJSON_AddItemReferenceToArray\<close> and \<open>...ToObject\<close>), which share
  the children of an item, are not modelled.
\<close>

section \<open>Lookup\<close>

definition tolower :: "byte \<Rightarrow> byte" where
  "tolower c = (if 65 \<le> c \<and> c \<le> 90 then c + 32 else c)"

fun strcasecmp_loop :: "byte list \<Rightarrow> byte list \<Rightarrow> int" where
  "strcasecmp_loop [] [] = 0"
| "strcasecmp_loop [] (d # t) = - uint (tolower d)"
| "strcasecmp_loop (c # s) [] = uint (tolower c)"
| "strcasecmp_loop (c # s) (d # t) =
     (if tolower c = tolower d then if c = 0 then 0 else strcasecmp_loop s t
      else uint (tolower c) - uint (tolower d))"

fun cJSON_strcasecmp :: "byte list option \<Rightarrow> byte list option \<Rightarrow> int" where
  "cJSON_strcasecmp None s2 = (if s2 = None then 0 else 1)"
| "cJSON_strcasecmp (Some s1) None = 1"
| "cJSON_strcasecmp (Some s1) (Some s2) = strcasecmp_loop s1 s2"

definition cJSON_GetArraySize :: "cJSON \<Rightarrow> nat" where
  "cJSON_GetArraySize array = length (child array)"

text \<open>A negative index gives the first item.\<close>

definition cJSON_GetArrayItem :: "cJSON \<Rightarrow> int \<Rightarrow> cJSON option" where
  "cJSON_GetArrayItem array item =
     (if nat item < length (child array) then Some (child array ! nat item) else None)"

text \<open>The loop \<open>while (c && cJSON_strcasecmp(c->string, string)) i++, c = c->next\<close>.\<close>

fun name_index :: "byte list option \<Rightarrow> cJSON list \<Rightarrow> nat option" where
  "name_index name [] = None"
| "name_index name (c # cs) =
     (if cJSON_strcasecmp (cj_string (own c)) name = 0 then Some 0
      else map_option Suc (name_index name cs))"

definition cJSON_GetObjectItem :: "cJSON \<Rightarrow> byte list \<Rightarrow> cJSON option" where
  "cJSON_GetObjectItem object name = map_option ((!) (child object)) (name_index (Some name) (child object))"

section \<open>Insertion, removal and replacement\<close>

definition with_name :: "byte list \<Rightarrow> cJSON \<Rightarrow> cJSON" where
  "with_name name item = Node ((own item)\<lparr>cj_string := Some name\<rparr>) (child item)"

definition cJSON_AddItemToArray :: "cJSON \<Rightarrow> cJSON \<Rightarrow> cJSON" where
  "cJSON_AddItemToArray array item = Node (own array) (child array @ [item])"

definition cJSON_AddItemToObject :: "cJSON \<Rightarrow> byte list \<Rightarrow> cJSON \<Rightarrow> cJSON" where
  "cJSON_AddItemToObject object name item = cJSON_AddItemToArray object (with_name name item)"

text \<open>The detached item, if any, and what is left.\<close>

definition cJSON_DetachItemFromArray :: "cJSON \<Rightarrow> int \<Rightarrow> cJSON option \<times> cJSON" where
  "cJSON_DetachItemFromArray array which =
     (let i = nat which
      in if i < length (child array)
         then (Some (child array ! i), Node (own array) (take i (child array) @ drop (Suc i) (child array)))
         else (None, array))"

definition cJSON_DeleteItemFromArray :: "cJSON \<Rightarrow> int \<Rightarrow> cJSON" where
  "cJSON_DeleteItemFromArray array which = snd (cJSON_DetachItemFromArray array which)"

definition cJSON_DetachItemFromObject :: "cJSON \<Rightarrow> byte list option \<Rightarrow> cJSON option \<times> cJSON" where
  "cJSON_DetachItemFromObject object name =
     (case name_index name (child object) of
        Some i \<Rightarrow> cJSON_DetachItemFromArray object (int i) | None \<Rightarrow> (None, object))"

definition cJSON_DeleteItemFromObject :: "cJSON \<Rightarrow> byte list option \<Rightarrow> cJSON" where
  "cJSON_DeleteItemFromObject object name = snd (cJSON_DetachItemFromObject object name)"

definition cJSON_ReplaceItemInArray :: "cJSON \<Rightarrow> int \<Rightarrow> cJSON \<Rightarrow> cJSON" where
  "cJSON_ReplaceItemInArray array which newitem =
     (if nat which < length (child array) then Node (own array) ((child array)[nat which := newitem]) else array)"

definition cJSON_ReplaceItemInObject :: "cJSON \<Rightarrow> byte list \<Rightarrow> cJSON \<Rightarrow> cJSON" where
  "cJSON_ReplaceItemInObject object name newitem =
     (case name_index (Some name) (child object) of
        Some i \<Rightarrow> cJSON_ReplaceItemInArray object (int i) (with_name name newitem) | None \<Rightarrow> object)"

section \<open>Constructors\<close>

definition cJSON_CreateNull :: cJSON where
  "cJSON_CreateNull = Node (cJSON_New_Item\<lparr>cj_type := cJSON_NULL\<rparr>) []"

definition cJSON_CreateTrue :: cJSON where
  "cJSON_CreateTrue = Node (cJSON_New_Item\<lparr>cj_type := cJSON_True\<rparr>) []"

definition cJSON_CreateFalse :: cJSON where
  "cJSON_CreateFalse = Node (cJSON_New_Item\<lparr>cj_type := cJSON_False\<rparr>) []"

definition cJSON_CreateBool :: "bool \<Rightarrow> cJSON" where
  "cJSON_CreateBool b = Node (cJSON_New_Item\<lparr>cj_type := if b then cJSON_True else cJSON_False\<rparr>) []"

definition cJSON_CreateNumber :: "double \<Rightarrow> cJSON" where
  "cJSON_CreateNumber num =
     Node (cJSON_New_Item\<lparr>cj_type := cJSON_Number, valuedouble := num, valueint := int_of_double num\<rparr>) []"

definition cJSON_CreateString :: "byte list \<Rightarrow> cJSON" where
  "cJSON_CreateString s = Node (cJSON_New_Item\<lparr>cj_type := cJSON_String, valuestring := Some (c_str s)\<rparr>) []"

definition cJSON_CreateArray :: cJSON where
  "cJSON_CreateArray = Node (cJSON_New_Item\<lparr>cj_type := cJSON_Array\<rparr>) []"

definition cJSON_CreateObject :: cJSON where
  "cJSON_CreateObject = Node (cJSON_New_Item\<lparr>cj_type := cJSON_Object\<rparr>) []"

text \<open>The arrays; the numbers or strings are the first \<open>count\<close> of the argument.\<close>

definition cJSON_CreateIntArray :: "int list \<Rightarrow> cJSON" where
  "cJSON_CreateIntArray numbers =
     Node (own cJSON_CreateArray) (map (\<lambda>i. cJSON_CreateNumber (double_of_int i)) numbers)"

definition cJSON_CreateDoubleArray :: "double list \<Rightarrow> cJSON" where
  "cJSON_CreateDoubleArray numbers = Node (own cJSON_CreateArray) (map cJSON_CreateNumber numbers)"

definition cJSON_CreateStringArray :: "byte list list \<Rightarrow> cJSON" where
  "cJSON_CreateStringArray strings = Node (own cJSON_CreateArray) (map cJSON_CreateString strings)"

section \<open>Duplication\<close>

fun cJSON_Duplicate :: "bool \<Rightarrow> cJSON \<Rightarrow> cJSON" where
  "cJSON_Duplicate recurse (Node f cs) =
     Node (f\<lparr>cj_type := unset_bit 8 (cj_type f)\<rparr>) (if recurse then map (cJSON_Duplicate True) cs else [])"

section \<open>Minification\<close>

text \<open>
  The text is overwritten in place, always behind the position that is read;
  the result is the new text.  The skipping of a comment and of a string:
\<close>

fun skip_line :: "byte list \<Rightarrow> byte list option" where
  "skip_line [] = None"
| "skip_line (c # s) = (if c \<noteq> 0 \<and> c \<noteq> 10 then skip_line s else Some (c # s))"

fun skip_comment :: "byte list \<Rightarrow> byte list option" where
  "skip_comment [] = None"
| "skip_comment (c # s) =
     (if c = 0 then Some (drop 1 s)
      else if c = 42
      then case s of [] \<Rightarrow> None | d # t \<Rightarrow> if d = 47 then Some t else skip_comment s
      else skip_comment s)"

text \<open>From behind the opening quote to behind the character that ends the loop.\<close>

fun copy_literal :: "byte list \<Rightarrow> (byte list \<times> byte list) option" where
  "copy_literal [] = None"
| "copy_literal (c # s) =
     (if c = 0 \<or> c = 34 then Some ([c], s)
      else if c = 92
      then case s of [] \<Rightarrow> None
           | d # t \<Rightarrow> map_option (\<lambda>(o1, r). (c # d # o1, r)) (copy_literal t)
      else map_option (\<lambda>(o1, r). (c # o1, r)) (copy_literal s))"

lemma skip_line_shorter: "skip_line s = Some r \<Longrightarrow> length r \<le> length s"
  by (induction s rule: skip_line.induct) (auto split: if_splits)

lemma skip_comment_shorter: "skip_comment s = Some r \<Longrightarrow> length r \<le> length s"
  by (induction s rule: skip_comment.induct) (auto split: if_splits list.splits intro: le_SucI)

lemma copy_literal_shorter: "copy_literal s = Some (o1, r) \<Longrightarrow> length r < length s"
  by (induction s arbitrary: o1 r rule: copy_literal.induct)
    (auto split: if_splits list.splits intro!: less_SucI)

function cJSON_Minify :: "byte list \<Rightarrow> byte list option" where
  "cJSON_Minify [] = None"
| "cJSON_Minify (c # s) =
     (if c = 0 then Some []
      else if c \<in> {32, 9, 13, 10} then cJSON_Minify s
      else if c = 34
      then case copy_literal s of None \<Rightarrow> None
           | Some (o1, r) \<Rightarrow> map_option ((@) (c # o1)) (cJSON_Minify r)
      else if c = 47
      then case s of [] \<Rightarrow> None
           | d # t \<Rightarrow>
               if d = 47 then case skip_line (c # s) of None \<Rightarrow> None | Some r \<Rightarrow> cJSON_Minify r
               else if d = 42 then case skip_comment (c # s) of None \<Rightarrow> None | Some r \<Rightarrow> cJSON_Minify r
               else map_option ((#) c) (cJSON_Minify s)
      else map_option ((#) c) (cJSON_Minify s))"
  by pat_completeness auto

termination cJSON_Minify
proof (relation "measure length", goal_cases)
  case (3 c s x o1 r)
  then show ?case using copy_literal_shorter [of s o1 r] by simp
next
  case (4 c s d t r)
  then show ?case using skip_line_shorter [of s r] by simp
next
  case (5 c s d t r)
  then show ?case using skip_comment_shorter [of s r] by simp
qed auto

section \<open>Names\<close>

text \<open>Two names are the same up to the case of their letters.\<close>

definition same_name :: "byte list \<Rightarrow> byte list \<Rightarrow> bool" where
  "same_name s t \<longleftrightarrow> map tolower (c_str s) = map tolower (c_str t)"

lemma same_name_equiv [simp]: "same_name s s"
  and same_name_sym: "same_name s t \<Longrightarrow> same_name t s"
  and same_name_trans: "same_name s t \<Longrightarrow> same_name t u \<Longrightarrow> same_name s u"
  by (simp_all add: same_name_def)

lemma tolower_zero: "(tolower c = 0) = (c = 0)"
proof -
  have "c + 32 \<noteq> 0" if "65 \<le> c" "c \<le> 90"
    using that by (auto simp: word_le_nat_alt unat_word_ariths word_unat_eq_iff)
  then show ?thesis by (auto simp: tolower_def)
qed

lemma strcasecmp_zero: "strcasecmp_loop s t = 0 \<longleftrightarrow> same_name s t"
proof (induction s t rule: strcasecmp_loop.induct)
  case (4 c s d t)
  show ?case
  proof (cases "tolower c = tolower d")
    case True
    then have "c = 0 \<longleftrightarrow> d = 0" using tolower_zero by metis
    with True 4 show ?thesis by (auto simp: same_name_def c_str_def)
  next
    case False
    then have "uint (tolower c) \<noteq> uint (tolower d)" by (simp add: word_uint_eq_iff)
    moreover have "\<not> same_name (c # s) (d # t)" using False by (auto simp: same_name_def c_str_def tolower_zero)
    ultimately show ?thesis using False by simp
  qed
qed (auto simp: same_name_def c_str_def uint_0_iff tolower_zero)

definition named :: "byte list \<Rightarrow> cJSON \<Rightarrow> bool" where
  "named n c \<longleftrightarrow> (case cj_string (own c) of Some s \<Rightarrow> same_name s n | None \<Rightarrow> False)"

lemma strcasecmp_named [simp]: "cJSON_strcasecmp (cj_string (own c)) (Some n) = 0 \<longleftrightarrow> named n c"
  by (cases "cj_string (own c)") (simp_all add: named_def strcasecmp_zero)

lemma named_with_name [simp]: "named m (with_name n c) = same_name n m"
  by (simp add: named_def with_name_def)

lemma named_same: "same_name m n \<Longrightarrow> named m c = named n c"
  by (auto simp: named_def same_name_def split: option.splits)

lemma named_unique: "named n c \<Longrightarrow> named m c \<Longrightarrow> same_name m n"
  by (auto simp: named_def same_name_def split: option.splits)

lemma name_index_SomeD: "name_index (Some n) cs = Some i \<Longrightarrow> i < length cs \<and> named n (cs ! i)"
  by (induction cs arbitrary: i) (auto split: if_splits)

lemma name_index_None: "name_index (Some n) cs = None \<longleftrightarrow> list_all (\<lambda>c. \<not> named n c) cs"
  by (induction cs) auto

lemma name_index_append:
  "name_index (Some n) (cs @ [c]) =
     (case name_index (Some n) cs of Some i \<Rightarrow> Some i | None \<Rightarrow> if named n c then Some (length cs) else None)"
  by (induction cs) (auto split: option.split)

lemma name_index_same: "same_name m n \<Longrightarrow> name_index (Some m) cs = name_index (Some n) cs"
  by (induction cs) (simp_all add: named_same)

text \<open>The first item of a name, replaced by another one of that name.\<close>

lemma name_index_update:
  "name_index (Some n) cs = Some i \<Longrightarrow> named n c \<Longrightarrow> name_index (Some m) (cs[i := c]) = name_index (Some m) cs"
proof (induction cs arbitrary: i)
  case (Cons a cs)
  show ?case
  proof (cases "named n a")
    case True
    then have "named m a = named m c" using Cons.prems named_unique named_same by blast
    with True Cons.prems show ?thesis by auto
  next
    case False
    with Cons show ?thesis by auto
  qed
qed simp

lemma GetObjectItem_update:
  assumes "name_index (Some n) (child t) = Some i" and "named n c"
  shows "cJSON_GetObjectItem (Node f ((child t)[i := c])) m = (if same_name m n then Some c else cJSON_GetObjectItem t m)"
proof -
  have i: "i < length (child t)" "named n (child t ! i)" using name_index_SomeD [OF assms(1)] by simp_all
  have "j \<noteq> i" if "name_index (Some m) (child t) = Some j" "\<not> same_name m n" for j
    using name_index_SomeD [OF that(1)] i(2) named_unique that(2) by blast
  then show ?thesis
    using name_index_update [OF assms, of m] name_index_same [of m n "child t"] i(1) assms(1)
    by (cases "name_index (Some m) (child t)") (auto simp: cJSON_GetObjectItem_def)
qed

lemma GetObjectItem_append:
  assumes "named n c" and "cJSON_GetObjectItem t n = None"
  shows "cJSON_GetObjectItem (Node f (child t @ [c])) m = (if same_name m n then Some c else cJSON_GetObjectItem t m)"
proof -
  have n: "name_index (Some n) (child t) = None" using assms(2) by (simp add: cJSON_GetObjectItem_def)
  have c: "named m c = same_name m n" using assms(1) named_unique named_same by blast
  have j: "j < length (child t)" if "name_index (Some m) (child t) = Some j" for j using name_index_SomeD [OF that] by simp
  show ?thesis
    using n c j name_index_same [of m n "child t"]
    by (auto simp: cJSON_GetObjectItem_def name_index_append nth_append split: option.splits)
qed

lemma GetObjectItem_replace:
  "cJSON_GetObjectItem t n \<noteq> None \<Longrightarrow>
   cJSON_GetObjectItem (cJSON_ReplaceItemInObject t n c) m = (if same_name m n then Some (with_name n c) else cJSON_GetObjectItem t m)"
  using name_index_SomeD [of n "child t"] GetObjectItem_update [of n t _ "with_name n c" "own t" m]
  by (auto simp: cJSON_ReplaceItemInObject_def cJSON_ReplaceItemInArray_def cJSON_GetObjectItem_def [of t n] split: option.splits)

lemma GetObjectItem_add:
  "cJSON_GetObjectItem t n = None \<Longrightarrow>
   cJSON_GetObjectItem (cJSON_AddItemToObject t n c) m = (if same_name m n then Some (with_name n c) else cJSON_GetObjectItem t m)"
  using GetObjectItem_append [of n "with_name n c" t "own t" m]
  by (simp add: cJSON_AddItemToObject_def cJSON_AddItemToArray_def)

end
