(* ===== verification/CJson_Roundtrip.thy ===== *)
theory CJson_Roundtrip
  imports CJson
begin

text \<open>
  What is printed is parsed back: for the items whose strings are C strings and
  whose numbers are integers below 2 to the 53, the parser reads from the
  output of the printers, formatted or not, the item in the form that a parsed
  item has.
\<close>

section \<open>Numbers\<close>

definition digit_value :: "int \<Rightarrow> byte list \<Rightarrow> int" where
  "digit_value a ds = foldl (\<lambda>a d. a * 10 + (uint d - 48)) a ds"

lemma digit_value_simps [simp]:
  "digit_value a [] = a" "digit_value a (d # ds) = digit_value (a * 10 + (uint d - 48)) ds"
  "digit_value a (ds @ [d]) = digit_value a ds * 10 + (uint d - 48)"
  by (simp_all add: digit_value_def)

lemma digit_range: "is_digit d \<Longrightarrow> 0 \<le> uint d - 48 \<and> uint d - 48 \<le> 9"
  by (simp add: is_digit_def word_le_def)

lemma digit_value_mono: "list_all is_digit ds \<Longrightarrow> 0 \<le> a \<Longrightarrow> a \<le> digit_value a ds"
proof (induction ds arbitrary: a)
  case (Cons d ds)
  then have a: "a \<le> a * 10 + (uint d - 48)" using digit_range [of d] by simp
  with Cons.prems have "0 \<le> a * 10 + (uint d - 48)" by simp
  with Cons.IH [of "a * 10 + (uint d - 48)"] Cons.prems a show ?case by simp
qed simp

lemma digit_value_dec: "digit_value 0 (dec n) = int n"
proof (induction n rule: dec.induct)
  case (1 n)
  have d: "uint (48 + of_nat d :: byte) = 48 + int d" if "d < 10" for d
    using digit_byte [OF that] by (metis of_nat_add of_nat_numeral uint_nat)
  show ?case
  proof (cases "n < 10")
    case True
    then show ?thesis by (subst dec.simps) (simp add: d)
  next
    case False
    have "int (n div 10) * 10 + int (n mod 10) = int n" by (metis div_mult_mod_eq of_nat_add of_nat_mult of_nat_numeral)
    with False 1 show ?thesis by (subst dec.simps) (simp add: d)
  qed
qed

lemma scan_digits_exact:
  assumes "list_all is_digit ds" and "0 \<le> a" and "digit_value a ds < 2 ^ 53" and "\<not> is_digit c"
  shows "scan_digits (double_of_int a) (ds @ c # rest) = Some (double_of_int (digit_value a ds), length ds, c # rest)"
  using assms(1-3)
proof (induction ds arbitrary: a)
  case Nil
  with assms(4) show ?case by simp
next
  case (Cons d ds)
  let ?a = "a * 10 + (uint d - 48)"
  have d: "0 \<le> uint d - 48" "uint d - 48 \<le> 9" using digit_range [of d] Cons.prems by simp_all
  then have "0 \<le> ?a" using Cons.prems by simp
  then have "?a < 2 ^ 53" using digit_value_mono [of ds ?a] Cons.prems by simp
  with d Cons.prems have e: "exact_int a" "exact_int 10" "exact_int (a * 10)" "exact_int (uint d - 48)" "exact_int ?a"
    by (simp_all add: exact_int_def)
  have "double_add (double_mul (double_of_int a) (double_of_int 10)) (double_of_int (uint d - 48)) = double_of_int ?a"
    using double_mul_exact [OF e(1-3)] double_add_exact [OF e(3-5)] Cons.prems by simp
  with Cons.IH [of ?a] Cons.prems \<open>0 \<le> ?a\<close> show ?case by simp
qed

text \<open>What may follow a value in a text.\<close>

definition delimited :: "byte list \<Rightarrow> bool" where
  "delimited rest \<longleftrightarrow> rest \<noteq> [] \<and> hd rest \<in> {0, 10, 44, 93, 125}"

lemma delimited_Cons: "delimited rest \<Longrightarrow> \<exists>c s. rest = c # s \<and> \<not> is_digit c \<and> c \<notin> {46, 101, 69, 43, 45}"
  by (cases rest) (auto simp: delimited_def is_digit_def)

lemma double_of_int_small [simp]:
  "double_of_int 0 = Fin False 0" "double_of_int 1 = Fin False 1" "double_of_int (- 1) = Fin True 1"
  by (simp_all add: double_of_int_exact exact_int_def)

lemma fraction_exponent_none:
  assumes "delimited rest"
  shows "fraction_part n rest = Some (n, 0, rest)" and "exponent_part rest = Some (0, rest)"
  using delimited_Cons [OF assms] by (auto simp: fraction_part_def exponent_part_def)

lemma magnitude_exact:
  assumes "int n < 2 ^ 53" and "delimited rest"
  shows "do { (_, s) \<leftarrow> accept 48 (dec n @ rest); integer_part s } = Some (double_of_int (int n), rest)"
proof (cases "n = 0")
  case True
  then have "dec n = [48]" by (subst dec.simps) simp
  with True delimited_Cons [OF assms(2)] show ?thesis
    by (auto simp: accept_def integer_part_def is_digit_49)
next
  case False
  obtain c s where cs: "rest = c # s" "\<not> is_digit c" using delimited_Cons [OF assms(2)] by blast
  obtain d ds where ds: "dec n = d # ds" using dec_not_Nil [of n] by (cases "dec n") auto
  have d: "49 \<le> d" "is_digit d" using dec_hd [of n] False dec_digits [of n] ds by simp_all
  have "scan_digits (double_of_int 0) (dec n @ c # s) = Some (double_of_int (int n), length (dec n), c # s)"
    using scan_digits_exact [OF dec_digits [of n], of 0 c s] assms(1) cs by (simp only: digit_value_dec) simp
  with d ds cs show ?thesis
    by (auto simp: accept_def integer_part_def is_digit_def word_le_nat_alt)
qed

lemma parse_number_exact:
  assumes "exact_int i" and "delimited rest" and "pow_spec pow10"
  shows "parse_number pow10 item (sprintf_d i @ rest) =
    Parsed (item\<lparr>valuedouble := double_of_int i, valueint := int_of_double (double_of_int i), cj_type := cJSON_Number\<rparr>) rest"
proof -
  define n where "n = nat \<bar>i\<bar>"
  with assms(1) have n: "int n < 2 ^ 53" "exact_int (int n)" by (simp_all add: exact_int_def)
  obtain d ds where ds: "dec n = d # ds" using dec_not_Nil [of n] by (cases "dec n") auto
  have "is_digit d" using dec_digits [of n] ds by simp
  then have "d \<noteq> 45" by (auto simp: is_digit_def)
  with ds have a: "accept 45 (sprintf_d i @ rest) = Some (i < 0, dec n @ rest)"
    by (simp add: sprintf_d_def n_def [symmetric] accept_def minus_sign_def)
  have r: "round_double s (of_int (int n)) = Fin s (of_int (int n))" for s
    using round_double_of_int [of "int n" s] n by simp
  have m: "double_mul (double_mul (double_of_int (if i < 0 then - 1 else 1)) (double_of_int (int n))) (Fin False 1) = double_of_int i"
    unfolding double_of_int_exact [OF n(2)] double_of_int_exact [OF assms(1)]
    using r [of True] r [of False] by (cases "i < 0") (simp_all add: n_def)
  show ?thesis
    using magnitude_exact [OF n(1) assms(2)] m
    by (auto simp: parse_number_def a fraction_exponent_none [OF assms(2)] Let_def assms(3) [unfolded pow_spec_def] bind_eq_Some_conv)
qed


text \<open>The number an item holds when it is an integer that \<open>double\<close> is exact on.\<close>

definition integral :: "cJSON_fields \<Rightarrow> bool" where
  "integral f \<longleftrightarrow>
     (case valuedouble f of Fin s m \<Rightarrow> m = of_int \<lfloor>m\<rfloor> \<and> 0 \<le> m \<and> m < 2 ^ 53 \<and> (m = 0 \<longrightarrow> \<not> s) | _ \<Rightarrow> False) \<and>
     valueint f = int_of_double (valuedouble f)"

lemma integral_int:
  assumes "integral f"
  shows "\<exists>i. exact_int i \<and> valuedouble f = double_of_int i \<and> valueint f = int_of_double (double_of_int i)"
proof -
  from assms obtain s m where m: "valuedouble f = Fin s m" "m = of_int \<lfloor>m\<rfloor>" "0 \<le> m" "m < 2 ^ 53" "m = 0 \<longrightarrow> \<not> s"
    "valueint f = int_of_double (valuedouble f)"
    by (auto simp: integral_def split: double.splits)
  define j where "j = \<lfloor>m\<rfloor>"
  have j: "m = of_int j" "0 \<le> j" "j = 0 \<longrightarrow> \<not> s" using m by (auto simp: j_def)
  have "(of_int j :: rat) < of_int (2 ^ 53)" using m j by simp
  then have "j < 2 ^ 53" by (simp only: of_int_less_iff)
  define i where "i = (if s then - j else j)"
  have "exact_int i" "(i < 0) = s" "\<bar>i\<bar> = j" using j \<open>j < 2 ^ 53\<close> by (auto simp: i_def exact_int_def)
  then have "double_of_int i = Fin s m" using j by (simp add: double_of_int_exact)
  with m \<open>exact_int i\<close> show ?thesis by auto
qed

lemma integral_of_int: "exact_int i \<Longrightarrow> valuedouble f = double_of_int i \<Longrightarrow> valueint f = int_of_double (double_of_int i) \<Longrightarrow> integral f"
  using of_int_less_iff [of "\<bar>i\<bar>" "2 ^ 53", where 'a = rat] by (simp add: integral_def double_of_int_exact exact_int_def)

lemma double_sub_self: "exact_int i \<Longrightarrow> double_sub (double_of_int i) (double_of_int i) = Fin False 0"
  by (simp add: double_of_int_exact)

text \<open>An integer is printed with \<open>%.0f\<close> when it is not the one that \<open>valueint\<close> holds.\<close>

lemma print_number_f0:
  assumes "exact_int i" and "valuedouble f = double_of_int i"
    and "\<not> (double_le (double_fabs (double_sub (double_of_int (valueint f)) (double_of_int i))) DBL_EPSILON \<and>
      double_le (double_of_int i) (double_of_int INT_MAX) \<and> double_le (double_of_int INT_MIN) (double_of_int i))"
  shows "snd (print_number f) = sprintf_d i"
proof -
  have fl: "double_floor (double_of_int i) = double_of_int i"
    by (simp add: double_of_int_exact [OF assms(1)])
  obtain r where r: "double_of_rat (10 ^ 60) = Fin False r" "10 ^ 60 / 2 \<le> r"
    using round_double_bounds [of "10 ^ 60" False] by (auto simp: double_of_rat_def)
  have "(of_int \<bar>i\<bar> :: rat) < of_int (2 ^ 53)" using assms(1) unfolding exact_int_def by (simp only: of_int_less_iff)
  with r have "double_lt (double_fabs (double_of_int i)) (double_of_rat (10 ^ 60))"
    by (simp add: double_of_int_exact [OF assms(1)] double_lt_def)
  moreover have "sprintf_f0 (double_of_int i) = sprintf_d i"
    using round_even_of_int [of "\<bar>i\<bar>"] by (simp add: double_of_int_exact [OF assms(1)] sprintf_f0_def sprintf_d_def)
  moreover have "double_le (double_fabs (double_sub (double_floor (double_of_int i)) (double_of_int i))) DBL_EPSILON"
    by (simp add: fl double_sub_self [OF assms(1)] DBL_EPSILON_def)
  ultimately show ?thesis using assms(3) unfolding print_number_def assms(2) Let_def by auto
qed

lemma print_number_exact:
  assumes "exact_int i" and "valuedouble f = double_of_int i" and "valueint f = int_of_double (double_of_int i)"
  shows "snd (print_number f) = sprintf_d i"
proof (cases "INT_MIN \<le> i \<and> i \<le> INT_MAX")
  case True
  then have "valueint f = i" using assms by (simp add: int_of_double_of_int)
  moreover have "double_le (double_of_int i) (double_of_int INT_MAX)" "double_le (double_of_int INT_MIN) (double_of_int i)"
    using True by (simp_all add: double_of_int_exact [OF assms(1)] double_of_int_exact exact_int_def INT_MAX_def INT_MIN_def del: of_int_abs)
  ultimately show ?thesis by (simp add: print_number_def assms(2) double_sub_self [OF assms(1)] DBL_EPSILON_def Let_def)
next
  case False
  then have "\<not> (double_le (double_of_int i) (double_of_int INT_MAX) \<and> double_le (double_of_int INT_MIN) (double_of_int i))"
    by (auto simp: double_of_int_exact [OF assms(1)] double_of_int_exact exact_int_def INT_MAX_def INT_MIN_def)
  with print_number_f0 [OF assms(1,2)] show ?thesis by blast
qed

lemma print_number_stale:
  assumes "valuedouble f = double_of_int i" and "exact_int i" and "exact_int v" and "v \<noteq> i"
  shows "snd (print_number (f\<lparr>valueint := v\<rparr>)) = sprintf_d i"
proof -
  define m where "m = (of_int \<bar>v - i\<bar> :: rat)"
  have "(1 :: int) \<le> \<bar>v - i\<bar>" "\<bar>v - i\<bar> \<le> 2 ^ 54" using assms by (auto simp: exact_int_def)
  then have "1 \<le> m" "m \<le> of_int (2 ^ 54)" unfolding m_def by (simp_all only: of_int_1_le_iff of_int_le_iff)
  then have "1 \<le> m" "m \<le> 2 ^ 1000" by simp_all
  from round_double_bounds [OF this] obtain r where r: "round_double (v < i) m = Fin (v < i) r" "1 / 2 \<le> r"
    using \<open>1 \<le> m\<close> by fastforce
  have "double_sub (double_of_int v) (double_of_int i) = round_double (v < i) m"
    using assms(4) by (auto simp: double_of_int_exact [OF assms(2)] double_of_int_exact [OF assms(3)] m_def Let_def)
  with r have "\<not> double_le (double_fabs (double_sub (double_of_int v) (double_of_int i))) DBL_EPSILON"
    by (simp add: DBL_EPSILON_def)
  with print_number_f0 [OF assms(2), of "f\<lparr>valueint := v\<rparr>"] assms(1) show ?thesis by simp
qed

section \<open>Strings\<close>

lemma unat_ucast_byte: "unat (ucast c :: u32) = unat c" for c :: byte
  by (rule unat_ucast_up) simp

definition controls :: "byte list" where
  "controls = map of_nat [1..<32]"

lemma control_codes:
  "list_all (\<lambda>c. let h = hex_char (drop_bit 4 (ucast c)); l = hex_char (ucast c AND 15)
     in parse_hex4 [48, 48, h, l] = Some (ucast c) \<and> h \<notin> {34, 0, 92} \<and> l \<notin> {34, 0, 92}) controls"
  by code_simp

lemma in_controls: "c < 32 \<Longrightarrow> c \<noteq> 0 \<Longrightarrow> c \<in> set controls"
  unfolding controls_def set_map
  by (rule image_eqI [of _ _ "unat c"]) (auto simp: word_less_nat_alt Suc_le_eq unat_gt_0)

lemma hex_loop_append: "hex_loop k h s = Some u \<Longrightarrow> hex_loop k h (s @ r) = Some u"
  by (induction k h s rule: hex_loop.induct) (auto split: option.splits)

lemma utf8_ascii: "c < 0x80 \<Longrightarrow> utf8 (ucast c) = [c]" for c :: byte
  by (simp add: utf8_def word_less_nat_alt unat_ucast_byte firstByteMark_def) (rule bit_word_eqI, simp add: bit_simps)

lemma hex_control:
  fixes c :: byte
  assumes "c < 32" and "c \<noteq> 0"
  shows "unescape_u (48 # 48 # hex_char (drop_bit 4 (ucast c)) # hex_char (ucast c AND 15) # r) = Some ([c], r)"
    and "hex_char (drop_bit 4 (ucast c)) \<notin> {34, 0, 92}" and "hex_char (ucast c AND 15) \<notin> {34, 0, 92}"
proof -
  define h l where "h = hex_char (drop_bit 4 (ucast c))" and "l = hex_char (ucast c AND 15)"
  from control_codes in_controls [OF assms]
  have c: "parse_hex4 [48, 48, h, l] = Some (ucast c)" and hl: "h \<notin> {34, 0, 92}" "l \<notin> {34, 0, 92}"
    by (auto simp: list_all_iff Let_def h_def l_def)
  have n: "unat (ucast c :: u32) < 32" "unat (ucast c :: u32) \<noteq> 0"
    using assms by (simp_all add: word_less_nat_alt unat_ucast_byte unat_eq_0)
  have "unescape_u (48 # 48 # h # l # r) = Some ([c], r)"
    using hex_loop_append [OF c [unfolded parse_hex4_def], of r] n utf8_ascii [of c] assms
    by (auto simp: unescape_u_def parse_hex4_def word_le_nat_alt word_less_nat_alt)
  with hl show "unescape_u (48 # 48 # hex_char (drop_bit 4 (ucast c)) # hex_char (ucast c AND 15) # r) = Some ([c], r)"
    and "hex_char (drop_bit 4 (ucast c)) \<notin> {34, 0, 92}" and "hex_char (ucast c AND 15) \<notin> {34, 0, 92}"
    by (simp_all add: h_def l_def)
qed


text \<open>How one character is escaped.\<close>

definition escape_char :: "byte \<Rightarrow> byte list" where
  "escape_char c = escape [c]"

lemma escape_Cons: "c \<noteq> 0 \<Longrightarrow> escape (c # s) = escape_char c @ escape s"
  by (simp add: escape_char_def)

lemma escape_char_cases:
  assumes "c \<noteq> 0"
  obtains (plain) "escape_char c = [c]" "c \<noteq> 34" "c \<noteq> 92"
    | (short) e where "escape_char c = [92, e]" "\<And>s. unescape (e # s) = Some ([c], s)"
    | (control) "c < 32"
        "escape_char c = [92, 117, 48, 48, hex_char (drop_bit 4 (ucast c)), hex_char (ucast c AND 15)]"
proof (cases "c \<in> {92, 34, 8, 12, 10, 13, 9}")
  case True
  then show ?thesis by (elim insertE emptyE) (rule short, simp add: escape_char_def, simp)+
next
  case False
  show ?thesis
  proof (cases "31 < c")
    case True
    with False assms show ?thesis by (intro plain) (simp_all add: escape_char_def)
  next
    case c: False
    with False assms show ?thesis by (intro control) (simp_all add: escape_char_def word_less_nat_alt)
  qed
qed

lemma escape_char_scan:
  assumes "c \<noteq> 0"
  shows "\<exists>n \<ge> 1. \<forall>m. string_length s = Some m \<longrightarrow> string_length (escape_char c @ s) = Some (n + m)"
  using assms
proof (cases c rule: escape_char_cases)
  case control
  then show ?thesis using hex_control(2,3) [OF control(1) assms] by (intro exI [of _ 5]) simp
qed (use assms in \<open>auto intro!: exI [of _ 1]\<close>)

lemma escape_char_copy:
  assumes "c \<noteq> 0" and "1 \<le> room"
  shows "copy_string room (escape_char c @ s) = map_option (\<lambda>(out, r). (c # out, r)) (copy_string (room - 1) s)"
  using assms(1)
proof (cases c rule: escape_char_cases)
  case control
  then show ?thesis using hex_control(1) [OF control(1) assms(1)] assms(2) by simp
next
  case (short e)
  from short(2) [of s] assms(2) show ?thesis by (simp add: short(1) del: unescape.simps)
qed (use assms in simp)

lemma escape_scan: "0 \<notin> set s \<Longrightarrow> \<exists>n \<ge> length s. string_length (escape s @ 34 # r) = Some n"
proof (induction s)
  case (Cons c s)
  then obtain n where n: "length s \<le> n" "string_length (escape s @ 34 # r) = Some n" by auto
  from Cons obtain m where "1 \<le> m" "string_length (escape_char c @ escape s @ 34 # r) = Some (m + n)"
    using escape_char_scan [of c "escape s @ 34 # r"] n by force
  with n Cons.prems show ?case by (intro exI [of _ "m + n"]) (simp add: escape_Cons del: escape.simps)
qed simp

lemma escape_copy: "0 \<notin> set s \<Longrightarrow> length s < room \<Longrightarrow> copy_string room (escape s @ 34 # r) = Some (s, 34 # r)"
proof (induction s arbitrary: room)
  case (Cons c s)
  then show ?case by (simp add: escape_Cons escape_char_copy del: escape.simps)
qed simp

lemma c_str_id: "0 \<notin> set s \<Longrightarrow> c_str s = s"
  unfolding c_str_def by (rule takeWhile_eq_all_conv [THEN iffD2]) auto

lemma parse_string_escape:
  assumes "0 \<notin> set s"
  shows "parse_string item ([34] @ escape s @ [34] @ r) =
    Parsed (item\<lparr>valuestring := Some s, cj_type := cJSON_String\<rparr>) r"
proof -
  from escape_scan [OF assms] obtain n where "length s \<le> n" "string_length (escape s @ 34 # r) = Some n" by blast
  with escape_copy [OF assms, of "n + 1" r] assms show ?thesis by (simp add: parse_string_def c_str_id)
qed

section \<open>Trees\<close>

fun printable :: "cJSON \<Rightarrow> bool" where
  "printable (Node f cs) =
     (if cj_type f \<in> {cJSON_False, cJSON_True, cJSON_NULL} then True
      else if cj_type f = cJSON_Number then integral f
      else if cj_type f = cJSON_String then (case valuestring f of Some s \<Rightarrow> 0 \<notin> set s | None \<Rightarrow> False)
      else if cj_type f = cJSON_Array then list_all printable cs
      else if cj_type f = cJSON_Object
      then list_all (\<lambda>c. printable c \<and> (case cj_string (own c) of Some s \<Rightarrow> 0 \<notin> set s | None \<Rightarrow> False)) cs
      else False)"

text \<open>The item the parser makes: a new item with a name, and what its type needs.\<close>

definition blank :: "nat \<Rightarrow> byte list option \<Rightarrow> cJSON_fields" where
  "blank t name = cJSON_New_Item\<lparr>cj_type := t, cj_string := name\<rparr>"

fun canonical :: "byte list option \<Rightarrow> cJSON \<Rightarrow> cJSON" where
  "canonical name (Node f cs) =
     (let t = cj_type f; g = blank t name
      in if t = cJSON_True then Node (g\<lparr>valueint := 1\<rparr>) []
         else if t = cJSON_Number then Node (g\<lparr>valueint := valueint f, valuedouble := valuedouble f\<rparr>) []
         else if t = cJSON_String then Node (g\<lparr>valuestring := valuestring f\<rparr>) []
         else if t = cJSON_Array then Node g (map (canonical None) cs)
         else if t = cJSON_Object then Node g (map (\<lambda>c. canonical (cj_string (own c)) c) cs)
         else Node g [])"

lemmas type_defs = cJSON_False_def cJSON_True_def cJSON_NULL_def cJSON_Number_def cJSON_String_def cJSON_Array_def
  cJSON_Object_def

lemma blank_simps [simp]:
  "(blank t name)\<lparr>cj_type := u\<rparr> = blank u name" "cJSON_New_Item = blank 0 None"
  "cJSON_New_Item\<lparr>cj_type := u\<rparr> = blank u None" "(blank t name)\<lparr>cj_string := name'\<rparr> = blank t name'"
  "valuestring (blank t name) = None" "(blank t name)\<lparr>valuestring := None\<rparr> = blank t name"
  "cj_type (blank t name) = t" "cj_string (blank t name) = name" "valueint (blank t name) = 0"
  "valuedouble (blank t name) = Fin False 0"
  by (simp_all add: blank_def cJSON_New_Item_def)

definition spaces :: "byte list \<Rightarrow> bool" where
  "spaces w \<longleftrightarrow> list_all (\<lambda>c. c \<noteq> 0 \<and> c \<le> 32) w"

lemma skipping_spaces: "spaces w \<Longrightarrow> s \<noteq> [] \<Longrightarrow> \<not> (hd s \<noteq> 0 \<and> hd s \<le> 32) \<Longrightarrow> skipping (w @ s) f = f s"
proof (induction w)
  case Nil
  then show ?case by (cases s) (auto simp: skipping_def)
next
  case (Cons c w)
  then show ?case by (simp add: spaces_def skipping_def)
qed

lemmas skipping_none = skipping_spaces [where w = "[]", simplified spaces_def, simplified]

lemma spaces_simps [simp]: "spaces []" "spaces (v @ w) = (spaces v \<and> spaces w)" "spaces (tabs n)"
  "spaces (c # w) = (c \<noteq> 0 \<and> c \<le> 32 \<and> spaces w)"
  by (auto simp: spaces_def tabs_def list_all_iff)


lemma compose_array_Cons:
  "compose_array fmt (e # es) = e @ concat (map (\<lambda>e. [44] @ (if fmt then [32] else []) @ e) es)"
  by (induction es arbitrary: e) simp_all

definition member_text :: "bool \<Rightarrow> nat \<Rightarrow> byte list \<times> byte list \<Rightarrow> byte list" where
  "member_text fmt depth ne =
     (if fmt then tabs depth else []) @ fst ne @ [58] @ (if fmt then [9] else []) @ snd ne"

lemma compose_object_Cons:
  "compose_object fmt depth (m # ms) =
     member_text fmt depth m @ concat (map (\<lambda>m. [44] @ (if fmt then [10] else []) @ member_text fmt depth m) ms) @
     (if fmt then [10] else [])"
  by (induction ms arbitrary: m) (auto simp: member_text_def)

text \<open>\<open>readable pv e x\<close>: the text \<open>e\<close> is read as the item \<open>x\<close> by \<open>pv\<close>, up to a length.\<close>

definition readable :: "(cJSON_fields \<Rightarrow> byte list \<Rightarrow> cJSON outcome) \<Rightarrow> nat \<Rightarrow> byte list \<Rightarrow> (byte list option \<Rightarrow> cJSON) \<Rightarrow> bool" where
  "readable pv n e x \<longleftrightarrow> e \<noteq> [] \<and> 32 < hd e \<and> hd e \<notin> {93, 125} \<and>
     (\<forall>t name rest. delimited rest \<longrightarrow> length (e @ rest) < n \<longrightarrow> pv (blank t name) (e @ rest) = Parsed (x name) rest)"

lemma readableD:
  assumes "readable pv n e x" and "delimited rest" and "length (e @ rest) < n" and "spaces w"
  shows "skipping (w @ e @ rest) (pv (blank t name)) = Parsed (x name) rest"
proof -
  from assms(1) have e: "e \<noteq> []" "32 < hd e" by (simp_all add: readable_def)
  then have "skipping (w @ e @ rest) (pv (blank t name)) = pv (blank t name) (e @ rest)"
    by (intro skipping_spaces [OF assms(4)]) (simp_all add: not_le)
  with assms show ?thesis by (simp add: readable_def)
qed

lemma skipping_delimiter: "s \<noteq> [] \<Longrightarrow> hd s \<in> {44, 93, 125, 34, 58, 0} \<Longrightarrow> skipping s f = f s"
  by (rule skipping_none) auto

lemma elements_read:
  assumes "list_all2 (readable pv n) es xs" and "spaces sp"
  shows "length (concat (map (\<lambda>e. [44] @ sp @ e) es) @ 93 # rest) < n \<Longrightarrow>
    length (concat (map (\<lambda>e. [44] @ sp @ e) es) @ 93 # rest) < k \<Longrightarrow>
    parse_elements pv k ys (concat (map (\<lambda>e. [44] @ sp @ e) es) @ 93 # rest) = Parsed (ys @ map (\<lambda>x. x None) xs) rest"
  using assms(1)
proof (induction es xs arbitrary: k ys rule: list_all2_induct)
  case Nil
  then show ?case by (cases k) simp_all
next
  case (Cons e es x xs)
  obtain j where k: "k = Suc j" using Cons.prems by (cases k) auto
  let ?tail = "concat (map (\<lambda>e. [44] @ sp @ e) es) @ 93 # rest"
  have t: "?tail \<noteq> []" "hd ?tail \<in> {44, 93}" by (cases es; simp)+
  then have d: "delimited ?tail" by (auto simp: delimited_def)
  have l: "length (e @ ?tail) < n" "length ?tail < n" "length ?tail < j" using Cons.prems k by simp_all
  have sk: "skipping ?tail f = f ?tail" for f :: "byte list \<Rightarrow> cJSON list outcome"
    by (rule skipping_delimiter [OF t(1)]) (use t(2) in auto)
  show ?case
    using readableD [OF Cons.hyps(1) d l(1) assms(2), of 0 None] sk Cons.IH [OF l(2,3)] by (simp add: k)
qed

lemma list_all2_cases:
  assumes "list_all2 P es xs"
  obtains "es = []" "xs = []" | e es' x xs' where "es = e # es'" "xs = x # xs'" "P e x" "list_all2 P es' xs'"
  using assms by (cases es; cases xs) auto

lemma array_read:
  assumes "list_all2 (readable pv n) es xs" and "length (snd (print_array fmt es) @ rest) \<le> n" and "n \<le> k"
  shows "parse_array pv k (blank t name) (snd (print_array fmt es) @ rest) =
    Parsed (Node (blank cJSON_Array name) (map (\<lambda>x. x None) xs)) rest"
  using assms(1)
proof (cases rule: list_all2_cases)
  case 1
  have "skipping (93 # rest) f = f (93 # rest)" for f :: "byte list \<Rightarrow> cJSON outcome" by (rule skipping_delimiter) simp_all
  with 1 show ?thesis by (simp add: print_array_def parse_array_def)
next
  case (2 e es' x xs')
  let ?sp = "if fmt then [32] else [] :: byte list"
  let ?tail = "concat (map (\<lambda>e. [44] @ ?sp @ e) es') @ 93 # rest"
  have tx: "snd (print_array fmt es) @ rest = 91 # e @ ?tail" using 2(1) by (simp add: print_array_def compose_array_Cons)
  have t: "?tail \<noteq> []" "hd ?tail \<in> {44, 93}" by (cases es'; simp)+
  have l: "length (e @ ?tail) < n" "length ?tail < n" "length ?tail < k" using assms(2,3) unfolding tx by simp_all
  have sp: "spaces ?sp" by simp
  have d: "delimited ?tail" using t by (auto simp: delimited_def)
  have e: "e \<noteq> []" "32 < hd e" "hd e \<noteq> 93" using 2(3) by (simp_all add: readable_def)
  have s1: "skipping (e @ ?tail) f = f (e @ ?tail)" for f :: "byte list \<Rightarrow> cJSON outcome"
    using e by (intro skipping_none) (simp_all add: not_le)
  have s2: "skipping ?tail f = f ?tail" for f :: "byte list \<Rightarrow> cJSON list outcome"
    by (rule skipping_delimiter [OF t(1)]) (use t(2) in auto)
  from e obtain c e' where ce: "e = c # e'" "c \<noteq> 93" by (cases e) auto
  have "parse_array pv k (blank t name) (91 # e @ ?tail) =
    and_then (skipping (e @ ?tail) (pv (blank 0 None))) (\<lambda>x r. and_then (skipping r (parse_elements pv k [x]))
      (\<lambda>xs r. Parsed (Node (blank cJSON_Array name) xs) r))"
    unfolding parse_array_def using s1 ce by simp
  also have "\<dots> = Parsed (Node (blank cJSON_Array name) (map (\<lambda>x. x None) xs)) rest"
    using readableD [OF 2(3) d l(1), of "[]" 0 None] elements_read [OF 2(4) sp l(2,3), of "[x None]"] s2 2(2) by simp
  finally show ?thesis unfolding tx .
qed

text \<open>A member: its name, its text and the item.\<close>

definition member_readable ::
  "(cJSON_fields \<Rightarrow> byte list \<Rightarrow> cJSON outcome) \<Rightarrow> nat \<Rightarrow> byte list \<times> byte list \<Rightarrow> byte list \<times> (byte list option \<Rightarrow> cJSON) \<Rightarrow> bool" where
  "member_readable pv n ne sx \<longleftrightarrow>
     fst ne = [34] @ escape (fst sx) @ [34] \<and> 0 \<notin> set (fst sx) \<and> readable pv n (snd ne) (snd sx)"

lemma member_read:
  assumes "member_readable pv n ne sx" and "delimited rest" and "length (member_text fmt depth ne @ rest) \<le> n"
    and "spaces w" and "rest = v @ rest'" and "spaces v" and "rest' \<noteq> []" and "hd rest' \<in> {44, 125}"
  shows "skipping (w @ member_text fmt depth ne @ rest) (parse_member pv) = Parsed ((snd sx) (Some (fst sx))) rest'"
proof -
  define t u where "t = (if fmt then tabs depth else [])" and "u = (if fmt then [9] else [] :: byte list)"
  have tu: "spaces t" "spaces u" by (simp_all add: t_def u_def)
  let ?r = "58 # u @ snd ne @ rest"
  have nm: "fst ne = [34] @ escape (fst sx) @ [34]" "0 \<notin> set (fst sx)" and rd: "readable pv n (snd ne) (snd sx)"
    using assms(1) by (simp_all add: member_readable_def)
  have tx: "w @ member_text fmt depth ne @ rest = (w @ t) @ [34] @ escape (fst sx) @ [34] @ ?r"
    by (simp add: member_text_def nm t_def u_def)
  have l: "length (snd ne @ rest) < n" using assms(3) by (simp add: member_text_def)
  have s1: "skipping ((w @ t) @ [34] @ escape (fst sx) @ [34] @ ?r) f = f ([34] @ escape (fst sx) @ [34] @ ?r)"
    for f :: "byte list \<Rightarrow> cJSON outcome"
    using assms(4) tu by (intro skipping_spaces) simp_all
  have s2: "skipping ?r f = f ?r" for f :: "byte list \<Rightarrow> cJSON outcome" by (rule skipping_delimiter) simp_all
  have s3: "skipping rest f = f rest'" for f :: "byte list \<Rightarrow> cJSON outcome"
    unfolding assms(5) by (rule skipping_spaces [OF assms(6,7)]) (use assms(8) in auto)
  have b: "(blank 0 None)\<lparr>valuestring := Some nm, cj_type := cJSON_String, cj_string := Some nm, valuestring := None\<rparr>
      = blank cJSON_String (Some nm)" for nm unfolding blank_def cJSON_New_Item_def by simp
  show ?thesis
    unfolding tx s1 parse_member_def blank_simps parse_string_escape [OF nm(2)] and_then.simps s2
    using readableD [OF rd assms(2) l tu(2), of cJSON_String "Some (fst sx)"] by (simp add: b s3)
qed

text \<open>The text after a member, and the same after white space.\<close>

definition members_tail :: "bool \<Rightarrow> nat \<Rightarrow> byte list \<Rightarrow> (byte list \<times> byte list) list \<Rightarrow> byte list" where
  "members_tail fmt depth close ms =
     concat (map (\<lambda>m. [44] @ (if fmt then [10] else []) @ member_text fmt depth m) ms) @ close"

lemma members_tail_simps:
  "members_tail fmt depth close [] = close"
  "members_tail fmt depth close (m # ms) =
     44 # (if fmt then [10] else []) @ member_text fmt depth m @ members_tail fmt depth close ms"
  by (simp_all add: members_tail_def)

lemma member_tail_read:
  assumes "member_readable pv n ne sx" and "length (member_text fmt depth ne @ members_tail fmt depth (v @ 125 # rest) ms) \<le> n"
    and "spaces w" and "spaces v" and "v = [] \<or> hd v = 10"
  shows "skipping (w @ member_text fmt depth ne @ members_tail fmt depth (v @ 125 # rest) ms) (parse_member pv) =
    Parsed ((snd sx) (Some (fst sx))) (if ms = [] then 125 # rest else members_tail fmt depth (v @ 125 # rest) ms)"
proof (cases ms)
  case Nil
  have "delimited (v @ 125 # rest)" using assms(5) by (cases v) (auto simp: delimited_def)
  with Nil member_read [OF assms(1) _ _ assms(3), where v = v and rest' = "125 # rest" and rest = "v @ 125 # rest"] assms(2,4)
  show ?thesis by (simp add: members_tail_simps)
next
  case (Cons m ms')
  have "delimited (members_tail fmt depth (v @ 125 # rest) ms)" by (simp add: Cons members_tail_simps delimited_def)
  with Cons member_read [OF assms(1) _ assms(2,3), where v = "[]" and rest' = "members_tail fmt depth (v @ 125 # rest) ms"]
  show ?thesis by (simp add: members_tail_simps)
qed

lemma members_read:
  assumes "list_all2 (member_readable pv n) ms sxs" and v: "spaces v" "v = [] \<or> hd v = 10"
  shows "length (members_tail fmt depth (v @ 125 # rest) ms) \<le> n \<Longrightarrow>
    length (members_tail fmt depth (v @ 125 # rest) ms) < k \<Longrightarrow>
    parse_members pv k ys (if ms = [] then 125 # rest else members_tail fmt depth (v @ 125 # rest) ms) =
      Parsed (ys @ map (\<lambda>sx. (snd sx) (Some (fst sx))) sxs) rest"
  using assms(1)
proof (induction ms sxs arbitrary: k ys rule: list_all2_induct)
  case Nil
  then show ?case by (cases k) simp_all
next
  case (Cons m ms sx sxs)
  obtain j where k: "k = Suc j" using Cons.prems by (cases k) auto
  define nl where "nl = (if fmt then [10] else [] :: byte list)"
  have nl: "spaces nl" by (simp add: nl_def)
  let ?tail = "members_tail fmt depth (v @ 125 # rest) ms"
  have tx: "members_tail fmt depth (v @ 125 # rest) (m # ms) = 44 # nl @ member_text fmt depth m @ ?tail"
    by (simp add: members_tail_simps nl_def)
  have l: "length (member_text fmt depth m @ ?tail) \<le> n" "length ?tail \<le> n" "length ?tail < j"
    using Cons.prems k unfolding tx by simp_all
  show ?case
    using member_tail_read [OF Cons.hyps(1) l(1) nl v] Cons.IH [OF l(2,3)] unfolding tx by (simp add: k)
qed

lemma member_text_nonempty: "member_readable pv n m sx \<Longrightarrow>
  \<exists>w s. member_text fmt depth m @ r = w @ 34 # s \<and> spaces w"
  by (rule exI [of _ "if fmt then tabs depth else []"]) (auto simp: member_text_def member_readable_def)

lemma object_read:
  assumes "list_all2 (member_readable pv n) ms sxs" and "length (snd (print_object fmt depth ms) @ rest) \<le> n" and "n \<le> k"
  shows "parse_object pv k (blank t name) (snd (print_object fmt depth ms) @ rest) =
    Parsed (Node (blank cJSON_Object name) (map (\<lambda>sx. (snd sx) (Some (fst sx))) sxs)) rest"
  using assms(1)
proof (cases rule: list_all2_cases)
  case 1
  define w where "w = (if fmt then [10] @ tabs (depth - 1) else [])"
  have "spaces w" by (simp add: w_def)
  then have "skipping (w @ 125 # rest) f = f (125 # rest)" for f :: "byte list \<Rightarrow> cJSON outcome" by (rule skipping_spaces) simp_all
  then show ?thesis using 1 by (simp add: print_object_def parse_object_def w_def [symmetric])
next
  case (2 m ms' sx sxs')
  define nl v where "nl = (if fmt then [10] else [] :: byte list)" and "v = (if fmt then 10 # tabs depth else [])"
  define D where "D = depth + 1"
  have nl: "spaces nl" "spaces v" "v = [] \<or> hd v = 10" by (simp_all add: nl_def v_def)
  let ?tail = "members_tail fmt D (v @ 125 # rest) ms'"
  have tx: "snd (print_object fmt depth ms) @ rest = 123 # nl @ member_text fmt D m @ ?tail"
    using 2(1) by (auto simp: print_object_def compose_object_Cons members_tail_def nl_def v_def D_def Let_def)
  have l: "length (member_text fmt D m @ ?tail) \<le> n" "length ?tail \<le> n" "length ?tail < k"
    using assms(2,3) unfolding tx by simp_all
  obtain w s where ws: "member_text fmt D m @ ?tail = w @ 34 # s" "spaces w"
    using member_text_nonempty [OF 2(3)] by blast
  have s1: "skipping (nl @ member_text fmt D m @ ?tail) f = f (34 # s)" for f :: "byte list \<Rightarrow> cJSON outcome"
    unfolding ws(1) using skipping_spaces [of "nl @ w" "34 # s" f] nl ws(2) by simp
  have s2: "skipping (34 # s) f = f (34 # s)" for f :: "byte list \<Rightarrow> cJSON outcome"
    by (rule skipping_delimiter) simp_all
  have m: "parse_member pv (34 # s) = Parsed (snd sx (Some (fst sx))) (if ms' = [] then 125 # rest else ?tail)"
    using member_tail_read [OF 2(3) l(1) nl] unfolding s1 .
  show ?thesis
    unfolding tx parse_object_def using members_read [OF 2(4) nl(2,3) l(2,3), of "[snd sx (Some (fst sx))]"] 2(2)
    by (simp add: s1 s2 m)
qed

lemma parse_value_structure:
  "parse_value pow10 (Suc k) item (34 # s) = leaf (parse_string item (34 # s))"
  "parse_value pow10 (Suc k) item (91 # s) = parse_array (parse_value pow10 k) k item (91 # s)"
  "parse_value pow10 (Suc k) item (123 # s) = parse_object (parse_value pow10 k) k item (123 # s)"
  by (simp_all add: is_digit_def)

lemma number_start: "\<exists>c s. sprintf_d i = c # s \<and> (c = 45 \<or> is_digit c) \<and> 32 < c \<and> c \<notin> {93, 125, 110, 102, 116, 34}"
proof -
  obtain d ds where ds: "dec (nat \<bar>i\<bar>) = d # ds" using dec_not_Nil [of "nat \<bar>i\<bar>"] by (cases "dec (nat \<bar>i\<bar>)") auto
  have "is_digit d" using dec_digits [of "nat \<bar>i\<bar>"] ds by simp
  then have "is_digit d" "32 < d" "d \<notin> {93, 125, 110, 102, 116, 34}" by (auto simp: is_digit_def word_le_nat_alt word_less_nat_alt)
  with ds show ?thesis by (cases "i < 0") (simp_all add: sprintf_d_def)
qed

lemma parse_value_number:
  assumes "exact_int i" and "delimited rest" and "pow_spec pow10"
  shows "parse_value pow10 (Suc k) item (sprintf_d i @ rest) = leaf (parse_number pow10 item (sprintf_d i @ rest))"
proof -
  obtain c s where "sprintf_d i = c # s" "c = 45 \<or> is_digit c" "c \<notin> {93, 125, 110, 102, 116, 34}"
    using number_start [of i] by blast
  then show ?thesis by auto
qed

lemma readable_Suc:
  assumes "e \<noteq> []" and "32 < hd e" and "hd e \<notin> {93, 125}"
    and "\<And>k t name rest. delimited rest \<Longrightarrow> length (e @ rest) \<le> k \<Longrightarrow>
      parse_value pow10 (Suc k) (blank t name) (e @ rest) = Parsed (x name) rest"
  shows "readable (parse_value pow10 k) k e x"
proof (cases k)
  case 0
  with assms(1-3) show ?thesis by (simp add: readable_def)
next
  case (Suc j)
  with assms show ?thesis by (simp add: readable_def del: parse_value.simps)
qed

lemma value_read_leaf:
  assumes "pow_spec pow10" and "printable (Node f cs)" and "cj_type f \<notin> {cJSON_Array, cJSON_Object}"
  shows "\<exists>n e. print_value depth fmt (Node f cs) = Some (n, e) \<and>
    (\<forall>k. readable (parse_value pow10 k) k e (\<lambda>name. canonical name (Node f cs)))"
proof -
  consider "cj_type f \<in> {cJSON_False, cJSON_True, cJSON_NULL}" | "cj_type f = cJSON_Number" "integral f"
    | s where "cj_type f = cJSON_String" "valuestring f = Some s" "0 \<notin> set s"
    using assms(2,3) by (auto simp: type_defs split: if_splits option.splits)
  then show ?thesis
  proof cases
    case 1
    then show ?thesis
      by (elim insertE emptyE) (auto simp: type_defs strdup_def intro!: readable_Suc)
  next
    case 2
    from integral_int [OF 2(2)] obtain i where i: "exact_int i" "valuedouble f = double_of_int i"
      "valueint f = int_of_double (double_of_int i)" by blast
    have "print_value depth fmt (Node f cs) = Some (fst (print_number f), sprintf_d i)"
      using 2(1) print_number_exact [OF i] by (simp add: type_defs prod_eq_iff)
    moreover have "readable (parse_value pow10 k) k (sprintf_d i) (\<lambda>name. canonical name (Node f cs))" for k
    proof (rule readable_Suc)
      show "sprintf_d i \<noteq> []" "32 < hd (sprintf_d i)" "hd (sprintf_d i) \<notin> {93, 125}" using number_start [of i] by auto
      fix k t name and rest :: "byte list" assume "delimited rest"
      then show "parse_value pow10 (Suc k) (blank t name) (sprintf_d i @ rest) = Parsed (canonical name (Node f cs)) rest"
        using 2(1) i parse_number_exact [of i rest pow10 "blank t name"] assms(1)
        by (simp add: parse_value_number [of i rest pow10] leaf_def type_defs del: parse_value.simps)
    qed
    ultimately show ?thesis by blast
  next
    case (3 s)
    have "readable (parse_value pow10 k) k ([34] @ escape s @ [34]) (\<lambda>name. canonical name (Node f cs))" for k
    proof (rule readable_Suc)
      fix k t name and rest :: "byte list"
      show "parse_value pow10 (Suc k) (blank t name) (([34] @ escape s @ [34]) @ rest) = Parsed (canonical name (Node f cs)) rest"
        using 3 parse_string_escape [OF 3(3), of "blank t name" rest]
        by (simp add: parse_value_structure leaf_def type_defs del: parse_value.simps)
    qed simp_all
    with 3 show ?thesis by (auto simp: type_defs print_string_def)
  qed
qed

lemma entries_read:
  assumes "\<And>c. c \<in> set cs \<Longrightarrow> \<exists>n e. print_value depth fmt c = Some (n, e) \<and>
    (\<forall>k. readable (parse_value pow10 k) k e (\<lambda>name. canonical name c))"
  shows "\<exists>es. print_entries depth fmt cs = Some es \<and> length es = length cs \<and>
    (\<forall>k. list_all2 (readable (parse_value pow10 k) k) es (map (\<lambda>c name. canonical name c) cs))"
  using assms
proof (induction cs)
  case (Cons c cs)
  then obtain n e es where "print_value depth fmt c = Some (n, e)" "\<forall>k. readable (parse_value pow10 k) k e (\<lambda>name. canonical name c)"
    "print_entries depth fmt cs = Some es" "length es = length cs"
    "\<forall>k. list_all2 (readable (parse_value pow10 k) k) es (map (\<lambda>c name. canonical name c) cs)"
    by (metis list.set_intros(1,2))
  then show ?case by simp
qed simp

lemma members_of_entries:
  assumes "list_all2 (readable pv k) es (map (\<lambda>c name. canonical name c) cs)"
    and "list_all (\<lambda>c. case cj_string (own c) of Some s \<Rightarrow> 0 \<notin> set s | None \<Rightarrow> False) cs"
  shows "list_all2 (member_readable pv k)
    (zip (map (\<lambda>c. snd (print_string_ptr (cj_string (own c)))) cs) es)
    (map (\<lambda>c. (the (cj_string (own c)), \<lambda>name. canonical name c)) cs)"
  using assms
proof (induction cs arbitrary: es)
  case (Cons c cs)
  then show ?case by (cases es) (auto simp: member_readable_def split: option.splits)
qed simp

lemma print_heads: "\<exists>s. snd (print_array fmt es) = 91 # s" "\<exists>s. snd (print_object fmt depth ms) = 123 # s"
  by (simp_all add: print_array_def print_object_def Let_def)

lemma value_read:
  assumes pow10: "pow_spec pow10"
  shows "printable t \<Longrightarrow> \<exists>n e. print_value depth fmt t = Some (n, e) \<and>
    (\<forall>k. readable (parse_value pow10 k) k e (\<lambda>name. canonical name t))"
proof (induction t arbitrary: depth)
  case (Node f cs)
  consider "cj_type f \<notin> {cJSON_Array, cJSON_Object}" | "cj_type f = cJSON_Array" | "cj_type f = cJSON_Object" by blast
  then show ?case
  proof cases
    case 1
    with value_read_leaf [OF pow10 Node.prems] show ?thesis by blast
  next
    case 2
    then have "\<forall>c \<in> set cs. printable c" using Node.prems by (simp add: type_defs list_all_iff)
    with Node.IH entries_read [of cs "depth + 1" fmt pow10] obtain es where es: "print_entries (depth + 1) fmt cs = Some es"
      "\<And>k. list_all2 (readable (parse_value pow10 k) k) es (map (\<lambda>c name. canonical name c) cs)" by blast
    have "readable (parse_value pow10 k) k (snd (print_array fmt es)) (\<lambda>name. canonical name (Node f cs))" for k
    proof (rule readable_Suc)
      fix k t name and rest :: "byte list" assume "length (snd (print_array fmt es) @ rest) \<le> k"
      from array_read [OF es(2) this order_refl, of t name] 2
      show "parse_value pow10 (Suc k) (blank t name) (snd (print_array fmt es) @ rest) = Parsed (canonical name (Node f cs)) rest"
        using print_heads(1) [of fmt es] by (auto simp: parse_value_structure type_defs comp_def simp del: parse_value.simps)
    qed (use print_heads(1) [of fmt es] in auto)
    with 2 es(1) show ?thesis by (auto simp: type_defs prod_eq_iff)
  next
    case 3
    then have p: "\<forall>c \<in> set cs. printable c" "list_all (\<lambda>c. case cj_string (own c) of Some s \<Rightarrow> 0 \<notin> set s | None \<Rightarrow> False) cs"
      using Node.prems by (simp_all add: type_defs list_all_iff)
    with Node.IH entries_read [of cs "depth + 1" fmt pow10] obtain es where es: "print_entries (depth + 1) fmt cs = Some es"
      "\<And>k. list_all2 (readable (parse_value pow10 k) k) es (map (\<lambda>c name. canonical name c) cs)" by blast
    let ?ms = "zip (map (\<lambda>c. snd (print_string_ptr (cj_string (own c)))) cs) es"
    have names: "Some (the (cj_string (own c))) = cj_string (own c)" if "c \<in> set cs" for c
      using p(2) that by (auto simp: list_all_iff split: option.splits)
    have "readable (parse_value pow10 k) k (snd (print_object fmt depth ?ms)) (\<lambda>name. canonical name (Node f cs))" for k
    proof (rule readable_Suc)
      fix k t name and rest :: "byte list" assume "length (snd (print_object fmt depth ?ms) @ rest) \<le> k"
      from object_read [OF members_of_entries [OF es(2) p(2)] this order_refl, of t name] 3 names
      show "parse_value pow10 (Suc k) (blank t name) (snd (print_object fmt depth ?ms) @ rest) = Parsed (canonical name (Node f cs)) rest"
        using print_heads(2) [of fmt depth ?ms]
        by (auto simp: parse_value_structure type_defs comp_def simp del: parse_value.simps cong: map_cong)
    qed (use print_heads(2) [of fmt depth ?ms] in auto)
    with 3 es(1) show ?thesis by (auto simp: type_defs prod_eq_iff)
  qed
qed

lemma print_parse:
  assumes "pow_spec pow10" and "printable t"
  shows "\<exists>s. (if fmt then cJSON_Print t else cJSON_PrintUnformatted t) = Some s \<and> s \<noteq> [] \<and> hd s \<noteq> 0 \<and>
    cJSON_Parse pow10 (s @ [0]) = Parsed (canonical None t) [0]"
proof -
  from value_read [OF assms, of 0 fmt] obtain n e where e: "print_value 0 fmt t = Some (n, e)"
    and r: "\<And>k. readable (parse_value pow10 k) k e (\<lambda>name. canonical name t)" by blast
  have "skipping (e @ [0]) (parse_value pow10 (length (e @ [0]) + 1) (blank 0 None)) = Parsed (canonical None t) [0]"
    using readableD [OF r, of "[0]" _ "[]"] by (simp add: delimited_def del: parse_value.simps)
  with e r [of 0] show ?thesis
    by (auto simp: cJSON_Print_def cJSON_PrintUnformatted_def cJSON_Parse_def cJSON_ParseWithOpts_def readable_def simp del: parse_value.simps)
qed


definition sample_tree :: cJSON where
  "sample_tree = Node (blank cJSON_Object None)
     [Node ((blank cJSON_Number (Some [116, 115]))\<lparr>valuedouble := double_of_int 1500000000000, valueint := - 2147483648\<rparr>) [],
      Node (blank cJSON_Array (Some [97]))
        [Node ((blank cJSON_String None)\<lparr>valuestring := Some [34, 10, 200]\<rparr>) [], Node (blank cJSON_True None) []]]"


text \<open>A function for the examples: the power of ten, rounded once.\<close>

definition rounded_pow10 :: "double \<Rightarrow> double" where
  "rounded_pow10 d = (case double_trunc d of Some e \<Rightarrow> double_of_rat (10 powi e) | None \<Rightarrow> d)"

lemma rounded_pow10_spec: "pow_spec rounded_pow10"
  using double_of_int_small(2) by (simp add: pow_spec_def rounded_pow10_def double_of_int_def)

lemma sample_tree_printable: "printable sample_tree"
  unfolding sample_tree_def blank_def cJSON_New_Item_def
  by (simp add: type_defs integral_def double_of_int_exact exact_int_def int_of_double_def INT_MIN_def INT_MAX_def)


end
