(* ===== verification/Json_Wrapper.thy ===== *)
theory Json_Wrapper
  imports CJson_Objects CJson_Roundtrip
begin

text \<open>
  \<open>JsonWrapper\<close> (src/turnserver/new_elbs/json_wrapper.h, json_wrapper.cc): an item with a
  flag that says who deletes it.  (src/turnserver/thrift/turnserver holds the same
  files.)  The item of a wrapper is its tree; a wrapper that \<open>getObject\<close>, \<open>getArray\<close> or
  \<open>getChild\<close> returns, which does not own its item, has the tree as it is at that time.
  \<open>getNext\<close> and \<open>getPrev\<close> leave the tree of the wrapper and are not modelled, neither
  are the two functions on files.  A name or a string argument is \<open>None\<close> for a null
  pointer.  A parse without a defined result gives \<open>None\<close>.
\<close>

record json_wrapper =
  m_root :: "cJSON option"
  m_owner :: bool

section \<open>Life cycle\<close>

definition JsonWrapper_new :: json_wrapper where
  "JsonWrapper_new = \<lparr>m_root = None, m_owner = True\<rparr>"

definition JsonWrapper_of_node :: "cJSON option \<Rightarrow> bool \<Rightarrow> json_wrapper" where
  "JsonWrapper_of_node node owner = \<lparr>m_root = node, m_owner = owner\<rparr>"

definition JsonWrapper_parse :: "(double \<Rightarrow> double) \<Rightarrow> byte list option \<Rightarrow> json_wrapper option" where
  "JsonWrapper_parse pow10 input =
     (case input of None \<Rightarrow> Some JsonWrapper_new
      | Some s \<Rightarrow>
          if s = [] then None
          else if hd s = 0 then Some JsonWrapper_new
          else case cJSON_Parse pow10 s of
            Parsed c e \<Rightarrow> Some \<lparr>m_root = Some c, m_owner = True\<rparr>
          | Failed e \<Rightarrow> Some JsonWrapper_new
          | _ \<Rightarrow> None)"

definition JsonWrapper_of_input :: "(double \<Rightarrow> double) \<Rightarrow> byte list option \<Rightarrow> json_wrapper option" where
  "JsonWrapper_of_input pow10 input = JsonWrapper_parse pow10 input"

definition JsonWrapper_assign_node :: "cJSON option \<Rightarrow> json_wrapper" where
  "JsonWrapper_assign_node node = \<lparr>m_root = node, m_owner = True\<rparr>"

definition isValid :: "json_wrapper \<Rightarrow> bool" where
  "isValid w \<longleftrightarrow> m_root w \<noteq> None"

definition duplicate :: "json_wrapper \<Rightarrow> cJSON option" where
  "duplicate w = map_option (cJSON_Duplicate True) (m_root w)"

text \<open>The assignments; \<open>same\<close> is \<open>this == &rhs\<close>.  The moves return what is left in \<open>rhs\<close>.\<close>

definition JsonWrapper_copy_assign :: "bool \<Rightarrow> json_wrapper \<Rightarrow> json_wrapper \<Rightarrow> json_wrapper" where
  "JsonWrapper_copy_assign same w rhs = (if same then w else \<lparr>m_root = duplicate rhs, m_owner = True\<rparr>)"

definition JsonWrapper_move_assign :: "bool \<Rightarrow> json_wrapper \<Rightarrow> json_wrapper \<Rightarrow> json_wrapper \<times> json_wrapper" where
  "JsonWrapper_move_assign same w rhs =
     (if same then (w, rhs)
      else (\<lparr>m_root = m_root rhs, m_owner = m_owner rhs\<rparr>, \<lparr>m_root = None, m_owner = False\<rparr>))"

definition JsonWrapper_copy :: "json_wrapper \<Rightarrow> json_wrapper" where
  "JsonWrapper_copy rhs = JsonWrapper_copy_assign False JsonWrapper_new rhs"

definition JsonWrapper_move :: "json_wrapper \<Rightarrow> json_wrapper \<times> json_wrapper" where
  "JsonWrapper_move rhs = JsonWrapper_move_assign False JsonWrapper_new rhs"

definition setObjectType :: json_wrapper where
  "setObjectType = JsonWrapper_assign_node (Some cJSON_CreateObject)"

definition setArrayType :: json_wrapper where
  "setArrayType = JsonWrapper_assign_node (Some cJSON_CreateArray)"

definition JsonWrapper_take :: "json_wrapper \<Rightarrow> json_wrapper \<times> json_wrapper" where
  "JsonWrapper_take w =
     (if m_owner w then (\<lparr>m_root = m_root w, m_owner = True\<rparr>, \<lparr>m_root = None, m_owner = False\<rparr>)
      else (\<lparr>m_root = map_option (cJSON_Duplicate True) (m_root w), m_owner = True\<rparr>, w))"

definition JsonWrapper_release :: "json_wrapper \<Rightarrow> cJSON option \<times> json_wrapper" where
  "JsonWrapper_release w = (if m_owner w then (m_root w, \<lparr>m_root = None, m_owner = False\<rparr>) else (None, w))"

section \<open>Lookup\<close>

definition findNode :: "byte list option \<Rightarrow> json_wrapper \<Rightarrow> cJSON option" where
  "findNode name w =
     (case (m_root w, name) of
        (Some rt, Some n) \<Rightarrow> if n \<noteq> [] then cJSON_GetObjectItem rt n else None
      | _ \<Rightarrow> None)"

definition findNode_type :: "byte list option \<Rightarrow> nat \<Rightarrow> json_wrapper \<Rightarrow> cJSON option" where
  "findNode_type name t w =
     (case findNode name w of Some c \<Rightarrow> if cj_type (own c) = t then Some c else None | None \<Rightarrow> None)"

definition findNode_index :: "int \<Rightarrow> json_wrapper \<Rightarrow> cJSON option" where
  "findNode_index index w = Option.bind (m_root w) (\<lambda>rt. cJSON_GetArrayItem rt index)"

definition getObject :: "byte list option \<Rightarrow> json_wrapper \<Rightarrow> json_wrapper" where
  "getObject name w = JsonWrapper_of_node (findNode_type name cJSON_Object w) False"

definition getArray :: "byte list option \<Rightarrow> json_wrapper \<Rightarrow> json_wrapper" where
  "getArray name w = JsonWrapper_of_node (findNode_type name cJSON_Array w) False"

text \<open>\<open>getArray(int)\<close> dereferences the item without a test.\<close>

definition getArray_index :: "int \<Rightarrow> json_wrapper \<Rightarrow> json_wrapper option" where
  "getArray_index index w =
     do { c \<leftarrow> findNode_index index w;
          Some (if cj_type (own c) = cJSON_Array then JsonWrapper_of_node (Some c) False else JsonWrapper_new) }"

definition getChild :: "json_wrapper \<Rightarrow> json_wrapper" where
  "getChild w =
     JsonWrapper_of_node (case m_root w of Some rt \<Rightarrow> (case child rt of c # _ \<Rightarrow> Some c | [] \<Rightarrow> None) | None \<Rightarrow> None) False"

definition getArraySize :: "json_wrapper \<Rightarrow> nat" where
  "getArraySize w = (case m_root w of Some rt \<Rightarrow> cJSON_GetArraySize rt | None \<Rightarrow> 0)"

definition getName :: "json_wrapper \<Rightarrow> byte list option" where
  "getName w = Option.bind (m_root w) (\<lambda>rt. cj_string (own rt))"

text \<open>The getters by name, by index, and of the root.\<close>

definition getIntValue_name :: "byte list option \<Rightarrow> int \<Rightarrow> json_wrapper \<Rightarrow> int" where
  "getIntValue_name name defValue w =
     (case findNode_type name cJSON_Number w of Some c \<Rightarrow> valueint (own c) | None \<Rightarrow> defValue)"

definition getIntValue_index :: "int \<Rightarrow> int \<Rightarrow> json_wrapper \<Rightarrow> int" where
  "getIntValue_index index defValue w =
     (case findNode_index index w of Some c \<Rightarrow> valueint (own c) | None \<Rightarrow> defValue)"

definition getUIntValue_name :: "byte list option \<Rightarrow> u32 \<Rightarrow> json_wrapper \<Rightarrow> u32" where
  "getUIntValue_name name defValue w =
     (case findNode_type name cJSON_Number w of Some c \<Rightarrow> uint_of_double (valuedouble (own c)) | None \<Rightarrow> defValue)"

definition getUIntValue_index :: "int \<Rightarrow> u32 \<Rightarrow> json_wrapper \<Rightarrow> u32" where
  "getUIntValue_index index defValue w =
     (case findNode_index index w of Some c \<Rightarrow> uint_of_double (valuedouble (own c)) | None \<Rightarrow> defValue)"

text \<open>The \<open>tryGet\<close> functions return their result and the new value of their reference argument.\<close>

definition tryGetIntValue :: "byte list option \<Rightarrow> int \<Rightarrow> json_wrapper \<Rightarrow> bool \<times> int" where
  "tryGetIntValue name val w =
     (case findNode_type name cJSON_Number w of None \<Rightarrow> (False, val) | Some c \<Rightarrow> (True, valueint (own c)))"

definition tryGetUIntValue :: "byte list option \<Rightarrow> u32 \<Rightarrow> json_wrapper \<Rightarrow> bool \<times> u32" where
  "tryGetUIntValue name val w =
     (case findNode_type name cJSON_Number w of None \<Rightarrow> (False, val)
      | Some c \<Rightarrow> (True, uint_of_double (valuedouble (own c))))"

definition tryGetStringValue :: "byte list option \<Rightarrow> byte list \<Rightarrow> json_wrapper \<Rightarrow> bool \<times> byte list" where
  "tryGetStringValue name val w =
     (case findNode_type name cJSON_String w of None \<Rightarrow> (False, val)
      | Some c \<Rightarrow> (True, case valuestring (own c) of Some s \<Rightarrow> s | None \<Rightarrow> val))"

definition getDoubleValue_name :: "byte list option \<Rightarrow> double \<Rightarrow> json_wrapper \<Rightarrow> double" where
  "getDoubleValue_name name defValue w =
     (case findNode_type name cJSON_Number w of Some c \<Rightarrow> valuedouble (own c) | None \<Rightarrow> defValue)"

definition getDoubleValue_index :: "int \<Rightarrow> double \<Rightarrow> json_wrapper \<Rightarrow> double" where
  "getDoubleValue_index index defValue w =
     (case findNode_index index w of Some c \<Rightarrow> valuedouble (own c) | None \<Rightarrow> defValue)"

definition getStringValue_name :: "byte list option \<Rightarrow> byte list option \<Rightarrow> json_wrapper \<Rightarrow> byte list option" where
  "getStringValue_name name defValue w =
     (case findNode_type name cJSON_String w of Some c \<Rightarrow> valuestring (own c) | None \<Rightarrow> defValue)"

definition getStringValue_index :: "int \<Rightarrow> byte list option \<Rightarrow> json_wrapper \<Rightarrow> byte list option" where
  "getStringValue_index index defValue w =
     (case findNode_index index w of Some c \<Rightarrow> valuestring (own c) | None \<Rightarrow> defValue)"

definition root_type :: "nat \<Rightarrow> json_wrapper \<Rightarrow> bool" where
  "root_type t w \<longleftrightarrow> (case m_root w of Some rt \<Rightarrow> cj_type (own rt) = t | None \<Rightarrow> False)"

definition isObject :: "json_wrapper \<Rightarrow> bool" where "isObject w \<longleftrightarrow> root_type cJSON_Object w"
definition isString :: "json_wrapper \<Rightarrow> bool" where "isString w \<longleftrightarrow> root_type cJSON_String w"
definition isArray :: "json_wrapper \<Rightarrow> bool" where "isArray w \<longleftrightarrow> root_type cJSON_Array w"
definition isInt :: "json_wrapper \<Rightarrow> bool" where "isInt w \<longleftrightarrow> root_type cJSON_Number w"
definition isUInt :: "json_wrapper \<Rightarrow> bool" where "isUInt w \<longleftrightarrow> isInt w"
definition isDouble :: "json_wrapper \<Rightarrow> bool" where "isDouble w \<longleftrightarrow> isInt w"

definition getIntValue :: "int \<Rightarrow> json_wrapper \<Rightarrow> int" where
  "getIntValue defValue w = (if isInt w then valueint (own (the (m_root w))) else defValue)"

definition getUIntValue :: "u32 \<Rightarrow> json_wrapper \<Rightarrow> u32" where
  "getUIntValue defValue w = (if isUInt w then uint_of_double (valuedouble (own (the (m_root w)))) else defValue)"

definition getDoubleValue :: "double \<Rightarrow> json_wrapper \<Rightarrow> double" where
  "getDoubleValue defValue w = (if isDouble w then valuedouble (own (the (m_root w))) else defValue)"

definition getStringValue :: "byte list option \<Rightarrow> json_wrapper \<Rightarrow> byte list option" where
  "getStringValue defValue w = (if isString w then valuestring (own (the (m_root w))) else defValue)"

text \<open>What an item says as a boolean.\<close>

definition bool_of_item :: "cJSON option \<Rightarrow> bool option" where
  "bool_of_item node =
     (case node of None \<Rightarrow> None
      | Some c \<Rightarrow> if cj_type (own c) = cJSON_True then Some True
                 else if cj_type (own c) = cJSON_False then Some False else None)"

definition getBooleanValue :: "bool \<Rightarrow> json_wrapper \<Rightarrow> bool" where
  "getBooleanValue defValue w = (case bool_of_item (m_root w) of Some b \<Rightarrow> b | None \<Rightarrow> defValue)"

definition getBooleanValue_name :: "byte list option \<Rightarrow> bool \<Rightarrow> json_wrapper \<Rightarrow> bool" where
  "getBooleanValue_name name defValue w = (case bool_of_item (findNode name w) of Some b \<Rightarrow> b | None \<Rightarrow> defValue)"

definition getBooleanValue_index :: "int \<Rightarrow> bool \<Rightarrow> json_wrapper \<Rightarrow> bool" where
  "getBooleanValue_index index defValue w = (case bool_of_item (findNode_index index w) of Some b \<Rightarrow> b | None \<Rightarrow> defValue)"

definition tryGetBooleanValue :: "byte list option \<Rightarrow> bool \<Rightarrow> json_wrapper \<Rightarrow> bool \<times> bool" where
  "tryGetBooleanValue name val w =
     (case findNode name w of None \<Rightarrow> (False, val)
      | Some c \<Rightarrow> (True, case bool_of_item (Some c) of Some b \<Rightarrow> b | None \<Rightarrow> val))"

text \<open>The tests of the type of an item.\<close>

definition isNull_name :: "byte list option \<Rightarrow> json_wrapper \<Rightarrow> bool" where
  "isNull_name name w \<longleftrightarrow> findNode_type name cJSON_NULL w \<noteq> None"

definition isString_name :: "byte list option \<Rightarrow> json_wrapper \<Rightarrow> bool" where
  "isString_name name w \<longleftrightarrow> findNode_type name cJSON_String w \<noteq> None"

definition isNumber_name :: "byte list option \<Rightarrow> json_wrapper \<Rightarrow> bool" where
  "isNumber_name name w \<longleftrightarrow> findNode_type name cJSON_Number w \<noteq> None"

definition isObject_name :: "byte list option \<Rightarrow> json_wrapper \<Rightarrow> bool" where
  "isObject_name name w \<longleftrightarrow> findNode_type name cJSON_Object w \<noteq> None"

definition isArray_name :: "byte list option \<Rightarrow> json_wrapper \<Rightarrow> bool" where
  "isArray_name name w \<longleftrightarrow> findNode_type name cJSON_Array w \<noteq> None"

definition isBoolean :: "json_wrapper \<Rightarrow> bool" where
  "isBoolean w \<longleftrightarrow> bool_of_item (m_root w) \<noteq> None"

definition isBoolean_name :: "byte list option \<Rightarrow> json_wrapper \<Rightarrow> bool" where
  "isBoolean_name name w \<longleftrightarrow> bool_of_item (findNode name w) \<noteq> None"

definition isBoolean_index :: "int \<Rightarrow> json_wrapper \<Rightarrow> bool" where
  "isBoolean_index index w \<longleftrightarrow> bool_of_item (findNode_index index w) \<noteq> None"

text \<open>\<open>isNull\<close>, \<open>isString\<close>, \<open>isNumber\<close>, \<open>isObject\<close> and \<open>isArray\<close> by index, for the type they name.\<close>

definition is_type_index :: "nat \<Rightarrow> int \<Rightarrow> json_wrapper \<Rightarrow> bool" where
  "is_type_index t index w \<longleftrightarrow>
     (case findNode_index index w of Some c \<Rightarrow> cj_type (own c) = t | None \<Rightarrow> False)"

definition hasNode :: "byte list option \<Rightarrow> json_wrapper \<Rightarrow> bool" where
  "hasNode name w \<longleftrightarrow> findNode name w \<noteq> None"

section \<open>Changes\<close>

text \<open>The first item of that name, changed in place.\<close>

definition update_named :: "byte list \<Rightarrow> (cJSON_fields \<Rightarrow> cJSON_fields) \<Rightarrow> cJSON \<Rightarrow> cJSON" where
  "update_named name g object =
     (case name_index (Some name) (child object) of
        Some i \<Rightarrow> Node (own object) ((child object)[i := Node (g (own (child object ! i))) (child (child object ! i))])
      | None \<Rightarrow> object)"

text \<open>
  The common shape of the setters by name: nothing without an item or a name;
  otherwise \<open>change\<close> the item that is found, or append \<open>item\<close>.
\<close>

definition set_named ::
  "byte list option \<Rightarrow> (byte list \<Rightarrow> cJSON \<Rightarrow> cJSON \<Rightarrow> cJSON) \<Rightarrow> cJSON \<Rightarrow> json_wrapper \<Rightarrow> json_wrapper" where
  "set_named name change item w =
     (case (m_root w, name) of
        (Some rt, Some n) \<Rightarrow>
          w\<lparr>m_root := Some (case findNode name w of
              Some node \<Rightarrow> change n node rt | None \<Rightarrow> cJSON_AddItemToObject rt n item)\<rparr>
      | _ \<Rightarrow> w)"

definition setIntValue :: "int \<Rightarrow> json_wrapper \<Rightarrow> json_wrapper" where
  "setIntValue val w =
     (if root_type cJSON_Number w
      then w\<lparr>m_root := map_option (\<lambda>c. Node ((own c)\<lparr>valueint := val, valuedouble := double_of_int val\<rparr>) (child c)) (m_root w)\<rparr>
      else JsonWrapper_assign_node (Some (cJSON_CreateNumber (double_of_int val))))"

definition setIntValue_name :: "byte list option \<Rightarrow> int \<Rightarrow> json_wrapper \<Rightarrow> json_wrapper" where
  "setIntValue_name name val w =
     set_named name
       (\<lambda>n node rt. if cj_type (own node) = cJSON_Number then update_named n (\<lambda>f. f\<lparr>valueint := val\<rparr>) rt
                   else cJSON_ReplaceItemInObject rt n (cJSON_CreateNumber (double_of_int val)))
       (cJSON_CreateNumber (double_of_int val)) w"

definition setDoubleValue :: "double \<Rightarrow> json_wrapper \<Rightarrow> json_wrapper" where
  "setDoubleValue val w =
     (if root_type cJSON_Number w
      then w\<lparr>m_root := map_option (\<lambda>c. Node ((own c)\<lparr>valuedouble := val\<rparr>) (child c)) (m_root w)\<rparr>
      else JsonWrapper_assign_node (Some (cJSON_CreateNumber val)))"

definition setDoubleValue_name :: "byte list option \<Rightarrow> double \<Rightarrow> json_wrapper \<Rightarrow> json_wrapper" where
  "setDoubleValue_name name val w =
     set_named name
       (\<lambda>n node rt. if cj_type (own node) = cJSON_Number then update_named n (\<lambda>f. f\<lparr>valuedouble := val\<rparr>) rt
                   else cJSON_ReplaceItemInObject rt n (cJSON_CreateNumber val))
       (cJSON_CreateNumber val) w"

definition setUIntValue :: "u32 \<Rightarrow> json_wrapper \<Rightarrow> json_wrapper" where
  "setUIntValue val w = setDoubleValue (double_of_int (uint val)) w"

definition setUIntValue_name :: "byte list option \<Rightarrow> u32 \<Rightarrow> json_wrapper \<Rightarrow> json_wrapper" where
  "setUIntValue_name name val w = setDoubleValue_name name (double_of_int (uint val)) w"

text \<open>Where the root is not a boolean, \<open>setBooleanValue\<close> makes a number of its argument.\<close>

definition setBooleanValue :: "bool \<Rightarrow> json_wrapper \<Rightarrow> json_wrapper" where
  "setBooleanValue val w =
     (if isBoolean w
      then w\<lparr>m_root := map_option (\<lambda>c. Node ((own c)\<lparr>cj_type := if val then cJSON_True else cJSON_False\<rparr>) (child c)) (m_root w)\<rparr>
      else JsonWrapper_assign_node (Some (cJSON_CreateNumber (double_of_int (of_bool val)))))"

definition setBooleanValue_name :: "byte list option \<Rightarrow> bool \<Rightarrow> json_wrapper \<Rightarrow> json_wrapper" where
  "setBooleanValue_name name val w =
     set_named name
       (\<lambda>n node rt. if bool_of_item (Some node) = Some val then rt
                   else cJSON_ReplaceItemInObject rt n (cJSON_CreateBool val))
       (cJSON_CreateBool val) w"

text \<open>\<open>cJSON_CreateString\<close> of a null pointer is undefined.\<close>

definition setStringValue :: "byte list option \<Rightarrow> json_wrapper option" where
  "setStringValue val = map_option (\<lambda>s. JsonWrapper_assign_node (Some (cJSON_CreateString s))) val"

definition setStringValue_name :: "byte list option \<Rightarrow> byte list option \<Rightarrow> json_wrapper \<Rightarrow> json_wrapper" where
  "setStringValue_name name val w =
     (case val of
        Some s \<Rightarrow> set_named name (\<lambda>n node rt. cJSON_ReplaceItemInObject rt n (cJSON_CreateString s)) (cJSON_CreateString s) w
      | None \<Rightarrow>
          (case (m_root w, name) of
             (Some rt, Some n) \<Rightarrow>
               if findNode name w \<noteq> None then w\<lparr>m_root := Some (cJSON_DeleteItemFromObject rt (Some n))\<rparr> else w
           | _ \<Rightarrow> w))"

text \<open>The overload for \<open>std::string\<close>: both arguments are read up to their first zero.\<close>

definition setStringValue_string :: "byte list \<Rightarrow> byte list \<Rightarrow> json_wrapper \<Rightarrow> json_wrapper" where
  "setStringValue_string name val w = setStringValue_name (Some (c_str name)) (Some (c_str val)) w"

definition setObjectValue_node :: "byte list option \<Rightarrow> cJSON option \<Rightarrow> json_wrapper \<Rightarrow> json_wrapper" where
  "setObjectValue_node name val w =
     (case val of None \<Rightarrow> w
      | Some v \<Rightarrow> set_named name (\<lambda>n node rt. cJSON_ReplaceItemInObject rt n (cJSON_Duplicate True v)) (cJSON_Duplicate True v) w)"

definition setObjectValue :: "byte list option \<Rightarrow> json_wrapper \<Rightarrow> json_wrapper \<Rightarrow> json_wrapper" where
  "setObjectValue name val w = setObjectValue_node name (m_root val) w"

definition setArrayValue :: "byte list option \<Rightarrow> json_wrapper \<Rightarrow> json_wrapper \<Rightarrow> json_wrapper" where
  "setArrayValue name val w = setObjectValue name val w"

definition eraseNode :: "byte list option \<Rightarrow> json_wrapper \<Rightarrow> bool \<times> json_wrapper" where
  "eraseNode name w =
     (case m_root w of None \<Rightarrow> (False, w)
      | Some rt \<Rightarrow>
          (case cJSON_DetachItemFromObject rt name of
             (Some p, rt') \<Rightarrow> (True, w\<lparr>m_root := Some rt'\<rparr>)
           | (None, rt') \<Rightarrow> (False, w)))"

definition add_to_array :: "cJSON \<Rightarrow> json_wrapper \<Rightarrow> bool \<times> json_wrapper" where
  "add_to_array item w =
     (case m_root w of None \<Rightarrow> (False, w) | Some rt \<Rightarrow> (True, w\<lparr>m_root := Some (cJSON_AddItemToArray rt item)\<rparr>))"

definition addStringValueToArray :: "byte list option \<Rightarrow> json_wrapper \<Rightarrow> bool \<times> json_wrapper" where
  "addStringValueToArray val w = (case val of None \<Rightarrow> (False, w) | Some s \<Rightarrow> add_to_array (cJSON_CreateString s) w)"

definition addIntValueToArray :: "int \<Rightarrow> json_wrapper \<Rightarrow> bool \<times> json_wrapper" where
  "addIntValueToArray val w = add_to_array (cJSON_CreateNumber (double_of_int val)) w"

definition addBoolValueToArray :: "bool \<Rightarrow> json_wrapper \<Rightarrow> bool \<times> json_wrapper" where
  "addBoolValueToArray val w = add_to_array (if val then cJSON_CreateTrue else cJSON_CreateFalse) w"

definition addItemToArray :: "cJSON option \<Rightarrow> json_wrapper \<Rightarrow> bool \<times> json_wrapper" where
  "addItemToArray item w = (case item of None \<Rightarrow> (isValid w, w) | Some c \<Rightarrow> add_to_array c w)"

definition addItemToObject :: "byte list \<Rightarrow> cJSON option \<Rightarrow> json_wrapper \<Rightarrow> bool \<times> json_wrapper" where
  "addItemToObject name item w =
     (case item of None \<Rightarrow> (isValid w, w) | Some c \<Rightarrow> add_to_array (with_name name c) w)"

section \<open>Output and merging\<close>

definition toString :: "bool \<Rightarrow> json_wrapper \<Rightarrow> byte list" where
  "toString formatted w =
     (case m_root w of None \<Rightarrow> []
      | Some rt \<Rightarrow>
          (case (if formatted then cJSON_Print rt else cJSON_PrintUnformatted rt) of Some s \<Rightarrow> s | None \<Rightarrow> []))"

text \<open>
  \<open>doMerge\<close> moves items from the second tree to the first and returns both.  Its loop
  is at the item that \<open>which\<close> counts: the items before it stay in the second tree.
\<close>

fun doMerge :: "cJSON \<Rightarrow> cJSON \<Rightarrow> cJSON \<times> cJSON"
  and merge_items :: "cJSON list \<Rightarrow> cJSON list \<Rightarrow> cJSON list \<times> cJSON list" where
  "doMerge root1 (Node f2 cs2) =
     (if cj_type (own root1) \<noteq> cj_type f2 then (root1, Node f2 cs2)
      else let (cs1, kept) = merge_items (child root1) cs2 in (Node (own root1) cs1, Node f2 kept))"
| "merge_items cs1 [] = (cs1, [])"
| "merge_items cs1 (item2 # rest) =
     (case cj_string (own item2) of None \<Rightarrow> merge_items (cs1 @ [item2]) rest
      | Some name \<Rightarrow>
          (case name_index (Some name) cs1 of None \<Rightarrow> merge_items (cs1 @ [item2]) rest
           | Some i \<Rightarrow>
               if child (cs1 ! i) \<noteq> [] \<and> child item2 \<noteq> [] \<and> cj_type (own (cs1 ! i)) = cj_type (own item2)
               then let (x, y) = doMerge (cs1 ! i) item2; (xs, ys) = merge_items (cs1[i := x]) rest in (xs, y # ys)
               else merge_items (cs1[i := with_name name item2]) rest))"

text \<open>The two wrappers after \<open>merge\<close> and after \<open>reverse_merge\<close>.\<close>

definition merge :: "json_wrapper \<Rightarrow> json_wrapper \<Rightarrow> json_wrapper \<times> json_wrapper" where
  "merge w profile =
     (case (m_root w, m_root profile) of
        (Some r1, Some r2) \<Rightarrow> (let (a, b) = doMerge r1 r2 in (w\<lparr>m_root := Some a\<rparr>, profile\<lparr>m_root := Some b\<rparr>))
      | (None, Some r2) \<Rightarrow> (\<lparr>m_root = Some r2, m_owner = True\<rparr>, profile\<lparr>m_owner := False\<rparr>)
      | _ \<Rightarrow> (w, profile))"

definition merge_text :: "(double \<Rightarrow> double) \<Rightarrow> byte list option \<Rightarrow> json_wrapper \<Rightarrow> json_wrapper option" where
  "merge_text pow10 profile w = map_option (\<lambda>p. fst (merge w p)) (JsonWrapper_of_input pow10 profile)"

definition reverse_merge :: "json_wrapper \<Rightarrow> json_wrapper \<Rightarrow> json_wrapper \<times> json_wrapper" where
  "reverse_merge w profile =
     (case (m_root w, m_root profile) of
        (Some r1, Some r2) \<Rightarrow>
          (let (a, b) = doMerge r2 r1
           in (\<lparr>m_root = Some a, m_owner = True\<rparr>, \<lparr>m_root = Some a, m_owner = False\<rparr>))
      | (None, Some r2) \<Rightarrow> (\<lparr>m_root = Some r2, m_owner = True\<rparr>, profile\<lparr>m_owner := False\<rparr>)
      | _ \<Rightarrow> (w, profile))"

definition reverse_merge_text :: "(double \<Rightarrow> double) \<Rightarrow> byte list option \<Rightarrow> json_wrapper \<Rightarrow> json_wrapper option" where
  "reverse_merge_text pow10 profile w = map_option (\<lambda>p. fst (reverse_merge w p)) (JsonWrapper_of_input pow10 profile)"

end
