(* ===== verification/Json_Wrapper_Laws.thy ===== *)
theory Json_Wrapper_Laws
  imports Json_Wrapper
begin

text \<open>
  What \<open>JsonWrapper\<close> promises: the contract between the setters and the getters by name (the
  locale \<open>json_setter\<close>, interpreted for strings, integers, doubles and objects), the text
  of a wrapper read back, the result of a merge, and the number that is set twice and
  printed as it was.
\<close>

section \<open>Setting and getting\<close>

text \<open>
  The contract of a setter by name and the getter that belongs to it: the getter
  looks at the item of that name only, a value that was set is the one that is
  found, and the items of other names stay.
\<close>

locale json_setter =
  fixes setter :: "byte list \<Rightarrow> 'v \<Rightarrow> json_wrapper \<Rightarrow> json_wrapper"
    and getter :: "byte list \<Rightarrow> json_wrapper \<Rightarrow> 'v option"
    and valid :: "'v \<Rightarrow> bool"
  assumes keeps_root: "isValid w \<Longrightarrow> isValid (setter n v w)"
    and get_set: "isValid w \<Longrightarrow> n \<noteq> [] \<Longrightarrow> m \<noteq> [] \<Longrightarrow> valid v \<Longrightarrow> same_name m n \<Longrightarrow> getter m (setter n v w) = Some v"
    and find_other: "isValid w \<Longrightarrow> n \<noteq> [] \<Longrightarrow> m \<noteq> [] \<Longrightarrow> \<not> same_name m n \<Longrightarrow>
      findNode (Some m) (setter n v w) = findNode (Some m) w"
    and get_find: "findNode (Some m) w = findNode (Some m) w' \<Longrightarrow> getter m w = getter m w'"
begin

definition set_all :: "(byte list \<times> 'v) list \<Rightarrow> json_wrapper \<Rightarrow> json_wrapper" where
  "set_all nvs w = foldl (\<lambda>w (n, v). setter n v w) w nvs"

lemma set_all_Cons: "set_all ((n, v) # nvs) w = set_all nvs (setter n v w)"
  by (simp add: set_all_def)

lemma set_all_other:
  "isValid w \<Longrightarrow> m \<noteq> [] \<Longrightarrow> list_all (\<lambda>(n, v). n \<noteq> [] \<and> \<not> same_name m n) nvs \<Longrightarrow>
   isValid (set_all nvs w) \<and> findNode (Some m) (set_all nvs w) = findNode (Some m) w"
proof (induction nvs arbitrary: w)
  case Nil
  then show ?case by (simp add: set_all_def)
next
  case (Cons nv nvs)
  then show ?case using keeps_root find_other by (cases nv) (simp add: set_all_Cons)
qed

text \<open>After a row of settings with different names every value is there.\<close>

lemma get_set_all:
  assumes "isValid w" and "list_all (\<lambda>(n, v). n \<noteq> [] \<and> valid v) nvs"
    and "sorted_wrt (\<lambda>(n, v) (m, u). \<not> same_name n m) nvs" and "(n, v) \<in> set nvs"
  shows "getter n (set_all nvs w) = Some v"
  using assms
proof (induction nvs arbitrary: w)
  case (Cons nv nvs)
  obtain n1 v1 where nv: "nv = (n1, v1)" by (cases nv)
  show ?case
  proof (cases "(n, v) = (n1, v1)")
    case True
    have "list_all (\<lambda>(m, u). m \<noteq> [] \<and> \<not> same_name n m) nvs" using Cons.prems True nv by (auto simp: list_all_iff)
    then have "findNode (Some n) (set_all nvs (setter n1 v1 w)) = findNode (Some n) (setter n1 v1 w)"
      using set_all_other [of "setter n1 v1 w" n nvs] keeps_root Cons.prems True nv by simp
    then have "getter n (set_all nvs (setter n1 v1 w)) = getter n (setter n1 v1 w)" by (rule get_find)
    then show ?thesis using True nv Cons.prems get_set [of w n n v] by (simp add: set_all_Cons)
  next
    case False
    with Cons.prems nv have "(n, v) \<in> set nvs" by auto
    with Cons.IH [of "setter n1 v1 w"] Cons.prems keeps_root nv show ?thesis by (simp add: set_all_Cons)
  qed
qed simp

end

lemma find_set_named:
  assumes "m_root w = Some rt" and "n \<noteq> []" and "m \<noteq> []"
    and "\<And>node. cJSON_GetObjectItem rt n = Some node \<Longrightarrow>
      cJSON_GetObjectItem (change n node rt) m = (if same_name m n then Some (new node) else cJSON_GetObjectItem rt m)"
  shows "findNode (Some m) (set_named (Some n) change item w) =
    (if same_name m n then Some (case findNode (Some n) w of Some node \<Rightarrow> new node | None \<Rightarrow> with_name n item)
     else findNode (Some m) w)"
  using assms GetObjectItem_add [of rt n item m]
  by (auto simp: findNode_def set_named_def split: option.splits)

lemma GetObjectItem_update_named:
  assumes "cJSON_GetObjectItem rt n = Some node" and "cj_string (g (own node)) = cj_string (own node)"
  shows "cJSON_GetObjectItem (update_named n g rt) m =
    (if same_name m n then Some (Node (g (own node)) (child node)) else cJSON_GetObjectItem rt m)"
proof -
  from assms(1) obtain i where i: "name_index (Some n) (child rt) = Some i" "node = child rt ! i"
    by (auto simp: cJSON_GetObjectItem_def)
  then have "named n (Node (g (own node)) (child node))"
    using assms(2) name_index_SomeD [OF i(1)] by (simp add: named_def)
  from GetObjectItem_update [OF i(1) this, of "own rt" m] i show ?thesis by (simp add: update_named_def)
qed

lemma isValid_set_named: "isValid w \<Longrightarrow> isValid (set_named name change item w)"
  by (auto simp: isValid_def set_named_def split: option.splits)

text \<open>Strings.\<close>

definition put_string :: "byte list \<Rightarrow> byte list \<Rightarrow> json_wrapper \<Rightarrow> json_wrapper" where
  "put_string n v = setStringValue_name (Some n) (Some v)"

definition got_string :: "byte list \<Rightarrow> json_wrapper \<Rightarrow> byte list option" where
  "got_string n w = Option.bind (findNode_type (Some n) cJSON_String w) (\<lambda>c. valuestring (own c))"

lemma find_put_string:
  assumes "isValid w" and "n \<noteq> []" and "m \<noteq> []"
  shows "findNode (Some m) (put_string n v w) =
    (if same_name m n then Some (with_name n (cJSON_CreateString v)) else findNode (Some m) w)"
proof -
  obtain rt where rt: "m_root w = Some rt" using assms(1) by (auto simp: isValid_def)
  show ?thesis
    using find_set_named [OF rt assms(2,3), of "\<lambda>n node rt. cJSON_ReplaceItemInObject rt n (cJSON_CreateString v)"
        "\<lambda>_. with_name n (cJSON_CreateString v)" "cJSON_CreateString v"] GetObjectItem_replace [of rt n "cJSON_CreateString v" m]
    by (auto simp: put_string_def setStringValue_name_def split: option.splits)
qed

interpretation strings: json_setter put_string got_string "\<lambda>v. 0 \<notin> set v"
proof (unfold_locales, goal_cases)
  case (1 w n v)
  then show ?case by (simp add: put_string_def setStringValue_name_def isValid_set_named)
next
  case (2 w n m v)
  then show ?case
    by (simp add: got_string_def tryGetStringValue_def findNode_type_def find_put_string with_name_def cJSON_CreateString_def c_str_id)
next
  case (3 w n m v)
  then show ?case by (simp add: find_put_string)
next
  case (4 m w w')
  then show ?case by (simp add: got_string_def tryGetStringValue_def findNode_type_def)
qed

text \<open>Integers.\<close>

definition put_int :: "byte list \<Rightarrow> int \<Rightarrow> json_wrapper \<Rightarrow> json_wrapper" where
  "put_int n v = setIntValue_name (Some n) v"

definition got_int :: "byte list \<Rightarrow> json_wrapper \<Rightarrow> int option" where
  "got_int n w = map_option (\<lambda>c. valueint (own c)) (findNode_type (Some n) cJSON_Number w)"

lemma find_put_int:
  assumes "isValid w" and "n \<noteq> []" and "m \<noteq> []"
  shows "findNode (Some m) (put_int n v w) =
    (if same_name m n
     then Some (case findNode_type (Some n) cJSON_Number w of
        Some node \<Rightarrow> Node ((own node)\<lparr>valueint := v\<rparr>) (child node)
      | None \<Rightarrow> with_name n (cJSON_CreateNumber (double_of_int v)))
     else findNode (Some m) w)"
proof -
  obtain rt where rt: "m_root w = Some rt" using assms(1) by (auto simp: isValid_def)
  show ?thesis
    using find_set_named [OF rt assms(2,3), of "\<lambda>n node rt. if cj_type (own node) = cJSON_Number
          then update_named n (\<lambda>f. f\<lparr>valueint := v\<rparr>) rt else cJSON_ReplaceItemInObject rt n (cJSON_CreateNumber (double_of_int v))"
        "\<lambda>node. if cj_type (own node) = cJSON_Number then Node ((own node)\<lparr>valueint := v\<rparr>) (child node)
          else with_name n (cJSON_CreateNumber (double_of_int v))" "cJSON_CreateNumber (double_of_int v)"]
      GetObjectItem_replace [of rt n "cJSON_CreateNumber (double_of_int v)" m]
      GetObjectItem_update_named [of rt n _ "\<lambda>f. f\<lparr>valueint := v\<rparr>" m]
    by (auto simp: put_int_def setIntValue_name_def findNode_type_def split: option.splits)
qed

lemma int_exact: "INT_MIN \<le> v \<Longrightarrow> v \<le> INT_MAX \<Longrightarrow> exact_int v \<and> int_of_double (double_of_int v) = v"
  using int_of_double_of_int [of v] by (simp add: exact_int_def INT_MIN_def INT_MAX_def)

interpretation ints: json_setter put_int got_int "\<lambda>v. INT_MIN \<le> v \<and> v \<le> INT_MAX"
proof (unfold_locales, goal_cases)
  case (1 w n v)
  then show ?case by (simp add: put_int_def setIntValue_name_def isValid_set_named)
next
  case (2 w n m v)
  then show ?case using int_exact [of v]
    by (auto simp: got_int_def tryGetIntValue_def findNode_type_def find_put_int with_name_def cJSON_CreateNumber_def split: option.splits)
next
  case (3 w n m v)
  then show ?case by (simp add: find_put_int)
next
  case (4 m w w')
  then show ?case by (simp add: got_int_def tryGetIntValue_def findNode_type_def)
qed

text \<open>Numbers of type \<open>double\<close>, and objects, which are copied.\<close>

definition put_double :: "byte list \<Rightarrow> double \<Rightarrow> json_wrapper \<Rightarrow> json_wrapper" where
  "put_double n v = setDoubleValue_name (Some n) v"

definition got_double :: "byte list \<Rightarrow> json_wrapper \<Rightarrow> double option" where
  "got_double n w = map_option (\<lambda>c. valuedouble (own c)) (findNode_type (Some n) cJSON_Number w)"

lemma find_put_double:
  assumes "isValid w" and "n \<noteq> []" and "m \<noteq> []"
  shows "findNode (Some m) (put_double n v w) =
    (if same_name m n
     then Some (case findNode_type (Some n) cJSON_Number w of
        Some node \<Rightarrow> Node ((own node)\<lparr>valuedouble := v\<rparr>) (child node) | None \<Rightarrow> with_name n (cJSON_CreateNumber v))
     else findNode (Some m) w)"
proof -
  obtain rt where rt: "m_root w = Some rt" using assms(1) by (auto simp: isValid_def)
  show ?thesis
    using find_set_named [OF rt assms(2,3), of "\<lambda>n node rt. if cj_type (own node) = cJSON_Number
          then update_named n (\<lambda>f. f\<lparr>valuedouble := v\<rparr>) rt else cJSON_ReplaceItemInObject rt n (cJSON_CreateNumber v)"
        "\<lambda>node. if cj_type (own node) = cJSON_Number then Node ((own node)\<lparr>valuedouble := v\<rparr>) (child node)
          else with_name n (cJSON_CreateNumber v)" "cJSON_CreateNumber v"]
      GetObjectItem_replace [of rt n "cJSON_CreateNumber v" m]
      GetObjectItem_update_named [of rt n _ "\<lambda>f. f\<lparr>valuedouble := v\<rparr>" m]
    by (auto simp: put_double_def setDoubleValue_name_def findNode_type_def split: option.splits)
qed

interpretation doubles: json_setter put_double got_double "\<lambda>v. True"
proof (unfold_locales, goal_cases)
  case (1 w n v)
  then show ?case by (simp add: put_double_def setDoubleValue_name_def isValid_set_named)
next
  case (2 w n m v)
  then show ?case
    by (auto simp: got_double_def findNode_type_def find_put_double with_name_def cJSON_CreateNumber_def split: option.splits)
next
  case (3 w n m v)
  then show ?case by (simp add: find_put_double)
next
  case (4 m w w')
  then show ?case by (simp add: got_double_def findNode_type_def)
qed

definition put_object :: "byte list \<Rightarrow> cJSON \<Rightarrow> json_wrapper \<Rightarrow> json_wrapper" where
  "put_object n v = setObjectValue_node (Some n) (Some v)"

definition got_object :: "byte list \<Rightarrow> json_wrapper \<Rightarrow> cJSON option" where
  "got_object n w = map_option (\<lambda>c. Node ((own c)\<lparr>cj_string := None\<rparr>) (child c)) (m_root (getObject (Some n) w))"

lemma find_put_object:
  assumes "isValid w" and "n \<noteq> []" and "m \<noteq> []"
  shows "findNode (Some m) (put_object n v w) =
    (if same_name m n then Some (with_name n (cJSON_Duplicate True v)) else findNode (Some m) w)"
proof -
  obtain rt where rt: "m_root w = Some rt" using assms(1) by (auto simp: isValid_def)
  show ?thesis
    using find_set_named [OF rt assms(2,3), of "\<lambda>n node rt. cJSON_ReplaceItemInObject rt n (cJSON_Duplicate True v)"
        "\<lambda>_. with_name n (cJSON_Duplicate True v)" "cJSON_Duplicate True v"] GetObjectItem_replace [of rt n "cJSON_Duplicate True v" m]
    by (auto simp: put_object_def setObjectValue_node_def split: option.splits)
qed

text \<open>An item without references is its own duplicate.\<close>

fun no_reference :: "cJSON \<Rightarrow> bool" where
  "no_reference (Node f cs) = (cj_type f < 256 \<and> list_all no_reference cs)"

lemma Duplicate_same: "no_reference t \<Longrightarrow> cJSON_Duplicate True t = t"
proof (induction t)
  case (Node f cs)
  have "unset_bit 8 (cj_type f) = cj_type f"
  proof (rule bit_eqI)
    fix n
    have "\<not> bit (cj_type f) 8" using Node.prems by (auto simp: bit_iff_odd)
    then show "bit (unset_bit 8 (cj_type f)) n = bit (cj_type f) n" by (auto simp: bit_unset_bit_iff)
  qed
  moreover have "map (cJSON_Duplicate True) cs = cs" using Node by (auto simp: list_all_iff intro: map_idI)
  ultimately show ?case by simp
qed

interpretation objects: json_setter put_object got_object
  "\<lambda>v. no_reference v \<and> cj_type (own v) = cJSON_Object \<and> cj_string (own v) = None"
proof (unfold_locales, goal_cases)
  case (1 w n v)
  then show ?case by (simp add: put_object_def setObjectValue_node_def isValid_set_named)
next
  case (2 w n m v)
  then show ?case
    by (cases v) (simp add: got_object_def getObject_def JsonWrapper_of_node_def findNode_type_def find_put_object with_name_def Duplicate_same
      del: cJSON_Duplicate.simps)
next
  case (3 w n m v)
  then show ?case by (simp add: find_put_object)
next
  case (4 m w w')
  then show ?case by (simp add: got_object_def getObject_def findNode_type_def JsonWrapper_of_node_def)
qed


text \<open>What the getters return for a value that is there.\<close>

lemma tryGetString_got: "got_string n w = Some v \<Longrightarrow> tryGetStringValue (Some n) d w = (True, v)"
  by (auto simp: got_string_def tryGetStringValue_def bind_eq_Some_conv)

lemma tryGetInt_got: "got_int n w = Some v \<Longrightarrow> tryGetIntValue (Some n) d w = (True, v)"
  by (auto simp: got_int_def tryGetIntValue_def)

lemma getDouble_got: "got_double n w = Some v \<Longrightarrow> getDoubleValue_name (Some n) d w = v"
  by (auto simp: got_double_def getDoubleValue_name_def)

text \<open>A row of \<open>setStringValue\<close> with names that differ in more than the case of letters: every string
  that was set is the one that is read.\<close>

theorem json_set_get:
  assumes "isValid w" and "list_all (\<lambda>(n, v). n \<noteq> [] \<and> 0 \<notin> set v) nvs"
    and "sorted_wrt (\<lambda>(n, v) (m, u). \<not> same_name n m) nvs" and "(n, v) \<in> set nvs"
  shows "tryGetStringValue (Some n) d (foldl (\<lambda>w (n, v). setStringValue_name (Some n) (Some v) w) w nvs) = (True, v)"
  using tryGetString_got [OF strings.get_set_all [OF assms]] by (simp add: strings.set_all_def put_string_def)

theorem json_set_get_witness:
  "tryGetStringValue (Some [98]) [] (foldl (\<lambda>w (n, v). setStringValue_name (Some n) (Some v) w) setObjectType
     [([97], [120, 121]), ([98], [122])]) = (True, [122])"
  by (rule json_set_get)
    (simp_all add: isValid_def setObjectType_def JsonWrapper_assign_node_def same_name_def c_str_def tolower_def)

section \<open>Numbers that are set twice\<close>

lemma print_entries_update:
  assumes "i < length cs" and "map_option snd (print_value depth fmt c) = map_option snd (print_value depth fmt (cs ! i))"
  shows "print_entries depth fmt (cs[i := c]) = print_entries depth fmt cs"
  using assms
proof (induction cs arbitrary: i)
  case (Cons a cs)
  show ?case
  proof (cases i)
    case 0
    have s: "print_entries depth fmt (x # cs) =
        Option.bind (map_option snd (print_value depth fmt x)) (\<lambda>e. Option.bind (print_entries depth fmt cs) (\<lambda>es. Some (e # es)))" for x
      by (cases "print_value depth fmt x") (auto split: prod.splits)
    from Cons.prems 0 show ?thesis unfolding 0 list_update.simps nat.case s by simp
  next
    case (Suc j)
    with Cons show ?thesis by simp
  qed
qed simp


lemma print_value_cong:
  "print_entries (depth + 1) fmt cs = print_entries (depth + 1) fmt cs' \<Longrightarrow>
   map (\<lambda>c. snd (print_string_ptr (cj_string (own c)))) cs = map (\<lambda>c. snd (print_string_ptr (cj_string (own c)))) cs' \<Longrightarrow>
   print_value depth fmt (Node f cs) = print_value depth fmt (Node f cs')"
  by (simp only: print_value.simps)

text \<open>\<open>setIntValue\<close> on a name that holds a number changes \<open>valueint\<close> only: the new value is read back, and
  \<open>toString\<close> goes on to print the old one.\<close>

theorem setIntValue_not_printed:
  assumes "findNode_type (Some n) cJSON_Number w = Some node" and "valuedouble (own node) = double_of_int i"
    and "valueint (own node) = i" and "INT_MIN \<le> i \<and> i \<le> INT_MAX" and "INT_MIN \<le> v \<and> v \<le> INT_MAX"
  shows "tryGetIntValue (Some n) d (setIntValue_name (Some n) v w) = (True, v) \<and>
    toString fmt (setIntValue_name (Some n) v w) = toString fmt w"
proof -
  from assms(1) obtain rt where rt: "m_root w = Some rt" "n \<noteq> []" "cJSON_GetObjectItem rt n = Some node" "cj_type (own node) = cJSON_Number"
    by (auto simp: findNode_type_def findNode_def split: option.splits if_splits)
  then obtain k where k: "name_index (Some n) (child rt) = Some k" "node = child rt ! k" "k < length (child rt)"
    using name_index_SomeD by (auto simp: cJSON_GetObjectItem_def)
  define node' where "node' = Node ((own node)\<lparr>valueint := v\<rparr>) (child node)"
  have w': "setIntValue_name (Some n) v w = w\<lparr>m_root := Some (Node (own rt) ((child rt)[k := node']))\<rparr>"
    using rt k by (simp add: setIntValue_name_def set_named_def findNode_def update_named_def node'_def)
  have "isValid w" using rt by (simp add: isValid_def)
  then have g: "tryGetIntValue (Some n) d (setIntValue_name (Some n) v w) = (True, v)"
    using tryGetInt_got [OF ints.get_set [of w n n v]] rt(2) assms(5) by (simp add: put_int_def)
  have "snd (print_number (own node')) = snd (print_number (own node))"
    using print_number_exact [of i "own node"] print_number_exact [of i "own node'"] print_number_stale [of "own node" i v]
      int_exact [of i] int_exact [of v] assms
    by (cases "v = i") (simp_all add: node'_def)
  then have "map_option snd (print_value depth fmt node') = map_option snd (print_value depth fmt node)" for depth
    using rt(4) by (cases node) (simp add: node'_def type_defs)
  then have p: "map_option snd (print_value depth fmt node') = map_option snd (print_value depth fmt (child rt ! k))" for depth
    using k(2) by simp
  have nm: "map (\<lambda>c. snd (print_string_ptr (cj_string (own c)))) ((child rt)[k := node']) =
      map (\<lambda>c. snd (print_string_ptr (cj_string (own c)))) (child rt)"
    unfolding map_update using k by (intro list_update_same_conv [THEN iffD2]) (simp_all add: node'_def)
  have "print_value 0 fmt (Node (own rt) ((child rt)[k := node'])) = print_value 0 fmt rt"
    using print_value_cong [OF print_entries_update [OF k(3) p] nm] by (cases rt) (simp del: print_value.simps)
  then have "toString fmt (setIntValue_name (Some n) v w) = toString fmt w"
    unfolding w' by (cases fmt) (simp_all add: toString_def rt(1) cJSON_Print_def cJSON_PrintUnformatted_def del: print_value.simps)
  with g show ?thesis by simp
qed

theorem setIntValue_not_printed_witness:
  "tryGetIntValue (Some [97]) 0 (setIntValue_name (Some [97]) 7 (setIntValue_name (Some [97]) 5 setObjectType)) = (True, 7) \<and>
   toString False (setIntValue_name (Some [97]) 7 (setIntValue_name (Some [97]) 5 setObjectType)) =
   toString False (setIntValue_name (Some [97]) 5 setObjectType)"
proof -
  have "isValid setObjectType" "findNode_type (Some [97]) cJSON_Number setObjectType = None"
    by (simp_all add: isValid_def setObjectType_def JsonWrapper_assign_node_def findNode_type_def findNode_def
      cJSON_GetObjectItem_def cJSON_CreateObject_def)
  then have "findNode (Some [97]) (put_int [97] 5 setObjectType) = Some (with_name [97] (cJSON_CreateNumber (double_of_int 5)))"
    by (simp add: find_put_int)
  then have f: "findNode_type (Some [97]) cJSON_Number (setIntValue_name (Some [97]) 5 setObjectType) =
      Some (with_name [97] (cJSON_CreateNumber (double_of_int 5)))"
    by (simp add: findNode_type_def put_int_def with_name_def cJSON_CreateNumber_def)
  show ?thesis
    by (rule setIntValue_not_printed [OF f, of 5])
      (simp_all add: with_name_def cJSON_CreateNumber_def int_exact INT_MIN_def INT_MAX_def)
qed

section \<open>Texts\<close>

lemma GetObjectItem_canonical:
  assumes "cj_type f = cJSON_Object"
  shows "cJSON_GetObjectItem (canonical name (Node f cs)) n =
    map_option (\<lambda>c. canonical (cj_string (own c)) c) (cJSON_GetObjectItem (Node f cs) n)"
proof -
  have nm: "cj_string (own (canonical s c)) = s" for s c by (cases c) (simp add: Let_def)
  have "name_index (Some n) (map (\<lambda>c. canonical (cj_string (own c)) c) cs) = name_index (Some n) cs"
    by (induction cs) (simp_all add: nm del: canonical.simps strcasecmp_named)
  then show ?thesis
    using assms name_index_SomeD [of n cs]
    by (cases "name_index (Some n) cs") (auto simp: cJSON_GetObjectItem_def type_defs Let_def)
qed


lemma findNode_canonical:
  assumes "m_root w = Some t" and "cj_type (own t) = cJSON_Object" and "m_root w' = Some (canonical s t)"
  shows "findNode n w' = map_option (\<lambda>c. canonical (cj_string (own c)) c) (findNode n w)"
  using assms GetObjectItem_canonical [of "own t" s "child t"]
  by (cases n) (auto simp: findNode_def simp del: canonical.simps)

lemma canonical_own:
  "cj_type (own (canonical s c)) = cj_type (own c)"
  "cj_type (own c) = cJSON_String \<Longrightarrow> valuestring (own (canonical s c)) = valuestring (own c)"
  "cj_type (own c) = cJSON_Number \<Longrightarrow> valueint (own (canonical s c)) = valueint (own c) \<and>
     valuedouble (own (canonical s c)) = valuedouble (own c)"
  by (cases c; simp add: Let_def type_defs)+

lemma findNode_type_canonical:
  assumes "m_root w = Some t" and "cj_type (own t) = cJSON_Object" and "m_root w' = Some (canonical s t)"
  shows "findNode_type n ty w' = map_option (\<lambda>c. canonical (cj_string (own c)) c) (findNode_type n ty w)"
  by (cases "findNode n w") (simp_all add: findNode_type_def findNode_canonical [OF assms] canonical_own)

lemma parse_toString:
  assumes "pow_spec pow10" and "m_root w = Some t" and "printable t"
  shows "JsonWrapper_of_input pow10 (Some (toString fmt w @ [0])) = Some \<lparr>m_root = Some (canonical None t), m_owner = True\<rparr>"
  using print_parse [OF assms(1,3), of fmt] assms(2)
  by (auto simp: toString_def JsonWrapper_of_input_def JsonWrapper_parse_def)

lemma same_values:
  assumes "m_root w = Some t" and "cj_type (own t) = cJSON_Object" and "m_root w' = Some (canonical s t)"
  shows "tryGetStringValue n d1 w' = tryGetStringValue n d1 w" and "tryGetIntValue n d2 w' = tryGetIntValue n d2 w"
    and "getDoubleValue_name n d3 w' = getDoubleValue_name n d3 w" and "tryGetBooleanValue n d4 w' = tryGetBooleanValue n d4 w"
    and "isObject w'"
proof -
  note find = findNode_canonical [OF assms] findNode_type_canonical [OF assms]
  have ty: "findNode_type n ty w = Some c \<Longrightarrow> cj_type (own c) = ty" for n ty c
    by (auto simp: findNode_type_def split: option.splits if_splits)
  show "tryGetStringValue n d1 w' = tryGetStringValue n d1 w"
    using ty [of n cJSON_String] by (auto simp: tryGetStringValue_def find canonical_own split: option.split)
  show "tryGetIntValue n d2 w' = tryGetIntValue n d2 w"
    using ty [of n cJSON_Number] by (auto simp: tryGetIntValue_def find canonical_own split: option.split)
  show "getDoubleValue_name n d3 w' = getDoubleValue_name n d3 w"
    using ty [of n cJSON_Number] by (auto simp: getDoubleValue_name_def find canonical_own split: option.split)
  show "tryGetBooleanValue n d4 w' = tryGetBooleanValue n d4 w"
    by (auto simp: tryGetBooleanValue_def find canonical_own bool_of_item_def split: option.split)
  show "isObject w'" using assms(2) by (simp add: isObject_def root_type_def assms(3) canonical_own)
qed



section \<open>Merging\<close>

lemma doMerge_own: "own (fst (doMerge c1 c2)) = own c1"
  by (cases c2) (auto simp: split_def Let_def)

lemma with_name_same: "cj_string (own c) = Some s \<Longrightarrow> with_name s c = c"
  by (cases c) (simp add: with_name_def)

text \<open>What the merge of one item gives.\<close>

definition merged :: "cJSON option \<Rightarrow> cJSON \<Rightarrow> cJSON" where
  "merged old c2 =
     (case old of None \<Rightarrow> c2
      | Some c1 \<Rightarrow>
          if child c1 \<noteq> [] \<and> child c2 \<noteq> [] \<and> cj_type (own c1) = cj_type (own c2) then fst (doMerge c1 c2) else c2)"

lemma GetObjectItem_Node: "cJSON_GetObjectItem (Node f (c # cs)) n =
    (if named n c then Some c else cJSON_GetObjectItem (Node f cs) n)"
  by (cases "name_index (Some n) cs") (simp_all add: cJSON_GetObjectItem_def)

lemma merge_items_step:
  assumes "cj_string (own c2) = Some s"
  shows "\<exists>cs. fst (merge_items cs1 (c2 # cs2)) = fst (merge_items cs cs2) \<and>
    (\<forall>n. cJSON_GetObjectItem (Node f cs) n =
      (if same_name n s then Some (merged (cJSON_GetObjectItem (Node f cs1) s) c2) else cJSON_GetObjectItem (Node f cs1) n))"
proof (cases "name_index (Some s) cs1")
  case None
  have "named s c2" using assms by (simp add: named_def)
  then show ?thesis
    using None assms GetObjectItem_append [of s c2 "Node f cs1" f]
    by (intro exI [of _ "cs1 @ [c2]"])
      (simp add: merged_def cJSON_GetObjectItem_def [of _ s])
next
  case (Some i)
  define c where "c = merged (Some (cs1 ! i)) c2"
  have i: "named s (cs1 ! i)" "i < length cs1" using name_index_SomeD [OF Some] by simp_all
  have "named s c"
    using i(1) assms by (auto simp: c_def merged_def named_def doMerge_own)
  then have l: "cJSON_GetObjectItem (Node f (cs1[i := c])) n =
      (if same_name n s then Some (merged (cJSON_GetObjectItem (Node f cs1) s) c2) else cJSON_GetObjectItem (Node f cs1) n)" for n
    using GetObjectItem_update [of s "Node f cs1" i c f n] Some i(2)
    by (simp add: c_def cJSON_GetObjectItem_def [of "Node f cs1" s])
  have "fst (merge_items cs1 (c2 # cs2)) = fst (merge_items (cs1[i := c]) cs2)"
    using Some assms by (auto simp: c_def merged_def with_name_same split_def Let_def)
  with l show ?thesis by blast
qed

text \<open>Merging an object into another: under every name there is afterwards the item of the second object
  where it has one, merged with the first object's where both are non-empty and of the same type, and else
  the item of the first.\<close>

theorem merge_lookup:
  assumes "cj_type (own r1) = cj_type (own r2)" and "list_all (\<lambda>c. cj_string (own c) \<noteq> None) (child r2)"
    and "sorted_wrt (\<lambda>a b. \<not> same_name (the (cj_string (own a))) (the (cj_string (own b)))) (child r2)"
  shows "cJSON_GetObjectItem (fst (doMerge r1 r2)) n =
    (case cJSON_GetObjectItem r2 n of None \<Rightarrow> cJSON_GetObjectItem r1 n
     | Some c2 \<Rightarrow> Some (merged (cJSON_GetObjectItem r1 n) c2))"
proof -
  have "cJSON_GetObjectItem (Node f (fst (merge_items cs1 cs2))) n =
      (case cJSON_GetObjectItem (Node f cs2) n of None \<Rightarrow> cJSON_GetObjectItem (Node f cs1) n
       | Some c2 \<Rightarrow> Some (merged (cJSON_GetObjectItem (Node f cs1) n) c2))"
    if "list_all (\<lambda>c. cj_string (own c) \<noteq> None) cs2"
      and "sorted_wrt (\<lambda>a b. \<not> same_name (the (cj_string (own a))) (the (cj_string (own b)))) cs2" for f cs1 cs2
    using that
  proof (induction cs2 arbitrary: cs1)
    case Nil
    then show ?case by (simp add: cJSON_GetObjectItem_def)
  next
    case (Cons c2 cs2)
    then obtain s where s: "cj_string (own c2) = Some s" by auto
    from merge_items_step [OF s, of cs1 cs2 f] obtain cs where
      cs: "fst (merge_items cs1 (c2 # cs2)) = fst (merge_items cs cs2)" and
      l: "\<And>n. cJSON_GetObjectItem (Node f cs) n =
        (if same_name n s then Some (merged (cJSON_GetObjectItem (Node f cs1) s) c2) else cJSON_GetObjectItem (Node f cs1) n)"
      by blast
    have ih: "cJSON_GetObjectItem (Node f (fst (merge_items cs cs2))) n =
      (case cJSON_GetObjectItem (Node f cs2) n of None \<Rightarrow> cJSON_GetObjectItem (Node f cs) n
       | Some c2 \<Rightarrow> Some (merged (cJSON_GetObjectItem (Node f cs) n) c2))" using Cons by simp
    have nm: "named n c2 = same_name n s" using s same_name_sym by (auto simp: named_def)
    show ?case
    proof (cases "same_name n s")
      case True
      have "list_all (\<lambda>c. \<not> named n c) cs2"
        using Cons.prems s True by (fastforce simp: list_all_iff named_def same_name_def)
      then have "cJSON_GetObjectItem (Node f cs2) n = None" by (simp add: cJSON_GetObjectItem_def name_index_None)
      moreover have "cJSON_GetObjectItem (Node f cs1) n = cJSON_GetObjectItem (Node f cs1) s"
        using True by (simp add: cJSON_GetObjectItem_def name_index_same)
      ultimately show ?thesis using True ih by (simp add: cs l nm GetObjectItem_Node del: merge_items.simps)
    next
      case False
      then have "cJSON_GetObjectItem (Node f cs) n = cJSON_GetObjectItem (Node f cs1) n" by (simp add: l)
      with ih False show ?thesis by (simp add: cs nm GetObjectItem_Node del: merge_items.simps split: option.split)
    qed
  qed
  moreover have "fst (doMerge r1 r2) = Node (own r1) (fst (merge_items (child r1) (child r2)))"
    using assms(1) by (cases r2) (simp add: split_def Let_def)
  moreover have "cJSON_GetObjectItem (Node (own r1) (child r2)) n = cJSON_GetObjectItem r2 n"
    by (simp add: cJSON_GetObjectItem_def)
  ultimately show ?thesis using assms(2,3) by (metis cJSON.collapse)
qed

theorem merge_lookup_witness:
  "cJSON_GetObjectItem (fst (doMerge sample_tree (Node (blank cJSON_Object None) [with_name [65] (cJSON_CreateString [120])]))) [97] =
   Some (with_name [65] (cJSON_CreateString [120]))"
proof -
  let ?r2 = "Node (blank cJSON_Object None) [with_name [65] (cJSON_CreateString [120])]"
  have "cJSON_GetObjectItem (fst (doMerge sample_tree ?r2)) [97] =
    (case cJSON_GetObjectItem ?r2 [97] of None \<Rightarrow> cJSON_GetObjectItem sample_tree [97]
     | Some c2 \<Rightarrow> Some (merged (cJSON_GetObjectItem sample_tree [97]) c2))"
    by (rule merge_lookup) (simp_all add: sample_tree_def with_name_def)
  moreover have "same_name [65] [97]" by (simp add: same_name_def c_str_def tolower_def)
  then have "cJSON_GetObjectItem ?r2 [97] = Some (with_name [65] (cJSON_CreateString [120]))"
    by (simp add: GetObjectItem_Node)
  ultimately show ?thesis by (simp add: merged_def with_name_def cJSON_CreateString_def split: option.split)
qed

section \<open>No zero in a text\<close>

lemma escape_no_zero: "0 \<notin> set (escape s)"
proof (induction s)
  case (Cons c s)
  show ?case
  proof (cases "c = 0 \<or> 31 < c")
    case True
    with Cons show ?thesis by auto
  next
    case False
    then have "c < 32" "c \<noteq> 0" by (simp_all add: word_less_nat_alt)
    from hex_control(2,3) [OF this] have "hex_char (drop_bit 4 (ucast c)) \<noteq> 0" "hex_char (ucast c AND 15) \<noteq> 0" by auto
    with Cons False show ?thesis by auto
  qed
qed simp

lemma digits_no_zero: "list_all is_digit ds \<Longrightarrow> 0 \<notin> set ds"
  by (auto simp: list_all_iff is_digit_def)

lemma sprintf_d_no_zero: "0 \<notin> set (sprintf_d i)"
  using digits_no_zero [OF dec_digits] by (auto simp: sprintf_d_def minus_sign_def)

lemma compose_no_zero:
  "list_all (\<lambda>e. 0 \<notin> set e) es \<Longrightarrow> 0 \<notin> set (snd (print_array fmt es))"
  "list_all (\<lambda>(n, e). 0 \<notin> set n \<and> 0 \<notin> set e) ms \<Longrightarrow> 0 \<notin> set (snd (print_object fmt depth ms))"
proof -
  have "list_all (\<lambda>e. 0 \<notin> set e) es \<Longrightarrow> 0 \<notin> set (compose_array fmt es)" for es
    by (induction fmt es rule: compose_array.induct) auto
  then show "list_all (\<lambda>e. 0 \<notin> set e) es \<Longrightarrow> 0 \<notin> set (snd (print_array fmt es))"
    by (simp add: print_array_def)
  have "list_all (\<lambda>(n, e). 0 \<notin> set n \<and> 0 \<notin> set e) ms \<Longrightarrow> 0 \<notin> set (compose_object fmt depth ms)" for depth
    by (induction fmt depth ms rule: compose_object.induct) (auto simp: tabs_def)
  then show "list_all (\<lambda>(n, e). 0 \<notin> set n \<and> 0 \<notin> set e) ms \<Longrightarrow> 0 \<notin> set (snd (print_object fmt depth ms))"
    by (auto simp: print_object_def tabs_def Let_def)
qed

lemma print_string_no_zero: "0 \<notin> set (snd (print_string_ptr s))"
  by (cases s) (simp_all add: escape_no_zero)

text \<open>The text of a printable tree has no zero in it.\<close>

lemma print_no_zero:
  "printable t \<Longrightarrow> print_value depth fmt t = Some (n, e) \<Longrightarrow> 0 \<notin> set e"
  "list_all printable cs \<Longrightarrow> print_entries depth fmt cs = Some es \<Longrightarrow> list_all (\<lambda>e. 0 \<notin> set e) es"
proof (induction depth fmt t and depth fmt cs arbitrary: n e and es rule: print_value_print_entries.induct)
  case (1 depth fmt item cs)
  show ?case
  proof (cases "cj_type item = cJSON_Array \<or> cj_type item = cJSON_Object")
    case True
    have t: "cj_type item mod 256 = cj_type item" using True by (auto simp: type_defs)
    have p: "list_all printable cs" using 1(3) True by (auto simp: type_defs list_all_iff)
    obtain es where es: "print_entries (depth + 1) fmt cs = Some es" using 1(4) True
      by (auto simp: type_defs bind_eq_Some_conv)
    have z: "list_all (\<lambda>e. 0 \<notin> set e) es"
      using 1(1,2) [OF refl] p es True unfolding t by (auto simp: type_defs)
    have "list_all (\<lambda>(n, e). 0 \<notin> set n \<and> 0 \<notin> set e) (zip (map (\<lambda>c. snd (print_string_ptr (cj_string (own c)))) cs) es)"
      using z print_string_no_zero by (fastforce simp: list_all_iff dest: set_zip_leftD set_zip_rightD)
    with z 1(4) True es show ?thesis using compose_no_zero(1) [of es fmt] compose_no_zero(2) [of _ fmt depth]
      by (auto simp: type_defs prod_eq_iff)
  next
    case False
    have "0 \<notin> set (snd (print_number item))" if "integral item"
      using integral_int [OF that] print_number_exact [of _ item] sprintf_d_no_zero by metis
    with False 1(3,4) show ?thesis
      by (auto simp: type_defs strdup_def print_string_def escape_no_zero split: if_splits option.splits)
  qed
next
  case (3 depth fmt c cs)
  then show ?case by (auto simp: bind_eq_Some_conv split: prod.splits)
qed simp

lemma toString_no_zero: "m_root w = Some t \<Longrightarrow> printable t \<Longrightarrow> 0 \<notin> set (toString fmt w)"
  using print_no_zero(1) [of t 0 fmt]
  by (cases "print_value 0 fmt t"; cases fmt) (auto simp: toString_def cJSON_Print_def cJSON_PrintUnformatted_def simp del: print_value.simps)

section \<open>The length of a text\<close>

definition opt_length :: "byte list option \<Rightarrow> nat" where
  "opt_length s = (case s of Some s \<Rightarrow> length s | None \<Rightarrow> 0)"

fun text_size :: "cJSON \<Rightarrow> nat" where
  "text_size (Node f cs) =
     17 + 6 * opt_length (valuestring f) + (\<Sum>c \<leftarrow> cs. text_size c + 6 * opt_length (cj_string (own c)) + 4)"

lemma escape_bound: "length (escape s) \<le> 6 * length s"
  by (induction s) auto

lemma length_print_string: "length (snd (print_string_ptr s)) \<le> 6 * opt_length s + 2"
  using escape_bound by (cases s) (simp_all add: opt_length_def)

lemma sprintf_d_bound: "exact_int i \<Longrightarrow> length (sprintf_d i) \<le> 17"
proof -
  assume "exact_int i"
  then have "nat \<bar>i\<bar> < 10 ^ 16" by (simp add: exact_int_def)
  from dec_length [OF this] show ?thesis using length_minus_sign [of "i < 0"] by (simp add: sprintf_d_def)
qed

lemma length_compose:
  "length (compose_array False es) \<le> (\<Sum>e \<leftarrow> es. length e + 1)"
  "length (compose_object False depth ms) \<le> (\<Sum>(n, e) \<leftarrow> ms. length n + length e + 2)"
  by (induction False es rule: compose_array.induct; simp)
    (induction False depth ms rule: compose_object.induct; simp)

lemma length_print:
  "printable t \<Longrightarrow> print_value depth False t = Some (n, e) \<Longrightarrow> length e \<le> text_size t"
  "list_all printable cs \<Longrightarrow> print_entries depth False cs = Some es \<Longrightarrow> list_all2 (\<lambda>e c. length e \<le> text_size c) es cs"
proof (induction depth "False" t and depth "False" cs arbitrary: n e and es rule: print_value_print_entries.induct)
  case (1 depth item cs)
  show ?case
  proof (cases "cj_type item = cJSON_Array \<or> cj_type item = cJSON_Object")
    case True
    have t: "cj_type item mod 256 = cj_type item" using True by (auto simp: type_defs)
    have p: "list_all printable cs" using 1(3) True by (auto simp: type_defs list_all_iff)
    obtain es where es: "print_entries (depth + 1) False cs = Some es" using 1(4) True
      by (auto simp: type_defs bind_eq_Some_conv)
    have l: "list_all2 (\<lambda>e c. length e \<le> text_size c) es cs"
      using 1(1,2) [OF refl] p es True unfolding t by (auto simp: type_defs)
    have a: "(\<Sum>e \<leftarrow> es. length e + 1) \<le> (\<Sum>c \<leftarrow> cs. text_size c + 6 * opt_length (cj_string (own c)) + 4)"
      using l by (induction rule: list_all2_induct) auto
    have o: "(\<Sum>(n, e) \<leftarrow> zip (map (\<lambda>c. snd (print_string_ptr (cj_string (own c)))) cs) es. length n + length e + 2) \<le>
        (\<Sum>c \<leftarrow> cs. text_size c + 6 * opt_length (cj_string (own c)) + 4)"
      using l
    proof (induction rule: list_all2_induct)
      case (Cons e es c cs)
      then show ?case using length_print_string [of "cj_string (own c)"] by simp
    qed simp
    show ?thesis
      using 1(4) True es a o length_compose(1) [of es]
        length_compose(2) [of "depth + 1" "zip (map (\<lambda>c. snd (print_string_ptr (cj_string (own c)))) cs) es"]
      by (auto simp: type_defs print_array_def print_object_def Let_def split: if_splits)
  next
    case False
    have "length (snd (print_number item)) \<le> 17" if "integral item"
      using integral_int [OF that] print_number_exact [of _ item] sprintf_d_bound by metis
    with False 1(3,4) length_print_string [of "valuestring item"] show ?thesis
      by (auto simp: type_defs strdup_def print_string_def split: if_splits option.splits)
  qed
next
  case (3 depth c cs)
  then show ?case by (auto simp: bind_eq_Some_conv split: prod.splits)
qed simp

lemma length_toString: "m_root w = Some t \<Longrightarrow> printable t \<Longrightarrow> length (toString False w) \<le> text_size t"
  using length_print(1) [of t 0]
  by (cases "print_value 0 False t") (auto simp: toString_def cJSON_PrintUnformatted_def simp del: print_value.simps text_size.simps)

end
