(* ===== verification/Worker.thy ===== *)
theory Worker
  imports Worker_Socket Json_Wrapper_Laws "HOL-Library.Signed_Division"
begin

text \<open>
  The class \<open>Worker\<close> (src/turnserver/turnserver_main.cc): the connection to the worker
  manager.  It announces itself, sends a ping every three seconds, connects again
  when the connection is lost, and answers the manager's requests with the ports of
  the TURN server.  The messages are JSON texts in packets \<open>WorkerManagerComm\<close>.
\<close>

definition bytes_of :: "string \<Rightarrow> byte list" where
  "bytes_of s = map of_char s"

section \<open>State\<close>

text \<open>The global variables of the program that the worker reads.\<close>

record turn_globals =
  udpport :: u16
  tcpport :: u16
  pid :: int

record worker =
  wk_socket :: "sock option"
  local_address :: rtc_addr
  remote_address :: rtc_addr
  userCount :: int
  ingress :: int
  egress :: int

text \<open>The counters are not initialised by the constructor: \<open>junk\<close> is what is in the memory.\<close>

definition Worker_new :: "int \<times> int \<times> int \<Rightarrow> worker" where
  "Worker_new junk =
     \<lparr>wk_socket = None, local_address = (0, 0), remote_address = (0, 0),
      userCount = fst junk, ingress = fst (snd junk), egress = snd (snd junk)\<rparr>"

section \<open>Messages\<close>

abbreviation setString :: "string \<Rightarrow> string \<Rightarrow> json_wrapper \<Rightarrow> json_wrapper" where
  "setString name val \<equiv> setStringValue_name (Some (bytes_of name)) (Some (bytes_of val))"

abbreviation setInt :: "string \<Rightarrow> int \<Rightarrow> json_wrapper \<Rightarrow> json_wrapper" where
  "setInt name val \<equiv> setIntValue_name (Some (bytes_of name)) val"

abbreviation setMillis :: "string \<Rightarrow> int \<Rightarrow> json_wrapper \<Rightarrow> json_wrapper" where
  "setMillis name val \<equiv> setDoubleValue_name (Some (bytes_of name)) (double_of_int val)"

definition connect_json :: "turn_globals \<Rightarrow> int \<Rightarrow> json_wrapper" where
  "connect_json g now =
     (let json = setObjectType;
          json = setString ''command'' ''connect'' json;
          json = setString ''name'' ''webrtc_proxy'' json;
          json = setInt ''pid'' (pid g) json;
          json = setMillis ''ts'' now json;
          json = setString ''appId'' '''' json;
          json = setString ''cname'' '''' json;
          json = setString ''uid'' '''' json;
          json = setString ''minSdkVersion'' ''2.3.1'' json
      in setString ''maxSdkVersion'' ''2.6.2'' json)"

definition ping_json :: "worker \<Rightarrow> int \<Rightarrow> json_wrapper" where
  "ping_json wk now =
     (let json = setObjectType;
          json = setString ''command'' ''ping'' json;
          json = setString ''state'' ''idle'' json;
          json = setMillis ''ts'' now json;
          msg = setObjectType;
          msg = setInt ''cpu'' 0 msg;
          msg = setInt ''ingress'' (ingress wk) msg;
          msg = setInt ''egress'' (egress wk) msg;
          msg = setInt ''userCount'' (userCount wk) msg
      in setObjectValue (Some (bytes_of ''workload'')) msg json)"

text \<open>The fields that the worker reads from a request and repeats in its response.\<close>

record request_fields =
  rq_appid :: "byte list"
  rq_cname :: "byte list"
  rq_uid :: "byte list"
  rq_sid :: "byte list"
  rq_seq :: int
  rq_requestid :: int

definition read_request :: "int \<times> int \<Rightarrow> json_wrapper \<Rightarrow> request_fields" where
  "read_request junk json =
     \<lparr>rq_appid = snd (tryGetStringValue (Some (bytes_of ''appId'')) [] json),
      rq_cname = snd (tryGetStringValue (Some (bytes_of ''cname'')) [] json),
      rq_uid = snd (tryGetStringValue (Some (bytes_of ''uid'')) [] json),
      rq_sid = snd (tryGetStringValue (Some (bytes_of ''sid'')) [] json),
      rq_seq = snd (tryGetIntValue (Some (bytes_of ''seq'')) (fst junk) json),
      rq_requestid = snd (tryGetIntValue (Some (bytes_of ''requestId'')) (snd junk) json)\<rparr>"

definition ports_json :: "turn_globals \<Rightarrow> json_wrapper" where
  "ports_json g =
     (let msg = setObjectType;
          msg = setInt ''udpport'' (uint (udpport g)) msg;
          msg = setInt ''tcpport'' (uint (tcpport g)) msg;
          msg = setString ''username'' ''test'' msg
      in setString ''password'' ''111111'' msg)"

definition response_json :: "turn_globals \<Rightarrow> request_fields \<Rightarrow> int \<Rightarrow> json_wrapper" where
  "response_json g rq now =
     (let resp = setObjectType;
          resp = setString ''command'' ''response'' resp;
          resp = setStringValue_string (bytes_of ''appId'') (rq_appid rq) resp;
          resp = setStringValue_string (bytes_of ''cname'') (rq_cname rq) resp;
          resp = setStringValue_string (bytes_of ''uid'') (rq_uid rq) resp;
          resp = setStringValue_string (bytes_of ''sid'') (rq_sid rq) resp;
          resp = setInt ''seq'' (rq_seq rq) resp;
          resp = setMillis ''ts'' now resp;
          resp = setInt ''requestId'' (rq_requestid rq) resp;
          resp = setInt ''code'' 200 resp;
          resp = setString ''reason'' ''Success'' resp
      in setObjectValue (Some (bytes_of ''serverResponse'')) (ports_json g) resp)"

text \<open>The packet that carries a text; \<open>None\<close> when the packer fails.\<close>

definition comm_packet :: "json_wrapper \<Rightarrow> byte list option" where
  "comm_packet json =
     encode WorkerManagerComm (fst (with_server_type UAP_SERVER_TYPE WorkerManagerComm), toString False json)"

section \<open>Operations\<close>

definition sendMessage :: "'w rtc_env \<Rightarrow> worker \<Rightarrow> byte list \<Rightarrow> 'w \<Rightarrow> int \<times> 'w" where
  "sendMessage env wk pv w =
     (case wk_socket wk of None \<Rightarrow> (0, w)
      | Some s \<Rightarrow> if GetState env s w \<noteq> STATE_CONNECTED then (0, w) else WorkerTCPSocket_Send env s pv w)"

definition sendConnectMsg :: "'w rtc_env \<Rightarrow> turn_globals \<Rightarrow> worker \<Rightarrow> 'w \<Rightarrow> (int \<times> 'w) option" where
  "sendConnectMsg env g wk w = do { p \<leftarrow> comm_packet (connect_json g (TimeMillis env w)); Some (sendMessage env wk p w) }"

definition sendPingMsg :: "'w rtc_env \<Rightarrow> worker \<Rightarrow> 'w \<Rightarrow> (int \<times> 'w) option" where
  "sendPingMsg env wk w = do { p \<leftarrow> comm_packet (ping_json wk (TimeMillis env w)); Some (sendMessage env wk p w) }"

text \<open>The socket is created and its signals are connected; the same lines stand in three places.\<close>

definition new_worker_socket :: "'w rtc_env \<Rightarrow> worker \<Rightarrow> 'w \<Rightarrow> worker \<times> 'w" where
  "new_worker_socket env wk w =
     (case WorkerTCPSocket_Create env (local_address wk) (remote_address wk) w of
        (Some s, w) \<Rightarrow> (wk\<lparr>wk_socket := Some s\<rparr>, ConnectSignals env WorkerSlots s w)
      | (None, w) \<Rightarrow> (wk, w))"

definition AddWorkerManagerSocket :: "'w rtc_env \<Rightarrow> rtc_addr \<Rightarrow> rtc_addr \<Rightarrow> worker \<Rightarrow> 'w \<Rightarrow> worker \<times> 'w" where
  "AddWorkerManagerSocket env loacladdr remoteaddr wk w =
     (let (wk, w) = new_worker_socket env (wk\<lparr>local_address := loacladdr, remote_address := remoteaddr\<rparr>) w;
          w = PostDelayed env 3000 MSG_WORKER_ONTIMER w;
          w = PostDelayed env (60 * 1000) MSG_LOG_ONTIMER w;
          w = PostDelayed env 500 MSG_BANDWIDTH_GET w
      in (wk, w))"

text \<open>
  \<open>pow10\<close> is the \<open>pow\<close> of the parser; \<open>junk\<close> is what is in the two integers that the
  handler does not initialise.
\<close>

definition OnWorkerManagerPacket ::
  "(double \<Rightarrow> double) \<Rightarrow> 'w rtc_env \<Rightarrow> turn_globals \<Rightarrow> int \<times> int \<Rightarrow> worker \<Rightarrow> byte list \<Rightarrow> u16 \<Rightarrow> 'w \<Rightarrow> 'w option" where
  "OnWorkerManagerPacket pow10 env g junk wk data sz w =
     do { unpkr \<leftarrow> Unpacker_new data (ucast sz) False;
          (service_type, unpkr) \<leftarrow> PopUint16 unpkr;
          (uri, unpkr) \<leftarrow> PopUint16 unpkr;
          (jcstr, unpkr) \<leftarrow> PopString unpkr;
          json \<leftarrow> JsonWrapper_of_input pow10 (Some (c_str jcstr @ [0]));
          let (found, command) = tryGetStringValue (Some (bytes_of ''command'')) [] json;
          if \<not> found then Some w
          else if command = bytes_of ''request''
          then do { p \<leftarrow> comm_packet (response_json g (read_request junk json) (TimeMillis env w));
                    Some (snd (sendMessage env wk p w)) }
          else Some w }"

definition OnSocketConnect :: "'w rtc_env \<Rightarrow> turn_globals \<Rightarrow> worker \<Rightarrow> 'w \<Rightarrow> 'w option" where
  "OnSocketConnect env g wk w = map_option snd (sendConnectMsg env g wk w)"

definition OnSocketClose :: "'w rtc_env \<Rightarrow> sock \<Rightarrow> 'w \<Rightarrow> 'w" where
  "OnSocketClose env s w = CloseSocket env s w"

definition worker_timer :: "'w rtc_env \<Rightarrow> worker \<Rightarrow> 'w \<Rightarrow> (worker \<times> 'w) option" where
  "worker_timer env wk w =
     (case wk_socket wk of None \<Rightarrow> Some (new_worker_socket env wk w)
      | Some s \<Rightarrow>
          (case GetState env s w of
             STATE_CONNECTED \<Rightarrow> do { (_, w) \<leftarrow> sendPingMsg env wk w; Some (wk, w) }
           | STATE_CLOSED \<Rightarrow> Some (new_worker_socket env wk w)
           | _ \<Rightarrow> let (ok, w) = ReConnect env s w
                  in if ok then do { (_, w) \<leftarrow> sendPingMsg env wk w; Some (wk, w) } else Some (wk, w)))"

definition restart_timer :: "'w rtc_env \<Rightarrow> nat \<Rightarrow> message_id \<Rightarrow> 'w \<Rightarrow> 'w" where
  "restart_timer env delay m w = PostDelayed env delay m (ClearMessages env m w)"

fun Worker_OnMessage :: "'w rtc_env \<Rightarrow> message_id \<Rightarrow> worker \<Rightarrow> 'w \<Rightarrow> (worker \<times> 'w) option" where
  "Worker_OnMessage env MSG_WORKER_ONTIMER wk w =
     do { (wk, w) \<leftarrow> worker_timer env wk w; Some (wk, restart_timer env 3000 MSG_WORKER_ONTIMER w) }"
| "Worker_OnMessage env MSG_BANDWIDTH_GET wk w =
     Some (wk\<lparr>userCount := getAllocationCount env w sdiv 2, ingress := getSendBandWidth env w, egress := getRecvBandWidth env w\<rparr>,
       restart_timer env 500 MSG_BANDWIDTH_GET w)"
| "Worker_OnMessage env MSG_LOG_ONTIMER wk w = Some (wk, restart_timer env (60 * 1000) MSG_LOG_ONTIMER w)"
| "Worker_OnMessage env m wk w = Some (wk, w)"

definition Worker_destroy :: "'w rtc_env \<Rightarrow> worker \<Rightarrow> 'w \<Rightarrow> worker \<times> 'w" where
  "Worker_destroy env wk w =
     (let (wk, w) = (case wk_socket wk of None \<Rightarrow> (wk, w) | Some s \<Rightarrow> (wk\<lparr>wk_socket := None\<rparr>, CloseSocket env s w));
          w = ClearMessages env MSG_WORKER_ONTIMER w;
          w = ClearMessages env MSG_BANDWIDTH_GET w;
          w = ClearMessages env MSG_LOG_ONTIMER w
      in (wk, StopThread env w))"

end
