(* ===== verification/Argus_Report.thy ===== *)
theory Argus_Report
  imports Report_Roundtrip Worker
begin

text \<open>
  The three reports that the program sends to the edge server (\<open>SendSessionReport\<close>, \<open>SendQuitReport\<close> and
  \<open>SendConnectReport\<close> of src/turnserver/turnserver_main.cc): a \<open>ReportItem\<close> in the compact protocol behind
  a header of 20 bytes that starts with the length of the whole.
\<close>

section \<open>The header\<close>

record ArgusReportHead =
  head_size :: u16
  head_type :: byte
  head_qos :: byte
  head_seq :: u32
  head_send_ts :: u32
  head_vid :: u32
  head_cid :: u32

text \<open>The structure in memory: the members follow each other without a gap.\<close>

definition argus_head :: "ArgusReportHead \<Rightarrow> byte list" where
  "argus_head h = le_bytes 2 (head_size h) @ [head_type h, head_qos h] @ le_bytes 4 (head_seq h) @ le_bytes 4 (head_send_ts h) @
     le_bytes 4 (head_vid h) @ le_bytes 4 (head_cid h)"

text \<open>The lines that the three functions share; nothing is sent when the object is not written.\<close>

definition send_report :: "'w rtc_env \<Rightarrow> sock \<Rightarrow> tvalue \<Rightarrow> u32 \<Rightarrow> 'w \<Rightarrow> 'w" where
  "send_report env s item cid w =
     (case serialize ReportItem item of None \<Rightarrow> w
      | Some p \<Rightarrow>
          if p = [] then w
          else let head = \<lparr>head_size = of_nat (length p + 20), head_type = 3, head_qos = 0, head_seq = 0,
                           head_send_ts = word_of_int (TimeMillis env w sdiv 1000), head_vid = 161891, head_cid = cid\<rparr>
               in snd (WorkerTCPSocket_Send env s (argus_head head @ p) w))"

section \<open>The reports\<close>

definition ReportItemType_Session :: int where "ReportItemType_Session = 1001"
definition ReportItemType_WebQuit :: int where "ReportItemType_WebQuit = 1029"
definition ReportItemType_WrtcConnectProxyTurnWorker :: int where "ReportItemType_WrtcConnectProxyTurnWorker = 2026"

abbreviation vstr :: "string \<Rightarrow> tvalue" where
  "vstr s \<equiv> VString (bytes_of s)"

abbreviation set_in :: "tschema \<Rightarrow> string \<Rightarrow> tvalue \<Rightarrow> tvalue \<Rightarrow> tvalue" where
  "set_in c name v \<equiv> set_field name v c"

definition session_report :: "int \<Rightarrow> tvalue" where
  "session_report now =
     (let header = default_value VosdkHeader;
          header = set_in VosdkHeader ''sid'' (vstr ''07EA2A894DDB45AC8695A5CF8DBCC8E4'') header;
          header = set_in VosdkHeader ''lts'' (VI64 now) header;
          header = set_in VosdkHeader ''cname'' (vstr ''testtesttest'') header;
          header = set_in VosdkHeader ''uid'' (VI64 1) header;
          header = set_in VosdkHeader ''cid'' (VI64 12345678) header;
          evt = default_value VosdkSession;
          evt = set_in VosdkSession ''header'' header evt;
          evt = set_in VosdkSession ''vk'' (vstr ''67466468aed5442c977082bb2a43a1af'') evt;
          evt = set_in VosdkSession ''ver'' (vstr ''2.6.0'') evt;
          evt = set_in VosdkSession ''cheVer'' (vstr ''turnserver'') evt;
          evt = set_in VosdkSession ''localIp'' (vstr ''127.0.0.1'') evt;
          evt = set_in VosdkSession ''net1'' (VI32 1) evt;
          evt = set_in VosdkSession ''os1'' (VI32 7) evt;
          evt = set_in VosdkSession ''did'' (vstr ''test'') evt;
          evt = set_in VosdkSession ''pnq'' (VI32 (- 1)) evt;
          evt = set_in VosdkSession ''info'' (vstr ''turnserver test report'') evt;
          item = default_value ReportItem;
          item = set_in ReportItem ''uri'' (VI32 ReportItemType_Session) item
      in set_in ReportItem ''vosdkSession'' evt item)"

definition quit_report :: "int \<Rightarrow> tvalue" where
  "quit_report now =
     (let header = default_value VosdkHeader;
          header = set_in VosdkHeader ''sid'' (vstr ''697abf9b17da4d5a8a4df0fe0ea4b531'') header;
          header = set_in VosdkHeader ''lts'' (VI64 now) header;
          header = set_in VosdkHeader ''cname'' (vstr ''machine'') header;
          header = set_in VosdkHeader ''uid'' (VI64 124487) header;
          header = set_in VosdkHeader ''cid'' (VI64 2888778408) header;
          header = set_in VosdkHeader ''elapse'' (VI64 1000) header;
          evt = default_value VosdkWebQuit;
          evt = set_in VosdkWebQuit ''header'' header evt;
          evt = set_in VosdkWebQuit ''ec'' (VI32 0) evt;
          item = default_value ReportItem;
          item = set_in ReportItem ''uri'' (VI32 ReportItemType_WebQuit) item
      in set_in ReportItem ''vosdkWebQuit'' evt item)"

definition connect_report :: "byte list \<Rightarrow> int \<Rightarrow> int \<Rightarrow> int \<Rightarrow> int \<Rightarrow> tvalue" where
  "connect_report clientaddr usercount inbound outbound now =
     (let header = default_value VosdkHeader;
          header = set_in VosdkHeader ''sid'' (vstr ''697abf9b17da4d5a8a4df0fe0ea4b531'') header;
          header = set_in VosdkHeader ''lts'' (VI64 now) header;
          header = set_in VosdkHeader ''cname'' (vstr ''machine'') header;
          header = set_in VosdkHeader ''uid'' (VI64 124487) header;
          header = set_in VosdkHeader ''cid'' (VI64 2888778408) header;
          evt = default_value WrtcConnectProxyTurnWorker;
          evt = set_in WrtcConnectProxyTurnWorker ''header'' header evt;
          evt = set_in WrtcConnectProxyTurnWorker ''clientAddr'' (VString clientaddr) evt;
          evt = set_in WrtcConnectProxyTurnWorker ''userCount'' (VI64 usercount) evt;
          evt = set_in WrtcConnectProxyTurnWorker ''ingress'' (VI64 inbound) evt;
          evt = set_in WrtcConnectProxyTurnWorker ''egress'' (VI64 outbound) evt;
          item = default_value ReportItem;
          item = set_in ReportItem ''uri'' (VI32 ReportItemType_WrtcConnectProxyTurnWorker) item
      in set_in ReportItem ''wrtcConnectProxyTurnWorker'' evt item)"

definition SendSessionReport :: "'w rtc_env \<Rightarrow> sock option \<Rightarrow> 'w \<Rightarrow> 'w" where
  "SendSessionReport env socket w =
     (case socket of None \<Rightarrow> w | Some s \<Rightarrow> send_report env s (session_report (TimeMillis env w)) 12345678 w)"

definition SendQuitReport :: "'w rtc_env \<Rightarrow> sock option \<Rightarrow> 'w \<Rightarrow> 'w" where
  "SendQuitReport env socket w =
     (case socket of None \<Rightarrow> w | Some s \<Rightarrow> send_report env s (quit_report (TimeMillis env w)) 2888778408 w)"

definition SendConnectReport :: "'w rtc_env \<Rightarrow> sock option \<Rightarrow> byte list \<Rightarrow> int \<Rightarrow> int \<Rightarrow> int \<Rightarrow> 'w \<Rightarrow> 'w" where
  "SendConnectReport env socket clientaddr usercount inbound outbound w =
     (case socket of None \<Rightarrow> w
      | Some s \<Rightarrow> send_report env s (connect_report clientaddr usercount inbound outbound (TimeMillis env w)) 2888778408 w)"

section \<open>The reports as values\<close>

lemmas report_values = Let_def default_value.simps optional_def required_def
  VosdkHeader_def VosdkSession_def VosdkWebQuit_def WrtcConnectProxyTurnWorker_def ReportItem_def

abbreviation report_head :: "string \<Rightarrow> string \<Rightarrow> int \<Rightarrow> int \<Rightarrow> int \<Rightarrow> tvalue option \<Rightarrow> tvalue" where
  "report_head sid cname cid now uid elapse \<equiv>
     VStruct [Some (vstr sid), Some (vstr cname), Some (VI64 cid), Some (VI64 now), None, Some (VI64 uid), None, elapse, None]"

lemma quit_report_value:
  "quit_report now = VStruct [Some (VI32 1029), None, None, None, None, None,
     Some (VStruct [Some (report_head ''697abf9b17da4d5a8a4df0fe0ea4b531'' ''machine'' 2888778408 now 124487 (Some (VI64 1000))),
       Some (VI32 0)]), None, None, None, None, None, None, None, None, None, None, None, None, None, None]"
  by (simp add: quit_report_def report_values ReportItemType_WebQuit_def)

lemma connect_report_value:
  "connect_report a u i e now = VStruct [Some (VI32 2026), None, None, None, None, None, None, None, None, None, None, None, None, None, None,
     None, None, None, None, None,
     Some (VStruct [Some (report_head ''697abf9b17da4d5a8a4df0fe0ea4b531'' ''machine'' 2888778408 now 124487 None),
       Some (VString a), Some (VI64 u), Some (VI64 i), Some (VI64 e), None])]"
  by (simp add: connect_report_def report_values ReportItemType_WrtcConnectProxyTurnWorker_def)

section \<open>Their size\<close>

fun size_bound :: "tschema \<Rightarrow> tvalue \<Rightarrow> nat"
  and elems_bound :: "tschema \<Rightarrow> tvalue list \<Rightarrow> nat"
  and fields_bound :: "tfield list \<Rightarrow> tvalue option list \<Rightarrow> nat" where
  "size_bound s (VString str) = 5 + length str"
| "size_bound (SList s) (VList vs) = 6 + elems_bound s vs"
| "size_bound (SStruct fs) (VStruct vs) = 1 + fields_bound fs vs"
| "size_bound s v = 10"
| "elems_bound s [] = 0"
| "elems_bound s (v # vs) = size_bound s v + elems_bound s vs"
| "fields_bound (f # fs) (None # vs) = fields_bound fs vs"
| "fields_bound (Field name wid rid req s # fs) (Some v # vs) = 6 + size_bound s v + fields_bound fs vs"
| "fields_bound _ _ = 0"

lemma enc_header_length: "length (enc_header prev fid ct) \<le> 6"
  using varint_length_32 [of "i32ToZigzag fid"] by (simp add: enc_header_def)

lemma enc_list_header_length: "length (enc_list_header t n) \<le> 6"
  using varint_length_32 [of "of_nat n"] by (simp add: enc_list_header_def)

lemma enc_length:
  "has_type s v \<Longrightarrow> length (enc_value s v) \<le> size_bound s v"
  "elems_typed s us \<Longrightarrow> length (enc_elems s us) \<le> elems_bound s us"
  "fields_typed gs ws \<Longrightarrow> length (enc_fields prev gs ws) \<le> fields_bound gs ws"
proof (induction s v and s us and gs ws arbitrary: and and prev rule: has_type_elems_typed_fields_typed.induct)
  case (6 s vs)
  then show ?case using enc_list_header_length [of "ttype_of s" "length vs"] by simp
next
  case (13 name wid rid req s fs v vs)
  have "length (enc_fields wid fs vs) \<le> fields_bound fs vs" "length (enc_value s v) \<le> size_bound s v"
    using 13 by simp_all
  moreover have "length (enc_header prev wid ct) \<le> 6" for ct by (rule enc_header_length)
  ultimately show ?case by (simp add: add_mono trans_le_add1)
qed (use varint_length_32 varint_length_64 in \<open>auto simp: enc_binary_def intro: order_trans [OF varint_length_32]\<close>)

section \<open>What is sent\<close>

lemma length_argus_head [simp]: "length (argus_head h) = 20"
  by (simp add: argus_head_def)

text \<open>A report as it stands on the wire: the header, its length first, and the object.\<close>

definition argus_frame :: "u32 \<Rightarrow> int \<Rightarrow> byte list \<Rightarrow> byte list" where
  "argus_frame cid now p =
     argus_head \<lparr>head_size = of_nat (length p + 20), head_type = 3, head_qos = 0, head_seq = 0,
       head_send_ts = word_of_int (now sdiv 1000), head_vid = 161891, head_cid = cid\<rparr> @ p"

lemma argus_frame_size:
  "length p + 20 < 2 ^ 16 \<Longrightarrow> le_word (take 2 (argus_frame cid now p)) = (of_nat (length (argus_frame cid now p)) :: u16)"
  by (simp add: argus_frame_def argus_head_def le_bytes_le_word)

context async_tcp
begin

lemma send_report_bytes:
  assumes "has_type ReportItem item" "size_bound ReportItem item \<le> 65000" "outbuf s w = []"
    and "\<forall>p. p \<noteq> [] \<longrightarrow> 0 < fst (FlushOutBuffer env s (AppendToOutBuffer env s p w))"
  shows "wire s (send_report env s item cid w) @ outbuf s (send_report env s item cid w) =
    wire s w @ argus_frame cid (TimeMillis env w) (enc_value ReportItem item)"
proof -
  let ?p = "enc_value ReportItem item"
  let ?m = "argus_frame cid (TimeMillis env w) ?p"
  have "?p \<noteq> []" using assms(1) unfolding ReportItem_fields by (cases item) auto
  then have "send_report env s item cid w = snd (WorkerTCPSocket_Send env s ?m w)"
    using serialize_bytes [OF assms(1)] by (simp add: send_report_def argus_frame_def Let_def)
  moreover have "length ?m = 20 + length ?p" by (simp add: argus_frame_def)
  then have "?m \<noteq> []" "length ?m \<le> 65536" using enc_length(1) [OF assms(1)] assms(2) by auto
  then have "taken env s ?m w" using assms(3, 4) by (simp add: taken_def out_empty WorkerConstants_kMaxPacketSize_def)
  ultimately show ?thesis using Send_taken(2) by simp
qed

end

lemma quit_report_typed:
  assumes "signed_range 64 now"
  shows "has_type ReportItem (quit_report now)" "size_bound ReportItem (quit_report now) \<le> 65000"
    "get_field ''wrtcConnectProxyTurnWorker'' ReportItem (quit_report now) = None"
  using assms by (simp_all add: quit_report_value report_values bytes_of_def)


text \<open>The fields of a header that is set from the code are its own, so it comes back as it was written.\<close>

lemma connect_report_read_back:
  assumes "signed_range 64 now" "length a < 2 ^ 31" "signed_range 64 u" "signed_range 64 i" "signed_range 64 e"
  shows "has_type ReportItem (connect_report a u i e now)"
    "size_bound ReportItem (connect_report a u i e now) \<le> 300 + length a"
    "read_back ReportItem (connect_report a u i e now) =
      Some (VStruct ((case connect_report a u i e now of VStruct vs \<Rightarrow> butlast vs | _ \<Rightarrow> []) @
        [Some (VStruct [Some (report_head ''697abf9b17da4d5a8a4df0fe0ea4b531'' ''machine'' 2888778408 now 124487 None),
          Some (VString a), Some (VI64 e), None, None, None])]))"
proof -
  let ?h = "report_head ''697abf9b17da4d5a8a4df0fe0ea4b531'' ''machine'' 2888778408 now 124487 None"
  have h: "has_type VosdkHeader ?h" using assms by (simp add: VosdkHeader_def optional_def bytes_of_def)
  have "read_back VosdkHeader ?h = Some ?h" using read_back_clean(1) [OF h agree_clean(1) [OF classes_agree(2) h]] .
  show "has_type ReportItem (connect_report a u i e now)"
    "size_bound ReportItem (connect_report a u i e now) \<le> 300 + length a"
    using assms by (simp_all add: connect_report_value report_values bytes_of_def)
  show "read_back ReportItem (connect_report a u i e now) =
      Some (VStruct ((case connect_report a u i e now of VStruct vs \<Rightarrow> butlast vs | _ \<Rightarrow> []) @
        [Some (VStruct [Some ?h, Some (VString a), Some (VI64 e), None, None, None])]))"
    using \<open>read_back VosdkHeader ?h = Some ?h\<close>
    by (simp add: connect_report_value ReportItem_def WrtcConnectProxyTurnWorker_def optional_def required_def untouched_None)
      (simp add: untouched_def)
qed

text \<open>C12. 
  C1. The quit report goes out whole behind its header: the first two bytes are the length of all of it, and
  what follows the 20 bytes of the header reads as the report.
\<close>

theorem quit_report_delivered:
  assumes "async_tcp env outbuf wire" "outbuf s w = []" "signed_range 64 (TimeMillis env w)"
    "\<forall>p. p \<noteq> [] \<longrightarrow> 0 < fst (FlushOutBuffer env s (AppendToOutBuffer env s p w))"
  shows "\<exists>m. wire s (SendQuitReport env (Some s) w) @ outbuf s (SendQuitReport env (Some s) w) = wire s w @ m
    \<and> le_word (take 2 m) = (of_nat (length m) :: u16) \<and> 20 < length m \<and> length m < 2 ^ 16
    \<and> deserialize ReportItem (drop 20 m) = Got (quit_report (TimeMillis env w)) (reader_new [])"
proof -
  let ?q = "quit_report (TimeMillis env w)" and ?p = "enc_value ReportItem (quit_report (TimeMillis env w))"
  note q = quit_report_typed [OF assms(3)]
  have "deserialize ReportItem ?p = Got ?q (reader_new [])"
    using report_roundtrip_bytes [OF q(1, 3)] by simp
  moreover have "length ?p \<le> 65000" using enc_length(1) [OF q(1)] q(2) by linarith
  moreover have "0 < length ?p" using q(1) unfolding ReportItem_fields by (cases ?q) auto
  moreover have "drop 20 (argus_frame 2888778408 (TimeMillis env w) ?p) = ?p" by (simp add: argus_frame_def)
  ultimately show ?thesis
    using async_tcp.send_report_bytes [OF assms(1) q(1, 2) assms(2, 4), of 2888778408] argus_frame_size [of ?p 2888778408 "TimeMillis env w"]
    by (intro exI [of _ "argus_frame 2888778408 (TimeMillis env w) ?p"]) (simp add: SendQuitReport_def argus_frame_def)
qed

theorem quit_report_delivered_witness:
  "\<exists>m. world_wire 1 (SendQuitReport world_env (Some 1) idle_world) @ world_out 1 (SendQuitReport world_env (Some 1) idle_world) =
      world_wire 1 idle_world @ m
    \<and> le_word (take 2 m) = (of_nat (length m) :: u16) \<and> 20 < length m \<and> length m < 2 ^ 16
    \<and> deserialize ReportItem (drop 20 m) = Got (quit_report (TimeMillis world_env idle_world)) (reader_new [])"
  by (rule quit_report_delivered [OF world.async_tcp_axioms])
    (simp_all add: world_env_def idle_world_def world_flush_def Let_def min_def)

text \<open>C13. 
  C2. The connect report does not arrive as it was filled in: whatever number of users and whatever traffic
  \<open>SendConnectReport\<close> is given, a reader of what it sends gets the outgoing traffic as the number of
  users, and no traffic in either direction.
\<close>

theorem connect_report_misread:
  assumes "async_tcp env outbuf wire" "outbuf s w = []" "signed_range 64 (TimeMillis env w)"
    "\<forall>p. p \<noteq> [] \<longrightarrow> 0 < fst (FlushOutBuffer env s (AppendToOutBuffer env s p w))"
    "length a \<le> 1000" "signed_range 32 u" "signed_range 32 i" "signed_range 32 e"
  shows "\<exists>m item evt. wire s (SendConnectReport env (Some s) a u i e w) @ outbuf s (SendConnectReport env (Some s) a u i e w) =
      wire s w @ m
    \<and> deserialize ReportItem (drop 20 m) = Got item (reader_new [])
    \<and> get_field ''wrtcConnectProxyTurnWorker'' ReportItem item = Some evt
    \<and> get_field ''clientAddr'' WrtcConnectProxyTurnWorker evt = Some (VString a)
    \<and> get_field ''userCount'' WrtcConnectProxyTurnWorker evt = Some (VI64 e)
    \<and> get_field ''ingress'' WrtcConnectProxyTurnWorker evt = None
    \<and> get_field ''egress'' WrtcConnectProxyTurnWorker evt = None"
proof -
  let ?now = "TimeMillis env w"
  let ?q = "connect_report a u i e ?now"
  let ?p = "enc_value ReportItem ?q"
  have r: "signed_range 64 u" "signed_range 64 i" "signed_range 64 e" using assms(6-8) by simp_all
  have l: "length a < 2 ^ 31" using assms(5) by simp
  note q = connect_report_read_back [OF assms(3) l r]
  have "size_bound ReportItem ?q \<le> 65000" using q(2) assms(5) by linarith
  from async_tcp.send_report_bytes [OF assms(1) q(1) this assms(2, 4), of 2888778408]
  have sent: "wire s (SendConnectReport env (Some s) a u i e w) @ outbuf s (SendConnectReport env (Some s) a u i e w) =
      wire s w @ argus_frame 2888778408 ?now ?p" by (simp add: SendConnectReport_def)
  let ?evt = "VStruct [Some (report_head ''697abf9b17da4d5a8a4df0fe0ea4b531'' ''machine'' 2888778408 ?now 124487 None),
      Some (VString a), Some (VI64 e), None, None, None]"
  let ?item = "VStruct ((case ?q of VStruct vs \<Rightarrow> butlast vs | _ \<Rightarrow> []) @ [Some ?evt])"
  have "drop 20 (argus_frame 2888778408 ?now ?p) = ?p" by (simp add: argus_frame_def)
  with deserialize_enc [OF q(1, 3)]
  have "deserialize ReportItem (drop 20 (argus_frame 2888778408 ?now ?p)) = Got ?item (reader_new [])" by simp
  moreover have "get_field ''wrtcConnectProxyTurnWorker'' ReportItem ?item = Some ?evt"
    by (simp add: ReportItem_fields report_fields_split(5) connect_report_value)
  moreover have "get_field ''clientAddr'' WrtcConnectProxyTurnWorker ?evt = Some (VString a)
      \<and> get_field ''userCount'' WrtcConnectProxyTurnWorker ?evt = Some (VI64 e)
      \<and> get_field ''ingress'' WrtcConnectProxyTurnWorker ?evt = None
      \<and> get_field ''egress'' WrtcConnectProxyTurnWorker ?evt = None"
    by (simp add: WrtcConnectProxyTurnWorker_def optional_def)
  ultimately show ?thesis using sent by blast
qed

theorem connect_report_misread_witness:
  "\<exists>m item evt. world_wire 1 (SendConnectReport world_env (Some 1) [49] 3 700 800 idle_world) @
      world_out 1 (SendConnectReport world_env (Some 1) [49] 3 700 800 idle_world) = world_wire 1 idle_world @ m
    \<and> deserialize ReportItem (drop 20 m) = Got item (reader_new [])
    \<and> get_field ''wrtcConnectProxyTurnWorker'' ReportItem item = Some evt
    \<and> get_field ''clientAddr'' WrtcConnectProxyTurnWorker evt = Some (VString [49])
    \<and> get_field ''userCount'' WrtcConnectProxyTurnWorker evt = Some (VI64 800)
    \<and> get_field ''ingress'' WrtcConnectProxyTurnWorker evt = None
    \<and> get_field ''egress'' WrtcConnectProxyTurnWorker evt = None"
  by (rule connect_report_misread [OF world.async_tcp_axioms])
    (simp_all add: world_env_def idle_world_def world_flush_def Let_def min_def)

end
