(* ===== verification/Elbs.thy ===== *)
theory Elbs
  imports Argus_Report
begin

text \<open>
  The class \<open>ElbsConnection\<close> (src/turnserver/turnserver_main.cc): every minute it asks the edge load balancers
  for an edge server, connects to the server they name, sends it the reports and a ping every three seconds.
\<close>

section \<open>State\<close>

text \<open>\<open>socket_connecting_\<close> is not initialised: \<open>None\<close> is a pointer that must not be used.\<close>

record elbs =
  elbs_socket :: "sock list"
  socket_connecting :: "sock option"
  el_socket :: "sock option"
  connect_Addr :: rtc_addr
  last_connect_ts :: int
  pingPkg :: "byte list"

definition ElbsConnection_new :: elbs where
  "ElbsConnection_new =
     \<lparr>elbs_socket = [], socket_connecting = None, el_socket = None, connect_Addr = (0, 0), last_connect_ts = 0, pingPkg = []\<rparr>"

definition kElbsPort :: u16 where "kElbsPort = 9700"
definition ARGUS_PING_LENGTH :: u16 where "ARGUS_PING_LENGTH = 2"

section \<open>Operations\<close>

definition connectElbs :: "'w rtc_env \<Rightarrow> rtc_addr \<Rightarrow> elbs \<Rightarrow> 'w \<Rightarrow> elbs \<times> 'w" where
  "connectElbs env serverAddr e w =
     (case WorkerTCPSocket_Create env (0, 0) serverAddr w of
        (None, w) \<Rightarrow> (e, w)
      | (Some s, w) \<Rightarrow> (e\<lparr>elbs_socket := elbs_socket e @ [s]\<rparr>, ConnectSignals env ElbsSlots s w))"

fun connect_all :: "'w rtc_env \<Rightarrow> u32 list \<Rightarrow> elbs \<Rightarrow> 'w \<Rightarrow> elbs \<times> 'w" where
  "connect_all env [] e w = (e, w)"
| "connect_all env (ip # ips) e w = (let (e, w) = connectElbs env (ntohl ip, kElbsPort) e w in connect_all env ips e w)"

text \<open>The sockets of the last round are forgotten, not closed.\<close>

definition joinElbs :: "'w rtc_env \<Rightarrow> elbs \<Rightarrow> 'w \<Rightarrow> elbs \<times> 'w" where
  "joinElbs env e w = connect_all env (resolve_host env (bytes_of ''qoslbs.agoralab.co'') w) (e\<lparr>elbs_socket := []\<rparr>) w"

definition connectEdgeServer :: "'w rtc_env \<Rightarrow> rtc_addr \<Rightarrow> elbs \<Rightarrow> 'w \<Rightarrow> bool \<times> elbs \<times> 'w" where
  "connectEdgeServer env serverAddr e w =
     (case WorkerTCPSocket_Create env (0, 0) serverAddr w of
        (None, w) \<Rightarrow> (False, e, w)
      | (Some s, w) \<Rightarrow> (True, e\<lparr>socket_connecting := Some s\<rparr>, ConnectSignals env ArgusSlots s w))"

definition ElbsConnection_start :: "'w rtc_env \<Rightarrow> elbs \<Rightarrow> 'w \<Rightarrow> elbs \<times> 'w" where
  "ElbsConnection_start env e w =
     (let e = e\<lparr>pingPkg := le_bytes 2 ARGUS_PING_LENGTH\<rparr>;
          w = PostDelayed env (60 * 1000) MSG_ELBS_ONTIMER w;
          w = PostDelayed env (3 * 1000) MSG_ARGUS_ONTIMER w
      in joinElbs env e w)"

text \<open>The case of a \<open>RejoinResponseProtocol\<close> in \<open>OnResponsePacket\<close>; its \<open>code\<close> is not looked at.\<close>

definition rejoin_response :: "'w rtc_env \<Rightarrow> sock \<Rightarrow> u32 \<Rightarrow> u16 \<Rightarrow> elbs \<Rightarrow> 'w \<Rightarrow> elbs \<times> 'w" where
  "rejoin_response env s ip port e w =
     (let now = TimeMillis env w
      in if now < last_connect_ts e + 3000 then (e, CloseSocket env s w)
         else if ntohl ip = fst (connect_Addr e) \<and> port = snd (connect_Addr e) then (e, w)
         else let e = e\<lparr>connect_Addr := (ntohl ip, port)\<rparr>;
                  (connected, e, w) = connectEdgeServer env (connect_Addr e) e w;
                  e = (if connected then e\<lparr>last_connect_ts := now\<rparr> else e)
              in (e, CloseSocket env s w))"

definition OnResponsePacket :: "'w rtc_env \<Rightarrow> sock \<Rightarrow> elbs \<Rightarrow> byte list \<Rightarrow> u16 \<Rightarrow> 'w \<Rightarrow> (elbs \<times> 'w) option" where
  "OnResponsePacket env s e data sz w =
     (if sz < 4 then Some (e, w)
      else do { unpkr \<leftarrow> Unpacker_new data (ucast sz) False;
                (service_type, unpkr) \<leftarrow> PopUint16 unpkr;
                (uri, unpkr) \<leftarrow> PopUint16 unpkr;
                unpkr \<leftarrow> Rewind unpkr;
                if uri = kRejoinResponseUri
                then do { ((h, code, ip, port), unpkr) \<leftarrow> pop RejoinResponseProtocol (dflt RejoinResponseProtocol) unpkr;
                          Some (rejoin_response env s ip port e w) }
                else Some (e, w) })"

definition OnElbsSocketConnect :: "'w rtc_env \<Rightarrow> sock \<Rightarrow> elbs \<Rightarrow> 'w \<Rightarrow> 'w option" where
  "OnElbsSocketConnect env s e w =
     do { p \<leftarrow> encode RejoinRequestProtocol
            (fst (with_server_type ELBS_SERVER_TYPE RejoinRequestProtocol), fst (connect_Addr e), snd (connect_Addr e));
          Some (snd (WorkerTCPSocket_Send env s p w)) }"

definition OnElbsSocketClose :: "'w rtc_env \<Rightarrow> sock \<Rightarrow> 'w \<Rightarrow> 'w" where
  "OnElbsSocketClose env s w = CloseSocket env s w"

definition OnArgusSocketConnect :: "'w rtc_env \<Rightarrow> sock \<Rightarrow> elbs \<Rightarrow> 'w \<Rightarrow> (elbs \<times> 'w) option" where
  "OnArgusSocketConnect env s e w =
     do { connecting \<leftarrow> socket_connecting e;
          if GetLocalAddress env s w = GetLocalAddress env connecting w
          then let w = (case el_socket e of None \<Rightarrow> w | Some old \<Rightarrow> CloseSocket env old w);
                   e = e\<lparr>el_socket := Some connecting\<rparr>;
                   w = SendQuitReport env (el_socket e) w;
                   w = SendConnectReport env (el_socket e) (bytes_of ''127.0.0.1:1234'') 0 0 0 w
               in Some (e, w)
          else Some (e, CloseSocket env s w) }"

definition OnArgusSocketClose :: "'w rtc_env \<Rightarrow> sock \<Rightarrow> 'w \<Rightarrow> 'w" where
  "OnArgusSocketClose env s w = CloseSocket env s w"

fun ElbsConnection_OnMessage :: "'w rtc_env \<Rightarrow> message_id \<Rightarrow> elbs \<Rightarrow> 'w \<Rightarrow> elbs \<times> 'w" where
  "ElbsConnection_OnMessage env MSG_ELBS_ONTIMER e w =
     (let (e, w) = joinElbs env e w in (e, restart_timer env (60 * 1000) MSG_ELBS_ONTIMER w))"
| "ElbsConnection_OnMessage env MSG_ARGUS_ONTIMER e w =
     (let w = (case el_socket e of None \<Rightarrow> w
               | Some s \<Rightarrow> if GetState env s w = STATE_CONNECTED then snd (WorkerTCPSocket_Send env s (pingPkg e) w) else w)
      in (e, restart_timer env (3 * 1000) MSG_ARGUS_ONTIMER w))"
| "ElbsConnection_OnMessage env m e w = (e, w)"

definition ElbsConnection_destroy :: "'w rtc_env \<Rightarrow> elbs \<Rightarrow> 'w \<Rightarrow> elbs \<times> 'w" where
  "ElbsConnection_destroy env e w =
     (let (e, w) = (case el_socket e of None \<Rightarrow> (e, w) | Some s \<Rightarrow> (e\<lparr>el_socket := None\<rparr>, CloseSocket env s w));
          w = ClearMessages env MSG_ELBS_ONTIMER w;
          w = ClearMessages env MSG_ARGUS_ONTIMER w
      in (e\<lparr>elbs_socket := []\<rparr>, StopThread env w))"

end
