(* ===== verification/Worker_Laws.thy ===== *)
theory Worker_Laws
  imports Worker
begin

text \<open>
  What the worker does: the texts it makes as lists of named values, the answer to a
  request, its timers, and its socket.
\<close>

section \<open>Objects that are filled name by name\<close>

definition object_of :: "(byte list \<times> cJSON) list \<Rightarrow> json_wrapper" where
  "object_of fs = \<lparr>m_root = Some (Node (own cJSON_CreateObject) (map (\<lambda>(n, c). with_name n c) fs)), m_owner = True\<rparr>"

definition fresh :: "byte list \<Rightarrow> (byte list \<times> cJSON) list \<Rightarrow> bool" where
  "fresh n fs \<longleftrightarrow> n \<noteq> [] \<and> list_all (\<lambda>(m, c). \<not> same_name m n) fs"

lemma findNode_object_of [simp]:
  "findNode (Some n) (object_of []) = None"
  "findNode (Some n) (object_of ((m, c) # fs)) =
     (if n \<noteq> [] \<and> same_name m n then Some (with_name m c) else findNode (Some n) (object_of fs))"
  by (simp_all add: object_of_def findNode_def GetObjectItem_Node) (simp add: cJSON_GetObjectItem_def)

lemma fresh_find: "fresh n fs \<Longrightarrow> findNode (Some n) (object_of fs) = None"
  by (induction fs) (auto simp: fresh_def)

lemma set_named_fresh: "fresh n fs \<Longrightarrow> set_named (Some n) change item (object_of fs) = object_of (fs @ [(n, item)])"
  using fresh_find [of n fs] by (simp add: set_named_def object_of_def cJSON_AddItemToObject_def cJSON_AddItemToArray_def)

lemma object_of_start: "setObjectType = object_of []"
  by (simp add: setObjectType_def JsonWrapper_assign_node_def object_of_def cJSON_CreateObject_def)

lemma set_fresh:
  "fresh n fs \<Longrightarrow> setStringValue_name (Some n) (Some v) (object_of fs) = object_of (fs @ [(n, cJSON_CreateString v)])"
  "fresh n fs \<Longrightarrow> setIntValue_name (Some n) i (object_of fs) = object_of (fs @ [(n, cJSON_CreateNumber (double_of_int i))])"
  "fresh n fs \<Longrightarrow> setDoubleValue_name (Some n) d (object_of fs) = object_of (fs @ [(n, cJSON_CreateNumber d)])"
  by (simp_all add: setStringValue_name_def setIntValue_name_def setDoubleValue_name_def set_named_fresh)

lemma set_fresh_object:
  "fresh n fs \<Longrightarrow> m_root v = Some t \<Longrightarrow> no_reference t \<Longrightarrow> setObjectValue (Some n) v (object_of fs) = object_of (fs @ [(n, t)])"
  by (simp add: setObjectValue_def setObjectValue_node_def set_named_fresh Duplicate_same)

lemma printable_with_name [simp]: "printable (with_name n c) = printable c"
  by (cases c) (simp add: with_name_def integral_def)

lemma printable_object_of: "list_all (\<lambda>(n, c). printable c \<and> 0 \<notin> set n) fs \<Longrightarrow> printable (the (m_root (object_of fs)))"
  by (auto simp: object_of_def cJSON_CreateObject_def type_defs list_all_iff with_name_def [of _ _, THEN arg_cong [of _ _ own]])

lemma printable_leaves:
  "printable (cJSON_CreateString s)" "exact_int i \<Longrightarrow> printable (cJSON_CreateNumber (double_of_int i))"
  by (simp_all add: cJSON_CreateString_def cJSON_CreateNumber_def type_defs c_str_def integral_of_int)
    (metis set_takeWhileD)

section \<open>The texts of the worker\<close>

lemmas name_simps = bytes_of_def same_name_def c_str_def tolower_def

definition ports_fields :: "turn_globals \<Rightarrow> (byte list \<times> cJSON) list" where
  "ports_fields g =
     [(bytes_of ''udpport'', cJSON_CreateNumber (double_of_int (uint (udpport g)))),
      (bytes_of ''tcpport'', cJSON_CreateNumber (double_of_int (uint (tcpport g)))),
      (bytes_of ''username'', cJSON_CreateString (bytes_of ''test'')),
      (bytes_of ''password'', cJSON_CreateString (bytes_of ''111111''))]"

definition response_fields :: "turn_globals \<Rightarrow> request_fields \<Rightarrow> int \<Rightarrow> (byte list \<times> cJSON) list" where
  "response_fields g rq now =
     [(bytes_of ''command'', cJSON_CreateString (bytes_of ''response'')),
      (bytes_of ''appId'', cJSON_CreateString (c_str (rq_appid rq))),
      (bytes_of ''cname'', cJSON_CreateString (c_str (rq_cname rq))),
      (bytes_of ''uid'', cJSON_CreateString (c_str (rq_uid rq))),
      (bytes_of ''sid'', cJSON_CreateString (c_str (rq_sid rq))),
      (bytes_of ''seq'', cJSON_CreateNumber (double_of_int (rq_seq rq))),
      (bytes_of ''ts'', cJSON_CreateNumber (double_of_int now)),
      (bytes_of ''requestId'', cJSON_CreateNumber (double_of_int (rq_requestid rq))),
      (bytes_of ''code'', cJSON_CreateNumber (double_of_int 200)),
      (bytes_of ''reason'', cJSON_CreateString (bytes_of ''Success'')),
      (bytes_of ''serverResponse'', the (m_root (object_of (ports_fields g))))]"

lemma ports_json_fields: "ports_json g = object_of (ports_fields g)"
  unfolding ports_json_def Let_def object_of_start ports_fields_def
  by (simp add: set_fresh fresh_def name_simps)

lemma no_reference_object_of: "list_all (\<lambda>(n, c). no_reference c) fs \<Longrightarrow> no_reference (the (m_root (object_of fs)))"
proof -
  have "no_reference (with_name n c) = no_reference c" for n c by (cases c) (simp add: with_name_def)
  then show "list_all (\<lambda>(n, c). no_reference c) fs \<Longrightarrow> ?thesis"
    by (auto simp: object_of_def cJSON_CreateObject_def type_defs list_all_iff)
qed

lemma no_reference_leaves: "no_reference (cJSON_CreateString s)" "no_reference (cJSON_CreateNumber d)"
  by (simp_all add: cJSON_CreateString_def cJSON_CreateNumber_def type_defs)

lemma names_no_zero: "c_str (bytes_of ''appId'') = bytes_of ''appId''" "c_str (bytes_of ''cname'') = bytes_of ''cname''"
  "c_str (bytes_of ''uid'') = bytes_of ''uid''" "c_str (bytes_of ''sid'') = bytes_of ''sid''"
  by (simp_all add: bytes_of_def c_str_def)

lemma response_json_fields: "response_json g rq now = object_of (response_fields g rq now)"
proof -
  have t: "m_root (object_of (ports_fields g)) = Some (the (m_root (object_of (ports_fields g))))"
    by (simp add: object_of_def)
  have n: "no_reference (the (m_root (object_of (ports_fields g))))"
    by (rule no_reference_object_of) (simp add: ports_fields_def no_reference_leaves)
  show ?thesis
    unfolding response_json_def Let_def object_of_start ports_json_fields setStringValue_string_def names_no_zero
    by (simp add: set_fresh fresh_def name_simps set_fresh_object [OF _ t n] response_fields_def)
qed

section \<open>Packets of the worker\<close>

lemma comm_header [simp]: "fst (with_server_type UAP_SERVER_TYPE WorkerManagerComm) = (UAP_SERVER_TYPE, kUapUri)"
  by (simp add: with_server_type_def Packet_new_server_def Packet_uri_def Packet_new_def WorkerManagerComm_def NEW_DECLARE_PACKET_1_def)

lemma comm_length:
  assumes "length text \<le> 65000"
  shows "length (WorkerManagerComm_bytes (h, text)) \<le> length text + 7"
    and "length (frame (WorkerManagerComm_bytes (h, text))) \<le> length text + 10"
proof -
  show l: "length (WorkerManagerComm_bytes (h, text)) \<le> length text + 7" by (simp add: length_wire_simps)
  have "fits (length (WorkerManagerComm_bytes (h, text)))" using l assms by simp
  from length_frame [OF this] l show "length (frame (WorkerManagerComm_bytes (h, text))) \<le> length text + 10" by simp
qed

lemma comm_packet_frame:
  assumes "length (toString False json) \<le> 65000"
  shows "comm_packet json = Some (frame (WorkerManagerComm_bytes ((UAP_SERVER_TYPE, kUapUri), toString False json)))"
  using comm_length(1) [OF assms, of "(UAP_SERVER_TYPE, kUapUri)"] assms unfolding comm_packet_def comm_header
  by (intro WorkerManagerComm.encode_frame) (simp_all del: WorkerManagerComm_bytes.simps)

text \<open>What is read of a chunk that starts with a packet: the packet, and not what follows it.\<close>

lemma read_comm:
  assumes "length text \<le> 65000" and "length rest \<le> 65535"
  obtains u1 u2 u3 u4 where
    "Unpacker_new (frame (WorkerManagerComm_bytes (h, text)) @ rest) len False = Some u1"
    "PopUint16 u1 = Some (Packet_server_type h, u2)" "PopUint16 u2 = Some (Packet_uri h, u3)" "PopString u3 = Some (text, u4)"
proof -
  let ?bs = "WorkerManagerComm_bytes (h, text)"
  obtain v where v: "frame ?bs = var_bytes v @ ?bs" "unat v < 8388608"
  proof -
    let ?n = "if 0x8002 \<le> 4 + length ?bs then length ?bs + 3 else length ?bs + 2"
    have n: "?n < 8388608" using comm_length(1) [OF assms(1), of h] assms(1) by simp
    have "frame ?bs = var_bytes (of_nat ?n) @ ?bs" by (simp add: frame_def del: WorkerManagerComm_bytes.simps)
    moreover have "unat (of_nat ?n :: u32) < 8388608" using n by (simp only: u32_unat_of_nat)
    ultimately show thesis by (rule that)
  qed
  let ?u = "\<lparr>up_buffer = frame ?bs @ rest, up_length = len, up_position = 0\<rparr>"
  have "length (frame ?bs @ rest) < 4294967296" using comm_length(2) [OF assms(1), of h] assms by simp
  then have a: "Unpacker.at ?u (var_bytes v @ (head_bytes h @ str_bytes text @ rest))" using v(1) by (simp add: Unpacker.at_def)
  let ?u1 = "skip (length (var_bytes v)) ?u"
  have 1: "PopVariableUint32 ?u = Some (v, ?u1)" using PopVariableUint32_at_small [OF a] v(2) by simp
  have a1: "Unpacker.at ?u1 (le_bytes 2 (Packet_server_type h) @ (le_bytes 2 (Packet_uri h) @ str_bytes text @ rest))"
    using at_skip [OF a refl] by (simp add: head_bytes_def)
  have a2: "Unpacker.at (skip 2 ?u1) (le_bytes 2 (Packet_uri h) @ (str_bytes text @ rest))" using at_skip [OF a1] by simp
  have a3: "Unpacker.at (skip 2 (skip 2 ?u1)) (str_bytes text @ rest)" using at_skip [OF a2] by simp
  show thesis
  proof (rule that)
    show "Unpacker_new (frame ?bs @ rest) len False = Some ?u1" using 1 by (simp add: Unpacker_new_def)
    show "PopUint16 ?u1 = Some (Packet_server_type h, skip 2 ?u1)" by (rule Pop_fixed_at(2) [OF a1])
    show "PopUint16 (skip 2 ?u1) = Some (Packet_uri h, skip 2 (skip 2 ?u1))" by (rule Pop_fixed_at(2) [OF a2])
    show "PopString (skip 2 (skip 2 ?u1)) = Some (text, skip (length (str_bytes text)) (skip 2 (skip 2 ?u1)))"
      using assms(1) by (intro PopString_at [OF a3]) simp
  qed
qed

text \<open>The handler on a text.\<close>

definition handle_text :: "(double \<Rightarrow> double) \<Rightarrow> 'w rtc_env \<Rightarrow> turn_globals \<Rightarrow> int \<times> int \<Rightarrow> worker \<Rightarrow> byte list \<Rightarrow> 'w \<Rightarrow> 'w option" where
  "handle_text pow10 env g junk wk text w =
     do { json \<leftarrow> JsonWrapper_of_input pow10 (Some (c_str text @ [0]));
          let (found, command) = tryGetStringValue (Some (bytes_of ''command'')) [] json;
          if \<not> found then Some w
          else if command = bytes_of ''request''
          then do { p \<leftarrow> comm_packet (response_json g (read_request junk json) (TimeMillis env w));
                    Some (snd (sendMessage env wk p w)) }
          else Some w }"

lemma packet_handled:
  assumes "length text \<le> 65000" and "length rest \<le> 65535"
  shows "OnWorkerManagerPacket pow10 env g junk wk (frame (WorkerManagerComm_bytes (h, text)) @ rest) sz w =
    handle_text pow10 env g junk wk text w"
  by (rule read_comm [OF assms, of h "ucast sz"])
    (simp add: OnWorkerManagerPacket_def handle_text_def del: WorkerManagerComm_bytes.simps)

section \<open>The answer to a request\<close>

lemma int_of_double_range: "INT_MIN \<le> int_of_double d \<and> int_of_double d \<le> INT_MAX"
  by (simp add: int_of_double_def INT_MIN_def INT_MAX_def split: option.split)

lemma printable_find:
  assumes "m_root w = Some t" and "printable t" and "cj_type (own t) = cJSON_Object" and "findNode n w = Some c"
  shows "printable c"
proof -
  from assms(1,4) obtain n' i where "name_index (Some n') (child t) = Some i" "c = child t ! i"
    by (auto simp: findNode_def cJSON_GetObjectItem_def split: option.splits if_splits)
  with name_index_SomeD have "c \<in> set (child t)" by fastforce
  with assms(2,3) show ?thesis by (cases t) (auto simp: type_defs list_all_iff)
qed

lemma printable_int_range:
  assumes "m_root w = Some t" and "printable t" and "cj_type (own t) = cJSON_Object" and "INT_MIN \<le> d \<and> d \<le> INT_MAX"
  shows "INT_MIN \<le> snd (tryGetIntValue n d w) \<and> snd (tryGetIntValue n d w) \<le> INT_MAX"
proof (cases "findNode_type n cJSON_Number w")
  case None
  with assms(4) show ?thesis by (simp add: tryGetIntValue_def)
next
  case (Some c)
  then have f: "findNode n w = Some c" and "cj_type (own c) = cJSON_Number"
    by (auto simp: findNode_type_def split: option.splits if_splits)
  with printable_find [OF assms(1-3) f] have "integral (own c)" by (cases c) (auto simp: type_defs)
  then obtain i where "valueint (own c) = int_of_double (double_of_int i)" using integral_int by metis
  with Some int_of_double_range show ?thesis by (simp add: tryGetIntValue_def)
qed

lemma printable_string_no_zero:
  assumes "m_root w = Some t" and "printable t" and "cj_type (own t) = cJSON_Object"
  shows "c_str (snd (tryGetStringValue n [] w)) = snd (tryGetStringValue n [] w)"
proof (cases "findNode_type n cJSON_String w")
  case None
  then show ?thesis by (simp add: tryGetStringValue_def c_str_def)
next
  case (Some c)
  then have f: "findNode n w = Some c" and "cj_type (own c) = cJSON_String"
    by (auto simp: findNode_type_def split: option.splits if_splits)
  with printable_find [OF assms f] obtain s where "valuestring (own c) = Some s" "0 \<notin> set s"
    by (cases c) (auto simp: type_defs split: option.splits)
  with Some show ?thesis by (simp add: tryGetStringValue_def c_str_id)
qed

lemma same_values_object:
  assumes "m_root w = Some t" and "cj_type (own t) = cJSON_Object" and "m_root w' = Some (canonical s t)"
  shows "tryGetIntValue n d (getObject m w') = tryGetIntValue n d (getObject m w)"
proof (cases "findNode_type m cJSON_Object w")
  case None
  then show ?thesis using findNode_type_canonical [OF assms, of m cJSON_Object]
    by (simp add: getObject_def JsonWrapper_of_node_def)
next
  case (Some c)
  then have "cj_type (own c) = cJSON_Object" by (auto simp: findNode_type_def split: option.splits if_splits)
  then show ?thesis using Some findNode_type_canonical [OF assms, of m cJSON_Object]
    by (intro same_values(2) [where t = c and s = "cj_string (own c)"]) (simp_all add: getObject_def JsonWrapper_of_node_def)
qed

text \<open>What a reader of the answer finds in it.\<close>

definition answers :: "turn_globals \<Rightarrow> json_wrapper \<Rightarrow> int \<times> int \<Rightarrow> json_wrapper \<Rightarrow> bool" where
  "answers g req junk resp \<longleftrightarrow>
     tryGetStringValue (Some (bytes_of ''command'')) [] resp = (True, bytes_of ''response'') \<and>
     list_all (\<lambda>n. tryGetStringValue (Some n) [] resp = (True, snd (tryGetStringValue (Some n) [] req)))
       [bytes_of ''appId'', bytes_of ''cname'', bytes_of ''uid'', bytes_of ''sid''] \<and>
     tryGetIntValue (Some (bytes_of ''seq'')) 0 resp = (True, snd (tryGetIntValue (Some (bytes_of ''seq'')) (fst junk) req)) \<and>
     tryGetIntValue (Some (bytes_of ''requestId'')) 0 resp =
       (True, snd (tryGetIntValue (Some (bytes_of ''requestId'')) (snd junk) req)) \<and>
     tryGetIntValue (Some (bytes_of ''code'')) 0 resp = (True, 200) \<and>
     tryGetIntValue (Some (bytes_of ''udpport'')) 0 (getObject (Some (bytes_of ''serverResponse'')) resp) = (True, uint (udpport g)) \<and>
     tryGetIntValue (Some (bytes_of ''tcpport'')) 0 (getObject (Some (bytes_of ''serverResponse'')) resp) = (True, uint (tcpport g))"

lemma try_found:
  "findNode (Some n) w = Some (with_name m (cJSON_CreateString v)) \<Longrightarrow> tryGetStringValue (Some n) d w = (True, c_str v)"
  "findNode (Some n) w = Some (with_name m (cJSON_CreateNumber (double_of_int i))) \<Longrightarrow> INT_MIN \<le> i \<and> i \<le> INT_MAX \<Longrightarrow>
   tryGetIntValue (Some n) e w = (True, i)"
  using int_exact [of i]
  by (simp_all add: tryGetStringValue_def tryGetIntValue_def findNode_type_def with_name_def cJSON_CreateString_def cJSON_CreateNumber_def)

lemma u16_int_range: "INT_MIN \<le> uint p \<and> uint p \<le> INT_MAX" for p :: u16
  using uint_lt2p [of p] order_trans [OF _ uint_ge_0 [of p], of INT_MIN] by (simp add: INT_MIN_def INT_MAX_def)

lemma response_answers:
  assumes "m_root req = Some t" and "printable t" and "cj_type (own t) = cJSON_Object"
    and "INT_MIN \<le> fst junk \<and> fst junk \<le> INT_MAX" and "INT_MIN \<le> snd junk \<and> snd junk \<le> INT_MAX"
  shows "answers g req junk (object_of (response_fields g (read_request junk req) now))"
proof -
  let ?r = "object_of (response_fields g (read_request junk req) now)"
  note z = printable_string_no_zero [OF assms(1-3)] and i = printable_int_range [OF assms(1-3)]
  have c: "c_str (c_str s) = c_str s" for s by (simp add: c_str_def)
  have "tryGetStringValue (Some (bytes_of ''command'')) [] ?r = (True, c_str (bytes_of ''response''))"
    by (rule try_found(1)) (simp add: response_fields_def name_simps)
  moreover have "tryGetStringValue (Some (bytes_of ''appId'')) [] ?r = (True, c_str (c_str (rq_appid (read_request junk req))))"
    by (rule try_found(1)) (simp add: response_fields_def name_simps)
  moreover have "tryGetStringValue (Some (bytes_of ''cname'')) [] ?r = (True, c_str (c_str (rq_cname (read_request junk req))))"
    by (rule try_found(1)) (simp add: response_fields_def name_simps)
  moreover have "tryGetStringValue (Some (bytes_of ''uid'')) [] ?r = (True, c_str (c_str (rq_uid (read_request junk req))))"
    by (rule try_found(1)) (simp add: response_fields_def name_simps)
  moreover have "tryGetStringValue (Some (bytes_of ''sid'')) [] ?r = (True, c_str (c_str (rq_sid (read_request junk req))))"
    by (rule try_found(1)) (simp add: response_fields_def name_simps)
  moreover have "tryGetIntValue (Some (bytes_of ''seq'')) 0 ?r = (True, rq_seq (read_request junk req))"
    by (rule try_found(2)) (simp_all add: response_fields_def name_simps read_request_def i assms(4))
  moreover have "tryGetIntValue (Some (bytes_of ''requestId'')) 0 ?r = (True, rq_requestid (read_request junk req))"
    by (rule try_found(2)) (simp_all add: response_fields_def name_simps read_request_def i assms(5))
  moreover have "tryGetIntValue (Some (bytes_of ''code'')) 0 ?r = (True, 200)"
    by (rule try_found(2)) (simp_all add: response_fields_def name_simps INT_MIN_def INT_MAX_def)
  moreover have o: "m_root (getObject (Some (bytes_of ''serverResponse'')) ?r) =
      Some (with_name (bytes_of ''serverResponse'') (the (m_root (object_of (ports_fields g)))))"
    by (simp add: getObject_def JsonWrapper_of_node_def findNode_type_def response_fields_def name_simps)
      (simp add: object_of_def with_name_def cJSON_CreateObject_def)
  then have f: "findNode n (getObject (Some (bytes_of ''serverResponse'')) ?r) = findNode n (object_of (ports_fields g))" for n
    by (cases n) (simp_all add: findNode_def object_of_def with_name_def cJSON_GetObjectItem_def)
  have "tryGetIntValue (Some (bytes_of ''udpport'')) 0 (getObject (Some (bytes_of ''serverResponse'')) ?r) = (True, uint (udpport g))"
    unfolding tryGetIntValue_def findNode_type_def f
    by (fold findNode_type_def tryGetIntValue_def) (rule try_found(2), simp_all add: ports_fields_def name_simps u16_int_range)
  moreover have "tryGetIntValue (Some (bytes_of ''tcpport'')) 0 (getObject (Some (bytes_of ''serverResponse'')) ?r) = (True, uint (tcpport g))"
    unfolding tryGetIntValue_def findNode_type_def f
    by (fold findNode_type_def tryGetIntValue_def) (rule try_found(2), simp_all add: ports_fields_def name_simps u16_int_range)
  ultimately show ?thesis unfolding answers_def by (simp add: c z read_request_def) (simp add: bytes_of_def c_str_def)
qed


text \<open>Reading the text of the answer gives the answer.\<close>

lemma response_text:
  assumes "pow_spec pow10" and "m_root req = Some t" and "printable t" and "cj_type (own t) = cJSON_Object"
    and "INT_MIN \<le> fst junk \<and> fst junk \<le> INT_MAX" and "INT_MIN \<le> snd junk \<and> snd junk \<le> INT_MAX" and "exact_int now"
  shows "\<exists>resp. JsonWrapper_of_input pow10 (Some (toString False (response_json g (read_request junk req) now) @ [0])) = Some resp \<and>
    answers g req junk resp"
proof -
  let ?fs = "response_fields g (read_request junk req) now"
  have e: "exact_int (rq_seq (read_request junk req))" "exact_int (rq_requestid (read_request junk req))" "exact_int 200"
    "exact_int (uint p)" for p :: u16
    using printable_int_range [OF assms(2-4)] int_exact assms(5,6) u16_int_range [of p]
    by (simp_all add: read_request_def) (simp add: exact_int_def)
  have p: "printable (the (m_root (object_of (ports_fields g))))"
    by (rule printable_object_of) (simp add: ports_fields_def printable_leaves e bytes_of_def)
  have t: "m_root (object_of ?fs) = Some (the (m_root (object_of ?fs)))" by (simp add: object_of_def)
  have pr: "printable (the (m_root (object_of ?fs)))"
    by (rule printable_object_of) (simp add: response_fields_def printable_leaves e p assms(7) bytes_of_def)
  let ?w = "\<lparr>m_root = Some (canonical None (the (m_root (object_of ?fs)))), m_owner = True\<rparr>"
  have ty: "cj_type (own (the (m_root (object_of ?fs)))) = cJSON_Object"
    by (simp add: object_of_def cJSON_CreateObject_def)
  note same = same_values(1,2) [OF t ty, of ?w None] same_values_object [OF t ty, of ?w None]
  have "answers g req junk ?w" using response_answers [OF assms(2-6), of g now] by (simp add: answers_def same)
  then show ?thesis using parse_toString [OF assms(1) t pr, of False] by (simp add: response_json_fields)
qed

section \<open>A request on the wire\<close>

lemma text_size_leaves:
  "text_size (cJSON_CreateString s) \<le> 17 + 6 * length s" "text_size (cJSON_CreateNumber d) = 17"
  using length_takeWhile_le [of "\<lambda>c. c \<noteq> 0" s]
  by (simp_all add: cJSON_CreateString_def cJSON_CreateNumber_def opt_length_def c_str_def)

lemma text_size_object_of:
  "text_size (the (m_root (object_of fs))) = 17 + (\<Sum>(n, c) \<leftarrow> fs. text_size c + 6 * length n + 4)"
proof -
  have "text_size (with_name n c) = text_size c" for n c by (cases c) (simp add: with_name_def)
  then show ?thesis
    by (simp add: object_of_def cJSON_CreateObject_def opt_length_def comp_def split_def with_name_def)
qed

text \<open>The text of an answer is short when the strings of the request are.\<close>

lemma response_printable:
  assumes "m_root req = Some t" and "printable t" and "cj_type (own t) = cJSON_Object"
    and "INT_MIN \<le> fst junk \<and> fst junk \<le> INT_MAX" and "INT_MIN \<le> snd junk \<and> snd junk \<le> INT_MAX" and "exact_int now"
  shows "printable (the (m_root (object_of (response_fields g (read_request junk req) now))))"
proof -
  have e: "exact_int (rq_seq (read_request junk req))" "exact_int (rq_requestid (read_request junk req))" "exact_int 200"
    "exact_int (uint p)" for p :: u16
    using printable_int_range [OF assms(1-3)] int_exact assms(4,5) u16_int_range [of p]
    by (simp_all add: read_request_def) (simp add: exact_int_def)
  have "printable (the (m_root (object_of (ports_fields g))))"
    by (rule printable_object_of) (simp add: ports_fields_def printable_leaves e bytes_of_def)
  then show ?thesis
    by (intro printable_object_of) (simp add: response_fields_def printable_leaves e assms(6) bytes_of_def)
qed

lemma response_length:
  assumes "printable (the (m_root (object_of (response_fields g rq now))))"
    and "length (rq_appid rq) + length (rq_cname rq) + length (rq_uid rq) + length (rq_sid rq) \<le> 10000"
  shows "length (toString False (response_json g rq now)) \<le> 65000"
proof -
  let ?t = "the (m_root (object_of (response_fields g rq now)))"
  have s: "text_size (cJSON_CreateString (c_str x)) \<le> 17 + 6 * length x" for x
    using order_trans [OF text_size_leaves(1) [of "c_str x"]] length_takeWhile_le [of "\<lambda>c. c \<noteq> 0" x] by (simp add: c_str_def)
  have "text_size ?t \<le> 65000"
    using assms(2) s [of "rq_appid rq"] s [of "rq_cname rq"] s [of "rq_uid rq"] s [of "rq_sid rq"]
      text_size_leaves(1) [of "bytes_of ''response''"] text_size_leaves(1) [of "bytes_of ''Success''"]
      text_size_leaves(1) [of "bytes_of ''test''"] text_size_leaves(1) [of "bytes_of ''111111''"]
    by (simp add: text_size_object_of response_fields_def ports_fields_def text_size_leaves(2) bytes_of_def)
  moreover have "m_root (object_of (response_fields g rq now)) = Some ?t" by (simp add: object_of_def)
  ultimately show ?thesis using length_toString [OF _ assms(1)] unfolding response_json_fields by (meson order_trans)
qed

lemma frame_not_Nil: "frame bs \<noteq> []"
proof -
  have "var_bytes v \<noteq> []" for v by (simp add: var_bytes_def numeral_2_eq_2)
  then show ?thesis by (simp add: frame_def)
qed

context async_tcp
begin

lemma sendMessage_whole:
  assumes "wk_socket wk = Some s" and "GetState env s w = STATE_CONNECTED" and "outbuf s w = []"
    and "\<forall>p. p \<noteq> [] \<longrightarrow> 0 < fst (FlushOutBuffer env s (AppendToOutBuffer env s p w))" and "p \<noteq> []" and "length p \<le> 65536"
  shows "wire s (snd (sendMessage env wk p w)) @ outbuf s (snd (sendMessage env wk p w)) = wire s w @ p"
proof -
  have "taken env s p w"
    using assms by (simp add: taken_def buffer_laws WorkerConstants_kMaxPacketSize_def)
  from Send_taken(2) [OF this] show ?thesis using assms(1,2) by (simp add: sendMessage_def)
qed

end

text \<open>C5. A request of the worker manager is answered: when the manager sends a JSON object with the command
  \<open>request\<close>, the worker puts one packet on the connection, and whoever reads the text in it finds the command
  \<open>response\<close>, the application, channel, user, session and numbers of the request, the code 200 and the two
  ports of the TURN server.\<close>

theorem request_answered:
  assumes "async_tcp env outbuf wire" and "pow_spec pow10"
    and "m_root req = Some t" and "printable t" and "cj_type (own t) = cJSON_Object"
    and "tryGetStringValue (Some (bytes_of ''command'')) [] req = (True, bytes_of ''request'')"
    and "length (toString fmt req) \<le> 65000"
    and "rq = read_request junk req"
    and "length (rq_appid rq) + length (rq_cname rq) + length (rq_uid rq) + length (rq_sid rq) \<le> 10000"
    and "INT_MIN \<le> fst junk \<and> fst junk \<le> INT_MAX" and "INT_MIN \<le> snd junk \<and> snd junk \<le> INT_MAX"
    and "exact_int (TimeMillis env w)"
    and "wk_socket wk = Some s" and "GetState env s w = STATE_CONNECTED" and "outbuf s w = []"
    and "\<forall>p. p \<noteq> [] \<longrightarrow> 0 < fst (FlushOutBuffer env s (AppendToOutBuffer env s p w))"
  shows "\<exists>w' text resp.
    ProcessInput (\<lambda>data sz. OnWorkerManagerPacket pow10 env g junk wk data sz w)
      (frame (WorkerManagerComm_bytes (h, toString fmt req))) = (Some w', []) \<and>
    wire s w' @ outbuf s w' = wire s w @ frame (WorkerManagerComm_bytes ((UAP_SERVER_TYPE, kUapUri), text)) \<and>
    JsonWrapper_of_input pow10 (Some (text @ [0])) = Some resp \<and> answers g req junk resp"
proof -
  let ?json = "\<lparr>m_root = Some (canonical None t), m_owner = True\<rparr>"
  let ?now = "TimeMillis env w"
  let ?text = "toString False (response_json g rq ?now)"
  let ?p = "frame (WorkerManagerComm_bytes ((UAP_SERVER_TYPE, kUapUri), ?text))"
  have parsed: "JsonWrapper_of_input pow10 (Some (c_str (toString fmt req) @ [0])) = Some ?json"
    using parse_toString [OF assms(2-4), of fmt] toString_no_zero [OF assms(3,4)] by (simp add: c_str_id)
  have same: "read_request junk ?json = rq" "tryGetStringValue (Some (bytes_of ''command'')) [] ?json = (True, bytes_of ''request'')"
    using same_values(1,2) [OF assms(3,5), of ?json None] assms(6,8) by (simp_all add: read_request_def)
  have len: "length ?text \<le> 65000"
    using response_length [OF response_printable [OF assms(3-5,10-12), of g, folded assms(8)] assms(9)] .
  then have "handle_text pow10 env g junk wk (toString fmt req) w = Some (snd (sendMessage env wk ?p w))"
    by (simp add: handle_text_def parsed same comm_packet_frame)
  then have h: "OnWorkerManagerPacket pow10 env g junk wk (frame (WorkerManagerComm_bytes (h, toString fmt req))) sz w =
      Some (snd (sendMessage env wk ?p w))" for sz
    using packet_handled [OF assms(7), of "[]" pow10 env g junk wk h sz w] by simp
  have "?p \<noteq> []" "length ?p \<le> 65536"
    using comm_length(2) [OF len, of "(UAP_SERVER_TYPE, kUapUri)"] len by (simp_all add: frame_not_Nil)
  then have "wire s (snd (sendMessage env wk ?p w)) @ outbuf s (snd (sendMessage env wk ?p w)) = wire s w @ ?p"
    by (rule async_tcp.sendMessage_whole [OF assms(1,13-16)])
  with h response_text [OF assms(2-5,10-12), of g] show ?thesis unfolding ProcessInput_def assms(8) by blast
qed


definition sample_request :: json_wrapper where
  "sample_request = object_of
     [(bytes_of ''command'', cJSON_CreateString (bytes_of ''request'')), (bytes_of ''appId'', cJSON_CreateString (bytes_of ''a1'')),
      (bytes_of ''seq'', cJSON_CreateNumber (double_of_int 7))]"

lemma sample_request_values:
  "tryGetStringValue (Some (bytes_of ''command'')) [] sample_request = (True, bytes_of ''request'')"
  "rq_appid (read_request junk sample_request) = bytes_of ''a1''" "rq_cname (read_request junk sample_request) = []"
  "rq_uid (read_request junk sample_request) = []" "rq_sid (read_request junk sample_request) = []"
  by (simp_all add: sample_request_def read_request_def tryGetStringValue_def findNode_type_def name_simps with_name_def cJSON_CreateString_def
      cJSON_CreateNumber_def type_defs)

lemma sample_request_printable: "printable (the (m_root sample_request))"
  unfolding sample_request_def by (rule printable_object_of) (simp add: printable_leaves bytes_of_def exact_int_def)

theorem request_answered_witness:
  "\<exists>w' text resp.
    ProcessInput (\<lambda>data sz. OnWorkerManagerPacket rounded_pow10 world_env \<lparr>udpport = 3478, tcpport = 3479, pid = 1\<rparr> (0, 0)
        \<lparr>wk_socket = Some 1, local_address = (0, 0), remote_address = (0, 0), userCount = 0, ingress = 0, egress = 0\<rparr> data sz idle_world)
      (frame (WorkerManagerComm_bytes ((17, kUapUri), toString False sample_request))) = (Some w', []) \<and>
    world_wire 1 w' @ world_out 1 w' = [] @ frame (WorkerManagerComm_bytes ((UAP_SERVER_TYPE, kUapUri), text)) \<and>
    JsonWrapper_of_input rounded_pow10 (Some (text @ [0])) = Some resp \<and>
    answers \<lparr>udpport = 3478, tcpport = 3479, pid = 1\<rparr> sample_request (0, 0) resp"
proof -
  let ?t = "the (m_root sample_request)"
  let ?wk = "\<lparr>wk_socket = Some 1, local_address = (0, 0), remote_address = (0, 0), userCount = 0, ingress = 0, egress = 0\<rparr>"
  have t: "m_root sample_request = Some ?t" "cj_type (own ?t) = cJSON_Object"
    by (simp_all add: sample_request_def object_of_def cJSON_CreateObject_def)
  have "text_size ?t \<le> 65000"
    using text_size_leaves(1) [of "bytes_of ''request''"] text_size_leaves(1) [of "bytes_of ''a1''"]
    by (simp add: sample_request_def text_size_object_of text_size_leaves(2) bytes_of_def)
  then have l: "length (toString False sample_request) \<le> 65000"
    using length_toString [OF t(1) sample_request_printable] by (rule order_trans [rotated])
  have e: "world_wire 1 idle_world = []" by (simp add: idle_world_def)
  show ?thesis
    by (subst (2) e [symmetric],
        rule request_answered [OF world.async_tcp_axioms rounded_pow10_spec t(1) sample_request_printable t(2) sample_request_values(1) l
        refl, where w = idle_world and wk = ?wk and s = 1 and junk = "(0, 0)"])
      (simp_all add: sample_request_values bytes_of_def INT_MIN_def INT_MAX_def world_env_def idle_world_def exact_int_def world_flush_def Let_def min_def)
qed

text \<open>C39. The socket does not reassemble messages: when a request and other bytes arrive in one piece, such as a second
  request behind the first, only the first one is handled and the rest is thrown away.\<close>

theorem coalesced_request_lost:
  assumes "length text \<le> 65000" and "length rest \<le> 65535"
  shows "ProcessInput (\<lambda>data sz. OnWorkerManagerPacket pow10 env g junk wk data sz w)
      (frame (WorkerManagerComm_bytes (h, text)) @ rest) =
    ProcessInput (\<lambda>data sz. OnWorkerManagerPacket pow10 env g junk wk data sz w) (frame (WorkerManagerComm_bytes (h, text)))"
  using packet_handled [OF assms, of pow10 env g junk wk h _ w] packet_handled [OF assms(1), of "[]" pow10 env g junk wk h _ w]
  by (simp add: ProcessInput_def)

theorem coalesced_request_lost_witness:
  "ProcessInput (\<lambda>data sz. OnWorkerManagerPacket rounded_pow10 world_env \<lparr>udpport = 1, tcpport = 2, pid = 3\<rparr> (0, 0)
      (Worker_new (0, 0, 0)) data sz idle_world) (frame (WorkerManagerComm_bytes ((17, kUapUri), [123, 125])) @ [1, 2, 3]) =
   ProcessInput (\<lambda>data sz. OnWorkerManagerPacket rounded_pow10 world_env \<lparr>udpport = 1, tcpport = 2, pid = 3\<rparr> (0, 0)
      (Worker_new (0, 0, 0)) data sz idle_world) (frame (WorkerManagerComm_bytes ((17, kUapUri), [123, 125])))"
  by (rule coalesced_request_lost) simp_all

end
