(* ===== verification/Worker_Timers.thy ===== *)
theory Worker_Timers
  imports Worker_Laws
begin

text \<open>
  The worker as a state machine: its handlers are called by the thread, for a message
  of the queue, and by the socket, in any order and with anything in between.  Every
  reachable state has each of the three timers in the queue once, and the
  handlers of the worker are connected to the socket it uses.
\<close>

section \<open>Reachable states\<close>

definition worker_messages :: "message_id set" where
  "worker_messages = {MSG_WORKER_ONTIMER, MSG_BANDWIDTH_GET, MSG_LOG_ONTIMER}"

text \<open>The rest of the program and the network change the world between the handlers; the worker's messages are its own.\<close>

inductive worker_reach ::
  "(double \<Rightarrow> double) \<Rightarrow> 'w rtc_env \<Rightarrow> turn_globals \<Rightarrow> ('w \<Rightarrow> message_id multiset) \<Rightarrow> ('w \<Rightarrow> (slots \<times> sock) set) \<Rightarrow> worker \<Rightarrow> 'w \<Rightarrow> bool"
  for pow10 env g pending wired where
  start: "\<forall>m \<in> worker_messages. count (pending w) m = 0 \<Longrightarrow>
    AddWorkerManagerSocket env a b (Worker_new counters) w = (wk, w') \<Longrightarrow> worker_reach pow10 env g pending wired wk w'"
| packet: "worker_reach pow10 env g pending wired wk w \<Longrightarrow>
    OnWorkerManagerPacket pow10 env g junk wk data sz w = Some w' \<Longrightarrow> worker_reach pow10 env g pending wired wk w'"
| connected: "worker_reach pow10 env g pending wired wk w \<Longrightarrow>
    OnSocketConnect env g wk w = Some w' \<Longrightarrow> worker_reach pow10 env g pending wired wk w'"
| closed: "worker_reach pow10 env g pending wired wk w \<Longrightarrow> worker_reach pow10 env g pending wired wk (OnSocketClose env s w)"
| timer: "worker_reach pow10 env g pending wired wk w \<Longrightarrow> m \<in># pending w \<Longrightarrow> m \<in> worker_messages \<Longrightarrow>
    Worker_OnMessage env m wk (Dispatch env m w) = Some (wk', w') \<Longrightarrow> worker_reach pow10 env g pending wired wk' w'"
| outside: "worker_reach pow10 env g pending wired wk w \<Longrightarrow> \<forall>m \<in> worker_messages. count (pending w') m = count (pending w) m \<Longrightarrow>
    wired w \<subseteq> wired w' \<Longrightarrow> worker_reach pow10 env g pending wired wk w'"

context rtc_thread
begin

lemma sendMessage_quiet: "pending (snd (sendMessage env wk p w)) = pending w" "wired (snd (sendMessage env wk p w)) = wired w"
  by (simp_all add: sendMessage_def Send_quiet split: option.split)

lemma send_messages_quiet:
  "sendConnectMsg env g wk w = Some (r, w') \<Longrightarrow> pending w' = pending w \<and> wired w' = wired w"
  "sendPingMsg env wk w = Some (r, w') \<Longrightarrow> pending w' = pending w \<and> wired w' = wired w"
proof -
  have "sendMessage env wk p w = (r, w') \<Longrightarrow> pending w' = pending w \<and> wired w' = wired w" for p
    using sendMessage_quiet [of wk p w] by simp
  then show "sendConnectMsg env g wk w = Some (r, w') \<Longrightarrow> pending w' = pending w \<and> wired w' = wired w"
    "sendPingMsg env wk w = Some (r, w') \<Longrightarrow> pending w' = pending w \<and> wired w' = wired w"
    by (auto simp: sendConnectMsg_def sendPingMsg_def bind_eq_Some_conv)
qed

lemma OnWorkerManagerPacket_quiet:
  "OnWorkerManagerPacket pow10 env g junk wk data sz w = Some w' \<Longrightarrow> pending w' = pending w \<and> wired w' = wired w"
  by (simp add: OnWorkerManagerPacket_def split_def Let_def del: One_nat_def split: Option.bind_splits if_splits)
    (auto simp only: sendMessage_quiet)

lemma new_worker_socket_laws:
  assumes "new_worker_socket env wk w = (wk', w')"
  shows "pending w' = pending w" and "wired w \<subseteq> wired w'"
    and "(\<forall>s. wk_socket wk = Some s \<longrightarrow> (WorkerSlots, s) \<in> wired w) \<Longrightarrow> (\<forall>s. wk_socket wk' = Some s \<longrightarrow> (WorkerSlots, s) \<in> wired w')"
  using assms Create_quiet [of "local_address wk" "remote_address wk" w]
  by (auto simp: new_worker_socket_def thread_laws split: prod.splits option.splits)

lemma worker_timer_laws:
  assumes "worker_timer env wk w = Some (wk', w')"
  shows "pending w' = pending w \<and>
    ((\<forall>s. wk_socket wk = Some s \<longrightarrow> (WorkerSlots, s) \<in> wired w) \<longrightarrow> (\<forall>s. wk_socket wk' = Some s \<longrightarrow> (WorkerSlots, s) \<in> wired w'))"
proof (cases "wk_socket wk")
  case None
  then show ?thesis using assms new_worker_socket_laws [of wk w wk' w'] by (simp add: worker_timer_def)
next
  case (Some s)
  obtain ok w1 where r: "ReConnect env s w = (ok, w1)" by fastforce
  then have "pending w1 = pending w" "wired w1 = wired w" using ReConnect_quiet [of s w] by simp_all
  then show ?thesis
    using assms Some r new_worker_socket_laws [of wk w wk' w']
    by (auto simp: worker_timer_def bind_eq_Some_conv split: tcp_state.splits if_splits dest!: send_messages_quiet(2))
qed

lemma restart_timer_laws:
  "wired (restart_timer env d m w) = wired w"
  "count (pending (restart_timer env d m w)) m' = (if m' = m then 1 else count (pending w) m')"
  by (simp_all add: restart_timer_def thread_laws)

lemma OnMessage_laws:
  assumes "Worker_OnMessage env m wk (Dispatch env m w) = Some (wk', w')" and "m \<in> worker_messages"
    and "\<forall>m \<in> worker_messages. count (pending w) m = 1" and "\<forall>s. wk_socket wk = Some s \<longrightarrow> (WorkerSlots, s) \<in> wired w"
  shows "(\<forall>m \<in> worker_messages. count (pending w') m = 1) \<and> (\<forall>s. wk_socket wk' = Some s \<longrightarrow> (WorkerSlots, s) \<in> wired w')"
proof -
  let ?w = "Dispatch env m w"
  have d: "wired ?w = wired w" "count (pending ?w) m' = count (pending w) m' - (if m' = m then 1 else 0)" for m'
    by (simp_all add: thread_laws)
  consider "m = MSG_WORKER_ONTIMER" | "m = MSG_BANDWIDTH_GET" | "m = MSG_LOG_ONTIMER"
    using assms(2) by (auto simp: worker_messages_def)
  then show ?thesis
  proof cases
    case 1
    then obtain w1 where t: "worker_timer env wk ?w = Some (wk', w1)" and w': "w' = restart_timer env 3000 m w1"
      using assms(1) by (auto simp: bind_eq_Some_conv)
    from worker_timer_laws [OF t] assms(3,4) show ?thesis by (simp add: w' restart_timer_laws d)
  qed (use assms in \<open>auto simp: restart_timer_laws thread_laws\<close>)
qed

lemma worker_invariant:
  "worker_reach pow10 env g pending wired wk w \<Longrightarrow>
   (\<forall>m \<in> worker_messages. count (pending w) m = 1) \<and> (\<forall>s. wk_socket wk = Some s \<longrightarrow> (WorkerSlots, s) \<in> wired w)"
proof (induction rule: worker_reach.induct)
  case (start w a b counters wk w')
  obtain w1 where n: "new_worker_socket env (Worker_new counters\<lparr>local_address := a, remote_address := b\<rparr>) w = (wk, w1)"
    and w': "w' = PostDelayed env 500 MSG_BANDWIDTH_GET (PostDelayed env (60 * 1000) MSG_LOG_ONTIMER (PostDelayed env 3000 MSG_WORKER_ONTIMER w1))"
    using start(2) by (auto simp: AddWorkerManagerSocket_def split_def Let_def prod_eq_iff)
  from new_worker_socket_laws [OF n] start(1) show ?case
    by (auto simp: w' thread_laws worker_messages_def Worker_new_def)
next
  case (connected wk w w')
  then show ?case using send_messages_quiet(1) [of g wk w] by (auto simp: OnSocketConnect_def)
next
  case (timer wk w m wk' w')
  then show ?case using OnMessage_laws by blast
qed (auto simp: OnSocketClose_def quiet_laws dest!: OnWorkerManagerPacket_quiet)

end

section \<open>The timers and the socket\<close>

text \<open>Whatever the worker's socket and its timers do, each of its three timers stays in the queue exactly once,
  and the handlers of the worker are connected to the socket it uses.\<close>

theorem worker_timers_alive:
  assumes "rtc_thread env outbuf wire pending wired" and "worker_reach pow10 env g pending wired wk w"
  shows "count (pending w) MSG_WORKER_ONTIMER = 1 \<and> count (pending w) MSG_BANDWIDTH_GET = 1 \<and> count (pending w) MSG_LOG_ONTIMER = 1 \<and>
    (\<forall>s. wk_socket wk = Some s \<longrightarrow> (WorkerSlots, s) \<in> wired w)"
  using rtc_thread.worker_invariant [OF assms] by (simp add: worker_messages_def)

definition started_worker :: "worker \<times> world" where
  "started_worker = AddWorkerManagerSocket world_env (0x7f000001, 0) (0x7f000001, 3002) (Worker_new (0, 0, 0)) idle_world"

lemma started_worker_reach:
  "worker_reach rounded_pow10 world_env \<lparr>udpport = 1, tcpport = 2, pid = 3\<rparr> queue handlers (fst started_worker) (snd started_worker)"
proof (rule worker_reach.start)
  show "AddWorkerManagerSocket world_env (0x7f000001, 0) (0x7f000001, 3002) (Worker_new (0, 0, 0)) idle_world =
    (fst started_worker, snd started_worker)" by (simp add: started_worker_def)
qed (simp add: idle_world_def)

lemma started_worker_socket: "wk_socket (fst started_worker) = Some 1"
  by (simp add: started_worker_def AddWorkerManagerSocket_def new_worker_socket_def WorkerTCPSocket_Create_def world_env_def
      idle_world_def Worker_new_def Let_def)

theorem worker_timers_alive_witness:
  "count (queue (snd started_worker)) MSG_WORKER_ONTIMER = 1 \<and> count (queue (snd started_worker)) MSG_BANDWIDTH_GET = 1 \<and>
   count (queue (snd started_worker)) MSG_LOG_ONTIMER = 1 \<and>
   (WorkerSlots, 1) \<in> handlers (snd started_worker)"
  using worker_timers_alive [OF world.rtc_thread_axioms started_worker_reach] started_worker_socket by blast

text \<open>C7. The worker does not stay without a connection: in every reachable state in which it has no socket or its
  socket is closed, the timer is in the queue, and when it runs and the manager can be reached, the worker has
  a new socket to the manager with its handlers connected, and the timer is in the queue again.\<close>

theorem worker_reconnects:
  assumes "rtc_thread env outbuf wire pending wired" and "worker_reach pow10 env g pending wired wk w"
    and "\<forall>s. wk_socket wk = Some s \<longrightarrow> GetState env s (Dispatch env MSG_WORKER_ONTIMER w) = STATE_CLOSED"
    and "WorkerTCPSocket_Create env (local_address wk) (remote_address wk) (Dispatch env MSG_WORKER_ONTIMER w) = (Some s', w1)"
  shows "MSG_WORKER_ONTIMER \<in># pending w \<and>
    (\<exists>w'. Worker_OnMessage env MSG_WORKER_ONTIMER wk (Dispatch env MSG_WORKER_ONTIMER w) = Some (wk\<lparr>wk_socket := Some s'\<rparr>, w') \<and>
      (WorkerSlots, s') \<in> wired w' \<and> MSG_WORKER_ONTIMER \<in># pending w')"
proof -
  note inv = rtc_thread.worker_invariant [OF assms(1,2)]
  let ?w = "Dispatch env MSG_WORKER_ONTIMER w" and ?w' = "restart_timer env 3000 MSG_WORKER_ONTIMER (ConnectSignals env WorkerSlots s' w1)"
  have "worker_timer env wk ?w = Some (wk\<lparr>wk_socket := Some s'\<rparr>, ConnectSignals env WorkerSlots s' w1)"
    using assms(3,4) by (auto simp: worker_timer_def new_worker_socket_def split: option.split)
  then have "Worker_OnMessage env MSG_WORKER_ONTIMER wk ?w = Some (wk\<lparr>wk_socket := Some s'\<rparr>, ?w')" by simp
  moreover have "(WorkerSlots, s') \<in> wired ?w'" "MSG_WORKER_ONTIMER \<in># pending ?w'"
    using rtc_thread.restart_timer_laws [OF assms(1)] rtc_thread.connect [OF assms(1)] by (simp_all flip: count_greater_zero_iff)
  moreover have "MSG_WORKER_ONTIMER \<in># pending w" using inv by (simp add: worker_messages_def flip: count_greater_zero_iff)
  ultimately show ?thesis by blast
qed

theorem worker_reconnects_witness:
  "let wk = fst started_worker; w = OnSocketClose world_env 1 (snd started_worker)
   in MSG_WORKER_ONTIMER \<in># queue w \<and>
     (\<exists>w'. Worker_OnMessage world_env MSG_WORKER_ONTIMER wk (Dispatch world_env MSG_WORKER_ONTIMER w) = Some (wk\<lparr>wk_socket := Some 2\<rparr>, w') \<and>
       (WorkerSlots, 2) \<in> handlers w' \<and> MSG_WORKER_ONTIMER \<in># queue w')"
proof -
  let ?wk = "fst started_worker" and ?w = "OnSocketClose world_env 1 (snd started_worker)"
  have n: "next_sock (snd started_worker) = 2" "reachable (snd started_worker)"
    by (simp_all add: started_worker_def AddWorkerManagerSocket_def new_worker_socket_def WorkerTCPSocket_Create_def world_env_def
      idle_world_def Worker_new_def Let_def)
  have c: "\<exists>w1. WorkerTCPSocket_Create world_env (local_address ?wk) (remote_address ?wk) (Dispatch world_env MSG_WORKER_ONTIMER ?w) = (Some 2, w1)"
    using n by (simp add: WorkerTCPSocket_Create_def world_env_def OnSocketClose_def on_socket_def Let_def)
  have s: "\<forall>s. wk_socket ?wk = Some s \<longrightarrow> GetState world_env s (Dispatch world_env MSG_WORKER_ONTIMER ?w) = STATE_CLOSED"
    by (simp add: started_worker_socket) (simp add: OnSocketClose_def world_env_def on_socket_def)
  from c obtain w1 where c: "WorkerTCPSocket_Create world_env (local_address ?wk) (remote_address ?wk)
      (Dispatch world_env MSG_WORKER_ONTIMER ?w) = (Some 2, w1)" ..
  show ?thesis unfolding Let_def
    by (rule worker_reconnects [OF world.rtc_thread_axioms worker_reach.closed [OF started_worker_reach] s c])
qed

section \<open>The ping\<close>

definition ping_fields :: "worker \<Rightarrow> int \<Rightarrow> (byte list \<times> cJSON) list" where
  "ping_fields wk now =
     [(bytes_of ''command'', cJSON_CreateString (bytes_of ''ping'')), (bytes_of ''state'', cJSON_CreateString (bytes_of ''idle'')),
      (bytes_of ''ts'', cJSON_CreateNumber (double_of_int now)),
      (bytes_of ''workload'', the (m_root (object_of
        [(bytes_of ''cpu'', cJSON_CreateNumber (double_of_int 0)), (bytes_of ''ingress'', cJSON_CreateNumber (double_of_int (ingress wk))),
         (bytes_of ''egress'', cJSON_CreateNumber (double_of_int (egress wk))),
         (bytes_of ''userCount'', cJSON_CreateNumber (double_of_int (userCount wk)))])))]"

lemma ping_json_fields: "ping_json wk now = object_of (ping_fields wk now)"
proof -
  have t: "m_root (object_of fs) = Some (the (m_root (object_of fs)))" for fs by (simp add: object_of_def)
  show ?thesis
    unfolding ping_json_def Let_def object_of_start
    by (simp add: set_fresh fresh_def name_simps set_fresh_object [OF _ t] no_reference_object_of no_reference_leaves ping_fields_def)
qed

abbreviation int_ok :: "int \<Rightarrow> bool" where
  "int_ok i \<equiv> INT_MIN \<le> i \<and> i \<le> INT_MAX"

lemma findNode_getObject:
  assumes "findNode (Some n) w = Some (with_name m (the (m_root (object_of fs))))"
  shows "findNode k (getObject (Some n) w) = findNode k (object_of fs)"
  using assms by (cases k) (simp_all add: getObject_def JsonWrapper_of_node_def findNode_type_def findNode_def
      object_of_def with_name_def cJSON_CreateObject_def cJSON_GetObjectItem_def)

lemma ping_text:
  assumes "pow_spec pow10" and "int_ok (userCount wk)" and "int_ok (ingress wk)" and "int_ok (egress wk)" and "exact_int now"
  shows "length (toString False (ping_json wk now)) \<le> 65000"
    and "\<exists>ping. JsonWrapper_of_input pow10 (Some (toString False (ping_json wk now) @ [0])) = Some ping \<and>
      tryGetStringValue (Some (bytes_of ''command'')) [] ping = (True, bytes_of ''ping'') \<and>
      (let load = getObject (Some (bytes_of ''workload'')) ping
       in tryGetIntValue (Some (bytes_of ''userCount'')) 0 load = (True, userCount wk) \<and>
          tryGetIntValue (Some (bytes_of ''ingress'')) 0 load = (True, ingress wk) \<and>
          tryGetIntValue (Some (bytes_of ''egress'')) 0 load = (True, egress wk))"
proof -
  let ?w = "object_of (ping_fields wk now)"
  let ?t = "the (m_root ?w)"
  let ?load = "[(bytes_of ''cpu'', cJSON_CreateNumber (double_of_int 0)), (bytes_of ''ingress'', cJSON_CreateNumber (double_of_int (ingress wk))),
         (bytes_of ''egress'', cJSON_CreateNumber (double_of_int (egress wk))),
         (bytes_of ''userCount'', cJSON_CreateNumber (double_of_int (userCount wk)))]"
  have e: "exact_int (userCount wk)" "exact_int (ingress wk)" "exact_int (egress wk)" "exact_int 0"
    using assms int_exact by (simp_all add: exact_int_def)
  have t: "m_root ?w = Some ?t" "cj_type (own ?t) = cJSON_Object" by (simp_all add: object_of_def cJSON_CreateObject_def)
  have "printable (cJSON_CreateNumber (Fin False 0))" using printable_leaves(2) [OF e(4)] by simp
  then have "printable (the (m_root (object_of ?load)))"
    by (intro printable_object_of) (simp add: printable_leaves e bytes_of_def)
  then have p: "printable ?t"
    by (intro printable_object_of) (simp add: ping_fields_def printable_leaves assms(5) bytes_of_def)
  have "text_size ?t \<le> 65000"
    using text_size_leaves(1) [of "bytes_of ''ping''"] text_size_leaves(1) [of "bytes_of ''idle''"]
    by (simp add: text_size_object_of ping_fields_def text_size_leaves(2) bytes_of_def)
  then show "length (toString False (ping_json wk now)) \<le> 65000"
    using length_toString [OF t(1) p] unfolding ping_json_fields by (rule order_trans [rotated])
  let ?ping = "\<lparr>m_root = Some (canonical None ?t), m_owner = True\<rparr>"
  note same = same_values(1) [OF t, of ?ping None] same_values_object [OF t, of ?ping None]
  have f: "findNode k (getObject (Some (bytes_of ''workload'')) ?w) = findNode k (object_of ?load)" for k
    by (rule findNode_getObject) (simp add: ping_fields_def name_simps)
  have r: "tryGetIntValue k d (getObject (Some (bytes_of ''workload'')) ?w) = tryGetIntValue k d (object_of ?load)" for k d
    by (simp add: tryGetIntValue_def findNode_type_def f)
  have "tryGetStringValue (Some (bytes_of ''command'')) [] ?w = (True, c_str (bytes_of ''ping''))"
    by (rule try_found(1)) (simp add: ping_fields_def name_simps)
  moreover have "c_str (bytes_of ''ping'') = bytes_of ''ping''" by (simp add: bytes_of_def c_str_def)
  moreover have "tryGetIntValue (Some (bytes_of ''userCount'')) 0 (object_of ?load) = (True, userCount wk)"
    by (rule try_found(2)) (simp_all add: name_simps assms)
  moreover have "tryGetIntValue (Some (bytes_of ''ingress'')) 0 (object_of ?load) = (True, ingress wk)"
    by (rule try_found(2)) (simp_all add: name_simps assms)
  moreover have "tryGetIntValue (Some (bytes_of ''egress'')) 0 (object_of ?load) = (True, egress wk)"
    by (rule try_found(2)) (simp_all add: name_simps assms)
  ultimately show "\<exists>ping. JsonWrapper_of_input pow10 (Some (toString False (ping_json wk now) @ [0])) = Some ping \<and>
      tryGetStringValue (Some (bytes_of ''command'')) [] ping = (True, bytes_of ''ping'') \<and>
      (let load = getObject (Some (bytes_of ''workload'')) ping
       in tryGetIntValue (Some (bytes_of ''userCount'')) 0 load = (True, userCount wk) \<and>
          tryGetIntValue (Some (bytes_of ''ingress'')) 0 load = (True, ingress wk) \<and>
          tryGetIntValue (Some (bytes_of ''egress'')) 0 load = (True, egress wk))"
    using parse_toString [OF assms(1) t(1) p, of False] by (intro exI [of _ ?ping]) (simp add: ping_json_fields same r Let_def)
qed


text \<open>C8. The ping reports the load that was read last: after the bandwidth timer has run, the next run of the worker
  timer on a connected socket puts one packet on the connection, in which a reader finds the command \<open>ping\<close>, half
  the number of allocations as the number of users, and the bandwidths: \<open>ingress\<close> is what the TURN server
  sends and \<open>egress\<close> what it receives.\<close>

theorem ping_reports_load:
  assumes "rtc_thread env outbuf wire pending wired" and "pow_spec pow10"
    and "Worker_OnMessage env MSG_BANDWIDTH_GET wk0 w0 = Some (wk, w1)"
    and "int_ok (getAllocationCount env w0 sdiv 2)" and "int_ok (getSendBandWidth env w0)" and "int_ok (getRecvBandWidth env w0)"
    and "exact_int (TimeMillis env w)"
    and "wk_socket wk = Some s" and "GetState env s w = STATE_CONNECTED" and "outbuf s w = []"
    and "\<forall>p. p \<noteq> [] \<longrightarrow> 0 < fst (FlushOutBuffer env s (AppendToOutBuffer env s p w))"
  shows "\<exists>w' text ping. Worker_OnMessage env MSG_WORKER_ONTIMER wk w = Some (wk, w') \<and>
    wire s w' @ outbuf s w' = wire s w @ frame (WorkerManagerComm_bytes ((UAP_SERVER_TYPE, kUapUri), text)) \<and>
    JsonWrapper_of_input pow10 (Some (text @ [0])) = Some ping \<and>
    tryGetStringValue (Some (bytes_of ''command'')) [] ping = (True, bytes_of ''ping'') \<and>
    (let load = getObject (Some (bytes_of ''workload'')) ping
     in tryGetIntValue (Some (bytes_of ''userCount'')) 0 load = (True, getAllocationCount env w0 sdiv 2) \<and>
        tryGetIntValue (Some (bytes_of ''ingress'')) 0 load = (True, getSendBandWidth env w0) \<and>
        tryGetIntValue (Some (bytes_of ''egress'')) 0 load = (True, getRecvBandWidth env w0))"
proof -
  have wk: "userCount wk = getAllocationCount env w0 sdiv 2" "ingress wk = getSendBandWidth env w0" "egress wk = getRecvBandWidth env w0"
    using assms(3) by auto
  let ?text = "toString False (ping_json wk (TimeMillis env w))"
  let ?p = "frame (WorkerManagerComm_bytes ((UAP_SERVER_TYPE, kUapUri), ?text))"
  have len: "length ?text \<le> 65000" and
    ping: "\<exists>ping. JsonWrapper_of_input pow10 (Some (?text @ [0])) = Some ping \<and>
      tryGetStringValue (Some (bytes_of ''command'')) [] ping = (True, bytes_of ''ping'') \<and>
      (let load = getObject (Some (bytes_of ''workload'')) ping
       in tryGetIntValue (Some (bytes_of ''userCount'')) 0 load = (True, userCount wk) \<and>
          tryGetIntValue (Some (bytes_of ''ingress'')) 0 load = (True, ingress wk) \<and>
          tryGetIntValue (Some (bytes_of ''egress'')) 0 load = (True, egress wk))"
    using ping_text [OF assms(2) _ _ _ assms(7), of wk] assms(4-6) by (simp_all only: wk)
  let ?w = "snd (sendMessage env wk ?p w)"
  let ?w' = "restart_timer env 3000 MSG_WORKER_ONTIMER ?w"
  have m: "Worker_OnMessage env MSG_WORKER_ONTIMER wk w = Some (wk, ?w')"
    using assms(8,9) by (simp add: worker_timer_def sendPingMsg_def comm_packet_frame [OF len] split_def)
  have "?p \<noteq> []" "length ?p \<le> 65536"
    using comm_length(2) [OF len, of "(UAP_SERVER_TYPE, kUapUri)"] len by (simp_all add: frame_not_Nil)
  then have "wire s ?w @ outbuf s ?w = wire s w @ ?p"
    by (rule async_tcp.sendMessage_whole [OF rtc_thread.axioms(1) [OF assms(1)] assms(8-11)])
  moreover have "wire s ?w' = wire s ?w" "outbuf s ?w' = outbuf s ?w"
    by (simp_all add: restart_timer_def rtc_thread.timer_bytes [OF assms(1)])
  ultimately show ?thesis using m ping unfolding wk by metis
qed

theorem ping_reports_load_witness:
  "\<exists>w' text ping. Worker_OnMessage world_env MSG_WORKER_ONTIMER
      (Worker_new (0, 0, 0)\<lparr>wk_socket := Some 1, userCount := 2, ingress := 10, egress := 20\<rparr>) idle_world =
      Some (Worker_new (0, 0, 0)\<lparr>wk_socket := Some 1, userCount := 2, ingress := 10, egress := 20\<rparr>, w') \<and>
    world_wire 1 w' @ world_out 1 w' = world_wire 1 idle_world @ frame (WorkerManagerComm_bytes ((UAP_SERVER_TYPE, kUapUri), text)) \<and>
    JsonWrapper_of_input rounded_pow10 (Some (text @ [0])) = Some ping \<and>
    tryGetStringValue (Some (bytes_of ''command'')) [] ping = (True, bytes_of ''ping'') \<and>
    (let load = getObject (Some (bytes_of ''workload'')) ping
     in tryGetIntValue (Some (bytes_of ''userCount'')) 0 load = (True, getAllocationCount world_env idle_world sdiv 2) \<and>
        tryGetIntValue (Some (bytes_of ''ingress'')) 0 load = (True, getSendBandWidth world_env idle_world) \<and>
        tryGetIntValue (Some (bytes_of ''egress'')) 0 load = (True, getRecvBandWidth world_env idle_world))"
proof -
  let ?wk = "Worker_new (0, 0, 0)\<lparr>wk_socket := Some 1, userCount := 2, ingress := 10, egress := 20\<rparr>"
  have b: "Worker_OnMessage world_env MSG_BANDWIDTH_GET (Worker_new (0, 0, 0)\<lparr>wk_socket := Some 1\<rparr>) idle_world =
      Some (?wk, restart_timer world_env 500 MSG_BANDWIDTH_GET idle_world)"
    by (simp add: world_env_def)
  show ?thesis
    by (rule ping_reports_load [OF world.rtc_thread_axioms rounded_pow10_spec b])
      (simp_all add: world_env_def INT_MIN_def INT_MAX_def exact_int_def idle_world_def world_flush_def Let_def min_def)
qed

end
