(* ===== verification/Elbs_Laws.thy ===== *)
theory Elbs_Laws
  imports Elbs Worker_Timers Tcp_Connection
begin

text \<open>
  What \<open>ElbsConnection\<close> does: which edge server it connects to, how often, what it does with short packets, and its timers.
\<close>

section \<open>Responses of the load balancer\<close>

abbreviation response_bytes :: "packet \<Rightarrow> u32 \<Rightarrow> u32 \<Rightarrow> u16 \<Rightarrow> byte list" where
  "response_bytes h code ip port \<equiv> frame (RejoinResponseProtocol_bytes (h, code, ip, port))"

lemma length_response: "length (response_bytes h code ip port) = 16"
  by (simp add: length_frame)

lemma response_handled:
  "OnResponsePacket env s e (response_bytes (st, kRejoinResponseUri) code ip port) 16 w =
     Some (rejoin_response env s ip port e w)"
proof -
  let ?b = "RejoinResponseProtocol_bytes ((st, kRejoinResponseUri), code, ip, port)"
  have ok: "packet_ok ?b" by (simp add: packet_ok_def)
  have "le_word (le_bytes 2 x) = (x :: u16)" for x by simp
  then have uri: "body_uri ?b = kRejoinResponseUri" by (simp add: body_uri_def head_bytes_def Packet_uri_def)
  have pop: "pop RejoinResponseProtocol (dflt RejoinResponseProtocol) (frame_unpacker ?b) =
      Some (((st, kRejoinResponseUri), code, ip, port), skip 14 (frame_unpacker ?b))"
    using RejoinResponseProtocol.pop_at [where x = "((st, kRejoinResponseUri), code, ip, port)" and u = "frame_unpacker ?b" and rest = "[]"]
      frame_unpacker_start(2) [OF ok] by (simp del: RejoinResponseProtocol_bytes.simps)
  have "open_packet (frame ?b) 16 = Some (frame_unpacker ?b, body_server_type ?b, kRejoinResponseUri)"
    using open_frame [OF ok] uri length_response [of "(st, kRejoinResponseUri)" code ip port]
    by (simp del: RejoinResponseProtocol_bytes.simps)
  then obtain u st1 u1 u2 where u: "Unpacker_new (frame ?b) 16 False = Some u" "PopUint16 u = Some (st1, u1)"
      "PopUint16 u1 = Some (kRejoinResponseUri, u2)" "Rewind u2 = Some (frame_unpacker ?b)"
    using length_response [of "(st, kRejoinResponseUri)" code ip port]
    by (auto simp: open_packet_def bind_eq_Some_conv simp del: RejoinResponseProtocol_bytes.simps)
  show ?thesis
    unfolding OnResponsePacket_def by (simp add: u pop del: RejoinResponseProtocol_bytes.simps)
qed


text \<open>C20. 
  C1. A response of the load balancer that names another edge server, at least three seconds after the last connection:
  the program connects to the address it names, with the bytes of the IP turned around, has its handlers called for the
  new socket, notes the time and closes the connection to the load balancer.
\<close>

theorem edge_server_chosen:
  assumes "last_connect_ts e + 3000 \<le> TimeMillis env w" "(ntohl ip, port) \<noteq> connect_Addr e"
    and "WorkerTCPSocket_Create env (0, 0) (ntohl ip, port) w = (Some t, w1)"
  shows "OnResponsePacket env s e (response_bytes (st, kRejoinResponseUri) code ip port) 16 w =
    Some (e\<lparr>connect_Addr := (ntohl ip, port), socket_connecting := Some t, last_connect_ts := TimeMillis env w\<rparr>,
      CloseSocket env s (ConnectSignals env ArgusSlots t w1))"
  using assms unfolding response_handled
  by (cases "connect_Addr e") (auto simp: rejoin_response_def connectEdgeServer_def Let_def)

definition started_elbs :: elbs where
  "started_elbs = fst (ElbsConnection_start world_env ElbsConnection_new idle_world)"

lemma started_elbs_values: "last_connect_ts started_elbs = 0" "connect_Addr started_elbs = (0, 0)" "el_socket started_elbs = None"
  by (simp_all add: started_elbs_def ElbsConnection_start_def ElbsConnection_new_def joinElbs_def resolve_host_def world_env_def
      idle_world_def connectElbs_def WorkerTCPSocket_Create_def Let_def)

theorem edge_server_chosen_witness:
  "\<exists>w1. OnResponsePacket world_env 1 started_elbs (response_bytes (305, kRejoinResponseUri) 0 0x0100007f 4000) 16 idle_world =
    Some (started_elbs\<lparr>connect_Addr := (0x7f000001, 4000), socket_connecting := Some 1, last_connect_ts := 1500000000000\<rparr>,
      CloseSocket world_env 1 (ConnectSignals world_env ArgusSlots 1 w1))"
proof -
  have n: "ntohl 0x0100007f = (0x7f000001 :: u32)" by code_simp
  have t: "TimeMillis world_env idle_world = 1500000000000" by (simp add: world_env_def idle_world_def)
  obtain w1 where "WorkerTCPSocket_Create world_env (0, 0) (ntohl 0x0100007f, 4000) idle_world = (Some 1, w1)"
    by (simp add: WorkerTCPSocket_Create_def world_env_def idle_world_def Let_def)
  from edge_server_chosen [OF _ _ this, of started_elbs 1 305 0] show ?thesis
    unfolding t n by (auto simp: started_elbs_values)
qed

lemma rejoin_response_cases:
  obtains "rejoin_response env s ip port e w = (e, CloseSocket env s w)"
  | "last_connect_ts e + 3000 \<le> TimeMillis env w" "rejoin_response env s ip port e w = (e, w)"
  | w' where "last_connect_ts e + 3000 \<le> TimeMillis env w"
      "rejoin_response env s ip port e w = (e\<lparr>connect_Addr := (ntohl ip, port)\<rparr>, w')"
  | t w' where "last_connect_ts e + 3000 \<le> TimeMillis env w"
      "rejoin_response env s ip port e w =
        (e\<lparr>connect_Addr := (ntohl ip, port), socket_connecting := Some t, last_connect_ts := TimeMillis env w\<rparr>, w')"
proof (cases "TimeMillis env w < last_connect_ts e + 3000 \<or> ntohl ip = fst (connect_Addr e) \<and> port = snd (connect_Addr e)")
  case True
  then show ?thesis using that(1, 2) by (cases "TimeMillis env w < last_connect_ts e + 3000") (auto simp: rejoin_response_def Let_def)
next
  case False
  obtain x w1 where "WorkerTCPSocket_Create env (0, 0) (ntohl ip, port) w = (x, w1)" by fastforce
  then show ?thesis using False that(3, 4) by (cases x) (auto simp: rejoin_response_def connectEdgeServer_def Let_def)
qed

lemma OnResponsePacket_cases:
  assumes "OnResponsePacket env s e data sz w = Some (e', w')"
  obtains "e' = e" "w' = w" | ip port where "(e', w') = rejoin_response env s ip port e w"
  using assms that
  by (simp add: OnResponsePacket_def split: if_splits Option.bind_splits prod.splits) metis+

text \<open>C21. 
  C2. Connections to edge servers are at least three seconds apart: whatever bytes arrive on whatever socket, within three seconds
  of the last one nothing happens but that the socket may be closed, and whoever replaces the socket that is being connected has waited
  and notes the time.
\<close>

theorem edge_connections_apart:
  assumes "OnResponsePacket env s e data sz w = Some (e', w')"
  shows "(TimeMillis env w < last_connect_ts e + 3000 \<longrightarrow> e' = e \<and> (w' = w \<or> w' = CloseSocket env s w))
    \<and> (socket_connecting e' \<noteq> socket_connecting e \<longrightarrow>
        last_connect_ts e + 3000 \<le> TimeMillis env w \<and> last_connect_ts e' = TimeMillis env w)"
  using assms
proof (cases rule: OnResponsePacket_cases)
  case (2 ip port)
  then show ?thesis by (cases rule: rejoin_response_cases [of env s ip port e w]) auto
qed auto

theorem edge_connections_apart_witness:
  "\<exists>e' w'. OnResponsePacket world_env 1 (started_elbs\<lparr>last_connect_ts := 1499999999000\<rparr>)
      (response_bytes (305, kRejoinResponseUri) 0 0x0100007f 4000) 16 idle_world = Some (e', w')
    \<and> e' = started_elbs\<lparr>last_connect_ts := 1499999999000\<rparr> \<and> (w' = idle_world \<or> w' = CloseSocket world_env 1 idle_world)"
proof -
  let ?e = "started_elbs\<lparr>last_connect_ts := 1499999999000\<rparr>"
  obtain e' w' where r: "OnResponsePacket world_env 1 ?e (response_bytes (305, kRejoinResponseUri) 0 0x0100007f 4000) 16 idle_world =
      Some (e', w')" unfolding response_handled by (metis surj_pair)
  from edge_connections_apart [OF this] r show ?thesis by (simp add: world_env_def idle_world_def)
qed

text \<open>
  C3. The address of an edge server is noted before the connection to it succeeds, and a response that names the noted address is
  ignored: when the first attempt fails, no later response of the load balancer that names the same server makes the program try again.
\<close>

theorem edge_server_not_retried:
  assumes "last_connect_ts e + 3000 \<le> TimeMillis env w" "(ntohl ip, port) \<noteq> connect_Addr e"
    and "WorkerTCPSocket_Create env (0, 0) (ntohl ip, port) w = (None, w1)"
  shows "\<exists>e1. OnResponsePacket env s e (response_bytes (st, kRejoinResponseUri) code ip port) 16 w = Some (e1, CloseSocket env s w1)
    \<and> (\<forall>s' st' code' w'. OnResponsePacket env s' e1 (response_bytes (st', kRejoinResponseUri) code' ip port) 16 w' =
          Some (e1, if TimeMillis env w' < last_connect_ts e + 3000 then CloseSocket env s' w' else w'))"
  using assms unfolding response_handled
  by (intro exI [of _ "e\<lparr>connect_Addr := (ntohl ip, port)\<rparr>"], cases "connect_Addr e")
    (auto simp: rejoin_response_def connectEdgeServer_def Let_def)

theorem edge_server_not_retried_witness:
  "\<exists>e1 w1. OnResponsePacket world_env 1 started_elbs (response_bytes (305, kRejoinResponseUri) 0 0x0100007f 4000) 16
      (idle_world\<lparr>reachable := False\<rparr>) = Some (e1, CloseSocket world_env 1 w1)
    \<and> OnResponsePacket world_env 2 e1 (response_bytes (305, kRejoinResponseUri) 0 0x0100007f 4000) 16 idle_world = Some (e1, idle_world)"
proof -
  let ?w = "idle_world\<lparr>reachable := False\<rparr>"
  have n: "ntohl 0x0100007f = (0x7f000001 :: u32)" by code_simp
  have t: "TimeMillis world_env ?w = 1500000000000" "TimeMillis world_env idle_world = 1500000000000"
    by (simp_all add: world_env_def idle_world_def)
  obtain w1 where c: "WorkerTCPSocket_Create world_env (0, 0) (ntohl 0x0100007f, 4000) ?w = (None, w1)"
    by (simp add: WorkerTCPSocket_Create_def world_env_def idle_world_def Let_def)
  from edge_server_not_retried [OF _ _ c, of started_elbs 1 305 0] t n obtain e1 where
    "OnResponsePacket world_env 1 started_elbs (response_bytes (305, kRejoinResponseUri) 0 0x0100007f 4000) 16 ?w = Some (e1, CloseSocket world_env 1 w1)"
    "\<forall>s' st' code' w'. OnResponsePacket world_env s' e1 (response_bytes (st', kRejoinResponseUri) code' 0x0100007f 4000) 16 w' =
      Some (e1, if TimeMillis world_env w' < 3000 then CloseSocket world_env s' w' else w')"
    by (auto simp: started_elbs_values)
  with t show ?thesis by auto
qed

section \<open>Short packets\<close>

lemma Pop_bytes_short: "Unpacker.at u ys \<Longrightarrow> length ys < n \<Longrightarrow> Pop_bytes n u = None"
proof -
  assume u: "Unpacker.at u ys" and n: "length ys < n"
  then have "length (up_buffer u) = unat (up_position u) + length ys" by (auto simp: at_def)
  then show ?thesis using n by (simp add: Pop_bytes_def mem_read_def)
qed

lemma Pop_bytes_take: "Unpacker.at u ys \<Longrightarrow> n \<le> length ys \<Longrightarrow> Pop_bytes n u = Some (take n ys, skip n u)"
  by (rule Pop_bytes_at [of u _ "drop n ys"]) simp_all

lemma at_drop: "Unpacker.at u ys \<Longrightarrow> n \<le> length ys \<Longrightarrow> Unpacker.at (skip n u) (drop n ys)"
  by (rule at_skip [of u "take n ys"]) simp_all

lemma short_response:
  assumes "Unpacker.at u ys" "length ys < 14"
  shows "pop RejoinResponseProtocol x u = None"
proof -
  have P: "Pop_bytes n (skip m u) = (if n + m \<le> length ys then Some (take n (drop m ys), skip (n + m) u) else None)"
    if "m \<le> length ys" for n m
    using Pop_bytes_short [OF at_drop [OF assms(1) that], of n] Pop_bytes_take [OF at_drop [OF assms(1) that], of n] that
    by (auto simp: skip_skip add.commute)
  have P0: "Pop_bytes n u = (if n \<le> length ys then Some (take n ys, skip n u) else None)" for n
    using Pop_bytes_short [OF assms(1)] Pop_bytes_take [OF assms(1)] by auto
  show ?thesis
    using assms(2) by (cases x) (simp add: RejoinResponseProtocol_def NEW_DECLARE_PACKET_3_def Packet_Unmarshall_def PopUint16_def
      PopUint32_def u32_codec_def u16_codec_def P0 P)
qed

lemma open_short:
  assumes "4 \<le> n" "n < 16" and body: "frame b = var_bytes v @ b" "length (var_bytes v) = 2" "unat v < 8388608"
    and u_def: "u = skip 2 \<lparr>up_buffer = take n (frame b), up_length = len, up_position = 0\<rparr>"
  shows "Unpacker_new (take n (frame b)) len False = Some u" and "Unpacker.at u (take (n - 2) b)"
    and "up_buffer q = up_buffer u \<Longrightarrow> up_length q = up_length u \<Longrightarrow> Rewind q = Some u"
proof -
  let ?u = "\<lparr>up_buffer = take n (frame b), up_length = len, up_position = 0\<rparr>"
  have t: "take n (frame b) = var_bytes v @ take (n - 2) b" using assms(1) body by simp
  then have a: "Unpacker.at ?u (var_bytes v @ take (n - 2) b)" using assms(2) body(2) by (auto simp: at_def min_def)
  then have p: "PopVariableUint32 ?u = Some (v, u)" using PopVariableUint32_at_small [OF a body(3)] body(2) by (simp add: u_def)
  then show "Unpacker_new (take n (frame b)) len False = Some u" by (simp add: Unpacker_new_def)
  show "Unpacker.at u (take (n - 2) b)" unfolding u_def using at_skip [OF a] body(2) by simp
  show "Rewind q = Some u" if "up_buffer q = up_buffer u" "up_length q = up_length u"
  proof -
    have "q\<lparr>up_position := 0\<rparr> = ?u" using that by (cases q) (simp add: u_def)
    then show ?thesis using p by (simp add: Rewind_def)
  qed
qed

text \<open>
  C4. The size check of \<open>OnResponsePacket\<close> lets packets of 4 bytes through, but the handler goes on to read 6 bytes, and 16 for a
  response: of a response that arrives cut anywhere behind its fourth byte, it reads bytes that were not received.
\<close>

theorem short_response_overrun:
  assumes "4 \<le> n" "n < 16"
  shows "OnResponsePacket env s e (take n (response_bytes (st, kRejoinResponseUri) code ip port)) (of_nat n) w = None"
proof -
  let ?b = "RejoinResponseProtocol_bytes ((st, kRejoinResponseUri), code, ip, port)"
  let ?v = "of_nat (length (frame ?b)) :: u32"
  have l: "length (frame ?b) = 16" by (rule length_response)
  have f: "frame ?b = var_bytes ?v @ ?b" by (rule frame_eq) simp
  have "length (var_bytes ?v @ ?b) = 16" using f l by metis
  then have v: "length (var_bytes ?v) = 2" "unat ?v < 8388608" using l by (simp_all only: length_append length_RejoinResponseProtocol) simp_all
  let ?len = "ucast (of_nat n :: u16) :: u32"
  define u where "u = skip 2 \<lparr>up_buffer = take n (frame ?b), up_length = ?len, up_position = 0\<rparr>"
  note o = open_short [OF assms f v u_def]
  have sz: "\<not> (of_nat n :: u16) < 4" using assms by (simp add: word_less_nat_alt unsigned_of_nat take_bit_nat_eq_self)
  have len: "length (take (n - 2) ?b) = n - 2" using assms by simp
  have short: "pop RejoinResponseProtocol x u = None" for x using short_response [OF o(2)] len assms by simp
  have h: "take (n - 2) ?b = le_bytes 2 st @ take (n - 4) (drop 2 ?b)" using assms by (simp add: head_bytes_def Packet_server_type_def)
  have p1: "PopUint16 u = Some (st, skip 2 u)" using o(2) unfolding h by (rule Pop_fixed_at(2))
  show ?thesis
  proof (cases "n < 6")
    case True
    have "PopUint16 (skip 2 u) = None"
      using Pop_bytes_short [OF at_drop [OF o(2), of 2], of 2] True assms by (simp add: PopUint16_def)
    then show ?thesis using sz o(1) p1 by (simp add: OnResponsePacket_def del: RejoinResponseProtocol_bytes.simps)
  next
    case False
    have h2: "take (n - 2) ?b = le_bytes 2 st @ le_bytes 2 kRejoinResponseUri @ take (n - 6) (drop 4 ?b)"
      using False by (simp add: head_bytes_def Packet_server_type_def Packet_uri_def)
    then have "Unpacker.at (skip 2 u) (le_bytes 2 kRejoinResponseUri @ take (n - 6) (drop 4 ?b))"
      using at_skip [of u "le_bytes 2 st"] o(2) by simp
    then have "PopUint16 (skip 2 u) = Some (kRejoinResponseUri, skip 4 u)" using Pop_fixed_at(2) by fastforce
    moreover have "Rewind (skip 4 u) = Some u" by (rule o(3)) simp_all
    ultimately show ?thesis
      using sz o(1) p1 short by (simp add: OnResponsePacket_def del: RejoinResponseProtocol_bytes.simps)
  qed
qed

theorem short_response_overrun_witness:
  "OnResponsePacket world_env 1 started_elbs (take 4 (response_bytes (305, kRejoinResponseUri) 0 0x0100007f 4000)) (of_nat 4) idle_world = None"
  by (rule short_response_overrun) simp_all

section \<open>The connection as a state machine\<close>

definition elbs_messages :: "message_id set" where
  "elbs_messages = {MSG_ELBS_ONTIMER, MSG_ARGUS_ONTIMER}"

text \<open>As for the worker: the handlers are called in any order, and the rest of the program changes the world in between.\<close>

inductive elbs_reach ::
  "'w rtc_env \<Rightarrow> ('w \<Rightarrow> message_id multiset) \<Rightarrow> ('w \<Rightarrow> (slots \<times> sock) set) \<Rightarrow> elbs \<Rightarrow> 'w \<Rightarrow> bool"
  for env pending wired where
  start: "\<forall>m \<in> elbs_messages. count (pending w) m = 0 \<Longrightarrow>
    ElbsConnection_start env ElbsConnection_new w = (e, w') \<Longrightarrow> elbs_reach env pending wired e w'"
| response: "elbs_reach env pending wired e w \<Longrightarrow> OnResponsePacket env s e data sz w = Some (e', w') \<Longrightarrow>
    elbs_reach env pending wired e' w'"
| elbs_connected: "elbs_reach env pending wired e w \<Longrightarrow> OnElbsSocketConnect env s e w = Some w' \<Longrightarrow> elbs_reach env pending wired e w'"
| elbs_closed: "elbs_reach env pending wired e w \<Longrightarrow> elbs_reach env pending wired e (OnElbsSocketClose env s w)"
| argus_connected: "elbs_reach env pending wired e w \<Longrightarrow> OnArgusSocketConnect env s e w = Some (e', w') \<Longrightarrow>
    elbs_reach env pending wired e' w'"
| argus_closed: "elbs_reach env pending wired e w \<Longrightarrow> elbs_reach env pending wired e (OnArgusSocketClose env s w)"
| timer: "elbs_reach env pending wired e w \<Longrightarrow> m \<in># pending w \<Longrightarrow> m \<in> elbs_messages \<Longrightarrow>
    ElbsConnection_OnMessage env m e (Dispatch env m w) = (e', w') \<Longrightarrow> elbs_reach env pending wired e' w'"
| outside: "elbs_reach env pending wired e w \<Longrightarrow> \<forall>m \<in> elbs_messages. count (pending w') m = count (pending w) m \<Longrightarrow>
    wired w \<subseteq> wired w' \<Longrightarrow> elbs_reach env pending wired e w'"

text \<open>The sockets of the connection have its handlers, and the ping is the one that \<open>start\<close> made.\<close>

definition elbs_wired :: "(slots \<times> sock) set \<Rightarrow> elbs \<Rightarrow> bool" where
  "elbs_wired h e \<longleftrightarrow>
     (\<forall>s. socket_connecting e = Some s \<longrightarrow> (ArgusSlots, s) \<in> h) \<and> (\<forall>s. el_socket e = Some s \<longrightarrow> (ArgusSlots, s) \<in> h) \<and>
     (\<forall>s \<in> set (elbs_socket e). (ElbsSlots, s) \<in> h) \<and> pingPkg e = [2, 0]"

lemma elbs_wired_mono: "elbs_wired h e \<Longrightarrow> h \<subseteq> h' \<Longrightarrow> elbs_wired h' e"
  by (auto simp: elbs_wired_def)

context rtc_thread
begin

lemma send_report_quiet: "pending (send_report env s item cid w) = pending w" "wired (send_report env s item cid w) = wired w"
  by (simp_all add: send_report_def Let_def Send_quiet split: option.split)

lemma reports_quiet:
  "pending (SendQuitReport env x w) = pending w" "wired (SendQuitReport env x w) = wired w"
  "pending (SendConnectReport env x a u i e w) = pending w" "wired (SendConnectReport env x a u i e w) = wired w"
  by (simp_all add: SendQuitReport_def SendConnectReport_def send_report_quiet split: option.split)

lemma connect_all_laws:
  "connect_all env ips e w = (e', w') \<Longrightarrow> elbs_wired (wired w) e \<Longrightarrow>
    pending w' = pending w \<and> elbs_wired (wired w') e'"
proof (induction ips arbitrary: e w)
  case (Cons ip ips)
  obtain e1 w1 where c: "connectElbs env (ntohl ip, kElbsPort) e w = (e1, w1)" by fastforce
  have "pending w1 = pending w" "elbs_wired (wired w1) e1"
    using c Cons.prems(2) Create_quiet [of "(0, 0)" "(ntohl ip, kElbsPort)" w]
    by (auto simp: connectElbs_def thread_laws elbs_wired_def split: prod.splits option.splits)
  then show ?case using Cons.IH [of e1 w1] Cons.prems(1) c by simp
qed simp

lemma joinElbs_laws:
  "joinElbs env e w = (e', w') \<Longrightarrow> elbs_wired (wired w) (e\<lparr>elbs_socket := []\<rparr>) \<Longrightarrow> pending w' = pending w \<and> elbs_wired (wired w') e'"
  using connect_all_laws by (simp add: joinElbs_def)

lemma rejoin_response_laws:
  assumes "rejoin_response env s ip port e w = (e', w')" "elbs_wired (wired w) e"
  shows "pending w' = pending w \<and> elbs_wired (wired w') e'"
proof -
  obtain x w1 where c: "WorkerTCPSocket_Create env (0, 0) (ntohl ip, port) w = (x, w1)" by fastforce
  then have "pending w1 = pending w" "wired w1 = wired w" using Create_quiet [of "(0, 0)" "(ntohl ip, port)" w] by simp_all
  with assms c show ?thesis
    by (cases x) (auto simp: rejoin_response_def connectEdgeServer_def Let_def thread_laws quiet_laws elbs_wired_def split: if_splits)
qed

lemma OnResponsePacket_laws:
  assumes "OnResponsePacket env s e data sz w = Some (e', w')" "elbs_wired (wired w) e"
  shows "pending w' = pending w \<and> elbs_wired (wired w') e'"
  using assms(1)
proof (cases rule: OnResponsePacket_cases)
  case (2 ip port)
  then show ?thesis using rejoin_response_laws [OF _ assms(2)] by metis
qed (use assms in simp)

lemma OnArgusSocketConnect_laws:
  assumes "OnArgusSocketConnect env s e w = Some (e', w')" "elbs_wired (wired w) e"
  shows "pending w' = pending w \<and> elbs_wired (wired w') e'"
  using assms
  by (auto simp: OnArgusSocketConnect_def bind_eq_Some_conv Let_def reports_quiet quiet_laws elbs_wired_def split: if_splits option.splits)

lemma elbs_OnMessage_laws:
  assumes "ElbsConnection_OnMessage env m e (Dispatch env m w) = (e', w')" "m \<in> elbs_messages"
    and "\<forall>m \<in> elbs_messages. count (pending w) m = 1" "elbs_wired (wired w) e"
  shows "(\<forall>m \<in> elbs_messages. count (pending w') m = 1) \<and> elbs_wired (wired w') e'"
proof -
  let ?w = "Dispatch env m w"
  have d: "wired ?w = wired w" "count (pending ?w) m' = count (pending w) m' - (if m' = m then 1 else 0)" for m'
    by (simp_all add: thread_laws)
  consider "m = MSG_ELBS_ONTIMER" | "m = MSG_ARGUS_ONTIMER" using assms(2) by (auto simp: elbs_messages_def)
  then show ?thesis
  proof cases
    case 1
    obtain w1 where j: "joinElbs env e ?w = (e', w1)" and w': "w' = restart_timer env (60 * 1000) m w1"
      using assms(1) 1 by (auto split: prod.splits)
    have "elbs_wired (wired ?w) (e\<lparr>elbs_socket := []\<rparr>)" using assms(4) by (simp add: d elbs_wired_def)
    from joinElbs_laws [OF j this] assms(3) show ?thesis by (simp add: w' restart_timer_laws d)
  next
    case 2
    then show ?thesis using assms
      by (auto simp: restart_timer_laws thread_laws Send_quiet Let_def elbs_messages_def split: option.splits if_splits)
  qed
qed

lemma elbs_invariant:
  "elbs_reach env pending wired e w \<Longrightarrow> (\<forall>m \<in> elbs_messages. count (pending w) m = 1) \<and> elbs_wired (wired w) e"
proof (induction rule: elbs_reach.induct)
  case (start w e w')
  let ?w = "PostDelayed env (3 * 1000) MSG_ARGUS_ONTIMER (PostDelayed env (60 * 1000) MSG_ELBS_ONTIMER w)"
  let ?e = "ElbsConnection_new\<lparr>pingPkg := le_bytes 2 ARGUS_PING_LENGTH\<rparr>"
  have p: "le_bytes 2 ARGUS_PING_LENGTH = [2, 0]" by (simp add: ARGUS_PING_LENGTH_def) code_simp
  have "joinElbs env ?e ?w = (e, w')" using start(2) by (simp add: ElbsConnection_start_def Let_def)
  from joinElbs_laws [OF this] start(1) show ?case
    by (auto simp: thread_laws elbs_messages_def elbs_wired_def ElbsConnection_new_def p)
next
  case (response e w s data sz e' w')
  then show ?case using OnResponsePacket_laws by metis
next
  case (elbs_connected e w s w')
  then show ?case by (auto simp: OnElbsSocketConnect_def bind_eq_Some_conv Send_quiet)
next
  case (argus_connected e w s e' w')
  then show ?case using OnArgusSocketConnect_laws by metis
next
  case (timer e w m e' w')
  then show ?case using elbs_OnMessage_laws by blast
next
  case (outside e w w')
  then show ?case using elbs_wired_mono by metis
qed (simp_all add: OnElbsSocketClose_def OnArgusSocketClose_def quiet_laws)

end

text \<open>
  C5. In every state the connection to the edge servers can reach, both of its timers are in the queue, once each, the handlers of
  the edge connection are connected to the socket in use and to the one that is being connected, those for the load balancer to its sockets, and
  the ping is a packet of two bytes that says so.
\<close>

theorem elbs_timers_alive:
  assumes "rtc_thread env outbuf wire pending wired" and "elbs_reach env pending wired e w"
  shows "count (pending w) MSG_ELBS_ONTIMER = 1 \<and> count (pending w) MSG_ARGUS_ONTIMER = 1 \<and> elbs_wired (wired w) e"
  using rtc_thread.elbs_invariant [OF assms] by (simp add: elbs_messages_def)

theorem elbs_timers_alive_witness:
  "count (queue (snd (ElbsConnection_start world_env ElbsConnection_new idle_world))) MSG_ELBS_ONTIMER = 1 \<and>
   count (queue (snd (ElbsConnection_start world_env ElbsConnection_new idle_world))) MSG_ARGUS_ONTIMER = 1 \<and>
   elbs_wired (handlers (snd (ElbsConnection_start world_env ElbsConnection_new idle_world)))
     (fst (ElbsConnection_start world_env ElbsConnection_new idle_world))"
proof (rule elbs_timers_alive [OF world.rtc_thread_axioms])
  show "elbs_reach world_env queue handlers (fst (ElbsConnection_start world_env ElbsConnection_new idle_world))
      (snd (ElbsConnection_start world_env ElbsConnection_new idle_world))"
    by (rule elbs_reach.start [of _ idle_world]) (simp_all add: idle_world_def)
qed

section \<open>The request\<close>

text \<open>
  The request that asks for an edge server carries the IP of the current one with its bytes turned around, though the protocol
  wants it as the response had it.
\<close>

lemma rejoin_request_sent:
  "OnElbsSocketConnect env s e w =
     Some (snd (WorkerTCPSocket_Send env s
       (frame (RejoinRequestProtocol_bytes ((ELBS_SERVER_TYPE, kRejoinRequestUri), fst (connect_Addr e), snd (connect_Addr e)))) w))"
  by (simp add: OnElbsSocketConnect_def with_server_type_def Packet_new_server_def Packet_uri_def Packet_new_def RejoinRequestProtocol.encode_frame del: RejoinRequestProtocol_bytes.simps) (simp add: RejoinRequestProtocol_def NEW_DECLARE_PACKET_2_def Packet_new_def)

end
