(* ===== verification/Turn_Main.thy ===== *)
theory Turn_Main
  imports Elbs_Laws
begin

text \<open>
  The program (\<open>main\<close> of src/turnserver/turnserver_main.cc) as the composition of its parts: \<open>ElbsConnection\<close> and \<open>Worker\<close> run on
  one thread, and their timers and sockets share its queue.
\<close>

section \<open>One thread for both\<close>

text \<open>What a handler may change so that the other class does not notice.\<close>

definition unnoticed :: "('w \<Rightarrow> message_id multiset) \<Rightarrow> ('w \<Rightarrow> (slots \<times> sock) set) \<Rightarrow> message_id set \<Rightarrow> 'w \<Rightarrow> 'w \<Rightarrow> bool" where
  "unnoticed pending wired ms w w' \<longleftrightarrow> (\<forall>m \<in> ms. count (pending w') m = count (pending w) m) \<and> wired w \<subseteq> wired w'"

lemma unnoticed_same: "pending w' = pending w \<Longrightarrow> wired w \<subseteq> wired w' \<Longrightarrow> unnoticed pending wired ms w w'"
  by (simp add: unnoticed_def)

lemma unnoticed_trans: "unnoticed pending wired ms w w1 \<Longrightarrow> unnoticed pending wired ms w1 w2 \<Longrightarrow> unnoticed pending wired ms w w2"
  by (auto simp: unnoticed_def)

lemma messages_apart: "m \<in> elbs_messages \<Longrightarrow> m \<notin> worker_messages" "m \<in> worker_messages \<Longrightarrow> m \<notin> elbs_messages"
  by (auto simp: elbs_messages_def worker_messages_def)

context rtc_thread
begin

lemma connectElbs_mono: "connectElbs env a e w = (e', w') \<Longrightarrow> pending w' = pending w \<and> wired w \<subseteq> wired w'"
  using Create_quiet [of "(0, 0)" a w] by (auto simp: connectElbs_def thread_laws split: prod.splits option.splits)

lemma connect_all_mono: "connect_all env ips e w = (e', w') \<Longrightarrow> pending w' = pending w \<and> wired w \<subseteq> wired w'"
proof (induction ips arbitrary: e w)
  case (Cons ip ips)
  obtain e1 w1 where c: "connectElbs env (ntohl ip, kElbsPort) e w = (e1, w1)" by fastforce
  from Cons.IH [of e1 w1] Cons.prems connectElbs_mono [OF c] c show ?case by auto
qed simp

lemma rejoin_response_mono: "rejoin_response env s ip port e w = (e', w') \<Longrightarrow> pending w' = pending w \<and> wired w \<subseteq> wired w'"
  using Create_quiet [of "(0, 0)" "(ntohl ip, port)" w]
  by (auto simp: rejoin_response_def connectEdgeServer_def Let_def thread_laws quiet_laws split: if_splits prod.splits option.splits)

lemma restart_unnoticed: "m \<notin> ms \<Longrightarrow> unnoticed pending wired ms w (restart_timer env d m w)"
  by (auto simp: unnoticed_def restart_timer_laws)

lemma dispatch_unnoticed: "m \<notin> ms \<Longrightarrow> unnoticed pending wired ms w (Dispatch env m w)"
  by (auto simp: unnoticed_def thread_laws)

text \<open>The handlers of \<open>ElbsConnection\<close> are not noticed by the worker, \<dots>\<close>

lemma elbs_unnoticed:
  "OnResponsePacket env s e data sz w = Some (e', w') \<Longrightarrow> unnoticed pending wired ms w w'"
  "OnElbsSocketConnect env s e w = Some w' \<Longrightarrow> unnoticed pending wired ms w w'"
  "OnArgusSocketConnect env s e w = Some (e', w') \<Longrightarrow> unnoticed pending wired ms w w'"
  "unnoticed pending wired ms w (CloseSocket env s w)"
proof -
  show "unnoticed pending wired ms w w'" if "OnResponsePacket env s e data sz w = Some (e', w')"
    using that
  proof (cases rule: OnResponsePacket_cases)
    case (2 ip port)
    then show ?thesis using rejoin_response_mono [of s ip port e w e' w'] by (auto intro: unnoticed_same)
  qed (simp add: unnoticed_def)
  show "unnoticed pending wired ms w w'" if "OnElbsSocketConnect env s e w = Some w'"
    using that by (auto simp: OnElbsSocketConnect_def bind_eq_Some_conv Send_quiet unnoticed_def)
  show "unnoticed pending wired ms w w'" if "OnArgusSocketConnect env s e w = Some (e', w')"
    using that by (auto simp: OnArgusSocketConnect_def bind_eq_Some_conv Let_def reports_quiet quiet_laws unnoticed_def
        split: if_splits option.splits)
qed (simp add: unnoticed_def quiet_laws)

lemma elbs_timer_unnoticed:
  assumes "ElbsConnection_OnMessage env m e (Dispatch env m w) = (e', w')" "m \<in> elbs_messages" "m \<notin> ms"
  shows "unnoticed pending wired ms w w'"
proof -
  let ?w = "Dispatch env m w"
  have "\<exists>w1 d. unnoticed pending wired ms ?w w1 \<and> w' = restart_timer env d m w1"
  proof (cases "m = MSG_ELBS_ONTIMER")
    case True
    obtain w1 where j: "joinElbs env e ?w = (e', w1)" and w': "w' = restart_timer env (60 * 1000) m w1"
      using assms(1) True by (auto split: prod.splits)
    then show ?thesis using connect_all_mono [of _ _ ?w e' w1] unfolding joinElbs_def by (blast intro: unnoticed_same)
  next
    case False
    then have m: "m = MSG_ARGUS_ONTIMER" using assms(2) by (auto simp: elbs_messages_def)
    have "w' = restart_timer env (3 * 1000) m (case el_socket e of None \<Rightarrow> ?w
        | Some s \<Rightarrow> if GetState env s ?w = STATE_CONNECTED then snd (WorkerTCPSocket_Send env s (pingPkg e) ?w) else ?w)"
      (is "_ = restart_timer env _ m ?w1") using assms(1) unfolding m by (auto simp: Let_def)
    moreover have "unnoticed pending wired ms ?w ?w1" by (rule unnoticed_same) (simp_all add: Send_quiet split: option.split)
    ultimately show ?thesis by blast
  qed
  then show ?thesis using unnoticed_trans dispatch_unnoticed [OF assms(3)] restart_unnoticed [OF assms(3)] by metis
qed

text \<open>\<dots> and those of the worker not by \<open>ElbsConnection\<close>.\<close>

lemma worker_unnoticed:
  "OnWorkerManagerPacket pow10 env g junk wk data sz w = Some w' \<Longrightarrow> unnoticed pending wired ms w w'"
  "OnSocketConnect env g wk w = Some w' \<Longrightarrow> unnoticed pending wired ms w w'"
  using OnWorkerManagerPacket_quiet [of pow10 g junk wk data sz w w'] send_messages_quiet(1) [of g wk w]
  by (auto simp: unnoticed_def OnSocketConnect_def)

lemma worker_timer_mono: "worker_timer env wk w = Some (wk', w') \<Longrightarrow> pending w' = pending w \<and> wired w \<subseteq> wired w'"
proof (cases "wk_socket wk")
  case None
  then show "worker_timer env wk w = Some (wk', w') \<Longrightarrow> ?thesis"
    using new_worker_socket_laws(1, 2) [of wk w wk' w'] by (simp add: worker_timer_def)
next
  case (Some s)
  obtain ok w1 where r: "ReConnect env s w = (ok, w1)" by fastforce
  then have "pending w1 = pending w" "wired w1 = wired w" using ReConnect_quiet [of s w] by simp_all
  then show "worker_timer env wk w = Some (wk', w') \<Longrightarrow> ?thesis"
    using Some r new_worker_socket_laws(1, 2) [of wk w wk' w']
    by (auto simp: worker_timer_def bind_eq_Some_conv split: tcp_state.splits if_splits dest!: send_messages_quiet(2))
qed

lemma worker_timer_unnoticed:
  assumes "Worker_OnMessage env m wk (Dispatch env m w) = Some (wk', w')" "m \<in> worker_messages" "m \<notin> ms"
  shows "unnoticed pending wired ms w w'"
proof -
  let ?w = "Dispatch env m w"
  have "\<exists>w1 d. unnoticed pending wired ms ?w w1 \<and> w' = restart_timer env d m w1"
  proof (cases "m = MSG_WORKER_ONTIMER")
    case True
    obtain w1 where "worker_timer env wk ?w = Some (wk', w1)" and w': "w' = restart_timer env 3000 m w1"
      using assms(1) True by (auto simp: bind_eq_Some_conv)
    then show ?thesis using worker_timer_mono by (blast intro: unnoticed_same)
  next
    case False
    then have "m = MSG_BANDWIDTH_GET \<or> m = MSG_LOG_ONTIMER" using assms(2) by (auto simp: worker_messages_def)
    then have "\<exists>d. w' = restart_timer env d m ?w" using assms(1) by auto
    moreover have "unnoticed pending wired ms ?w ?w" by (rule unnoticed_same) simp_all
    ultimately show ?thesis by blast
  qed
  then show ?thesis using unnoticed_trans dispatch_unnoticed [OF assms(3)] restart_unnoticed [OF assms(3)] by metis
qed

lemma start_unnoticed:
  "ElbsConnection_start env e w = (e', w') \<Longrightarrow> unnoticed pending wired worker_messages w w'"
  "AddWorkerManagerSocket env a b wk w = (wk', w') \<Longrightarrow> unnoticed pending wired elbs_messages w w'"
proof -
  show "unnoticed pending wired worker_messages w w'" if "ElbsConnection_start env e w = (e', w')"
    using that connect_all_mono
    by (fastforce simp: ElbsConnection_start_def joinElbs_def Let_def unnoticed_def thread_laws worker_messages_def)
  show "unnoticed pending wired elbs_messages w w'" if "AddWorkerManagerSocket env a b wk w = (wk', w')"
    using that new_worker_socket_laws(1, 2)
    by (fastforce simp: AddWorkerManagerSocket_def Let_def unnoticed_def thread_laws elbs_messages_def split: prod.splits)
qed

end

section \<open>The reachable states of the program\<close>

text \<open>
  \<open>main\<close> starts the edge connection and then the worker, before the thread runs; from then on the thread and the
  sockets call the handlers of both in any order.
\<close>

inductive program_reach ::
  "(double \<Rightarrow> double) \<Rightarrow> 'w rtc_env \<Rightarrow> turn_globals \<Rightarrow> ('w \<Rightarrow> message_id multiset) \<Rightarrow> ('w \<Rightarrow> (slots \<times> sock) set) \<Rightarrow>
    elbs \<Rightarrow> worker \<Rightarrow> 'w \<Rightarrow> bool"
  for pow10 env g pending wired where
  start: "pending w = {#} \<Longrightarrow> ElbsConnection_start env ElbsConnection_new w = (e, w1) \<Longrightarrow>
    AddWorkerManagerSocket env (0x7f000001, 0) (0x7f000001, 3002) (Worker_new counters) w1 = (wk, w2) \<Longrightarrow>
    program_reach pow10 env g pending wired e wk w2"
| response: "program_reach pow10 env g pending wired e wk w \<Longrightarrow> OnResponsePacket env s e data sz w = Some (e', w') \<Longrightarrow>
    program_reach pow10 env g pending wired e' wk w'"
| elbs_connected: "program_reach pow10 env g pending wired e wk w \<Longrightarrow> OnElbsSocketConnect env s e w = Some w' \<Longrightarrow>
    program_reach pow10 env g pending wired e wk w'"
| elbs_closed: "program_reach pow10 env g pending wired e wk w \<Longrightarrow> program_reach pow10 env g pending wired e wk (OnElbsSocketClose env s w)"
| argus_connected: "program_reach pow10 env g pending wired e wk w \<Longrightarrow> OnArgusSocketConnect env s e w = Some (e', w') \<Longrightarrow>
    program_reach pow10 env g pending wired e' wk w'"
| argus_closed: "program_reach pow10 env g pending wired e wk w \<Longrightarrow> program_reach pow10 env g pending wired e wk (OnArgusSocketClose env s w)"
| elbs_timer: "program_reach pow10 env g pending wired e wk w \<Longrightarrow> m \<in># pending w \<Longrightarrow> m \<in> elbs_messages \<Longrightarrow>
    ElbsConnection_OnMessage env m e (Dispatch env m w) = (e', w') \<Longrightarrow> program_reach pow10 env g pending wired e' wk w'"
| packet: "program_reach pow10 env g pending wired e wk w \<Longrightarrow>
    OnWorkerManagerPacket pow10 env g junk wk data sz w = Some w' \<Longrightarrow> program_reach pow10 env g pending wired e wk w'"
| connected: "program_reach pow10 env g pending wired e wk w \<Longrightarrow> OnSocketConnect env g wk w = Some w' \<Longrightarrow>
    program_reach pow10 env g pending wired e wk w'"
| closed: "program_reach pow10 env g pending wired e wk w \<Longrightarrow> program_reach pow10 env g pending wired e wk (OnSocketClose env s w)"
| worker_timer: "program_reach pow10 env g pending wired e wk w \<Longrightarrow> m \<in># pending w \<Longrightarrow> m \<in> worker_messages \<Longrightarrow>
    Worker_OnMessage env m wk (Dispatch env m w) = Some (wk', w') \<Longrightarrow> program_reach pow10 env g pending wired e wk' w'"

context rtc_thread
begin

lemma elbs_outside: "elbs_reach env pending wired e w \<Longrightarrow> unnoticed pending wired elbs_messages w w' \<Longrightarrow> elbs_reach env pending wired e w'"
  using elbs_reach.outside unfolding unnoticed_def by metis

lemma worker_outside:
  "worker_reach pow10 env g pending wired wk w \<Longrightarrow> unnoticed pending wired worker_messages w w' \<Longrightarrow>
   worker_reach pow10 env g pending wired wk w'"
  using worker_reach.outside unfolding unnoticed_def by metis

text \<open>Each part of the program behaves as it does alone.\<close>

lemma program_parts:
  "program_reach pow10 env g pending wired e wk w \<Longrightarrow>
   elbs_reach env pending wired e w \<and> worker_reach pow10 env g pending wired wk w"
proof (induction rule: program_reach.induct)
  case (start w e w1 counters wk w2)
  have "elbs_reach env pending wired e w1" using start(1, 2) by (intro elbs_reach.start [of pending w]) simp_all
  then have "elbs_reach env pending wired e w2" using elbs_outside start_unnoticed(2) [OF start(3)] by blast
  moreover have "\<forall>m \<in> worker_messages. count (pending w1) m = 0"
    using start_unnoticed(1) [OF start(2)] start(1) by (simp add: unnoticed_def)
  then have "worker_reach pow10 env g pending wired wk w2" using start(3) by (rule worker_reach.start)
  ultimately show ?case by blast
next
  case (elbs_timer e wk w m e' w')
  then show ?case using elbs_reach.timer worker_outside elbs_timer_unnoticed messages_apart(1) by metis
next
  case (worker_timer e wk w m wk' w')
  then show ?case using worker_reach.timer elbs_outside worker_timer_unnoticed messages_apart(2) by metis
next
  case (response e wk w s data sz e' w')
  then show ?case using elbs_reach.response worker_outside elbs_unnoticed(1) by metis
next
  case (elbs_connected e wk w s w')
  then show ?case using elbs_reach.elbs_connected worker_outside elbs_unnoticed(2) by metis
next
  case (argus_connected e wk w s e' w')
  then show ?case using elbs_reach.argus_connected worker_outside elbs_unnoticed(3) by metis
next
  case (elbs_closed e wk w s)
  then show ?case using elbs_reach.elbs_closed worker_outside elbs_unnoticed(4) unfolding OnElbsSocketClose_def by metis
next
  case (argus_closed e wk w s)
  then show ?case using elbs_reach.argus_closed worker_outside elbs_unnoticed(4) unfolding OnArgusSocketClose_def by metis
next
  case (packet e wk w junk data sz w')
  then show ?case using worker_reach.packet elbs_outside worker_unnoticed(1) by metis
next
  case (connected e wk w w')
  then show ?case using worker_reach.connected elbs_outside worker_unnoticed(2) by metis
next
  case (closed e wk w s)
  then show ?case using worker_reach.closed elbs_outside elbs_unnoticed(4) unfolding OnSocketClose_def by metis
qed

end

text \<open>C9. In every state of the running program, whatever arrives on the sockets and in whatever order the timers fire, the queue of the thread
  holds each of its five timers exactly once, and every socket the program uses has the handlers of the part it belongs to.
\<close>

theorem program_timers_alive:
  assumes "rtc_thread env outbuf wire pending wired" and "program_reach pow10 env g pending wired e wk w"
  shows "(\<Sum>m \<in> {MSG_WORKER_ONTIMER, MSG_BANDWIDTH_GET, MSG_ELBS_ONTIMER, MSG_ARGUS_ONTIMER, MSG_LOG_ONTIMER}. count (pending w) m) = 5
    \<and> count (pending w) MSG_WORKER_ONTIMER = 1 \<and> count (pending w) MSG_BANDWIDTH_GET = 1 \<and> count (pending w) MSG_LOG_ONTIMER = 1
    \<and> count (pending w) MSG_ELBS_ONTIMER = 1 \<and> count (pending w) MSG_ARGUS_ONTIMER = 1
    \<and> elbs_wired (wired w) e \<and> (case wk_socket wk of None \<Rightarrow> True | Some s \<Rightarrow> (WorkerSlots, s) \<in> wired w)"
proof -
  from rtc_thread.program_parts [OF assms]
  have p: "elbs_reach env pending wired e w" "worker_reach pow10 env g pending wired wk w" by blast+
  from rtc_thread.elbs_invariant [OF assms(1) p(1)] rtc_thread.worker_invariant [OF assms(1) p(2)] show ?thesis
    by (auto simp: elbs_messages_def worker_messages_def split: option.split)
qed

definition started_program :: "elbs \<times> worker \<times> world" where
  "started_program =
     (let (e, w) = ElbsConnection_start world_env ElbsConnection_new idle_world;
          (wk, w) = AddWorkerManagerSocket world_env (0x7f000001, 0) (0x7f000001, 3002) (Worker_new (0, 0, 0)) w
      in (e, wk, w))"

theorem program_timers_alive_witness:
  "\<exists>e wk w. started_program = (e, wk, w) \<and> count (queue w) MSG_WORKER_ONTIMER = 1 \<and> count (queue w) MSG_ARGUS_ONTIMER = 1 \<and> elbs_wired (handlers w) e"
proof -
  obtain e w1 where s: "ElbsConnection_start world_env ElbsConnection_new idle_world = (e, w1)" by fastforce
  obtain wk w2 where a: "AddWorkerManagerSocket world_env (0x7f000001, 0) (0x7f000001, 3002) (Worker_new (0, 0, 0)) w1 = (wk, w2)" by fastforce
  have "program_reach rounded_pow10 world_env \<lparr>udpport = 1, tcpport = 2, pid = 3\<rparr> queue handlers e wk w2"
    by (rule program_reach.start [OF _ s a]) (simp add: idle_world_def)
  from program_timers_alive [OF world.rtc_thread_axioms this] s a show ?thesis by (simp add: started_program_def)
qed

end
