(* ===== verification/Tcp_Client.thy ===== *)
theory Tcp_Client
  imports Tcp_Connection
begin

text \<open>
  \<open>TcpClient\<close> (src/turnserver/network/tcp_client.h, tcp_client.cpp): a client that
  keeps a connection to one address, reconnects with a growing interval when it
  fails, and closes a connection that has been silent for too long.

  The members \<open>pending_\<close> and \<open>conn_\<close> are modelled by whether they are set; what
  the methods do to the objects behind them and the calls they make on the
  client's callback are returned as a list of effects, in order.  System calls
  and libevent are arguments: their results are collected in \<open>connect_result\<close>.
  The clock is an argument, read once in a handler.  The factor \<open>backoff_\<close> is a
  \<open>float\<close> that is only used in the product \<open>backoff_ * next_try_interval_\<close>,
  converted to an integer; this product is the argument \<open>mul\<close>.  \<open>Stop\<close> is declared
  but not defined in the sources; logging is not modelled, apart from \<open>Fatal\<close>,
  which aborts.
\<close>

section \<open>State and effects\<close>

definition kKeepAliveIntervalMs :: u32 where "kKeepAliveIntervalMs = 3000"
definition kReconnectTimeout :: int where "kReconnectTimeout = 10"
definition kShortConnectionInterval :: int where "kShortConnectionInterval = 60"
definition kMaxTimeout :: int where "kMaxTimeout = 300"

record 'f tcp_client =
  cl_addr :: SocketAddress4
  timer_ms :: u32
  local_port :: u16
  pending :: bool
  has_conn :: bool
  connecting :: bool
  stopped :: bool
  mptcp_enabled :: bool
  reconnect_timeout :: int
  last_try_ts :: int
  next_try_ts :: int
  backoff :: 'f
  next_try_interval :: int
  last_active_ts :: int

datatype client_effect =
  EffNewBev int | EffFreeBev | EffCloseFd int | EffSetMptcp int
| EffConnCreate | EffConnClose | EffConnSendPacket "packer \<Rightarrow> packer option" | EffConnSendRaw "byte list" | EffConnFlush
| EffOnConnect bool | EffOnSocketError | EffTimeToPing | EffOnPacketReceived unpacker u16 u16

text \<open>
  What the calls in \<open>Connect\<close> return.  A connection attempt starts, or fails at
  once: then libevent has called the event callback before it returns, which is
  what the comment in the source relies on, or it has not.
\<close>

datatype connect_outcome = Started | FailedCalled u32 | FailedSilent

record connect_result =
  sys_socket :: int
  sys_nonblocking :: bool
  sys_bind :: bool
  sys_connect :: connect_outcome

text \<open>Signed addition on 32 bits has no result when it overflows.\<close>

definition i32_add :: "int \<Rightarrow> int \<Rightarrow> int option" where
  "i32_add a b = (if - (2 ^ 31) \<le> a + b \<and> a + b < 2 ^ 31 then Some (a + b) else None)"

section \<open>Operations\<close>

definition TcpClient_Init :: "SocketAddress4 \<Rightarrow> u16 \<Rightarrow> 'f \<Rightarrow> int \<Rightarrow> 'f tcp_client" where
  "TcpClient_Init a port factor now =
     \<lparr>cl_addr = a, timer_ms = kKeepAliveIntervalMs, local_port = port, pending = False,
      has_conn = False, connecting = False, stopped = False, mptcp_enabled = False,
      reconnect_timeout = kReconnectTimeout, last_try_ts = 0, next_try_ts = 0, backoff = factor,
      next_try_interval = kReconnectTimeout, last_active_ts = now\<rparr>"

text \<open>The constructor from a general address aborts unless it is an IPv4 address.\<close>

definition TcpClient_new :: "GeneralSocketAddress \<Rightarrow> u16 \<Rightarrow> 'f \<Rightarrow> int \<Rightarrow> 'f tcp_client option" where
  "TcpClient_new a port factor now =
     (if GetSocketAddressType a = 0
      then do { a4 \<leftarrow> to_SocketAddress4 a; Some (TcpClient_Init a4 port factor now) } else None)"

definition IsConnected :: "'f tcp_client \<Rightarrow> bool" where
  "IsConnected c \<longleftrightarrow> \<not> connecting c \<and> has_conn c"

definition SetPingInterval :: "u32 \<Rightarrow> 'f tcp_client \<Rightarrow> 'f tcp_client" where
  "SetPingInterval seconds c = c\<lparr>timer_ms := seconds * 1000\<rparr>"

definition SetTimeout :: "u32 \<Rightarrow> 'f tcp_client \<Rightarrow> 'f tcp_client" where
  "SetTimeout seconds c = c\<lparr>reconnect_timeout := sint (max 5 seconds)\<rparr>"

definition SetBackoff :: "'f \<Rightarrow> 'f tcp_client \<Rightarrow> 'f tcp_client" where
  "SetBackoff factor c = c\<lparr>backoff := factor\<rparr>"

definition EnableMptcp :: "bool \<Rightarrow> 'f tcp_client \<Rightarrow> bool \<times> 'f tcp_client" where
  "EnableMptcp enable c = (True, c\<lparr>mptcp_enabled := enable\<rparr>)"

definition TurnOnMptcp :: "int \<Rightarrow> 'f tcp_client \<Rightarrow> bool \<times> client_effect list" where
  "TurnOnMptcp fd c = (if has_conn c \<or> connecting c \<or> pending c then (False, []) else (True, [EffSetMptcp fd]))"

definition ScheduleNextTry :: "('f \<Rightarrow> int \<Rightarrow> int) \<Rightarrow> int \<Rightarrow> 'f tcp_client \<Rightarrow> 'f tcp_client option" where
  "ScheduleNextTry mul cur_tick c =
     do { t \<leftarrow> i32_add (last_try_ts c) kShortConnectionInterval;
          if t \<ge> cur_tick
          then do { n \<leftarrow> i32_add cur_tick (next_try_interval c);
                    Some (c\<lparr>next_try_ts := n,
                            next_try_interval := min kMaxTimeout (mul (backoff c) (next_try_interval c))\<rparr>) }
          else Some (c\<lparr>next_try_interval := reconnect_timeout c, next_try_ts := 0\<rparr>) }"

text \<open>\<open>OnConnect\<close>, called by \<open>ConnectCallback\<close>; its three assertions come first.\<close>

definition TcpClient_OnConnect ::
  "('f \<Rightarrow> int \<Rightarrow> int) \<Rightarrow> int \<Rightarrow> u32 \<Rightarrow> 'f tcp_client \<Rightarrow> (client_effect list \<times> 'f tcp_client) option" where
  "TcpClient_OnConnect mul now events c =
     (if \<not> (pending c \<and> \<not> has_conn c \<and> connecting c) then None
      else let c = c\<lparr>connecting := False\<rparr>
           in if events AND BEV_EVENT_CONNECTED \<noteq> 0
              then Some ([EffConnCreate, EffOnConnect True], c\<lparr>has_conn := True, pending := False\<rparr>)
              else if events AND BEV_EVENT_ERROR \<noteq> 0
              then do { c \<leftarrow> ScheduleNextTry mul now c;
                        Some ([EffFreeBev, EffOnConnect False], c\<lparr>pending := False\<rparr>) }
              else None)"

definition Connect ::
  "('f \<Rightarrow> int \<Rightarrow> int) \<Rightarrow> int \<Rightarrow> connect_result \<Rightarrow> 'f tcp_client \<Rightarrow>
   (bool \<times> client_effect list \<times> 'f tcp_client) option" where
  "Connect mul now r c =
     (if connecting c then Some (True, [], c)
      else let c = c\<lparr>last_try_ts := now, last_active_ts := now\<rparr>;
               closed = (if has_conn c then [EffConnClose] else []);
               c = c\<lparr>has_conn := False\<rparr>;
               fd = sys_socket r
           in if fd = -1 then Some (False, closed, c)
              else if \<not> sys_nonblocking r then Some (False, closed @ [EffCloseFd fd], c)
              else let mptcp = (if mptcp_enabled c then snd (TurnOnMptcp fd c) else []);
                       c = c\<lparr>connecting := True, pending := True\<rparr>;
                       done = closed @ mptcp @ [EffNewBev fd]
                   in if local_port c \<noteq> 0 \<and> \<not> sys_bind r
                      then Some (False, done @ [EffFreeBev], c\<lparr>pending := False, connecting := False\<rparr>)
                      else case sys_connect r of
                        Started \<Rightarrow> Some (True, done, c)
                      | FailedSilent \<Rightarrow> Some (False, done, c\<lparr>connecting := False\<rparr>)
                      | FailedCalled events \<Rightarrow>
                          do { (e, c) \<leftarrow> TcpClient_OnConnect mul now events c;
                               Some (False, done @ e, c\<lparr>connecting := False\<rparr>) })"

definition TcpClient_Close :: "'f tcp_client \<Rightarrow> (client_effect list \<times> 'f tcp_client) option" where
  "TcpClient_Close c =
     (if pending c
      then if has_conn c then None
           else Some ([EffFreeBev], c\<lparr>connecting := False, pending := False\<rparr>)
      else if connecting c then None
      else Some (if has_conn c then ([EffConnClose], c\<lparr>has_conn := False\<rparr>) else ([], c)))"

definition TcpClient_Flush :: "'f tcp_client \<Rightarrow> client_effect list" where
  "TcpClient_Flush c = (if has_conn c then [EffConnFlush] else [])"

definition TcpClient_SendRawData :: "byte list \<Rightarrow> 'f tcp_client \<Rightarrow> bool \<times> client_effect list" where
  "TcpClient_SendRawData data c = (if \<not> IsConnected c then (False, []) else (True, [EffConnSendRaw data]))"

definition TcpClient_SendPacket :: "(packer \<Rightarrow> packer option) \<Rightarrow> 'f tcp_client \<Rightarrow> bool \<times> client_effect list" where
  "TcpClient_SendPacket p c = (if \<not> IsConnected c then (False, []) else (True, [EffConnSendPacket p]))"

text \<open>\<open>OnError\<close> and \<open>OnPacketReceived\<close> of the connection; both assert that it is the client's.\<close>

definition TcpClient_OnError ::
  "('f \<Rightarrow> int \<Rightarrow> int) \<Rightarrow> int \<Rightarrow> 'f tcp_client \<Rightarrow> (client_effect list \<times> 'f tcp_client) option" where
  "TcpClient_OnError mul now c =
     (if \<not> has_conn c then None
      else do { c \<leftarrow> ScheduleNextTry mul now c; (e, c) \<leftarrow> TcpClient_Close c; Some (e @ [EffOnSocketError], c) })"

definition TcpClient_OnPacketReceived ::
  "int \<Rightarrow> unpacker \<Rightarrow> u16 \<Rightarrow> u16 \<Rightarrow> 'f tcp_client \<Rightarrow> (client_effect list \<times> 'f tcp_client) option" where
  "TcpClient_OnPacketReceived now p server_type uri c =
     (if \<not> has_conn c then None
      else Some ([EffOnPacketReceived p server_type uri], c\<lparr>last_active_ts := now\<rparr>))"

definition OnTimer ::
  "('f \<Rightarrow> int \<Rightarrow> int) \<Rightarrow> int \<Rightarrow> connect_result \<Rightarrow> 'f tcp_client \<Rightarrow>
   (client_effect list \<times> 'f tcp_client) option" where
  "OnTimer mul now r c =
     do { timeout \<leftarrow> (if IsConnected c
            then map_option (\<lambda>t. t < now) (i32_add (last_active_ts c) (reconnect_timeout c)) else Some False);
          if timeout then do { c \<leftarrow> ScheduleNextTry mul now c; TcpClient_Close c }
          else if IsConnected c then Some ([EffTimeToPing], c)
          else if \<not> connecting c \<and> next_try_ts c \<le> now
          then map_option snd (Connect mul now r c)
          else Some ([], c) }"

section \<open>Runs of a client\<close>

text \<open>The events a client reacts to: calls of its owner and calls of libevent.\<close>

datatype 'f client_event =
  EvConnect int connect_result | EvClose | EvTimer int connect_result | EvBev int u32
| EvConnError int | EvPacket int unpacker u16 u16
| EvSetTimeout u32 | EvSetBackoff 'f | EvSetPingInterval u32 | EvEnableMptcp bool

fun client_run ::
  "('f \<Rightarrow> int \<Rightarrow> int) \<Rightarrow> 'f client_event \<Rightarrow> 'f tcp_client \<Rightarrow> (client_effect list \<times> 'f tcp_client) option" where
  "client_run mul (EvConnect now r) c = map_option snd (Connect mul now r c)"
| "client_run mul EvClose c = TcpClient_Close c"
| "client_run mul (EvTimer now r) c = OnTimer mul now r c"
| "client_run mul (EvBev now events) c = TcpClient_OnConnect mul now events c"
| "client_run mul (EvConnError now) c = TcpClient_OnError mul now c"
| "client_run mul (EvPacket now p st uri) c = TcpClient_OnPacketReceived now p st uri c"
| "client_run mul (EvSetTimeout s) c = Some ([], SetTimeout s c)"
| "client_run mul (EvSetBackoff f) c = Some ([], SetBackoff f c)"
| "client_run mul (EvSetPingInterval s) c = Some ([], SetPingInterval s c)"
| "client_run mul (EvEnableMptcp b) c = Some ([], snd (EnableMptcp b c))"

text \<open>
  What the environment keeps to: clock values below \<open>2 ^ 30\<close> seconds, time-outs
  up to \<open>2 ^ 29\<close>, an event of a bufferevent only while it is pending and with the
  flags of a success or an error, events of a connection only while there is one,
  and a connection attempt that fails at once has called the event callback with
  an error.
\<close>

definition tick_ok :: "int \<Rightarrow> bool" where
  "tick_ok now \<longleftrightarrow> 0 \<le> now \<and> now \<le> 2 ^ 30"

definition result_ok :: "connect_result \<Rightarrow> bool" where
  "result_ok r \<longleftrightarrow> (case sys_connect r of Started \<Rightarrow> True | FailedSilent \<Rightarrow> False
     | FailedCalled events \<Rightarrow> events AND BEV_EVENT_CONNECTED = 0 \<and> events AND BEV_EVENT_ERROR \<noteq> 0)"

fun client_enabled :: "'f client_event \<Rightarrow> 'f tcp_client \<Rightarrow> bool" where
  "client_enabled (EvConnect now r) c = (tick_ok now \<and> result_ok r)"
| "client_enabled (EvTimer now r) c = (tick_ok now \<and> result_ok r)"
| "client_enabled (EvBev now events) c =
     (tick_ok now \<and> pending c \<and> (events AND BEV_EVENT_CONNECTED \<noteq> 0 \<or> events AND BEV_EVENT_ERROR \<noteq> 0))"
| "client_enabled (EvConnError now) c = (tick_ok now \<and> has_conn c)"
| "client_enabled (EvPacket now p st uri) c = (tick_ok now \<and> has_conn c)"
| "client_enabled (EvSetTimeout s) c = (unat s \<le> 2 ^ 29)"
| "client_enabled _ c = True"

text \<open>The states a client reaches, with all the effects it has had.\<close>

inductive client_reach :: "('f \<Rightarrow> int \<Rightarrow> int) \<Rightarrow> client_effect list \<Rightarrow> 'f tcp_client \<Rightarrow> bool"
  for mul :: "'f \<Rightarrow> int \<Rightarrow> int" where
  init: "tick_ok now \<Longrightarrow> client_reach mul [] (TcpClient_Init a port factor now)"
| step: "client_reach mul tr c \<Longrightarrow> client_enabled ev c \<Longrightarrow> client_run mul ev c = Some (e, c') \<Longrightarrow>
    client_reach mul (tr @ e) c'"

section \<open>Invariant\<close>

text \<open>
  A client is idle, connecting with a pending bufferevent, or connected; its
  clock values and intervals are in the range in which no addition overflows.
\<close>

definition client_num :: "'f tcp_client \<Rightarrow> bool" where
  "client_num c \<longleftrightarrow> 0 \<le> last_try_ts c \<and> last_try_ts c \<le> 2 ^ 30 \<and> 0 \<le> last_active_ts c \<and> last_active_ts c \<le> 2 ^ 30
     \<and> 5 \<le> reconnect_timeout c \<and> reconnect_timeout c \<le> 2 ^ 29
     \<and> 0 \<le> next_try_interval c \<and> next_try_interval c \<le> 2 ^ 29"

definition client_inv :: "'f tcp_client \<Rightarrow> bool" where
  "client_inv c \<longleftrightarrow> (connecting c \<longleftrightarrow> pending c) \<and> \<not> (pending c \<and> has_conn c) \<and> client_num c"

text \<open>How an effect changes the number of bufferevents and of connections the client owns.\<close>

fun eff_bev :: "client_effect \<Rightarrow> int" where
  "eff_bev (EffNewBev _) = 1"
| "eff_bev EffFreeBev = -1"
| "eff_bev EffConnCreate = -1"
| "eff_bev _ = 0"

fun eff_conn :: "client_effect \<Rightarrow> int" where
  "eff_conn EffConnCreate = 1"
| "eff_conn EffConnClose = -1"
| "eff_conn _ = 0"

abbreviation bev_balance :: "client_effect list \<Rightarrow> int" where
  "bev_balance es \<equiv> sum_list (map eff_bev es)"

abbreviation conn_balance :: "client_effect list \<Rightarrow> int" where
  "conn_balance es \<equiv> sum_list (map eff_conn es)"

definition ok_step :: "'f tcp_client \<Rightarrow> (client_effect list \<times> 'f tcp_client) option \<Rightarrow> bool" where
  "ok_step c r \<longleftrightarrow> (case r of None \<Rightarrow> False | Some (e, c') \<Rightarrow> client_inv c'
     \<and> bev_balance e = of_bool (pending c') - of_bool (pending c)
     \<and> conn_balance e = of_bool (has_conn c') - of_bool (has_conn c))"

definition mul_ok :: "('f \<Rightarrow> int \<Rightarrow> int) \<Rightarrow> bool" where
  "mul_ok mul \<longleftrightarrow> (\<forall>f n. 0 \<le> n \<longrightarrow> 0 \<le> mul f n)"

lemma ScheduleNextTry_ok:
  assumes "mul_ok mul" and "tick_ok now" and "client_num c"
  obtains ts iv where "ScheduleNextTry mul now c = Some (c\<lparr>next_try_ts := ts, next_try_interval := iv\<rparr>)"
    and "0 \<le> iv" and "iv \<le> 2 ^ 29" and "ts \<le> now + next_try_interval c"
proof (cases "now \<le> last_try_ts c + 60")
  case True
  let ?iv = "min 300 (mul (backoff c) (next_try_interval c))"
  have "ScheduleNextTry mul now c = Some (c\<lparr>next_try_ts := now + next_try_interval c, next_try_interval := ?iv\<rparr>)"
    using assms(2,3) True
    by (simp add: ScheduleNextTry_def i32_add_def client_num_def tick_ok_def kShortConnectionInterval_def kMaxTimeout_def)
  then show ?thesis
    by (rule that) (use assms(1,3) in \<open>auto simp: mul_ok_def client_num_def\<close>)
next
  case False
  have "ScheduleNextTry mul now c = Some (c\<lparr>next_try_ts := 0, next_try_interval := reconnect_timeout c\<rparr>)"
    using assms(2,3) False
    by (cases c) (simp add: ScheduleNextTry_def i32_add_def client_num_def tick_ok_def kShortConnectionInterval_def)
  then show ?thesis
    by (rule that) (use assms(2,3) in \<open>auto simp: client_num_def tick_ok_def\<close>)
qed

lemma Close_ok: "client_inv c \<Longrightarrow> ok_step c (TcpClient_Close c)"
  by (auto simp: ok_step_def client_inv_def TcpClient_Close_def client_num_def)

lemma OnConnect_ok:
  assumes "mul_ok mul" and "tick_ok now" and "client_inv c" and "pending c"
    and "events AND BEV_EVENT_CONNECTED \<noteq> 0 \<or> events AND BEV_EVENT_ERROR \<noteq> 0"
  shows "ok_step c (TcpClient_OnConnect mul now events c)"
proof -
  have "client_num (c\<lparr>connecting := False\<rparr>)" using assms(3) by (simp add: client_inv_def client_num_def)
  then obtain ts iv where
    "ScheduleNextTry mul now (c\<lparr>connecting := False\<rparr>) =
       Some (c\<lparr>connecting := False\<rparr>\<lparr>next_try_ts := ts, next_try_interval := iv\<rparr>)" "0 \<le> iv" "iv \<le> 2 ^ 29"
    by (rule ScheduleNextTry_ok [OF assms(1,2)])
  then show ?thesis
    using assms(3-5) by (auto simp: ok_step_def TcpClient_OnConnect_def client_inv_def client_num_def Let_def)
qed

lemma Connect_ok:
  assumes "mul_ok mul" and "tick_ok now" and "client_inv c" and "result_ok r"
  shows "ok_step c (map_option snd (Connect mul now r c))"
proof (cases "connecting c")
  case True
  then show ?thesis using assms(3) by (simp add: ok_step_def Connect_def)
next
  case False
  let ?c = "c\<lparr>last_try_ts := now, last_active_ts := now, has_conn := False, connecting := True, pending := True\<rparr>"
  have inv: "client_inv ?c" and idle: "\<not> pending c"
    using False assms(2,3) by (simp_all add: client_inv_def client_num_def tick_ok_def)
  define eff where "eff = (if has_conn c then [EffConnClose] else []) @
    (if mptcp_enabled c then [EffSetMptcp (sys_socket r)] else []) @ [EffNewBev (sys_socket r)]"
  have bal: "bev_balance eff = 1" "conn_balance eff = - of_bool (has_conn c)" by (simp_all add: eff_def)
  have conn: "Connect mul now r c =
      (if sys_socket r = -1 then Some (False, if has_conn c then [EffConnClose] else [],
         c\<lparr>last_try_ts := now, last_active_ts := now, has_conn := False\<rparr>)
       else if \<not> sys_nonblocking r then Some (False, (if has_conn c then [EffConnClose] else []) @ [EffCloseFd (sys_socket r)],
         c\<lparr>last_try_ts := now, last_active_ts := now, has_conn := False\<rparr>)
       else if local_port c \<noteq> 0 \<and> \<not> sys_bind r
       then Some (False, eff @ [EffFreeBev], ?c\<lparr>pending := False, connecting := False\<rparr>)
       else case sys_connect r of Started \<Rightarrow> Some (True, eff, ?c)
         | FailedSilent \<Rightarrow> Some (False, eff, ?c\<lparr>connecting := False\<rparr>)
         | FailedCalled events \<Rightarrow> do { (e, c) \<leftarrow> TcpClient_OnConnect mul now events ?c;
             Some (False, eff @ e, c\<lparr>connecting := False\<rparr>) })"
    using False idle by (cases "has_conn c"; cases "mptcp_enabled c"; cases "sys_connect r") (simp_all add: Connect_def Let_def TurnOnMptcp_def eff_def)
  show ?thesis
  proof (cases "sys_socket r = -1 \<or> \<not> sys_nonblocking r \<or> local_port c \<noteq> 0 \<and> \<not> sys_bind r")
    case True
    then show ?thesis
      using False idle assms(2,3) bal unfolding conn by (auto simp: ok_step_def client_inv_def client_num_def tick_ok_def)
  next
    case go: False
    show ?thesis
    proof (cases "sys_connect r")
      case Started
      with go inv idle bal show ?thesis unfolding conn by (auto simp: ok_step_def)
    next
      case (FailedCalled events)
      then have "ok_step ?c (TcpClient_OnConnect mul now events ?c)"
        using OnConnect_ok [OF assms(1,2) inv] assms(4) by (simp add: result_ok_def)
      then obtain e c' where e: "TcpClient_OnConnect mul now events ?c = Some (e, c')" "client_inv c'"
          "bev_balance e = of_bool (pending c') - 1" "conn_balance e = of_bool (has_conn c')"
        by (auto simp: ok_step_def split: option.splits)
      from e(1) have "connecting c' = False"
        by (auto simp: TcpClient_OnConnect_def Let_def ScheduleNextTry_def split: if_splits bind_splits)
      then have "c'\<lparr>connecting := False\<rparr> = c'" by (cases c') simp
      with go FailedCalled e idle bal show ?thesis unfolding conn by (auto simp: ok_step_def)
    qed (use assms(4) in \<open>simp add: result_ok_def\<close>)
  qed
qed

lemma OnError_ok:
  assumes "mul_ok mul" and "tick_ok now" and "client_inv c" and "has_conn c"
  shows "ok_step c (TcpClient_OnError mul now c)"
proof -
  have "client_num c" using assms(3) by (simp add: client_inv_def)
  then obtain ts iv where "ScheduleNextTry mul now c = Some (c\<lparr>next_try_ts := ts, next_try_interval := iv\<rparr>)"
    "0 \<le> iv" "iv \<le> 2 ^ 29" by (rule ScheduleNextTry_ok [OF assms(1,2)])
  then show ?thesis
    using assms(3,4) by (auto simp: ok_step_def TcpClient_OnError_def TcpClient_Close_def client_inv_def client_num_def)
qed

lemma OnTimer_ok:
  assumes "mul_ok mul" and "tick_ok now" and "client_inv c" and "result_ok r"
  shows "ok_step c (OnTimer mul now r c)"
proof (cases "IsConnected c")
  case True
  have num: "client_num c" using assms(3) by (simp add: client_inv_def)
  then have "i32_add (last_active_ts c) (reconnect_timeout c) = Some (last_active_ts c + reconnect_timeout c)"
    by (simp add: i32_add_def client_num_def)
  moreover obtain ts iv where "ScheduleNextTry mul now c = Some (c\<lparr>next_try_ts := ts, next_try_interval := iv\<rparr>)"
    "0 \<le> iv" "iv \<le> 2 ^ 29" using num by (rule ScheduleNextTry_ok [OF assms(1,2)])
  ultimately show ?thesis
    using True assms(3) by (auto simp: ok_step_def OnTimer_def TcpClient_Close_def client_inv_def client_num_def IsConnected_def)
next
  case False
  then show ?thesis
    using Connect_ok [OF assms] assms(3) by (auto simp: OnTimer_def ok_step_def)
qed

lemma sint_small: "unat (w :: u32) < 2 ^ 31 \<Longrightarrow> sint w = int (unat w)"
proof -
  assume "unat w < 2 ^ 31"
  then have "int (unat w) < int (2 ^ 31)" by (simp only: of_nat_less_iff)
  then have "uint w < 2 ^ 31" by simp
  moreover have "- (2 ^ 31) \<le> uint w" by (rule order_trans [OF _ uint_ge_0]) simp
  ultimately have "signed_take_bit 31 (uint w) = uint w" by (intro signed_take_bit_int_eq_self)
  then show ?thesis by (simp add: sint_uint)
qed

lemma client_run_ok:
  assumes "mul_ok mul" and "client_inv c" and "client_enabled ev c"
  shows "ok_step c (client_run mul ev c)"
proof (cases ev)
  case (EvConnect now r)
  then show ?thesis using assms by (auto intro: Connect_ok)
next
  case EvClose
  then show ?thesis using assms by (auto intro: Close_ok)
next
  case (EvTimer now r)
  then show ?thesis using assms by (auto intro: OnTimer_ok)
next
  case (EvBev now events)
  then show ?thesis using assms by (auto intro: OnConnect_ok)
next
  case (EvConnError now)
  then show ?thesis using assms by (auto intro: OnError_ok)
next
  case (EvSetTimeout s)
  have "sint (max 5 s) = int (max 5 (unat s))"
  proof -
    have u: "unat (max 5 s) = max 5 (unat s)" by (auto simp: max_def word_le_nat_alt)
    have "unat (max 5 s) < 2 ^ 31" using assms(3) EvSetTimeout u by simp
    then show ?thesis using sint_small [of "max 5 s"] u by simp
  qed
  then show ?thesis
    using assms EvSetTimeout by (auto simp: ok_step_def SetTimeout_def client_inv_def client_num_def)
qed (use assms in \<open>auto simp: ok_step_def client_inv_def client_num_def tick_ok_def TcpClient_OnPacketReceived_def
    SetBackoff_def SetPingInterval_def EnableMptcp_def\<close>)

lemma client_reach_inv:
  assumes "client_reach mul tr c" and "mul_ok mul"
  shows "client_inv c \<and> bev_balance tr = of_bool (pending c) \<and> conn_balance tr = of_bool (has_conn c)"
  using assms(1)
proof (induction rule: client_reach.induct)
  case (init now a port factor)
  then show ?case
    by (simp add: client_inv_def client_num_def TcpClient_Init_def tick_ok_def kReconnectTimeout_def)
next
  case (step tr c ev e c')
  then show ?case using client_run_ok [OF assms(2), of c ev] by (simp add: ok_step_def)
qed

section \<open>Properties\<close>


text \<open>C24. Nothing leaks: along every run, the bufferevents that were created are those that were freed,
  those that a connection took over and the pending one, and the connections that were created are
  those that were closed and the current one.\<close>

theorem client_resources_balanced:
  assumes "client_reach mul tr c" and "mul_ok mul"
  shows "bev_balance tr = of_bool (pending c) \<and> conn_balance tr = of_bool (has_conn c)"
  using client_reach_inv [OF assms] by simp

text \<open>A result of the system calls, and a run: the first attempt is refused at once, the second succeeds.\<close>

definition refused :: connect_result where
  "refused = \<lparr>sys_socket = 5, sys_nonblocking = True, sys_bind = True, sys_connect = FailedCalled 0x20\<rparr>"

definition starting :: connect_result where
  "starting = \<lparr>sys_socket = 6, sys_nonblocking = True, sys_bind = True, sys_connect = Started\<rparr>"

definition double :: "unit \<Rightarrow> int \<Rightarrow> int" where
  "double f n = 2 * n"

lemma double_ok: "mul_ok double"
  by (simp add: mul_ok_def double_def)

lemmas client_eval = Connect_def OnTimer_def TcpClient_OnConnect_def ScheduleNextTry_def TcpClient_Init_def
  IsConnected_def TurnOnMptcp_def refused_def starting_def double_def i32_add_def Let_def
  BEV_EVENT_CONNECTED_def BEV_EVENT_ERROR_def kShortConnectionInterval_def kMaxTimeout_def
  kReconnectTimeout_def kKeepAliveIntervalMs_def result_ok_def tick_ok_def

text \<open>After the refusal at second 100 the next attempt is due at 110, with the interval doubled.\<close>

definition waiting_client :: "unit tcp_client" where
  "waiting_client = (TcpClient_Init (0, 0) 0 () 100)\<lparr>last_try_ts := 100, next_try_ts := 110, next_try_interval := 20\<rparr>"

lemma refused_run: "client_reach double [EffNewBev 5, EffFreeBev, EffOnConnect False] waiting_client"
proof -
  have "client_reach double ([] @ [EffNewBev 5, EffFreeBev, EffOnConnect False]) waiting_client"
  proof (rule client_reach.step)
    show "client_reach double [] (TcpClient_Init (0, 0) 0 () 100)" by (rule client_reach.init) (simp add: tick_ok_def)
    show "client_enabled (EvConnect 100 refused) (TcpClient_Init (0, 0) 0 () 100)" by (simp add: client_eval)
    show "client_run double (EvConnect 100 refused) (TcpClient_Init (0, 0) 0 () 100) =
        Some ([EffNewBev 5, EffFreeBev, EffOnConnect False], waiting_client)"
      by (simp add: client_eval waiting_client_def)
  qed
  then show ?thesis by simp
qed


theorem client_resources_balanced_witness:
  "bev_balance [EffNewBev 5, EffFreeBev, EffOnConnect False] = of_bool (pending waiting_client)"
  using client_resources_balanced [OF refused_run double_ok] by blast



text \<open>A connection that has been silent for longer than the timeout is closed at the next tick,
  without a call of the owner's callback; one that has not been is pinged.\<close>

theorem silent_connection_closed:
  assumes "mul_ok mul" and "tick_ok now" and "client_inv c" and "IsConnected c"
  shows "OnTimer mul now r c =
     (if last_active_ts c + reconnect_timeout c < now
      then map_option (\<lambda>c'. ([EffConnClose], c'\<lparr>has_conn := False\<rparr>)) (ScheduleNextTry mul now c)
      else Some ([EffTimeToPing], c))"
proof -
  have num: "client_num c" and flags: "has_conn c" "\<not> pending c" "\<not> connecting c"
    using assms(3,4) by (auto simp: client_inv_def IsConnected_def)
  then have "i32_add (last_active_ts c) (reconnect_timeout c) = Some (last_active_ts c + reconnect_timeout c)"
    by (simp add: i32_add_def client_num_def)
  moreover obtain ts iv where "ScheduleNextTry mul now c = Some (c\<lparr>next_try_ts := ts, next_try_interval := iv\<rparr>)"
    using num by (rule ScheduleNextTry_ok [OF assms(1,2)])
  ultimately show ?thesis using assms(4) flags by (simp add: OnTimer_def TcpClient_Close_def)
qed

definition connected_client :: "unit tcp_client" where
  "connected_client = (TcpClient_Init (0, 0) 0 () 100)\<lparr>last_try_ts := 100, has_conn := True\<rparr>"

theorem silent_connection_closed_witness:
  "\<exists>c'. OnTimer double 111 starting connected_client = Some ([EffConnClose], c') \<and>
     OnTimer double 110 starting connected_client = Some ([EffTimeToPing], connected_client)"
proof -
  have "client_inv connected_client" "IsConnected connected_client"
    by (simp_all add: connected_client_def client_inv_def client_num_def client_eval)
  from silent_connection_closed [OF double_ok _ this, of 111 starting] silent_connection_closed [OF double_ok _ this, of 110 starting]
  show ?thesis by (simp add: connected_client_def client_eval)
qed

text \<open>\<open>SetTimeout\<close> keeps values up to \<open>2 ^ 31 - 1\<close> but at least five seconds; a larger one
  turns negative, so that a connection that has just been active is timed out.\<close>

theorem SetTimeout_range:
  "reconnect_timeout (SetTimeout seconds c) =
     (if unat seconds < 2 ^ 31 then int (max 5 (unat seconds)) else int (unat seconds) - 2 ^ 32)"
proof -
  have u: "unat (max 5 seconds) = max 5 (unat seconds)" by (auto simp: max_def word_le_nat_alt)
  show ?thesis
  proof (cases "unat seconds < 2 ^ 31")
    case True
    then show ?thesis using sint_small [of "max 5 seconds"] u by (simp add: SetTimeout_def)
  next
    case False
    have "max 5 seconds = seconds" using False by (auto simp: max_def word_le_nat_alt)
    moreover have "sint seconds = uint seconds - 2 ^ 32"
    proof -
      have "int (2 ^ 31) \<le> int (unat seconds)" "int (unat seconds) < int 4294967296"
        using False u32_unat_bound [of seconds] by (simp_all only: of_nat_le_iff of_nat_less_iff not_less)
      then have "2 ^ 31 \<le> uint seconds" "uint seconds < 2 ^ 32" by simp_all
      moreover from this have "uint seconds div 2147483648 = 1"
        by (intro int_div_pos_eq [of _ _ _ "uint seconds - 2147483648"]) simp_all
      ultimately show ?thesis by (simp add: sint_uint signed_take_bit_eq_take_bit_minus take_bit_int_eq_self bit_iff_odd)
    qed
    ultimately show ?thesis using False by (simp add: SetTimeout_def)
  qed
qed

text \<open>When \<open>bufferevent_socket_connect\<close> fails without calling the event callback, the bufferevent
  stays in \<open>pending_\<close> although the client is no longer connecting; the next attempt overwrites it,
  and it is never freed.\<close>

theorem silent_failure_leaks:
  "\<exists>c1 c2. Connect double 100 (refused\<lparr>sys_connect := FailedSilent\<rparr>) (TcpClient_Init (0, 0) 0 () 100) =
       Some (False, [EffNewBev 5], c1) \<and> pending c1 \<and> \<not> connecting c1 \<and>
     OnTimer double 103 starting c1 = Some ([EffNewBev 6], c2)"
  by (simp add: client_eval)

end
