(* ===== verification/Uni_Lbs.thy ===== *)
theory Uni_Lbs
  imports Tcp_Client Protocols
begin

text \<open>
  The client side of the unified load balancer protocol: a connection to one
  load balancer (\<open>UniLbsConnection\<close>, src/turnserver/lbs/uni_lbs_connection.h and
  .cpp), which joins, pings and reports channels; the client that keeps one
  connection for each address of a host (\<open>UniLbsClient\<close>, uni_lbs_client.h and
  .cpp); and the facade \<open>UniLbsClientInterface\<close>.

  A connection contains its \<open>TcpClient\<close>.  Its methods return the calls it makes on
  the TCP connection and on its owner as a list of effects; what the owner
  answers (the channels, the load) is an argument.  The \<open>unordered_map\<close> of the
  client is a map; the order in which it is iterated over is not modelled, since
  the connections are independent of each other.
\<close>

section \<open>A connection to one load balancer\<close>

definition kUniLbsType :: u16 where "kUniLbsType = 17"
definition kOk :: u32 where "kOk = 0"

record ChannelInfo =
  ci_vid :: u32
  ci_cid :: u32
  channel_name :: "byte list"

definition ChannelInfo_lt :: "ChannelInfo \<Rightarrow> ChannelInfo \<Rightarrow> bool" where
  "ChannelInfo_lt a b \<longleftrightarrow>
     ci_vid a < ci_vid b \<or> (ci_vid a = ci_vid b \<and> channel_name a < channel_name b)"

record 'f lbs_conn =
  joined :: bool
  lc_service_id :: u32
  lc_service_port :: u16
  lc_service_name :: "byte list"
  lc_release_version :: "byte list"
  connection :: "'f tcp_client"

text \<open>Effects: those of the TCP client, and the calls on \<open>UniLbsEventCallback\<close>.\<close>

datatype lbs_effect =
  Tcp client_effect
| CbLbsConnected | CbLbsDisconnected | CbLbsMessageReceived unpacker u16
| CbUpdateEdgeServerLoadQuota u32 | CbJoinReplied DetailInfo2Map | CbEdgeServerPerformanceRequired

text \<open>\<open>NewSockAddress4\<close> converts to \<open>sockaddr_in\<close>, from which the client's address is made.\<close>

definition UniLbsConnection_new ::
  "NewSockAddress4 \<Rightarrow> byte list \<Rightarrow> u32 \<Rightarrow> u16 \<Rightarrow> byte list \<Rightarrow> 'f \<Rightarrow> int \<Rightarrow> 'f lbs_conn" where
  "UniLbsConnection_new lbs_addr service_name service_id service_port release_version factor now =
     \<lparr>joined = False, lc_service_id = service_id, lc_service_port = service_port,
      lc_service_name = service_name, lc_release_version = release_version,
      connection = TcpClient_Init (SocketAddress4_of_in (NewSockAddress4_to_in lbs_addr)) 0 factor now\<rparr>"

definition UniLbsConnection_Connect ::
  "('f \<Rightarrow> int \<Rightarrow> int) \<Rightarrow> int \<Rightarrow> connect_result \<Rightarrow> 'f lbs_conn \<Rightarrow> (bool \<times> client_effect list \<times> 'f lbs_conn) option" where
  "UniLbsConnection_Connect mul now r c =
     do { (ok, e, cl) \<leftarrow> Connect mul now r (connection c); Some (ok, e, c\<lparr>connection := cl\<rparr>) }"

definition UniLbsConnection_SendPacket :: "(packer \<Rightarrow> packer option) \<Rightarrow> 'f lbs_conn \<Rightarrow> lbs_effect list" where
  "UniLbsConnection_SendPacket p c =
     (if IsConnected (connection c) then map Tcp (snd (TcpClient_SendPacket p (connection c))) else [])"

text \<open>The packets the connection builds.\<close>

definition join_request :: "'f lbs_conn \<Rightarrow> LbsJoinReq2_t" where
  "join_request c =
     (fst (with_server_type kUniLbsType LbsJoinReq2), lc_service_id c, lc_service_name c, lc_service_port c,
      map_assign kServerVersion (lc_release_version c) [])"

definition ping_packet :: "u32 \<times> u32 \<times> u32 \<times> u32 \<Rightarrow> 'f lbs_conn \<Rightarrow> LbsPing_t" where
  "ping_packet load c =
     (case load of (users, cpu, rx_kbps, tx_kbps) \<Rightarrow>
        (fst (with_server_type kUniLbsType LbsPing), lc_service_id c,
         map_assign kTrafficOutLoad tx_kbps (map_assign kTrafficInLoad rx_kbps
           (map_assign kCpuLoad cpu (map_assign kUserLoad users [])))))"

definition full_channel_list :: "ChannelInfo list \<Rightarrow> 'f lbs_conn \<Rightarrow> LbsFullChannelList_t" where
  "full_channel_list channels c =
     (fst (with_server_type kUniLbsType LbsFullChannelList), lc_service_id c,
      map (\<lambda>ch. (ci_vid ch, channel_name ch)) channels)"

definition UniLbsConnection_OnConnect :: "bool \<Rightarrow> 'f lbs_conn \<Rightarrow> lbs_effect list \<times> 'f lbs_conn" where
  "UniLbsConnection_OnConnect connected c =
     (if \<not> connected then ([CbLbsDisconnected], c\<lparr>joined := False\<rparr>)
      else (CbLbsConnected #
              map Tcp (snd (TcpClient_SendPacket (Packet_Pack LbsJoinReq2 (join_request c)) (connection c))), c))"

definition SendFullChannelList :: "ChannelInfo list \<Rightarrow> 'f lbs_conn \<Rightarrow> lbs_effect list" where
  "SendFullChannelList channels c =
     UniLbsConnection_SendPacket (Packet_Pack LbsFullChannelList (full_channel_list channels c)) c"

definition OnJoinReplied ::
  "ChannelInfo list \<Rightarrow> unpacker \<Rightarrow> 'f lbs_conn \<Rightarrow> (lbs_effect list \<times> 'f lbs_conn) option" where
  "OnJoinReplied channels p c =
     do { ((h, id', code), p) \<leftarrow> pop LbsJoinRes (dflt LbsJoinRes) p;
          Some (if code = kOk
                then let c = c\<lparr>joined := True\<rparr>
                     in (CbJoinReplied [] # SendFullChannelList channels c, c)
                else ([], c)) }"

definition OnJoin2Replied ::
  "ChannelInfo list \<Rightarrow> unpacker \<Rightarrow> 'f lbs_conn \<Rightarrow> (lbs_effect list \<times> 'f lbs_conn) option" where
  "OnJoin2Replied channels p c =
     do { ((h, id', code, detail), p) \<leftarrow> pop LbsJoinRes2 (dflt LbsJoinRes2) p;
          Some (if code = kOk
                then let c = c\<lparr>joined := True\<rparr>
                     in (CbJoinReplied detail # SendFullChannelList channels c, c)
                else ([], c)) }"

definition OnPong :: "unpacker \<Rightarrow> lbs_effect list option" where
  "OnPong p =
     do { ((h, id', load_detail), p) \<leftarrow> pop LbsPong (dflt LbsPong) p;
          Some [CbUpdateEdgeServerLoadQuota (map_index 0 kUserLoadMax load_detail)] }"

definition UniLbsConnection_OnPacketReceived ::
  "ChannelInfo list \<Rightarrow> unpacker \<Rightarrow> u16 \<Rightarrow> u16 \<Rightarrow> 'f lbs_conn \<Rightarrow> (lbs_effect list \<times> 'f lbs_conn) option" where
  "UniLbsConnection_OnPacketReceived channels p service_type uri c =
     (if service_type \<noteq> kUniLbsType then Some ([], c)
      else if uri = kLbsJoinResUri then OnJoinReplied channels p c
      else if uri = kLbsJoinRes2Uri then OnJoin2Replied channels p c
      else if uri = kLbsPongUri then map_option (\<lambda>e. (e, c)) (OnPong p)
      else Some ([CbLbsMessageReceived p uri], c))"

definition TimeToPing :: "u32 \<times> u32 \<times> u32 \<times> u32 \<Rightarrow> 'f lbs_conn \<Rightarrow> lbs_effect list" where
  "TimeToPing load c =
     (if \<not> joined c then []
      else CbEdgeServerPerformanceRequired #
             UniLbsConnection_SendPacket (Packet_Pack LbsPing (ping_packet load c)) c)"

definition OnSocketError :: "'f lbs_conn \<Rightarrow> 'f lbs_conn" where
  "OnSocketError c = c\<lparr>joined := False\<rparr>"

definition UniLbsConnection_DoChannelCreate :: "ChannelInfo \<Rightarrow> 'f lbs_conn \<Rightarrow> lbs_effect list" where
  "UniLbsConnection_DoChannelCreate ch c =
     (if \<not> joined c then []
      else UniLbsConnection_SendPacket (Packet_Pack LbsDeltaChannelList
        (fst (with_server_type kUniLbsType LbsDeltaChannelList), lc_service_id c,
         [(ci_vid ch, channel_name ch)], [])) c)"

definition UniLbsConnection_DoChannelDestroy :: "ChannelInfo \<Rightarrow> 'f lbs_conn \<Rightarrow> lbs_effect list" where
  "UniLbsConnection_DoChannelDestroy ch c =
     (if \<not> joined c then []
      else UniLbsConnection_SendPacket (Packet_Pack LbsDeltaChannelList
        (fst (with_server_type kUniLbsType LbsDeltaChannelList), lc_service_id c,
         [], [(ci_vid ch, channel_name ch)])) c)"

text \<open>
  The calls that the TCP client makes on its callback, which is this connection.
  They are the last thing its handlers do.
\<close>

fun dispatch ::
  "ChannelInfo list \<Rightarrow> u32 \<times> u32 \<times> u32 \<times> u32 \<Rightarrow> client_effect list \<Rightarrow> 'f lbs_conn \<Rightarrow>
   (lbs_effect list \<times> 'f lbs_conn) option" where
  "dispatch channels load [] c = Some ([], c)"
| "dispatch channels load (e # es) c =
     do { (f, c) \<leftarrow> (case e of
            EffOnConnect connected \<Rightarrow> Some (UniLbsConnection_OnConnect connected c)
          | EffOnSocketError \<Rightarrow> Some ([], OnSocketError c)
          | EffTimeToPing \<Rightarrow> Some (TimeToPing load c, c)
          | EffOnPacketReceived p st uri \<Rightarrow> UniLbsConnection_OnPacketReceived channels p st uri c
          | _ \<Rightarrow> Some ([Tcp e], c));
          (g, c) \<leftarrow> dispatch channels load es c;
          Some (f @ g, c) }"

definition lbs_run ::
  "('f \<Rightarrow> int \<Rightarrow> int) \<Rightarrow> ChannelInfo list \<Rightarrow> u32 \<times> u32 \<times> u32 \<times> u32 \<Rightarrow> 'f client_event \<Rightarrow> 'f lbs_conn \<Rightarrow>
   (lbs_effect list \<times> 'f lbs_conn) option" where
  "lbs_run mul channels load ev c =
     do { (es, cl) \<leftarrow> client_run mul ev (connection c); dispatch channels load es (c\<lparr>connection := cl\<rparr>) }"

section \<open>The client of all load balancers\<close>

text \<open>\<open>lb_timer\<close>: the interval of the timer in milliseconds, if it is set.\<close>

record 'f lbs_client =
  lbs_host :: "byte list"
  lbs_port :: u16
  lb_service_name :: "byte list"
  lb_service_id :: u32
  lb_service_port :: u32
  reloading_interval :: u32
  lb_timer :: "u32 option"
  connections :: "u32 \<rightharpoonup> 'f lbs_conn"
  lb_release_version :: "byte list"

definition UniLbsClient_new :: "byte list \<Rightarrow> byte list \<Rightarrow> u16 \<Rightarrow> byte list \<Rightarrow> 'f lbs_client" where
  "UniLbsClient_new host service_name port release_version =
     \<lparr>lbs_host = host, lbs_port = port, lb_service_name = service_name, lb_service_id = 0, lb_service_port = 0,
      reloading_interval = 600, lb_timer = None, connections = Map.empty, lb_release_version = release_version\<rparr>"

definition SetReloadingInterval :: "u32 \<Rightarrow> 'f lbs_client \<Rightarrow> 'f lbs_client" where
  "SetReloadingInterval seconds c = c\<lparr>reloading_interval := max seconds 100\<rparr>"

text \<open>
  What a new connection is: constructed and connected.  \<open>res\<close> gives the results of
  the system calls for an address; the 32-bit port is narrowed by the constructor.
\<close>

definition fresh_connection ::
  "('f \<Rightarrow> int \<Rightarrow> int) \<Rightarrow> 'f \<Rightarrow> int \<Rightarrow> (NewSockAddress4 \<Rightarrow> connect_result) \<Rightarrow> 'f lbs_client \<Rightarrow> NewSockAddress4 \<Rightarrow>
   'f lbs_conn option" where
  "fresh_connection mul factor now res c addr =
     map_option (snd \<circ> snd) (UniLbsConnection_Connect mul now (res addr)
       (UniLbsConnection_new addr (lb_service_name c) (lb_service_id c) (ucast (lb_service_port c))
         (lb_release_version c) factor now))"

fun reload_loop ::
  "(NewSockAddress4 \<Rightarrow> 'f lbs_conn option) \<Rightarrow> (u32 \<rightharpoonup> 'f lbs_conn) \<Rightarrow> NewSockAddress4 list \<Rightarrow>
   (u32 \<rightharpoonup> 'f lbs_conn) \<Rightarrow> (u32 \<rightharpoonup> 'f lbs_conn) option" where
  "reload_loop mk old [] new = Some new"
| "reload_loop mk old (addr # addrs) new =
     (case old (na_ip addr) of
        Some conn \<Rightarrow> reload_loop mk old addrs (if new (na_ip addr) = None then new(na_ip addr \<mapsto> conn) else new)
      | None \<Rightarrow> do { conn \<leftarrow> mk addr; reload_loop mk old addrs (new(na_ip addr \<mapsto> conn)) })"

definition ReloadLbsAddresses ::
  "('f \<Rightarrow> int \<Rightarrow> int) \<Rightarrow> 'f \<Rightarrow> int \<Rightarrow> (NewSockAddress4 \<Rightarrow> connect_result) \<Rightarrow> NewSockAddress4 list \<Rightarrow>
   'f lbs_client \<Rightarrow> 'f lbs_client option" where
  "ReloadLbsAddresses mul factor now res new_addresses c =
     do { conns \<leftarrow> reload_loop (fresh_connection mul factor now res c) (connections c) new_addresses Map.empty;
          Some (c\<lparr>connections := conns\<rparr>) }"

definition ReloadLbsHosts ::
  "('f \<Rightarrow> int \<Rightarrow> int) \<Rightarrow> 'f \<Rightarrow> int \<Rightarrow> (NewSockAddress4 \<Rightarrow> connect_result) \<Rightarrow> (byte list \<Rightarrow> sockaddr_in list option) \<Rightarrow>
   'f lbs_client \<Rightarrow> 'f lbs_client option" where
  "ReloadLbsHosts mul factor now res getaddrinfo c =
     (let ips = ResolveHost getaddrinfo (lbs_host c);
          ips = (if ips = [] then [INADDR_LOOPBACK] else ips)
      in ReloadLbsAddresses mul factor now res (map (\<lambda>ip. NewSockAddress4_new ip (lbs_port c)) ips) c)"

definition UpdateLbsAddresses ::
  "('f \<Rightarrow> int \<Rightarrow> int) \<Rightarrow> 'f \<Rightarrow> int \<Rightarrow> (NewSockAddress4 \<Rightarrow> connect_result) \<Rightarrow> NewSockAddress4 list \<Rightarrow>
   'f lbs_client \<Rightarrow> 'f lbs_client option" where
  "UpdateLbsAddresses mul factor now res new_addresses c =
     (let c = c\<lparr>lb_timer := None\<rparr>
      in if lb_service_id c \<noteq> 0 then ReloadLbsAddresses mul factor now res new_addresses c else Some c)"

definition UpdateLbsAddresses_old ::
  "('f \<Rightarrow> int \<Rightarrow> int) \<Rightarrow> 'f \<Rightarrow> int \<Rightarrow> (NewSockAddress4 \<Rightarrow> connect_result) \<Rightarrow> SocketAddress4 list \<Rightarrow>
   'f lbs_client \<Rightarrow> 'f lbs_client option" where
  "UpdateLbsAddresses_old mul factor now res new_addresses c =
     UpdateLbsAddresses mul factor now res (map NewSockAddress4_of_old new_addresses) c"

definition SetServiceInformation ::
  "('f \<Rightarrow> int \<Rightarrow> int) \<Rightarrow> 'f \<Rightarrow> int \<Rightarrow> (NewSockAddress4 \<Rightarrow> connect_result) \<Rightarrow> (byte list \<Rightarrow> sockaddr_in list option) \<Rightarrow>
   u32 \<Rightarrow> u32 \<Rightarrow> 'f lbs_client \<Rightarrow> 'f lbs_client option" where
  "SetServiceInformation mul factor now res getaddrinfo service_id service_port c =
     do { c \<leftarrow> ReloadLbsHosts mul factor now res getaddrinfo
            (c\<lparr>lb_service_id := service_id, lb_service_port := service_port\<rparr>);
          Some (c\<lparr>lb_timer := Some (reloading_interval c * 1000)\<rparr>) }"

text \<open>Channel reports go to every connection; the result is what is sent on each.\<close>

definition UniLbsClient_DoChannelCreate :: "u32 \<Rightarrow> u32 \<Rightarrow> byte list \<Rightarrow> 'f lbs_client \<Rightarrow> u32 \<rightharpoonup> lbs_effect list" where
  "UniLbsClient_DoChannelCreate vid cid name c =
     (\<lambda>ip. map_option (UniLbsConnection_DoChannelCreate \<lparr>ci_vid = vid, ci_cid = cid, channel_name = name\<rparr>)
        (connections c ip))"

definition UniLbsClient_DoChannelDestroy :: "u32 \<Rightarrow> u32 \<Rightarrow> byte list \<Rightarrow> 'f lbs_client \<Rightarrow> u32 \<rightharpoonup> lbs_effect list" where
  "UniLbsClient_DoChannelDestroy vid cid name c =
     (\<lambda>ip. map_option (UniLbsConnection_DoChannelDestroy \<lparr>ci_vid = vid, ci_cid = cid, channel_name = name\<rparr>)
        (connections c ip))"

text \<open>
  What the client forwards to its visitor of the calls of a connection: not the
  connect and disconnect events.
\<close>

datatype visitor_call =
  VisitPerformanceRequired | VisitFullChannelListRequired | VisitMessageReceived unpacker u16
| VisitUpdateQuota u32

fun UniLbsClient_forward :: "lbs_effect \<Rightarrow> visitor_call list" where
  "UniLbsClient_forward (CbLbsMessageReceived p uri) = [VisitMessageReceived p uri]"
| "UniLbsClient_forward (CbUpdateEdgeServerLoadQuota n) = [VisitUpdateQuota n]"
| "UniLbsClient_forward (CbJoinReplied _) = [VisitFullChannelListRequired]"
| "UniLbsClient_forward CbEdgeServerPerformanceRequired = [VisitPerformanceRequired]"
| "UniLbsClient_forward CbLbsConnected = []"
| "UniLbsClient_forward CbLbsDisconnected = []"
| "UniLbsClient_forward (Tcp _) = []"

section \<open>The facade\<close>

text \<open>\<open>UniLbsClientInterface\<close> owns a client with an empty version and forwards every call to it.\<close>

definition UniLbsClientInterface_new :: "byte list \<Rightarrow> byte list \<Rightarrow> u16 \<Rightarrow> 'f lbs_client" where
  "UniLbsClientInterface_new host service_name port = UniLbsClient_new host service_name port []"

section \<open>The packets and their wire format\<close>

lemmas lbs_consts = kUniLbsType_def kOk_def kServerVersion_def kUserLoad_def kCpuLoad_def kTrafficInLoad_def
  kTrafficOutLoad_def kUserLoadMax_def kLbsJoinReq2Uri_def kLbsPingUri_def kLbsPongUri_def kLbsJoinResUri_def
  kLbsJoinRes2Uri_def kLbsFullChannelListUri_def kLbsDeltaChannelListUri_def

lemma header_of [simp]:
  "fst (with_server_type st LbsJoinReq2) = (st, kLbsJoinReq2Uri)"
  "fst (with_server_type st LbsPing) = (st, kLbsPingUri)"
  "fst (with_server_type st LbsFullChannelList) = (st, kLbsFullChannelListUri)"
  "fst (with_server_type st LbsDeltaChannelList) = (st, kLbsDeltaChannelListUri)"
  by (simp_all add: with_server_type_def Packet_new_server_def Packet_uri_def Packet_new_def LbsJoinReq2_def
      LbsPing_def LbsFullChannelList_def LbsDeltaChannelList_def NEW_DECLARE_PACKET_2_def
      NEW_DECLARE_PACKET_3_def NEW_DECLARE_PACKET_4_def)

lemma join_request_eq:
  "join_request c = ((17, 1007), lc_service_id c, lc_service_name c, lc_service_port c, [(6, lc_release_version c)])"
  by (simp add: join_request_def lbs_consts)

lemma ping_packet_eq:
  "ping_packet (users, cpu, rx, tx) c = ((17, 1003), lc_service_id c, [(1, users), (2, cpu), (3, rx), (4, tx)])"
  by (simp add: ping_packet_def lbs_consts)

lemma IsConnected_send:
  "IsConnected (connection c) \<Longrightarrow> UniLbsConnection_SendPacket p c = [Tcp (EffConnSendPacket p)]"
  "\<not> IsConnected (connection c) \<Longrightarrow> UniLbsConnection_SendPacket p c = []"
  by (simp_all add: UniLbsConnection_SendPacket_def TcpClient_SendPacket_def)

text \<open>A handler that reads a packet with a codec from what a receiver is given reads that packet.\<close>

lemma pop_frame:
  assumes "wire_codec c enc valid" and "valid x" and "packet_ok (enc x)"
  shows "\<exists>u. pop c (dflt c) (frame_unpacker (enc x)) = Some (x, u)"
  using wire_codec.pop_at [OF assms(1,2), of "frame_unpacker (enc x)" "[]"] frame_unpacker_start(2) [OF assms(3)] by simp

section \<open>Properties\<close>

text \<open>On a new connection the load balancer receives exactly one packet, the join request with
  the service's id, name, port and version, and reads it as it was built.\<close>

theorem join_on_connect:
  assumes "IsConnected (connection c)" and "short (lc_service_name c)" and "short (lc_release_version c)"
    and "fits (length (LbsJoinReq2_bytes (join_request c)))"
  shows "UniLbsConnection_OnConnect True c =
      ([CbLbsConnected, Tcp (EffConnSendPacket (Packet_Pack LbsJoinReq2 (join_request c)))], c) \<and>
    join_request c = ((17, 1007), lc_service_id c, lc_service_name c, lc_service_port c, [(6, lc_release_version c)]) \<and>
    delivers LbsJoinReq2 LbsJoinReq2_bytes (join_request c)"
  using assms LbsJoinReq2.delivery [of "join_request c"]
  by (simp add: UniLbsConnection_OnConnect_def TcpClient_SendPacket_def join_request_eq map_wf_def)

definition sample_conn :: "unit lbs_conn" where
  "sample_conn = (UniLbsConnection_new (NewSockAddress4_new 0x0a000001 9000) [115] 42 4001 [49] () 100)
     \<lparr>connection := connected_client\<rparr>"

theorem join_on_connect_witness:
  "delivers LbsJoinReq2 LbsJoinReq2_bytes (join_request sample_conn)"
  using join_on_connect [of sample_conn]
  by (simp add: sample_conn_def UniLbsConnection_new_def connected_client_def IsConnected_def TcpClient_Init_def
      join_request_eq str_bytes_def seq_bytes_def var_bytes_def)

text \<open>A ping is sent at a timer tick exactly when the connection has joined and is connected; it
  carries the service's id and the four load figures, and the load balancer reads it as built.\<close>

theorem ping_when_joined:
  "TimeToPing (users, cpu, rx, tx) c =
     (if joined c
      then CbEdgeServerPerformanceRequired #
        (if IsConnected (connection c)
         then [Tcp (EffConnSendPacket (Packet_Pack LbsPing (ping_packet (users, cpu, rx, tx) c)))] else [])
      else []) \<and>
   ping_packet (users, cpu, rx, tx) c = ((17, 1003), lc_service_id c, [(1, users), (2, cpu), (3, rx), (4, tx)]) \<and>
   delivers LbsPing LbsPing_bytes (ping_packet (users, cpu, rx, tx) c)"
proof -
  have "delivers LbsPing LbsPing_bytes (ping_packet (users, cpu, rx, tx) c)"
    by (rule LbsPing.delivery) (simp_all add: ping_packet_eq map_wf_def seq_bytes_def var_bytes_def)
  then show ?thesis
    by (simp add: TimeToPing_def IsConnected_send ping_packet_eq)
qed



text \<open>A pong sets the owner's quota to the maximal load it carries, or to zero when it carries none.\<close>

theorem pong_quota:
  assumes "LbsPong_ok ((17, 1004), i, load)" and "packet_ok (LbsPong_bytes ((17, 1004), i, load))"
  shows "UniLbsConnection_OnPacketReceived channels (frame_unpacker (LbsPong_bytes ((17, 1004), i, load))) 17 1004 c =
    Some ([CbUpdateEdgeServerLoadQuota (case map_of load 5 of Some n \<Rightarrow> n | None \<Rightarrow> 0)], c)"
proof -
  obtain u where "pop LbsPong (dflt LbsPong) (frame_unpacker (LbsPong_bytes ((17, 1004), i, load))) = Some (((17, 1004), i, load), u)"
    using pop_frame [OF LbsPong.wire_codec_axioms assms] by auto
  then show ?thesis
    by (simp add: UniLbsConnection_OnPacketReceived_def OnPong_def lbs_consts map_index_def)
qed

theorem pong_quota_witness:
  "UniLbsConnection_OnPacketReceived [] (frame_unpacker (LbsPong_bytes ((17, 1004), 42, [(5, 1000)]))) 17 1004 sample_conn =
    Some ([CbUpdateEdgeServerLoadQuota 1000], sample_conn)"
  using pong_quota [of 42 "[(5, 1000)]" "[]" sample_conn]
  by (simp add: packet_ok_def map_wf_def seq_bytes_def var_bytes_def)

text \<open>When the TCP client times a silent load balancer out, the connection is not told: it stays
  joined, and stays so when it is connected again, so that it pings before it has joined anew.\<close>

theorem timeout_keeps_joined:
  assumes "mul_ok mul" and "tick_ok now" and "client_inv (connection c)" and "IsConnected (connection c)"
    and "last_active_ts (connection c) + reconnect_timeout (connection c) < now"
  shows "\<exists>c'. lbs_run mul channels load (EvTimer now r) c = Some ([Tcp EffConnClose], c') \<and>
    \<not> IsConnected (connection c') \<and> joined c' = joined c \<and>
    joined (snd (UniLbsConnection_OnConnect True c')) = joined c"
proof -
  have num: "client_num (connection c)" and flags: "has_conn (connection c)" "\<not> pending (connection c)" "\<not> connecting (connection c)"
    using assms(3,4) by (auto simp: client_inv_def IsConnected_def)
  have add: "i32_add (last_active_ts (connection c)) (reconnect_timeout (connection c)) =
      Some (last_active_ts (connection c) + reconnect_timeout (connection c))"
    using num by (simp add: i32_add_def client_num_def)
  obtain ts iv where s: "ScheduleNextTry mul now (connection c) =
      Some (connection c\<lparr>next_try_ts := ts, next_try_interval := iv\<rparr>)"
    using num by (rule ScheduleNextTry_ok [OF assms(1,2)])
  have "OnTimer mul now r (connection c) =
      Some ([EffConnClose], connection c\<lparr>next_try_ts := ts, next_try_interval := iv, has_conn := False\<rparr>)"
    using add s assms(4,5) flags by (simp add: OnTimer_def TcpClient_Close_def)
  then show ?thesis by (simp add: lbs_run_def IsConnected_def UniLbsConnection_OnConnect_def)
qed

theorem timeout_keeps_joined_witness:
  "\<exists>c'. lbs_run double [] (0, 0, 0, 0) (EvTimer 111 starting) (sample_conn\<lparr>joined := True\<rparr>) = Some ([Tcp EffConnClose], c') \<and>
     \<not> IsConnected (connection c') \<and> joined c'"
proof -
  have "client_inv connected_client" "IsConnected connected_client"
    "last_active_ts connected_client + reconnect_timeout connected_client < 111"
    by (simp_all add: connected_client_def client_inv_def client_num_def client_eval)
  then show ?thesis
    using timeout_keeps_joined [OF double_ok, of 111 "sample_conn\<lparr>joined := True\<rparr>" "[]" "(0, 0, 0, 0)" starting]
    by (auto simp: tick_ok_def sample_conn_def)
qed

lemma reload_loop_spec:
  "reload_loop mk old addrs new = Some conns \<Longrightarrow>
   dom conns = dom new \<union> na_ip ` set addrs \<and>
   (\<forall>ip conn. old ip = Some conn \<and> (new ip = None \<or> new ip = Some conn) \<and> conns ip \<noteq> None \<longrightarrow> conns ip = Some conn) \<and>
   (\<forall>ip. old ip = None \<and> conns ip \<noteq> new ip \<longrightarrow> (\<exists>addr \<in> set addrs. na_ip addr = ip \<and> mk addr = conns ip))"
proof (induction mk old addrs new rule: reload_loop.induct)
  case (1 mk old new)
  then show ?case by auto
next
  case (2 mk old addr addrs new)
  show ?case
  proof (cases "old (na_ip addr)")
    case None
    then obtain conn where mk: "mk addr = Some conn" and
      r: "reload_loop mk old addrs (new(na_ip addr \<mapsto> conn)) = Some conns" using 2 by (auto split: bind_splits)
    note IH = 2(1) [OF None mk r]
    show ?thesis
    proof (intro conjI allI impI)
      show "dom conns = dom new \<union> na_ip ` set (addr # addrs)" using IH by auto
    next
      fix ip c assume a: "old ip = Some c \<and> (new ip = None \<or> new ip = Some c) \<and> conns ip \<noteq> None"
      then have "ip \<noteq> na_ip addr" using None by auto
      then show "conns ip = Some c" using IH a by simp
    next
      fix ip assume a: "old ip = None \<and> conns ip \<noteq> new ip"
      show "\<exists>addr \<in> set (addr # addrs). na_ip addr = ip \<and> mk addr = conns ip"
      proof (cases "conns ip = (new(na_ip addr \<mapsto> conn)) ip")
        case True
        with a mk show ?thesis by (auto split: if_splits)
      next
        case False
        with IH a show ?thesis by auto
      qed
    qed
  next
    case (Some conn)
    define new' where "new' = (if new (na_ip addr) = None then new(na_ip addr \<mapsto> conn) else new)"
    have "reload_loop mk old addrs new' = Some conns" using 2(3) Some by (simp add: new'_def)
    note IH = 2(2) [OF Some, folded new'_def, OF this]
    have other: "new' ip = new ip" if "ip \<noteq> na_ip addr" for ip using that by (simp add: new'_def)
    have dom: "dom new' = insert (na_ip addr) (dom new)" by (auto simp: new'_def)
    show ?thesis
    proof (intro conjI allI impI)
      show "dom conns = dom new \<union> na_ip ` set (addr # addrs)" using IH dom by simp
    next
      fix ip c assume a: "old ip = Some c \<and> (new ip = None \<or> new ip = Some c) \<and> conns ip \<noteq> None"
      then have "new' ip = None \<or> new' ip = Some c"
        using Some by (cases "ip = na_ip addr") (auto simp: new'_def)
      then show "conns ip = Some c" using IH a by blast
    next
      fix ip assume a: "old ip = None \<and> conns ip \<noteq> new ip"
      then have "ip \<noteq> na_ip addr" using Some by auto
      from IH a other [OF this] have "\<exists>addr \<in> set addrs. na_ip addr = ip \<and> mk addr = conns ip" by metis
      then show "\<exists>addr \<in> set (addr # addrs). na_ip addr = ip \<and> mk addr = conns ip" by simp
    qed
  qed
qed

lemma fresh_connection_ok:
  assumes "mul_ok mul" and "tick_ok now" and "result_ok (res addr)"
  shows "\<exists>conn. fresh_connection mul factor now res c addr = Some conn"
proof -
  let ?cl = "TcpClient_Init (SocketAddress4_of_in (NewSockAddress4_to_in addr)) 0 factor now"
  have "client_inv ?cl"
    using assms(2) by (simp add: client_inv_def client_num_def TcpClient_Init_def kReconnectTimeout_def tick_ok_def)
  from Connect_ok [OF assms(1,2) this assms(3)] obtain ok e cl where "Connect mul now (res addr) ?cl = Some (ok, e, cl)"
    by (auto simp: ok_step_def split: option.splits)
  then show ?thesis by (simp add: fresh_connection_def UniLbsConnection_Connect_def UniLbsConnection_new_def)
qed

lemma reload_loop_total: "(\<And>addr. \<exists>conn. mk addr = Some conn) \<Longrightarrow> \<exists>conns. reload_loop mk old addrs new = Some conns"
proof (induction mk old addrs new rule: reload_loop.induct)
  case (2 mk old addr addrs new)
  obtain conn where mk: "mk addr = Some conn" using 2(3) by blast
  show ?case
  proof (cases "old (na_ip addr)")
    case None
    from 2(1) [OF this mk 2(3)] show ?thesis by (simp only: None mk reload_loop.simps option.case bind.bind_lunit)
  next
    case (Some c)
    from 2(2) [OF this 2(3)] show ?thesis by (simp only: Some reload_loop.simps option.case)
  qed
qed simp



text \<open>After \<open>SetServiceInformation\<close> there is at least one connection, to the loopback address when
  the host cannot be resolved, and the addresses are reloaded every \<open>reloading_interval\<close> seconds,
  which is at least 100; the number of milliseconds wraps around at 32 bits.\<close>

theorem SetServiceInformation_connects:
  assumes "mul_ok mul" and "tick_ok now" and "\<And>addr. result_ok (res addr)"
  shows "\<exists>c'. SetServiceInformation mul factor now res getaddrinfo sid port (SetReloadingInterval s c) = Some c' \<and>
    dom (connections c') =
      (if ResolveHost getaddrinfo (lbs_host c) = [] then {0x7f000001} else set (ResolveHost getaddrinfo (lbs_host c))) \<and>
    lb_timer c' = Some (reloading_interval c' * 1000) \<and> 100 \<le> unat (reloading_interval c')"
proof -
  let ?c = "(SetReloadingInterval s c)\<lparr>lb_service_id := sid, lb_service_port := port\<rparr>"
  define ips where "ips = (if ResolveHost getaddrinfo (lbs_host c) = [] then [INADDR_LOOPBACK] else ResolveHost getaddrinfo (lbs_host c))"
  let ?addrs = "map (\<lambda>ip. NewSockAddress4_new ip (lbs_port c)) ips"
  have "\<exists>conn. fresh_connection mul factor now res ?c addr = Some conn" for addr
    using assms by (intro fresh_connection_ok)
  then obtain conns where r:
    "reload_loop (fresh_connection mul factor now res ?c) (connections c) ?addrs Map.empty = Some conns"
    using reload_loop_total [of "fresh_connection mul factor now res ?c" "connections c" ?addrs Map.empty] by auto
  have "dom conns = set ips" using reload_loop_spec [OF r] by (simp add: NewSockAddress4_new_def image_image)
  moreover have "ReloadLbsHosts mul factor now res getaddrinfo ?c = Some (?c\<lparr>connections := conns\<rparr>)"
    using r by (simp add: ReloadLbsHosts_def ReloadLbsAddresses_def SetReloadingInterval_def ips_def)
  ultimately show ?thesis
    by (intro exI [of _ "?c\<lparr>connections := conns, lb_timer := Some (max s 100 * 1000)\<rparr>"])
      (auto simp: SetServiceInformation_def SetReloadingInterval_def ips_def INADDR_LOOPBACK_def max_def
        word_le_nat_alt split: if_splits)
qed

theorem SetServiceInformation_connects_witness:
  "\<exists>c'. SetServiceInformation double () 100 (\<lambda>_. starting) (\<lambda>_. None) 42 4001
      (SetReloadingInterval 5 (UniLbsClient_new [] [] 9000 [])) = Some c' \<and>
    dom (connections c') = {0x7f000001} \<and> lb_timer c' = Some (reloading_interval c' * 1000)"
  using SetServiceInformation_connects [OF double_ok, of 100 "\<lambda>_. starting" "()" "\<lambda>_. None" 42 4001 5 "UniLbsClient_new [] [] 9000 []"]
  by (auto simp: tick_ok_def result_ok_def starting_def ResolveHost_def)

end
