(* ===== verification/Time_Util.thy ===== *)
theory Time_Util
  imports Prelude "HOL-Library.Signed_Division"
begin

text \<open>
  The clocks of src/turnserver/base/time_util.cpp: ticks of the monotonic clock and the time of day, in
  micro-, milli- and seconds.  What \<open>clock_gettime\<close> and \<open>gettimeofday\<close> read is an argument.  A signed
  64-bit overflow has no result; the narrowing to 32 bits wraps around.
\<close>

record timespec =
  tv_sec :: int
  tv_nsec :: int

record timeval =
  tval_sec :: int
  tval_usec :: int

definition s64 :: "int \<Rightarrow> int option" where
  "s64 i = (if - (2 ^ 63) \<le> i \<and> i < 2 ^ 63 then Some i else None)"

definition to_s32 :: "int \<Rightarrow> int" where
  "to_s32 i = sint (word_of_int i :: u32)"

definition TickInMicroSeconds :: "timespec \<Rightarrow> int option" where
  "TickInMicroSeconds spec = s64 (tv_sec spec * 1000 * 1000 + tv_nsec spec sdiv 1000)"

definition TickInMilliSeconds :: "timespec \<Rightarrow> int option" where
  "TickInMilliSeconds spec = map_option (\<lambda>t. t sdiv 1000) (TickInMicroSeconds spec)"

definition TickInSeconds :: "timespec \<Rightarrow> int option" where
  "TickInSeconds spec = map_option (\<lambda>t. to_s32 (t sdiv 1000)) (TickInMilliSeconds spec)"

text \<open>The same on the clock of high resolution, whose reading is the argument.\<close>

definition HighResolutionTickInMicroSeconds :: "timespec \<Rightarrow> int option" where
  "HighResolutionTickInMicroSeconds spec = s64 (tv_sec spec * 1000 * 1000 + tv_nsec spec sdiv 1000)"

definition HighResolutionTickInMilliSeconds :: "timespec \<Rightarrow> int option" where
  "HighResolutionTickInMilliSeconds spec = map_option (\<lambda>t. t sdiv 1000) (HighResolutionTickInMicroSeconds spec)"

definition HighResolutionTickInSeconds :: "timespec \<Rightarrow> int option" where
  "HighResolutionTickInSeconds spec = map_option (\<lambda>t. to_s32 (t sdiv 1000)) (HighResolutionTickInMilliSeconds spec)"

definition TickMicroSeconds :: "timespec \<Rightarrow> int option" where "TickMicroSeconds spec = TickInMicroSeconds spec"
definition TickMilliSeconds :: "timespec \<Rightarrow> int option" where "TickMilliSeconds spec = TickInMilliSeconds spec"
definition TickSeconds :: "timespec \<Rightarrow> int option" where "TickSeconds spec = TickInSeconds spec"

text \<open>The time of day is computed without sign, modulo \<open>2 ^ 64\<close>.\<close>

definition NowInMicroSeconds :: "timeval \<Rightarrow> int" where
  "NowInMicroSeconds t = sint (word_of_int (tval_sec t) * 1000 * 1000 + word_of_int (tval_usec t) :: u64)"

definition NowInMilliSeconds :: "timeval \<Rightarrow> int" where
  "NowInMilliSeconds t = NowInMicroSeconds t sdiv 1000"

definition NowInSeconds :: "timeval \<Rightarrow> int" where
  "NowInSeconds t = to_s32 (NowInMilliSeconds t sdiv 1000)"

text \<open>A clock as the system gives it, within 290,000 years.\<close>

definition clock_ok :: "timespec \<Rightarrow> bool" where
  "clock_ok t \<longleftrightarrow> 0 \<le> tv_sec t \<and> tv_sec t < 9 * 10 ^ 12 \<and> 0 \<le> tv_nsec t \<and> tv_nsec t < 10 ^ 9"

definition clock_le :: "timespec \<Rightarrow> timespec \<Rightarrow> bool" where
  "clock_le a b \<longleftrightarrow> tv_sec a < tv_sec b \<or> (tv_sec a = tv_sec b \<and> tv_nsec a \<le> tv_nsec b)"

lemma sdiv_nonneg: "0 \<le> a \<Longrightarrow> 0 < b \<Longrightarrow> a sdiv b = a div b" for a b :: int
  by (simp add: signed_divide_int_def sgn_if)

lemma micro_seconds:
  assumes "clock_ok t"
  shows "TickInMicroSeconds t = Some (tv_sec t * 1000000 + tv_nsec t div 1000)"
    "HighResolutionTickInMicroSeconds t = TickInMicroSeconds t"
proof -
  have "0 \<le> tv_nsec t div 1000" "tv_nsec t div 1000 \<le> 10 ^ 6"
    using assms by (auto simp: clock_ok_def intro: order_trans [OF zdiv_mono1 [of _ "10 ^ 9" 1000]])
  then show "TickInMicroSeconds t = Some (tv_sec t * 1000000 + tv_nsec t div 1000)"
    using assms by (simp add: TickInMicroSeconds_def clock_ok_def s64_def sdiv_nonneg)
  show "HighResolutionTickInMicroSeconds t = TickInMicroSeconds t"
    by (simp add: HighResolutionTickInMicroSeconds_def TickInMicroSeconds_def)
qed

lemma milli_seconds:
  assumes "clock_ok t"
  shows "TickInMilliSeconds t = Some (tv_sec t * 1000 + tv_nsec t div 1000000)"
proof -
  have "(tv_sec t * 1000000 + tv_nsec t div 1000) div 1000 = tv_sec t * 1000 + tv_nsec t div 1000000"
    by (simp add: zdiv_zmult2_eq [symmetric] div_mult_self4 [symmetric] mult.commute [of _ 1000000])
  moreover have "0 \<le> tv_sec t * 1000000 + tv_nsec t div 1000"
    using assms by (simp add: clock_ok_def pos_imp_zdiv_nonneg_iff)
  ultimately show ?thesis by (simp add: TickInMilliSeconds_def micro_seconds [OF assms] sdiv_nonneg)
qed

text \<open>The ticks never go back: a later reading of the clock gives no smaller tick.\<close>

theorem ticks_monotone:
  assumes "clock_ok a" and "clock_ok b" and "clock_le a b"
  shows "\<exists>x y. TickInMilliSeconds a = Some x \<and> TickInMilliSeconds b = Some y \<and> 0 \<le> x \<and> x \<le> y"
proof -
  have small: "tv_nsec a div 1000000 < 1000" "0 \<le> tv_nsec a div 1000000" "0 \<le> tv_nsec b div 1000000" "0 \<le> tv_sec a"
    using assms(1,2) by (auto simp: clock_ok_def)
  have "tv_sec a * 1000 + tv_nsec a div 1000000 \<le> tv_sec b * 1000 + tv_nsec b div 1000000"
  proof (cases "tv_sec a = tv_sec b")
    case True
    with assms(3) show ?thesis by (auto simp: clock_le_def intro: zdiv_mono1)
  next
    case False
    with assms(3) have "tv_sec a + 1 \<le> tv_sec b" by (auto simp: clock_le_def)
    with small show ?thesis by linarith
  qed
  with small show ?thesis using milli_seconds assms(1,2) by auto
qed

theorem ticks_monotone_witness:
  "\<exists>x y. TickInMilliSeconds \<lparr>tv_sec = 5, tv_nsec = 999999999\<rparr> = Some x \<and> TickInMilliSeconds \<lparr>tv_sec = 6, tv_nsec = 0\<rparr> = Some y \<and> 0 \<le> x \<and> x \<le> y"
  by (rule ticks_monotone) (simp_all add: clock_ok_def clock_le_def)

end
