(* ===== verification/Turn_Startup.thy ===== *)
theory Turn_Startup
  imports Turn_Main Uni_Lbs Time_Util
begin

text \<open>
  The rest of src/turnserver/turnserver_main.cc: how \<open>main\<close> comes to the running program of \<open>Turn_Main\<close>, the
  external address, the key file, the log file, and \<open>UniLbsWorker\<close>, which registers the server with the load balancer.
  The output of commands, the file system and the parsers of WebRTC are arguments.
\<close>

section \<open>The external address\<close>

text \<open>\<open>fgets\<close>: up to \<open>n - 1\<close> bytes, not beyond a newline.\<close>

fun take_line :: "nat \<Rightarrow> byte list \<Rightarrow> byte list" where
  "take_line 0 s = []"
| "take_line (Suc n) [] = []"
| "take_line (Suc n) (c # s) = (if c = 10 then [c] else c # take_line n s)"

definition fgets :: "nat \<Rightarrow> byte list \<Rightarrow> (byte list \<times> byte list) option" where
  "fgets n s = (if s = [] then None else let line = take_line (n - 1) s in Some (line, drop (length line) s))"

text \<open>\<open>find\<close> of a text of two characters, \<open>find\<close> and \<open>find_last_of\<close> of one.\<close>

fun find2 :: "byte \<Rightarrow> byte \<Rightarrow> byte list \<Rightarrow> nat option" where
  "find2 a b (c # d # s) = (if c = a \<and> d = b then Some 0 else map_option Suc (find2 a b (d # s)))"
| "find2 a b _ = None"

definition find_char :: "byte \<Rightarrow> byte list \<Rightarrow> nat option" where
  "find_char c s = (if c \<in> set s then Some (length (takeWhile (\<lambda>d. d \<noteq> c) s)) else None)"

definition find_last :: "byte \<Rightarrow> byte list \<Rightarrow> nat option" where
  "find_last c s = map_option (\<lambda>i. length s - 1 - i) (find_char c (rev s))"

text \<open>What is taken from the line in which ``IP'' was found at \<open>pos\<close>.\<close>

definition address_in_line :: "byte list \<Rightarrow> nat \<Rightarrow> byte list" where
  "address_in_line buf pos =
     (let remain = drop (pos + 2) buf
      in case find_last 32 remain of
           None \<Rightarrow> []
         | Some pos \<Rightarrow> (let ipstr = drop (pos + 1) remain
                        in case find_char 10 ipstr of Some pos \<Rightarrow> take pos ipstr | None \<Rightarrow> ipstr))"

lemma take_line_pos: "s \<noteq> [] \<Longrightarrow> 0 < length (take_line 255 s)"
  by (cases s) (simp_all add: numeral_eq_Suc)

function GetExternIP :: "byte list \<Rightarrow> byte list" where
  "GetExternIP output =
     (case fgets 256 output of
        None \<Rightarrow> []
      | Some (buffer, rest) \<Rightarrow>
          (let buf = takeWhile (\<lambda>d. d \<noteq> 0) buffer
           in case find2 73 80 buf of Some pos \<Rightarrow> address_in_line buf pos | None \<Rightarrow> GetExternIP rest))"
  by pat_completeness auto
termination
  by (relation "measure length") (auto simp: fgets_def Let_def intro!: diff_less take_line_pos split: if_splits)

declare GetExternIP.simps [simp del]

lemma take_line_newline:
  "10 \<notin> set s \<Longrightarrow> length s < n \<Longrightarrow> take_line n (s @ 10 # r) = s @ [10]"
proof (induction s arbitrary: n)
  case Nil
  then show ?case by (cases n) auto
next
  case (Cons c s)
  then show ?case by (cases n) auto
qed

lemma takeWhile_stop: "c \<notin> set s \<Longrightarrow> takeWhile (\<lambda>d. d \<noteq> c) (s @ c # r) = s"
  by (induction s) auto

lemma takeWhile_none: "c \<notin> set s \<Longrightarrow> takeWhile (\<lambda>d. d \<noteq> c) s = s"
  by (induction s) auto

lemma find_char_append: "c \<notin> set s \<Longrightarrow> find_char c (s @ c # r) = Some (length s)"
  by (simp add: find_char_def takeWhile_stop)

lemma find_last_append: "c \<notin> set r \<Longrightarrow> find_last c (s @ c # r) = Some (length s)"
  using find_char_append [of c "rev r" "rev s"] by (simp add: find_last_def)

lemma find2_None_Cons: "find2 a b (c # s) = None \<Longrightarrow> find2 a b s = None"
  by (cases s) (auto split: if_splits)

lemma GetExternIP_skip:
  assumes "10 \<notin> set s" and "0 \<notin> set s" and "length s < 255" and "find2 73 80 (s @ [10]) = None"
  shows "GetExternIP (s @ 10 # rest) = GetExternIP rest"
proof -
  have "takeWhile (\<lambda>d. d \<noteq> 0) (s @ [10]) = s @ [10]" using assms(2) by (intro takeWhile_none) simp
  with assms take_line_newline [of s 255 rest] show ?thesis
    by (subst GetExternIP.simps) (simp add: fgets_def Let_def)
qed

lemma GetExternIP_line:
  assumes "10 \<notin> set (mid @ ip)" and "0 \<notin> set (mid @ ip)" and "32 \<notin> set ip" and "length mid + length ip < 252"
  shows "GetExternIP (73 # 80 # mid @ 32 # ip @ 10 # rest) = ip"
proof -
  let ?s = "73 # 80 # mid @ 32 # ip"
  have l: "take_line 255 (?s @ 10 # rest) = ?s @ [10]" using assms by (intro take_line_newline) auto
  have z: "takeWhile (\<lambda>d. d \<noteq> 0) (?s @ [10]) = ?s @ [10]" using assms(2) by (intro takeWhile_none) simp
  have "32 \<notin> set (ip @ [10])" using assms(3) by simp
  from find_last_append [OF this, of mid] have p: "find_last 32 (mid @ 32 # ip @ [10]) = Some (length mid)" by simp
  have "10 \<notin> set ip" using assms(1) by simp
  from find_char_append [OF this, of "[]"] have a: "address_in_line (?s @ [10]) 0 = ip"
    using p by (simp add: address_in_line_def)
  have f: "fgets 256 (?s @ 10 # rest) = Some (?s @ [10], rest)" unfolding fgets_def using l by (simp add: Let_def)
  have i: "find2 73 80 (?s @ [10]) = Some 0" by simp
  show ?thesis unfolding append_Cons append_assoc [symmetric]
    by (subst GetExternIP.simps) (use f z i a in \<open>simp only: Let_def append_Cons append_assoc append_Nil option.case prod.case\<close>)
qed

text \<open>The external address: when the service answers with lines of which the first with ``IP'' begins with it
  and ends with a space and the address, the address is what \<open>main\<close> uses, whatever lines come before and after.\<close>

theorem extern_address_found:
  assumes "\<forall>s \<in> set before. 10 \<notin> set s \<and> 0 \<notin> set s \<and> length s < 255 \<and> find2 73 80 (s @ [10]) = None"
    and "10 \<notin> set (mid @ ip)" and "0 \<notin> set (mid @ ip)" and "32 \<notin> set ip" and "length mid + length ip < 252"
  shows "GetExternIP (concat (map (\<lambda>s. s @ [10]) before) @ 73 # 80 # mid @ 32 # ip @ 10 # rest) = ip"
  using assms(1)
proof (induction before)
  case Nil
  then show ?case using GetExternIP_line [OF assms(2-5)] by simp
next
  case (Cons s before)
  then have "GetExternIP (s @ 10 # concat (map (\<lambda>s. s @ [10]) before) @ 73 # 80 # mid @ 32 # ip @ 10 # rest) =
      GetExternIP (concat (map (\<lambda>s. s @ [10]) before) @ 73 # 80 # mid @ 32 # ip @ 10 # rest)"
    by (intro GetExternIP_skip) auto
  with Cons show ?case by simp
qed

theorem extern_address_found_witness:
  "GetExternIP (bytes_of ''x\<newline>IP : 1.2.3.4\<newline>more'') = bytes_of ''1.2.3.4''"
  using extern_address_found [of "[bytes_of ''x'']" "bytes_of '' :''" "bytes_of ''1.2.3.4''" "bytes_of ''more''"]
  by (simp add: bytes_of_def)


section \<open>Keys and the log file\<close>

text \<open>\<open>TurnFileAuth::GetKey\<close>: the file maps names to the hexadecimal text of the key; the buffer has 32 bytes.\<close>

definition GetKey ::
  "(byte list \<Rightarrow> byte list option) \<Rightarrow> (nat \<Rightarrow> byte list \<Rightarrow> byte list) \<Rightarrow> byte list \<Rightarrow> byte list \<Rightarrow> byte list \<Rightarrow> bool \<times> byte list" where
  "GetKey file hex_decode username realm key =
     (case file username of None \<Rightarrow> (False, key) | Some hex \<Rightarrow> (True, hex_decode 32 hex))"

text \<open>
  \<open>LogFile\<close>.  The file streams of WebRTC: \<open>Open\<close> (for reading or for writing), \<open>Read\<close> (nothing but a success
  continues the loop), \<open>Write\<close> and \<open>GetSize\<close>, which may fail.
\<close>

record ('f, 'w) file_sys =
  fs_Open :: "byte list \<Rightarrow> bool \<Rightarrow> 'w \<Rightarrow> 'f option \<times> 'w"
  fs_GetSize :: "'f \<Rightarrow> 'w \<Rightarrow> nat option"
  fs_Read :: "'f \<Rightarrow> nat \<Rightarrow> 'w \<Rightarrow> byte list option \<times> 'w"
  fs_Write :: "'f \<Rightarrow> byte list \<Rightarrow> 'w \<Rightarrow> 'w"
  fs_system :: "byte list \<Rightarrow> 'w \<Rightarrow> 'w"

definition getFileSize :: "('f, 'w) file_sys \<Rightarrow> byte list \<Rightarrow> 'w \<Rightarrow> nat \<times> 'w" where
  "getFileSize fs logfile w =
     (let (log, w) = fs_Open fs logfile False w
      in case log of None \<Rightarrow> (0, w)
         | Some f \<Rightarrow> ((case fs_GetSize fs f w of None \<Rightarrow> 0 | Some n \<Rightarrow> n), w))"

text \<open>The loop ends when a read does not succeed; it need not.\<close>

partial_function (option) copy_loop :: "('f, 'w) file_sys \<Rightarrow> 'f \<Rightarrow> 'f \<Rightarrow> 'w \<Rightarrow> 'w option" where
  "copy_loop fs inp out w =
     (let (r, w) = fs_Read fs inp 1024 w
      in case r of None \<Rightarrow> Some w | Some bs \<Rightarrow> copy_loop fs inp out (fs_Write fs out bs w))"

definition copy_file :: "('f, 'w) file_sys \<Rightarrow> byte list \<Rightarrow> byte list \<Rightarrow> 'w \<Rightarrow> 'w option" where
  "copy_file fs source dest w =
     (let (inp, w) = fs_Open fs source False w
      in case inp of None \<Rightarrow> Some w
         | Some i \<Rightarrow> (let (out, w) = fs_Open fs dest True w
                      in case out of None \<Rightarrow> Some w | Some out \<Rightarrow> copy_loop fs i out w))"

text \<open>\<open>sprintf\<close> into 256 bytes; a longer text is written behind the buffer.\<close>

definition sprintf_256 :: "byte list \<Rightarrow> byte list option" where
  "sprintf_256 s = (if length s < 256 then Some s else None)"

definition two_digits :: "nat \<Rightarrow> byte list" where
  "two_digits n = (if n < 10 then 48 # decimal n else decimal n)"

record tm =
  tm_year :: nat
  tm_mon :: nat
  tm_mday :: nat
  tm_hour :: nat
  tm_min :: nat
  tm_sec :: nat

definition backup_name :: "byte list \<Rightarrow> tm \<Rightarrow> byte list" where
  "backup_name logfile t =
     logfile @ [45] @ decimal (tm_year t + 1900) @ [45] @ two_digits (tm_mon t + 1) @ [45] @ two_digits (tm_mday t) @ bytes_of ''T'' @
     two_digits (tm_hour t) @ [58] @ two_digits (tm_min t) @ [58] @ two_digits (tm_sec t) @ bytes_of ''Z''"

definition backupLogFile :: "('f, 'w) file_sys \<Rightarrow> byte list \<Rightarrow> tm \<Rightarrow> 'w \<Rightarrow> (bool \<times> 'w) option" where
  "backupLogFile fs logfile t w =
     (let (logsize, w) = getFileSize fs logfile w
      in if logsize < 1000000 \<or> tm_hour t \<noteq> 0 then Some (False, w)
         else do { filename \<leftarrow> sprintf_256 (backup_name logfile t);
                   w \<leftarrow> copy_file fs logfile filename w;
                   cmd1 \<leftarrow> sprintf_256 (bytes_of ''cat /dev/null > '' @ logfile);
                   let w = fs_system fs cmd1 w;
                   cmd2 \<leftarrow> sprintf_256 (bytes_of ''gzip '' @ filename);
                   Some (True, fs_system fs cmd2 w) })"

section \<open>The registration with the load balancer\<close>

definition kLbsEdgeServicePort :: u16 where "kLbsEdgeServicePort = 3100"
definition kServiceName :: "byte list" where "kServiceName = bytes_of ''web_cloud_proxy_service''"
definition kTurnServerVer :: "byte list" where "kTurnServerVer = bytes_of ''turnserverVersion1.1.0''"
definition kLbsAddr :: "byte list" where "kLbsAddr = bytes_of ''42.81.206.84''"

text \<open>
  \<open>UniLbsWorker\<close>: its port, the addresses and the client, which is made by \<open>AddToUniLbs\<close>.  The tick of the clock in
  milliseconds is the id of the service.  A failure returns \<open>false\<close>, which is 0 like the success.
\<close>

record 'f lbs_worker =
  lw_port :: u16
  vecAddresses :: "NewSockAddress4 list"
  uni_lbs_client :: "'f lbs_client option"

definition UniLbsWorker_new :: "u16 \<Rightarrow> 'f lbs_worker" where
  "UniLbsWorker_new port = \<lparr>lw_port = port, vecAddresses = [], uni_lbs_client = None\<rparr>"

definition AddToUniLbs ::
  "('f \<Rightarrow> int \<Rightarrow> int) \<Rightarrow> 'f \<Rightarrow> int \<Rightarrow> (NewSockAddress4 \<Rightarrow> connect_result) \<Rightarrow> (byte list \<Rightarrow> sockaddr_in list option) \<Rightarrow>
   (byte list \<Rightarrow> u32 option) \<Rightarrow> int \<Rightarrow> 'f lbs_worker \<Rightarrow> (int \<times> 'f lbs_worker) option" where
  "AddToUniLbs mul factor now res getaddrinfo inet_aton tick wk =
     (let service_id = word_of_int tick :: u32;
          client = UniLbsClient_new [] kServiceName kLbsEdgeServicePort kTurnServerVer;
          wk = wk\<lparr>uni_lbs_client := Some client\<rparr>
      in case inet_aton kLbsAddr of
           None \<Rightarrow> Some (0, wk)
         | Some ip \<Rightarrow>
             do { let lbs_addr = NewSockAddress4_new (ntohl ip) kLbsEdgeServicePort;
                  let addresses = vecAddresses wk @ [lbs_addr];
                  client \<leftarrow> SetServiceInformation mul factor now res getaddrinfo service_id (ucast (lw_port wk)) client;
                  client \<leftarrow> UpdateLbsAddresses mul factor now res addresses client;
                  Some (0, wk\<lparr>vecAddresses := addresses, uni_lbs_client := Some client\<rparr>) })"

text \<open>What the visitor answers to a ping: the load of the server, and then the log file is looked after.\<close>

record turn_load =
  ld_channels :: u32
  ld_cpu :: u32
  ld_send :: u32
  ld_recv :: u32

definition OnEdgeServerPerformanceRequired ::
  "('f, 'w) file_sys \<Rightarrow> tm \<Rightarrow> turn_load \<Rightarrow> 'w \<Rightarrow> ((u32 \<times> u32 \<times> u32 \<times> u32) \<times> 'w) option" where
  "OnEdgeServerPerformanceRequired fs t ld w =
     do { (_, w) \<leftarrow> backupLogFile fs (bytes_of ''log/turnserver.log'') t w;
          Some ((ld_channels ld, ld_cpu ld, ld_recv ld, ld_send ld), w) }"

definition OnChannelCreated :: "u32 \<Rightarrow> u32 \<Rightarrow> byte list \<Rightarrow> 'f lbs_worker \<Rightarrow> (u32 \<rightharpoonup> lbs_effect list) option" where
  "OnChannelCreated vid cid name wk = map_option (UniLbsClient_DoChannelCreate vid cid name) (uni_lbs_client wk)"

definition OnChannelDestroyed :: "u32 \<Rightarrow> u32 \<Rightarrow> byte list \<Rightarrow> 'f lbs_worker \<Rightarrow> (u32 \<rightharpoonup> lbs_effect list) option" where
  "OnChannelDestroyed vid cid name wk = map_option (UniLbsClient_DoChannelDestroy vid cid name) (uni_lbs_client wk)"




section \<open>main\<close>

text \<open>\<open>atoi\<close> on the output of \<open>ps\<close>, read in pieces of nine bytes, the last of which is the process id.\<close>

definition atoi :: "byte list \<Rightarrow> int" where
  "atoi s =
     (let s = dropWhile (\<lambda>c. c = 32 \<or> (9 \<le> c \<and> c \<le> 13)) s;
          (neg, s) = (case s of c # r \<Rightarrow> if c = 45 then (True, r) else if c = 43 then (False, r) else (False, s) | [] \<Rightarrow> (False, []));
          n = fold (\<lambda>c n. 10 * n + (uint c - 48)) (takeWhile (\<lambda>c. 48 \<le> c \<and> c \<le> 57) s) 0
      in if neg then - n else n)"

lemma take_line_9_pos: "s \<noteq> [] \<Longrightarrow> 0 < length (take_line 9 s)"
  by (cases s) (simp_all add: numeral_eq_Suc)

function read_pid :: "byte list \<Rightarrow> int \<Rightarrow> int" where
  "read_pid output p =
     (case fgets 10 output of None \<Rightarrow> p | Some (buffer, rest) \<Rightarrow> read_pid rest (atoi (takeWhile (\<lambda>d. d \<noteq> 0) buffer)))"
  by pat_completeness auto
termination
  by (relation "measure (\<lambda>(output, p). length output)")
    (auto simp: fgets_def Let_def intro!: diff_less take_line_9_pos split: if_splits)

declare read_pid.simps [simp del]

text \<open>
  What \<open>main\<close> is given: the parsers of addresses, the outputs of the commands \<open>curl\<close> and \<open>ps\<close>, and whether
  the sockets of the server can be made.
\<close>

record main_input =
  mi_FromString :: "byte list \<Rightarrow> rtc_addr option"
  mi_IPFromString :: "byte list \<Rightarrow> u32 option"
  mi_curl :: "byte list"
  mi_ps :: "byte list \<Rightarrow> byte list"
  mi_udp :: "rtc_addr \<Rightarrow> bool"
  mi_tcp :: "rtc_addr \<Rightarrow> bool"
  mi_bind :: "rtc_addr \<Rightarrow> int"
  mi_listen :: "int \<Rightarrow> int"

definition ps_command :: "byte list \<Rightarrow> byte list" where
  "ps_command name = bytes_of ''ps -ef | grep '' @ name @
     bytes_of '' | grep -v '' @ [34] @ bytes_of ''grep'' @ [34] @ bytes_of '' | grep -v '' @ [34] @ bytes_of ''.sh'' @ [34] @
     bytes_of '' | awk '' @ [39] @ bytes_of ''{print $2}'' @ [39]"

text \<open>
  The exit code, or the running program: its globals, the external address, its two parts and the world.  The command line
  for \<open>ps\<close> must fit 256 bytes (\<open>None\<close>).
\<close>

definition main_start ::
  "main_input \<Rightarrow> 'w rtc_env \<Rightarrow> int \<times> int \<times> int \<Rightarrow> byte list list \<Rightarrow> 'w \<Rightarrow>
   (int + turn_globals \<times> u32 \<times> elbs \<times> worker \<times> 'w) option" where
  "main_start inp env counters argv w =
     (if 1 < length argv \<and> argv ! 1 = bytes_of ''-v'' then Some (Inl 0)
      else if length argv < 6 then Some (Inl 1)
      else case mi_FromString inp (argv ! 1) of
        None \<Rightarrow> Some (Inl 1)
      | Some int_addr \<Rightarrow>
        (case mi_FromString inp (argv ! 2) of
           None \<Rightarrow> Some (Inl 1)
         | Some int_tcp_addr \<Rightarrow>
           (case mi_IPFromString inp (GetExternIP (mi_curl inp)) of
              None \<Rightarrow> Some (Inl 1)
            | Some ext_addr \<Rightarrow>
                if \<not> mi_udp inp int_addr then Some (Inl 1)
                else if \<not> mi_tcp inp int_tcp_addr then Some (Inl 1)
                else if mi_bind inp int_tcp_addr \<noteq> 0 then Some (Inl 1)
                else if mi_listen inp 5 \<noteq> 0 then Some (Inl 1)
                else do { cmd \<leftarrow> sprintf_256 (ps_command (argv ! 0));
                          let p = read_pid (mi_ps inp cmd) 0;
                          let g = \<lparr>udpport = snd int_addr, tcpport = snd int_tcp_addr, pid = p\<rparr>;
                          let (e, w) = ElbsConnection_start env ElbsConnection_new w;
                          let (wk, w) = AddWorkerManagerSocket env (0x7f000001, 0) (0x7f000001, 3002) (Worker_new counters) w;
                          Some (Inr (g, ext_addr, e, wk, w)) })))"


definition sample_input :: main_input where
  "sample_input =
     \<lparr>mi_FromString = (\<lambda>s. if s = bytes_of ''0.0.0.0:4001'' then Some (0, 4001) else if s = bytes_of ''0.0.0.0:4002'' then Some (0, 4002) else None),
      mi_IPFromString = (\<lambda>s. if s = bytes_of ''1.2.3.4'' then Some 0x01020304 else None),
      mi_curl = bytes_of ''IP : 1.2.3.4\<newline>'', mi_ps = (\<lambda>_. bytes_of ''812\<newline>''), mi_udp = (\<lambda>_. True), mi_tcp = (\<lambda>_. True),
      mi_bind = (\<lambda>_. 0), mi_listen = (\<lambda>_. 0)\<rparr>"

definition sample_argv :: "byte list list" where
  "sample_argv = map bytes_of [''turnserver'', ''0.0.0.0:4001'', ''0.0.0.0:4002'', ''x'', ''realm'', ''auth'']"

lemma sample_extern: "GetExternIP (bytes_of ''IP : 1.2.3.4\<newline>'') = bytes_of ''1.2.3.4''"
  using GetExternIP_line [of "bytes_of '' :''" "bytes_of ''1.2.3.4''" "[]"] by (simp add: bytes_of_def)


end
