(* ===== verification/Spec2Isabelle.thy ===== *)
theory Spec2Isabelle
  imports Protocols Mem_Slice_Span CJson_Safety Thrift_Framed Tcp_Server Turn_Startup
begin

text \<open>
  Verification of the turn server of the repository majieqin/turnserver_v1.  The program
  runs WebRTC's TURN server and keeps it registered: with load balancers over the LBS
  protocol (src/turnserver/lbs over src/turnserver/network), with a worker manager
  over JSON messages, and with an edge server to which it sends reports
  (src/turnserver/turnserver_main.cc).  All packets are written and read by \<open>Packer\<close> and
  \<open>Unpacker\<close> (src/turnserver/base), and the JSON texts by cJSON and \<open>JsonWrapper\<close>
  (src/turnserver/new_elbs).

  \<^bold>\<open>The wire format.\<close>  \<open>Prelude\<close> has bytes, little-endian words and memory accesses that may fail.
  \<open>Mem_Buf\<close>, \<open>Packer\<close> and \<open>Unpacker\<close> model base/packer.h, base/unpacker.h and memory/mem_buf.h
  operation by operation; a read or write outside the block is \<open>None\<close>.  \<open>Wire_Codec\<close> and
  \<open>Wire_Containers\<close> have the overloaded stream operators as codecs and the locale
  \<open>wire_codec\<close>, the contract between \<open><<\<close> and \<open>>>\<close>, which is interpreted for every overload and
  template.  \<open>Declare_Struct\<close> and \<open>Packet\<close> are the macros of base/declare_struct.h,
  base/packet_helper.h and base/packet.h, \<open>Protocols\<close> the packets of protocol/uni_lbs_protocol.h
  and new_elbs/new_elbs_protocol.h.  Shown: every packet is sent in the documented layout and
  read back unchanged, and the operators that the macros make are orders.

  \<^bold>\<open>Connections.\<close>  \<open>Address_Types\<close> models network/address_types and network_utility.  \<open>Tcp_Connection\<close>
  is \<open>TcpConnection\<close> over a bufferevent of libevent (the record \<open>tcp_env\<close>, the locale
  \<open>bufferevent\<close>): the receive loop delivers every framed packet exactly once however the
  stream is cut, and a connection that its callback closes is deleted after the loop.
  \<open>Tcp_Client\<close> is the reconnecting client as a state machine: no assertion fails in a
  reachable state, its resources are balanced and its back-off is bounded.  \<open>Uni_Lbs\<close> is
  \<open>UniLbsConnection\<close>, \<open>UniLbsClient\<close> and its facade: joining, pinging, reloading of addresses.
  This theory puts both sides of a connection together (\<open>packets_end_to_end\<close>).

  \<^bold>\<open>Memory.\<close>  \<open>Mem_Slice\<close> and \<open>Mem_Slice_Span\<close> model memory/mem_slice and mem_slice_span on an
  explicit heap of counted blocks: programs of slice operations never use a freed block
  and free every block once.

  \<^bold>\<open>JSON.\<close>  \<open>Machine_Double\<close> is IEEE arithmetic on rationals with the conversions and the formats of
  \<open>sprintf\<close> that cJSON uses; \<open>CJson\<close> the parser and the printer with their buffers, \<open>CJson_Objects\<close>
  the operations on trees, \<open>CJson_Roundtrip\<close> and \<open>CJson_Safety\<close> their properties: printing and
  parsing are inverse on trees of integers and strings, parsing ends on every input (the
  fuel of \<open>parse_value\<close> is the length of the text plus one, which is proved to be enough),
  every printed text fits its buffer, and strings with complete escapes are read safely.
  \<open>Json_Wrapper\<close> and \<open>Json_Wrapper_Laws\<close> have \<open>JsonWrapper\<close>, with the locale \<open>json_setter\<close> for its
  setters and getters.  The function \<open>pow\<close> of the C library is a parameter; \<open>pow_spec\<close> says that
  it is exact at exponent 0.

  \<^bold>\<open>The worker.\<close>  \<open>Worker_Socket\<close> is \<open>WorkerTCPSocket\<close> over the WebRTC base class, thread and clock, which
  are the operations of the record \<open>rtc_env\<close>; the locales \<open>async_tcp\<close> and \<open>rtc_thread\<close> state what the
  code relies on, and are interpreted on a world of sockets and queued messages.  \<open>Worker\<close>
  is the class \<open>Worker\<close>; \<open>Worker_Laws\<close> shows that a request of the manager is answered with
  the ports of the server, \<open>Worker_Timers\<close> that its timers stay alive, that it connects
  again, and what its ping reports.

  \<^bold>\<open>Reports.\<close>  \<open>Thrift_Memory\<close>, \<open>Thrift_Transport\<close> and \<open>Thrift_Framed\<close> are the transports of
  src/turnserver/thrift/transport: the memory buffer, refined to a queue of bytes, and the
  buffered and framed transports over any other, with the contracts \<open>byte_source\<close> and \<open>byte_sink\<close>
  (\<open>transport_source\<close> and \<open>transport_sink\<close> for the wrapped transport), interpreted on the memory
  buffer.  The loops that double a size are \<open>partial_function (option)\<close>: they end below 2 GB
  (\<open>grow_ends\<close>, \<open>double_until_ends\<close>) and need not beyond.  \<open>Thrift_Compact\<close> is the compact protocol
  (TCompactProtocol.tcc), \<open>Thrift_Laws\<close> its integers, headers and \<open>skip\<close>.  \<open>Report_Item\<close> gives
  the 22 generated classes of gen-cpp/report_item_types as schemas, from which one reader and one writer follow
  that do what the generated functions do; \<open>Report_Laws\<close> and \<open>Report_Roundtrip\<close> show that reading
  ends, with a fuel larger than the number of bytes (\<open>skip_ends\<close>, \<open>read_ends\<close>), that an object that is read has the
  type of its class, and that a written report is read back.  \<open>Argus_Report\<close> are the three
  reports that turnserver_main.cc sends, with their frame.

  \<^bold>\<open>The program.\<close>  \<open>Elbs\<close> and \<open>Elbs_Laws\<close> are \<open>ElbsConnection\<close>: which edge server it connects to, and how
  often.  \<open>Turn_Main\<close> puts it and \<open>Worker\<close> on the one thread they share: the reachable states
  of the program, in which neither disturbs the other and all timers stay alive.
  \<open>Turn_Startup\<close> is how \<open>main\<close> gets there, with the external address, the log file and
  \<open>UniLbsWorker\<close>, which registers the server.  \<open>Tcp_Server\<close> is network/tcp_server, \<open>Time_Util\<close>
  base/time_util.

  \<^bold>\<open>Not modelled.\<close>  WebRTC, libevent, glog and gflags are not in the repository or are declarations
  only: they are parameters.  The headers of network/ without an implementation and \<open>MemProxy\<close> (not used), logging,
  the timers of libevent and the reading of /proc are left out or arguments of the models.
  Of cJSON the item references and the hooks are left out, of \<open>JsonWrapper\<close> \<open>getNext\<close>, \<open>getPrev\<close> and the two
  functions on files; of Thrift the factories, the dispatch of virtual functions, the file transport
  and the recursion counter, and what a failed read leaves in the variables of its caller;
  of the generated classes \<open>swap\<close>, the copies, the comparison and the printing.  Of \<open>main\<close> the TURN server
  itself, and the threads of the event loop and of the load output, which share \<open>SystemInfo\<close> with the visitor
  without a lock; the interleaving of threads is not modelled anywhere.
\<close>

section \<open>From one connection to the other\<close>

text \<open>A callback that reads the packets of one type and keeps them, in order.\<close>

definition typed_receiver :: "'a codec \<Rightarrow> 'a list conn_callback" where
  "typed_receiver c =
     \<lparr>OnError = (\<lambda>_ s. Some (s, [])),
      OnPacketReceived = (\<lambda>p _ _ s. do { (x, _) \<leftarrow> pop c (dflt c) p; Some (s @ [x], []) })\<rparr>"

lemma typed_deliveries:
  assumes "wire_codec c enc valid" and "list_all (\<lambda>x. valid x \<and> packet_ok (enc x)) xs"
  shows "deliveries (typed_receiver c) (map enc xs) s = Some (s @ xs, [])"
  using assms(2)
proof (induction xs arbitrary: s)
  case Nil
  then show ?case by simp
next
  case (Cons x xs)
  then have "Unpacker.at (frame_unpacker (enc x)) (enc x @ [])" using frame_unpacker_start(2) [of "enc x"] by simp
  from wire_codec.pop_at [OF assms(1) _ this] Cons.prems
  have "pop c (dflt c) (frame_unpacker (enc x)) = Some (x, skip (length (enc x)) (frame_unpacker (enc x)))" by simp
  with Cons show ?case by (simp add: typed_receiver_def)
qed

lemma send_quiet:
  assumes "wire_codec c enc valid" and "valid x" and "packet_ok (enc x)"
  shows "quiet_act (ActSendPacket (Packet_Pack c x))" and "act_bytes (ActSendPacket (Packet_Pack c x)) = frame (enc x)"
proof -
  have "fits (length (enc x))" using assms(3) by (simp add: packet_ok_def)
  from wire_codec.push_pack [OF assms(1,2) this, of kDefaultSize] obtain p q where
    "push c x (Packer_new kDefaultSize) = Some p" "Pack p = Some q" "Packer_Data q = Some (frame (enc x))" by metis
  then show "quiet_act (ActSendPacket (Packet_Pack c x))" "act_bytes (ActSendPacket (Packet_Pack c x)) = frame (enc x)"
    by (simp_all add: Packet_Pack_def)
qed

text \<open>C1. End to end: whatever packets of a type one side sends with \<open>SendPacket\<close>, and however the network cuts the
  bytes it wrote into chunks, the callback of the connection on the other side reads exactly these packets in
  this order, and no byte is left over.\<close>

theorem packets_end_to_end:
  assumes "bufferevent env input sent_bytes arrive" and "wire_codec c enc valid"
    and "list_all (\<lambda>x. valid x \<and> packet_ok (enc x)) xs"
    and "bev sender = Some b0" and "\<not> destroyed sender" and "sent_bytes b0 = []"
    and "bev receiver = Some b1" and "input b1 = []" and "callback receiver" and "\<not> destroyed receiver"
    and "\<not> is_in_processing receiver"
  shows "\<exists>b2. perform_all env (map (\<lambda>x. ActSendPacket (Packet_Pack c x)) xs) sender = Some (sender\<lparr>bev := Some b2\<rparr>) \<and>
    (\<forall>chunks. concat chunks = sent_bytes b2 \<longrightarrow>
      (\<exists>b3. feed env (typed_receiver c) arrive chunks receiver [] = Some (receiver\<lparr>bev := Some b3\<rparr>, xs) \<and> input b3 = []))"
proof -
  let ?acts = "map (\<lambda>x. ActSendPacket (Packet_Pack c x)) xs"
  have quiet: "list_all quiet_act ?acts" and bytes: "map act_bytes ?acts = map frame (map enc xs)"
    using assms(3) send_quiet [OF assms(2)] by (auto simp: list_all_iff)
  from bufferevent.perform_all_quiet [OF assms(1) quiet assms(4,5)] obtain b2 where
    b2: "perform_all env ?acts sender = Some (sender\<lparr>bev := Some b2\<rparr>)" "sent_bytes b2 = concat (map frame (map enc xs))"
    using assms(6) unfolding bytes by auto
  have ok: "list_all packet_ok (map enc xs)" using assms(3) by (auto simp: list_all_iff)
  have "\<exists>b3. feed env (typed_receiver c) arrive chunks receiver [] = Some (receiver\<lparr>bev := Some b3\<rparr>, xs) \<and> input b3 = []"
    if "concat chunks = sent_bytes b2" for chunks
    using feed_all [OF assms(1) _ ok assms(7-11) typed_deliveries [OF assms(2,3)], of chunks "[]"] that b2(2) by auto
  with b2(1) show ?thesis by blast
qed

theorem packets_end_to_end_witness:
  "\<exists>b2. perform_all queue_env (map (\<lambda>x. ActSendPacket (Packet_Pack LbsPing x)) [((17, kLbsPingUri), 7, [(1, 20)]), ((17, kLbsPingUri), 8, [])])
       (open_conn ([], [])) = Some (open_conn ([], [])\<lparr>bev := Some b2\<rparr>) \<and>
     (\<forall>chunks. concat chunks = snd b2 \<longrightarrow>
       (\<exists>b3. feed queue_env (typed_receiver LbsPing) queue_arrive chunks (open_conn ([], [])) [] =
          Some (open_conn ([], [])\<lparr>bev := Some b3\<rparr>, [((17, kLbsPingUri), 7, [(1, 20)]), ((17, kLbsPingUri), 8, [])]) \<and> fst b3 = []))"
  by (rule packets_end_to_end [OF queue.bufferevent_axioms LbsPing.wire_codec_axioms, where ?b0.0 = "([], [])" and ?b1.0 = "([], [])"])
    (simp_all add: packet_ok_def length_wire_simps)

end
